(* ===== verification/Prelude.thy ===== *)
theory Prelude
  imports Main "HOL-Library.Char_ord" "HOL-Library.List_Lexorder"
begin

text \<open>
  Shared vocabulary of the development: the named collections the component theories fill,
  the generic facts about lists, order-by and option results that several components use, and
  the interface of an invariant of a step relation.

  Go functions that return \<open>(T, error)\<close> are HOL functions into a sum \<open>gerror + 'a\<close> whose left
  injection is the error (theory GoLib); functions that change state return the new state
  next to that result.  Text is a byte string (\<open>string\<close>), so the order on text columns
  is the byte-wise lexicographic one of the library theories \<open>List_Lexorder\<close> and
  \<open>Char_ord\<close>.
\<close>

section \<open>Collections\<close>

named_theorems go_defs \<open>unfolding rules of small Go helpers\<close>
named_theorems store_ops \<open>unfolding rules of the operations of the local job store\<close>
named_theorems wf_intros \<open>operations that keep the well-formedness of a component's state\<close>
named_theorems frame_simps \<open>what an operation leaves unchanged\<close>

section \<open>Lists\<close>

lemma map_if_other [simp]:
  "(\<And>x. g (f x) = g x) \<Longrightarrow> map g (map (\<lambda>x. if P x then f x else x) xs) = map g xs"
  by (induction xs) auto

lemma map_comp_if_other [simp]:
  "(\<And>x. g (f x) = g x) \<Longrightarrow> map (g \<circ> (\<lambda>x. if P x then f x else x)) xs = map g xs"
  by (induction xs) auto

lemma image_split_other [simp]:
  "(\<And>x. g (f x) = g x) \<Longrightarrow> g ` (f ` (A \<inter> Collect p) \<union> A \<inter> {x. \<not> p x}) = g ` A"
proof -
  assume "\<And>x. g (f x) = g x"
  then have "g ` (f ` (A \<inter> Collect p) \<union> A \<inter> {x. \<not> p x}) = g ` (A \<inter> Collect p) \<union> g ` (A \<inter> {x. \<not> p x})"
    by (simp add: image_Un image_image)
  then show ?thesis by blast
qed

lemma find_map_if:
  "(\<And>x. p (f x) = p x) \<Longrightarrow>
   find p (map (\<lambda>x. if q x then f x else x) xs) = map_option (\<lambda>x. if q x then f x else x) (find p xs)"
  by (induction xs) auto

lemma find_unique:
  assumes "distinct (map key xs)" and "x \<in> set xs"
  shows "find (\<lambda>y. key y = key x) xs = Some x"
  using assms by (induction xs) (auto simp: image_iff)

lemma find_key_None: "find (\<lambda>y. key y = k) xs = None \<longleftrightarrow> k \<notin> key ` set xs"
  by (induction xs) auto

lemma find_Some_set: "find p xs = Some x \<Longrightarrow> x \<in> set xs \<and> p x"
  by (induction xs) (auto split: if_splits)

lemma distinct_key_eq:
  "distinct (map key xs) \<Longrightarrow> x \<in> set xs \<Longrightarrow> y \<in> set xs \<Longrightarrow> key x = key y \<Longrightarrow> x = y"
  by (induction xs) (auto simp: image_iff)

section \<open>ORDER BY\<close>

text \<open>A sort by a comparison, as an ORDER BY clause asks for it.\<close>

fun insert_by :: "('a \<Rightarrow> 'a \<Rightarrow> bool) \<Rightarrow> 'a \<Rightarrow> 'a list \<Rightarrow> 'a list" where
  "insert_by le x [] = [x]"
| "insert_by le x (y # ys) = (if le x y then x # y # ys else y # insert_by le x ys)"

definition order_by :: "('a \<Rightarrow> 'a \<Rightarrow> bool) \<Rightarrow> 'a list \<Rightarrow> 'a list" where
  "order_by le xs = foldr (insert_by le) xs []"

lemma set_insert_by [simp]: "set (insert_by le x xs) = insert x (set xs)"
  by (induction xs) auto

lemma length_insert_by [simp]: "length (insert_by le x xs) = Suc (length xs)"
  by (induction xs) auto

lemma set_order_by [simp]: "set (order_by le xs) = set xs"
  by (induction xs) (auto simp: order_by_def)

lemma length_order_by [simp]: "length (order_by le xs) = length xs"
  by (induction xs) (auto simp: order_by_def)

lemma distinct_insert_by [simp]: "distinct (insert_by le x xs) \<longleftrightarrow> x \<notin> set xs \<and> distinct xs"
  by (induction xs) auto

lemma distinct_order_by [simp]: "distinct (order_by le xs) = distinct xs"
proof (induction xs)
  case Nil
  show ?case by (simp add: order_by_def)
next
  case (Cons x xs)
  have "order_by le (x # xs) = insert_by le x (order_by le xs)"
    by (simp add: order_by_def)
  with Cons show ?case by simp
qed

lemma sorted_insert_by:
  assumes total: "\<And>a b. \<not> le a b \<Longrightarrow> le b a"
    and trans: "\<And>a b c. le a b \<Longrightarrow> le b c \<Longrightarrow> le a c"
  shows "sorted_wrt le xs \<Longrightarrow> sorted_wrt le (insert_by le x xs)"
  by (induction xs) (auto intro: total dest: trans)

lemma sorted_order_by:
  assumes "\<And>a b. \<not> le a b \<Longrightarrow> le b a" and "\<And>a b c. le a b \<Longrightarrow> le b c \<Longrightarrow> le a c"
  shows "sorted_wrt le (order_by le xs)"
proof (induction xs)
  case Nil
  show ?case by (simp add: order_by_def)
next
  case (Cons x xs)
  have "order_by le (x # xs) = insert_by le x (order_by le xs)"
    by (simp add: order_by_def)
  with Cons show ?case using sorted_insert_by [OF assms] by simp
qed

section \<open>Invariants of step relations\<close>

text \<open>
  The interface every concurrent component offers: a step relation and a predicate that each
  step keeps.  What a client gets is that the predicate holds in every state a run reaches.
\<close>

locale step_invariant =
  fixes step :: "'s \<Rightarrow> 's \<Rightarrow> bool" and inv :: "'s \<Rightarrow> bool"
  assumes step_keeps: "step s t \<Longrightarrow> inv s \<Longrightarrow> inv t"
begin

lemma run_keeps: "step\<^sup>*\<^sup>* s t \<Longrightarrow> inv s \<Longrightarrow> inv t"
  by (induction rule: rtranclp_induct) (auto intro: step_keeps)

end

text \<open>A relation on states that every step respects, for history properties such as append-only logs.\<close>

locale step_monotone =
  fixes step :: "'s \<Rightarrow> 's \<Rightarrow> bool" and before :: "'s \<Rightarrow> 's \<Rightarrow> bool"
  assumes before_refl: "before s s"
    and before_trans: "before s t \<Longrightarrow> before t u \<Longrightarrow> before s u"
    and step_before: "step s t \<Longrightarrow> before s t"
begin

lemma run_before: "step\<^sup>*\<^sup>* s t \<Longrightarrow> before s t"
  by (induction rule: rtranclp_induct) (auto intro: before_refl before_trans step_before)

end

end
