(* ===== verification/GoLib.thy ===== *)
theory GoLib
  imports Prelude "HOL-Library.Sublist"
begin

text \<open>
  What the program uses of Go and its standard library: error values with wrapping
  (\<open>errors.New\<close>, \<open>fmt.Errorf\<close> with \<open>%w\<close>, \<open>errors.Is\<close>), instants and durations of
  package \<open>time\<close>, and the byte-string functions of package \<open>strings\<close>.
\<close>

section \<open>Errors\<close>

text \<open>The package-level sentinels of the program, and those of the packages it compares with.\<close>

datatype sentinel =
    ErrNotFound               \<comment> \<open>jobqueue: job not found\<close>
  | ErrJobTerminal            \<comment> \<open>jobqueue: job already terminal\<close>
  | ErrNoRows                 \<comment> \<open>database/sql\<close>
  | ErrResourceUnavailable    \<comment> \<open>resources\<close>
  | ErrNoWork                 \<comment> \<open>sync: 204 from the claim endpoint\<close>
  | SyncErrUnauthorized       \<comment> \<open>sync.ErrUnauthorized\<close>
  | AuthErrUnauthorized       \<comment> \<open>auth.ErrUnauthorized, a different value\<close>
  | ErrCloudUnreachable       \<comment> \<open>auth\<close>
  | ErrNoSession              \<comment> \<open>auth\<close>
  | ToolsErrNotFound          \<comment> \<open>tools\<close>
  | ErrUnknownTool            \<comment> \<open>tools\<close>

definition dash :: string where
  "dash = [CHR 0xE2, CHR 0x80, CHR 0x94]"

fun sentinel_text :: "sentinel \<Rightarrow> string" where
  "sentinel_text ErrNotFound = ''job not found''"
| "sentinel_text ErrJobTerminal = ''job already terminal''"
| "sentinel_text ErrNoRows = ''sql: no rows in result set''"
| "sentinel_text ErrResourceUnavailable = ''resource limit reached''"
| "sentinel_text ErrNoWork = ''no workload available''"
| "sentinel_text SyncErrUnauthorized = ''unauthorized '' @ dash @ '' refresh required''"
| "sentinel_text AuthErrUnauthorized = ''auth: cloud rejected credentials (401)''"
| "sentinel_text ErrCloudUnreachable = ''auth: cloud unreachable''"
| "sentinel_text ErrNoSession = ''no stored session '' @ dash @ '' pairing required''"
| "sentinel_text ToolsErrNotFound = ''tool not found''"
| "sentinel_text ErrUnknownTool = ''unknown tool id''"

text \<open>\<open>Wrap m e\<close> is what \<open>fmt.Errorf\<close> builds with one \<open>%w\<close>: the text \<open>m\<close>, unwrapping to \<open>e\<close>.\<close>

datatype gerror = Sentinel sentinel | Plain string | Wrap string gerror

fun err_text :: "gerror \<Rightarrow> string" where
  "err_text (Sentinel x) = sentinel_text x"
| "err_text (Plain m) = m"
| "err_text (Wrap m e) = m"

fun errors_is :: "gerror \<Rightarrow> sentinel \<Rightarrow> bool" where
  "errors_is (Sentinel x) y = (x = y)"
| "errors_is (Plain m) y = False"
| "errors_is (Wrap m e) y = errors_is e y"

text \<open>\<open>fmt.Errorf(pre + ": %w", e)\<close>.\<close>

definition errorf :: "string \<Rightarrow> gerror \<Rightarrow> gerror" where
  "errorf pre e = Wrap (pre @ '': '' @ err_text e) e"

lemma errors_is_errorf [simp]: "errors_is (errorf pre e) y = errors_is e y"
  by (simp add: errorf_def)

lemma err_text_errorf [simp]: "err_text (errorf pre e) = pre @ '': '' @ err_text e"
  by (simp add: errorf_def)

text \<open>Two different sentinels are never both in one chain: a chain ends in one root.\<close>

lemma errors_is_unique: "errors_is e x \<Longrightarrow> errors_is e y \<Longrightarrow> x = y"
  by (induction e) auto

section \<open>Time\<close>

text \<open>
  An instant (\<open>time.Time\<close>) is a number of nanoseconds since January 1 of year 1, so that
  \<open>IsZero\<close> is the instant 0.  A duration is an \<open>int64\<close> of nanoseconds.
\<close>

datatype gotime = GoTime (nanos: int)

instantiation gotime :: linorder
begin

definition less_eq_gotime :: "gotime \<Rightarrow> gotime \<Rightarrow> bool" where
  "less_eq_gotime a b \<longleftrightarrow> nanos a \<le> nanos b"

definition less_gotime :: "gotime \<Rightarrow> gotime \<Rightarrow> bool" where
  "less_gotime a b \<longleftrightarrow> nanos a < nanos b"

instance
  by standard (auto simp: less_eq_gotime_def less_gotime_def gotime.expand)

end

definition zero_time :: gotime where
  "zero_time = GoTime 0"

definition second :: int where
  "second = 1000000000"

definition minute :: int where
  "minute = 60 * second"

text \<open>\<open>time.Until(t)\<close> read at the instant \<open>now\<close>: the difference, saturated to \<open>int64\<close>.\<close>

definition time_until :: "gotime \<Rightarrow> gotime \<Rightarrow> int" where
  "time_until now t = max (- (2 ^ 63)) (min (2 ^ 63 - 1) (nanos t - nanos now))"

lemma time_until_gt_iff:
  "- (2 ^ 63) \<le> d \<Longrightarrow> d < 2 ^ 63 - 1 \<Longrightarrow> time_until now t > d \<longleftrightarrow> nanos t - nanos now > d"
  by (auto simp: time_until_def)

section \<open>Strings\<close>

definition HasPrefix :: "string \<Rightarrow> string \<Rightarrow> bool" where
  "HasPrefix s p \<longleftrightarrow> take (length p) s = p"

definition TrimPrefix :: "string \<Rightarrow> string \<Rightarrow> string" where
  "TrimPrefix s p = (if HasPrefix s p then drop (length p) s else s)"

text \<open>\<open>strings.TrimRight(s, "/")\<close>.\<close>

definition TrimRightSlash :: "string \<Rightarrow> string" where
  "TrimRightSlash s = rev (dropWhile (\<lambda>c. c = CHR ''/'') (rev s))"

text \<open>
  \<open>strings.TrimSpace\<close> removes the runes of \<open>unicode.IsSpace\<close> at both ends.  Their UTF-8
  encodings are the list below; a rune is removed at the front when the text starts with its
  encoding, and at the back when it ends with it.
\<close>

definition space_encodings :: "string list" where
  "space_encodings =
     [[CHR 0x20], [CHR 0x09], [CHR 0x0A], [CHR 0x0B], [CHR 0x0C], [CHR 0x0D],
      [CHR 0xC2, CHR 0x85], [CHR 0xC2, CHR 0xA0], [CHR 0xE1, CHR 0x9A, CHR 0x80],
      [CHR 0xE2, CHR 0x80, CHR 0x80], [CHR 0xE2, CHR 0x80, CHR 0x81],
      [CHR 0xE2, CHR 0x80, CHR 0x82], [CHR 0xE2, CHR 0x80, CHR 0x83],
      [CHR 0xE2, CHR 0x80, CHR 0x84], [CHR 0xE2, CHR 0x80, CHR 0x85],
      [CHR 0xE2, CHR 0x80, CHR 0x86], [CHR 0xE2, CHR 0x80, CHR 0x87],
      [CHR 0xE2, CHR 0x80, CHR 0x88], [CHR 0xE2, CHR 0x80, CHR 0x89],
      [CHR 0xE2, CHR 0x80, CHR 0x8A], [CHR 0xE2, CHR 0x80, CHR 0xA8],
      [CHR 0xE2, CHR 0x80, CHR 0xA9], [CHR 0xE2, CHR 0x80, CHR 0xAF],
      [CHR 0xE2, CHR 0x81, CHR 0x9F], [CHR 0xE3, CHR 0x80, CHR 0x80]]"

function trim_front :: "string list \<Rightarrow> string \<Rightarrow> string" where
  "trim_front encs s =
     (case find (\<lambda>e. e \<noteq> [] \<and> s \<noteq> [] \<and> HasPrefix s e) encs of
        None \<Rightarrow> s
      | Some e \<Rightarrow> trim_front encs (drop (length e) s))"
  by pat_completeness auto
termination
  by (relation "measure (\<lambda>(encs, s). length s)") (auto dest!: find_Some_set)

declare trim_front.simps [simp del]

definition TrimSpace :: "string \<Rightarrow> string" where
  "TrimSpace s =
     rev (trim_front (map rev space_encodings) (rev (trim_front space_encodings s)))"

text \<open>\<open>strings.SplitN(s, "/", 2)\<close>.\<close>

fun cut_at :: "char \<Rightarrow> string \<Rightarrow> (string \<times> string) option" where
  "cut_at c [] = None"
| "cut_at c (x # xs) =
     (if x = c then Some ([], xs)
      else (case cut_at c xs of None \<Rightarrow> None | Some (a, b) \<Rightarrow> Some (x # a, b)))"

definition SplitN2 :: "char \<Rightarrow> string \<Rightarrow> string list" where
  "SplitN2 c s = (case cut_at c s of None \<Rightarrow> [s] | Some (a, b) \<Rightarrow> [a, b])"

lemma cut_at_Some: "cut_at c s = Some (a, b) \<Longrightarrow> s = a @ c # b \<and> c \<notin> set a"
  by (induction s arbitrary: a) (auto split: if_splits option.splits)

lemma cut_at_None: "cut_at c s = None \<longleftrightarrow> c \<notin> set s"
  by (induction s) (auto split: option.splits)

lemma cut_at_append: "c \<notin> set a \<Longrightarrow> cut_at c (a @ c # b) = Some (a, b)"
  by (induction a) auto

lemma HasPrefix_append [simp]: "HasPrefix (p @ s) p"
  by (simp add: HasPrefix_def)

lemma HasPrefix_iff: "HasPrefix s p \<longleftrightarrow> (\<exists>r. s = p @ r)"
  by (metis HasPrefix_append HasPrefix_def append_take_drop_id)

lemma TrimPrefix_append [simp]: "TrimPrefix (p @ s) p = s"
  by (simp add: TrimPrefix_def)

lemma trim_front_length: "length (trim_front encs s) \<le> length s"
proof (induction encs s rule: trim_front.induct)
  case (1 encs s)
  show ?case
  proof (cases "find (\<lambda>e. e \<noteq> [] \<and> s \<noteq> [] \<and> HasPrefix s e) encs")
    case None
    then show ?thesis by (subst trim_front.simps) simp
  next
    case (Some e)
    with 1 have "length (trim_front encs (drop (length e) s)) \<le> length (drop (length e) s)"
      by blast
    moreover have "trim_front encs s = trim_front encs (drop (length e) s)"
      by (subst trim_front.simps) (simp add: Some)
    ultimately show ?thesis by simp
  qed
qed

text \<open>\<open>strconv.Itoa\<close> and the \<open>%d\<close> verb.\<close>

fun digits_of :: "nat \<Rightarrow> string" where
  "digits_of n =
     (if n < 10 then [char_of (48 + n)] else digits_of (n div 10) @ [char_of (48 + n mod 10)])"

declare digits_of.simps [simp del]

definition itoa :: "int \<Rightarrow> string" where
  "itoa n = (if n < 0 then ''-'' @ digits_of (nat (- n)) else digits_of (nat n))"

definition newline :: string where
  "newline = [CHR 0x0A]"

text \<open>\<open>time.Duration.String\<close>: the digits of a fraction lose their trailing zeros.\<close>

definition pad_digits :: "nat \<Rightarrow> nat \<Rightarrow> string" where
  "pad_digits k n = (let ds = digits_of n in replicate (k - length ds) (CHR ''0'') @ ds)"

definition frac_digits :: "nat \<Rightarrow> nat \<Rightarrow> string" where
  "frac_digits k n =
     (let ds = rev (dropWhile (\<lambda>c. c = CHR ''0'') (rev (pad_digits k n)))
      in if n = 0 then [] else ''.'' @ ds)"

definition duration_abs_text :: "nat \<Rightarrow> string" where
  "duration_abs_text u =
     (if u = 0 then ''0s''
      else if u < 1000 then digits_of u @ ''ns''
      else if u < 1000000 then digits_of (u div 1000) @ frac_digits 3 (u mod 1000) @ [CHR 0xC2, CHR 0xB5] @ ''s''
      else if u < 1000000000 then digits_of (u div 1000000) @ frac_digits 6 (u mod 1000000) @ ''ms''
      else
        (let sec = u div 1000000000; h = sec div 3600; m = sec div 60 mod 60
         in (if h > 0 then digits_of h @ ''h'' @ digits_of m @ ''m''
             else if m > 0 then digits_of m @ ''m'' else []) @
            digits_of (sec mod 60) @ frac_digits 9 (u mod 1000000000) @ ''s''))"

definition duration_text :: "int \<Rightarrow> string" where
  "duration_text d = (if d < 0 then ''-'' else []) @ duration_abs_text (nat \<bar>d\<bar>)"

section \<open>Paths\<close>

text \<open>
  \<open>filepath.Join\<close> on Unix: the non-empty elements with slashes between, cleaned.  \<open>Clean\<close> drops
  empty and \<open>.\<close> elements and lets \<open>..\<close> remove the element before it, except at a root.
\<close>

function split_slash :: "string \<Rightarrow> string list" where
  "split_slash s =
     (case cut_at (CHR ''/'') s of None \<Rightarrow> [s] | Some (a, b) \<Rightarrow> a # split_slash b)"
  by pat_completeness auto
termination
  by (relation "measure length") (auto dest: cut_at_Some)

declare split_slash.simps [simp del]

definition clean_step :: "bool \<Rightarrow> string list \<Rightarrow> string \<Rightarrow> string list" where
  "clean_step rooted out p =
     (if p = [] \<or> p = ''.'' then out
      else if p = ''..'' then
        (if out \<noteq> [] \<and> last out \<noteq> ''..'' then butlast out
         else if rooted then out else out @ [p])
      else out @ [p])"

fun join_slash :: "string list \<Rightarrow> string" where
  "join_slash [] = []"
| "join_slash [p] = p"
| "join_slash (p # q # ps) = p @ ''/'' @ join_slash (q # ps)"

definition path_clean :: "string \<Rightarrow> string" where
  "path_clean s =
     (if s = [] then ''.''
      else
        (let rooted = (hd s = CHR ''/''); out = foldl (clean_step rooted) [] (split_slash s)
         in if rooted then ''/'' @ join_slash out
            else if out = [] then ''.'' else join_slash out))"

definition path_join :: "string list \<Rightarrow> string" where
  "path_join ps =
     (let qs = filter (\<lambda>p. p \<noteq> []) ps in if qs = [] then [] else path_clean (join_slash qs))"

end
