(* ===== verification/LogHub.thy ===== *)
theory LogHub
  imports GoLib "HOL-Library.Sublist"
begin

text \<open>
  The log fan-out of \<open>internal/observability/sse.go\<close>: the ring buffer that is replayed to new
  SSE subscribers, the per-subscriber channels with drop-oldest back-pressure, and the slog
  handler in front of them.

  First the data structures and their operations one at a time, with both buffers shown to
  offer one contract (a log that keeps the newest entries); then the goroutines that
  publish, subscribe and cancel, with a step for every access that can interleave.
\<close>

section \<open>Buffers that keep the newest entries\<close>

definition lastn :: "nat \<Rightarrow> 'a list \<Rightarrow> 'a list" where
  "lastn n xs = drop (length xs - n) xs"

lemma lastn_short [simp]: "length xs \<le> n \<Longrightarrow> lastn n xs = xs"
  by (simp add: lastn_def)

lemma length_lastn [simp]: "length (lastn n xs) = min n (length xs)"
  by (simp add: lastn_def)

lemma lastn_drop_front: "n \<le> length ys \<Longrightarrow> lastn n (xs @ ys) = lastn n ys"
  by (simp add: lastn_def)

lemma lastn_append_lastn:
  assumes "n \<le> m"
  shows "lastn n (lastn m xs @ ys) = lastn n (xs @ ys)"
proof (cases "length xs \<le> m")
  case True
  then show ?thesis by simp
next
  case False
  then have "n \<le> length (lastn m xs @ ys)" using assms by simp
  then have "lastn n (take (length xs - m) xs @ (lastn m xs @ ys)) = lastn n (lastn m xs @ ys)"
    by (rule lastn_drop_front)
  moreover have "take (length xs - m) xs @ (lastn m xs @ ys) = xs @ ys"
    unfolding lastn_def by (metis append.assoc append_take_drop_id)
  ultimately show ?thesis by simp
qed

lemma lastn_snoc_full: "length xs = n \<Longrightarrow> 0 < n \<Longrightarrow> lastn n (xs @ [x]) = tl xs @ [x]"
  by (simp add: lastn_def drop_Suc)

text \<open>The contract: pushing appends, then drops what exceeds the capacity at the front.\<close>

locale newest_log =
  fixes push :: "'b \<Rightarrow> 'e \<Rightarrow> 'b" and contents :: "'b \<Rightarrow> 'e list" and cap :: nat
    and inv :: "'b \<Rightarrow> bool"
  assumes push_contents: "inv b \<Longrightarrow> contents (push b e) = lastn cap (contents b @ [e])"
    and push_inv: "inv b \<Longrightarrow> inv (push b e)"
begin

lemma fold_inv: "inv b \<Longrightarrow> inv (foldl push b es)"
  by (induction es arbitrary: b) (auto intro: push_inv)

lemma fold_contents: "inv b \<Longrightarrow> es \<noteq> [] \<Longrightarrow> contents (foldl push b es) = lastn cap (contents b @ es)"
proof (induction es arbitrary: b)
  case Nil
  then show ?case by simp
next
  case (Cons e es)
  show ?case
  proof (cases "es = []")
    case True
    with Cons.prems show ?thesis by (simp add: push_contents)
  next
    case False
    with Cons have "contents (foldl push (push b e) es) = lastn cap (lastn cap (contents b @ [e]) @ es)"
      by (simp add: push_inv push_contents)
    then show ?thesis by (simp add: lastn_append_lastn)
  qed
qed

end

section \<open>The ring\<close>

definition ringSize :: nat where "ringSize = 256"

definition subBuf :: nat where "subBuf = 64"

lemma buffer_sizes: "0 < ringSize" "0 < subBuf" "subBuf \<le> ringSize"
  by (simp_all add: ringSize_def subBuf_def)

record 'e ring =
  ring :: "'e list"
  head :: nat
  full :: bool

definition newRing :: "'e ring" where
  "newRing = \<lparr>ring = [], head = 0, full = False\<rparr>"

text \<open>The locked part of \<open>publish\<close>.\<close>

definition ring_push :: "'e ring \<Rightarrow> 'e \<Rightarrow> 'e ring" where
  "ring_push h ev =
     (if \<not> full h then
        (let h' = h\<lparr>ring := ring h @ [ev]\<rparr> in
         if length (ring h') = ringSize then h'\<lparr>full := True, head := 0\<rparr> else h')
      else h\<lparr>ring := (ring h)[head h := ev], head := (head h + 1) mod ringSize\<rparr>)"

definition snapshotLocked :: "'e ring \<Rightarrow> 'e list" where
  "snapshotLocked h =
     (if \<not> full h then ring h else drop (head h) (ring h) @ take (head h) (ring h))"

definition ring_inv :: "'e ring \<Rightarrow> bool" where
  "ring_inv h \<longleftrightarrow>
     (if full h then length (ring h) = ringSize \<and> head h < ringSize else length (ring h) < ringSize)"

lemma ring_push_inv: "ring_inv h \<Longrightarrow> ring_inv (ring_push h ev)"
  using buffer_sizes by (auto simp: ring_inv_def ring_push_def Let_def)

lemma ring_push_snapshot:
  assumes "ring_inv h"
  shows "snapshotLocked (ring_push h ev) = lastn ringSize (snapshotLocked h @ [ev])"
proof (cases "full h")
  case False
  with assms show ?thesis
    by (auto simp: ring_inv_def ring_push_def snapshotLocked_def Let_def)
next
  case True
  with assms have len: "length (ring h) = ringSize" and hd: "head h < ringSize"
    by (auto simp: ring_inv_def)
  have snap: "lastn ringSize (snapshotLocked h @ [ev]) = tl (snapshotLocked h) @ [ev]"
    using True len buffer_sizes by (intro lastn_snoc_full) (auto simp: snapshotLocked_def)
  have "drop (head h) (ring h) = ring h ! head h # drop (Suc (head h)) (ring h)"
    using len hd by (simp add: Cons_nth_drop_Suc)
  then have tl: "tl (snapshotLocked h) = drop (Suc (head h)) (ring h) @ take (head h) (ring h)"
    using True by (simp add: snapshotLocked_def)
  show ?thesis
  proof (cases "Suc (head h) = ringSize")
    case wrap: True
    then have "(head h + 1) mod ringSize = 0" by simp
    with True snap tl len wrap show ?thesis
      by (simp add: ring_push_def snapshotLocked_def upd_conv_take_nth_drop)
  next
    case False
    with hd have "(head h + 1) mod ringSize = Suc (head h)" by simp
    with True snap tl len hd show ?thesis
      by (simp add: ring_push_def snapshotLocked_def upd_conv_take_nth_drop min_def)
  qed
qed

interpretation ring_log: newest_log ring_push snapshotLocked ringSize ring_inv
  by unfold_locales (auto simp: ring_push_snapshot ring_push_inv)

section \<open>A subscriber's channel\<close>

text \<open>
  A buffered channel is the list of its values, oldest first.  \<open>send_drop_oldest\<close> is the nested
  \<open>select\<close> of \<open>publish\<close> and of the replay loop run without interruption.
\<close>

definition try_send :: "'e list \<Rightarrow> 'e \<Rightarrow> 'e list option" where
  "try_send q ev = (if length q < subBuf then Some (q @ [ev]) else None)"

definition send_drop_oldest :: "'e list \<Rightarrow> 'e \<Rightarrow> 'e list" where
  "send_drop_oldest q ev =
     (case try_send q ev of
        Some q' \<Rightarrow> q'
      | None \<Rightarrow>
          (let q' = (case q of [] \<Rightarrow> [] | _ # r \<Rightarrow> r) in
           case try_send q' ev of Some q'' \<Rightarrow> q'' | None \<Rightarrow> q'))"

interpretation channel_log: newest_log send_drop_oldest "\<lambda>q. q" subBuf "\<lambda>q. length q \<le> subBuf"
  using buffer_sizes
  by unfold_locales
    (auto simp: send_drop_oldest_def try_send_def Let_def lastn_snoc_full split: list.split)

text \<open>\<open>Subscribe\<close> without interference: the replay goes through the channel's drop-oldest sends.\<close>

definition replay_channel :: "'e ring \<Rightarrow> 'e list" where
  "replay_channel h = foldl send_drop_oldest [] (snapshotLocked h)"

definition publish_ring :: "'e ring \<Rightarrow> 'e list \<Rightarrow> 'e ring" where
  "publish_ring = foldl ring_push"

lemma newRing_inv [simp]: "ring_inv newRing"
  using buffer_sizes by (simp add: ring_inv_def newRing_def)

lemma snapshot_of_history: "snapshotLocked (publish_ring newRing es) = lastn ringSize es"
proof (cases "es = []")
  case True
  then show ?thesis by (simp add: publish_ring_def newRing_def snapshotLocked_def lastn_def)
next
  case False
  have "snapshotLocked (newRing :: 'a ring) = []" by (simp add: newRing_def snapshotLocked_def)
  with ring_log.fold_contents [OF newRing_inv False] show ?thesis
    by (simp add: publish_ring_def)
qed

lemma channel_fold: "length q \<le> subBuf \<Longrightarrow> foldl send_drop_oldest q es = lastn subBuf (q @ es)"
  by (cases "es = []") (simp_all add: channel_log.fold_contents)

text \<open>
  The sends run one after the other: a replay of the history followed by live events that nobody
  reads leaves the newest of them all in the channel.
\<close>

lemma unread_channel_newest:
  "foldl send_drop_oldest (replay_channel (publish_ring newRing history)) live =
     lastn subBuf (history @ live)"
proof -
  have "replay_channel (publish_ring newRing history) = lastn subBuf history"
    using buffer_sizes lastn_append_lastn [of subBuf ringSize history "[]"]
    by (simp add: replay_channel_def channel_fold snapshot_of_history)
  then show ?thesis by (simp add: channel_fold lastn_append_lastn)
qed

section \<open>The goroutines of the hub\<close>

text \<open>
  A delivery to one channel is a check of the \<open>closed\<close> flag (publishers only), a non-blocking
  send, and when the channel was full a non-blocking receive and a second send.  A send on a
  closed channel panics, inside a \<open>select\<close> with a default branch too (Go specification, Send
  statements).
\<close>

datatype stage = Check | TrySend | Drop | Retry

datatype 'e pub_pc = PIdle | PDeliver 'e "nat list" stage

datatype 'e sub_pc = SNone | SReplay "'e list" stage | SLive

datatype cancel_pc = COpen | CDeleted | CFlagged | CClosed

text \<open>\<open>hist\<close> records the published events in the order in which they took the hub's lock.\<close>

record 'e hub_sys =
  hring :: "'e ring"
  hsubs :: "nat list"
  pubs :: "nat \<Rightarrow> 'e pub_pc"
  subscribers :: "nat \<Rightarrow> 'e sub_pc"
  cancels :: "nat \<Rightarrow> cancel_pc"
  chan :: "nat \<Rightarrow> 'e list"
  got :: "nat \<Rightarrow> 'e list"
  hist :: "'e list"
  panicked :: bool

definition newHub :: "'e hub_sys" where
  "newHub = \<lparr>hring = newRing, hsubs = [], pubs = (\<lambda>_. PIdle), subscribers = (\<lambda>_. SNone),
     cancels = (\<lambda>_. COpen), chan = (\<lambda>_. []), got = (\<lambda>_. []), hist = [], panicked = False\<rparr>"

definition flag_closed :: "'e hub_sys \<Rightarrow> nat \<Rightarrow> bool" where
  "flag_closed s k \<longleftrightarrow> cancels s k \<in> {CFlagged, CClosed}"

text \<open>One channel access of a delivery of \<open>ev\<close> to \<open>k\<close>: the next stage, or \<open>None\<close> when it is over.\<close>

definition chan_access :: "stage \<Rightarrow> 'e \<Rightarrow> nat \<Rightarrow> 'e hub_sys \<Rightarrow> stage option \<times> 'e hub_sys" where
  "chan_access st ev k s =
     (case st of
        Check \<Rightarrow> (if flag_closed s k then None else Some TrySend, s)
      | Drop \<Rightarrow> (Some Retry, s\<lparr>chan := (chan s)(k := (case chan s k of [] \<Rightarrow> [] | _ # q \<Rightarrow> q))\<rparr>)
      | _ \<Rightarrow>
         (if cancels s k = CClosed then (None, s\<lparr>panicked := True\<rparr>)
          else (case try_send (chan s k) ev of
              Some q \<Rightarrow> (None, s\<lparr>chan := (chan s)(k := q)\<rparr>)
            | None \<Rightarrow> (if st = TrySend then Some Drop else None, s))))"

datatype 'e action =
    PubLock nat 'e "nat list"  \<comment> \<open>a publisher runs its locked part; the order of the map iteration\<close>
  | PubStep nat
  | SubLock nat                \<comment> \<open>\<open>Subscribe\<close>: snapshot and registration under the lock\<close>
  | SubStep nat
  | Recv nat
  | CancelStep nat

fun hub_exec :: "'e action \<Rightarrow> 'e hub_sys \<Rightarrow> 'e hub_sys option" where
  "hub_exec (PubLock p ev l) s =
     (if pubs s p = PIdle \<and> distinct l \<and> set l = set (hsubs s) then
        Some (s\<lparr>hring := ring_push (hring s) ev, hist := hist s @ [ev],
               pubs := (pubs s)(p := PDeliver ev l Check)\<rparr>)
      else None)"
| "hub_exec (PubStep p) s =
     (case pubs s p of
        PIdle \<Rightarrow> None
      | PDeliver ev [] st \<Rightarrow> Some (s\<lparr>pubs := (pubs s)(p := PIdle)\<rparr>)
      | PDeliver ev (k # l) st \<Rightarrow>
          (case chan_access st ev k s of
             (None, t) \<Rightarrow> Some (t\<lparr>pubs := (pubs t)(p := PDeliver ev l Check)\<rparr>)
           | (Some st', t) \<Rightarrow> Some (t\<lparr>pubs := (pubs t)(p := PDeliver ev (k # l) st')\<rparr>)))"
| "hub_exec (SubLock k) s =
     (if subscribers s k = SNone then
        Some (s\<lparr>subscribers := (subscribers s)(k := SReplay (snapshotLocked (hring s)) TrySend),
               hsubs := k # hsubs s\<rparr>)
      else None)"
| "hub_exec (SubStep k) s =
     (case subscribers s k of
        SReplay [] st \<Rightarrow> Some (s\<lparr>subscribers := (subscribers s)(k := SLive)\<rparr>)
      | SReplay (ev # es) st \<Rightarrow>
          (case chan_access st ev k s of
             (None, t) \<Rightarrow> Some (t\<lparr>subscribers := (subscribers t)(k := SReplay es TrySend)\<rparr>)
           | (Some st', t) \<Rightarrow> Some (t\<lparr>subscribers := (subscribers t)(k := SReplay (ev # es) st')\<rparr>))
      | _ \<Rightarrow> None)"
| "hub_exec (Recv k) s =
     (case chan s k of
        [] \<Rightarrow> None
      | ev # q \<Rightarrow>
          (if subscribers s k = SLive then
             Some (s\<lparr>chan := (chan s)(k := q), got := (got s)(k := got s k @ [ev])\<rparr>)
           else None))"
| "hub_exec (CancelStep k) s =
     (if subscribers s k \<noteq> SLive then None
      else (case cancels s k of
          COpen \<Rightarrow> Some (s\<lparr>hsubs := removeAll k (hsubs s), cancels := (cancels s)(k := CDeleted)\<rparr>)
        | CDeleted \<Rightarrow> Some (s\<lparr>cancels := (cancels s)(k := CFlagged)\<rparr>)
        | CFlagged \<Rightarrow> Some (s\<lparr>cancels := (cancels s)(k := CClosed)\<rparr>)
        | CClosed \<Rightarrow> None))"

inductive hub_step :: "'e hub_sys \<Rightarrow> 'e hub_sys \<Rightarrow> bool" where
  act: "\<not> panicked s \<Longrightarrow> hub_exec a s = Some t \<Longrightarrow> hub_step s t"

inductive_cases hub_stepE: "hub_step s t"

fun hub_run :: "'e action list \<Rightarrow> 'e hub_sys \<Rightarrow> 'e hub_sys option" where
  "hub_run [] s = Some s"
| "hub_run (a # as) s =
     (if panicked s then None
      else (case hub_exec a s of None \<Rightarrow> None | Some t \<Rightarrow> hub_run as t))"

lemma hub_run_steps: "hub_run as s = Some t \<Longrightarrow> hub_step\<^sup>*\<^sup>* s t"
proof (induction as arbitrary: s)
  case Nil
  then show ?case by simp
next
  case (Cons a as)
  then obtain u where "\<not> panicked s" "hub_exec a s = Some u" and "hub_run as u = Some t"
    by (auto split: if_splits option.splits)
  then show ?case
    by (meson Cons.IH converse_rtranclp_into_rtranclp hub_step.act)
qed

section \<open>What holds in every interleaving\<close>

definition hub_inv :: "'e hub_sys \<Rightarrow> bool" where
  "hub_inv s \<longleftrightarrow>
     ring_inv (hring s) \<and> snapshotLocked (hring s) = lastn ringSize (hist s) \<and>
     (\<forall>k. length (chan s k) \<le> subBuf) \<and> distinct (hsubs s) \<and>
     (\<forall>k \<in> set (hsubs s). subscribers s k \<noteq> SNone \<and> cancels s k = COpen) \<and>
     (\<forall>k. subscribers s k \<noteq> SLive \<longrightarrow> cancels s k = COpen)"

lemma hub_inv_new: "hub_inv newHub"
  using buffer_sizes snapshot_of_history [of "[]"]
  by (simp add: hub_inv_def newHub_def publish_ring_def)

lemma chan_access_frame:
  assumes "chan_access st ev k s = (r, t)"
  shows "hring t = hring s \<and> hist t = hist s \<and> hsubs t = hsubs s \<and> subscribers t = subscribers s \<and>
    cancels t = cancels s \<and> pubs t = pubs s"
  using assms by (auto simp: chan_access_def split: stage.splits if_splits option.splits)

lemma chan_access_bounded:
  assumes "chan_access st ev k s = (r, t)" and "\<forall>k. length (chan s k) \<le> subBuf"
  shows "length (chan t j) \<le> subBuf"
proof (cases "j = k")
  case False
  then have "chan t j = chan s j"
    using assms(1) by (auto simp: chan_access_def split: stage.splits if_splits option.splits)
  with assms(2) show ?thesis by simp
next
  case True
  have "length (chan s k) \<le> subBuf" using assms(2) by simp
  with True assms(1) show ?thesis
    by (auto simp: chan_access_def try_send_def split: stage.splits if_splits option.splits list.splits)
qed

lemma chan_access_result:
  assumes "chan_access st ev k s = (r, t)" and "\<forall>k. length (chan s k) \<le> subBuf"
  shows "(hring t = hring s \<and> hist t = hist s \<and> hsubs t = hsubs s \<and> subscribers t = subscribers s \<and>
    cancels t = cancels s \<and> pubs t = pubs s) \<and> (\<forall>j. length (chan t j) \<le> subBuf)"
  using chan_access_frame [OF assms(1)] chan_access_bounded [OF assms] by simp

lemma hub_exec_inv:
  assumes "hub_exec a s = Some t" and "hub_inv s"
  shows "hub_inv t"
proof (cases a)
  case (PubLock p ev l)
  with assms show ?thesis
    by (auto simp: hub_inv_def ring_push_inv ring_push_snapshot lastn_append_lastn split: if_splits)
next
  case (PubStep p)
  with assms show ?thesis
    by (auto simp: hub_inv_def split: pub_pc.splits list.splits prod.splits option.splits
        dest!: chan_access_result)
next
  case (SubLock k)
  with assms show ?thesis by (auto simp: hub_inv_def split: if_splits)
next
  case (SubStep k)
  with assms show ?thesis
    by (auto simp: hub_inv_def split: sub_pc.splits list.splits prod.splits option.splits if_splits
        dest!: chan_access_result)
next
  case (Recv k)
  have "chan s k = ev # q \<Longrightarrow> hub_inv s \<Longrightarrow> length q \<le> subBuf" for ev q
    by (metis Suc_leD hub_inv_def length_Cons)
  with Recv assms show ?thesis
    by (auto simp: hub_inv_def split: list.splits if_splits)
next
  case (CancelStep k)
  with assms show ?thesis
    by (auto simp: hub_inv_def distinct_removeAll split: if_splits cancel_pc.splits)
qed

interpretation hub_runs: step_invariant hub_step hub_inv
  by unfold_locales (auto elim!: hub_stepE intro: hub_exec_inv)

text \<open>
  In every interleaving of publishers, subscriptions, readers and cancellations: the ring
  holds exactly the last 256 events in the order they took the lock, no subscriber's buffer
  exceeds 64 events, and a cancelled subscriber is no longer registered.
\<close>

theorem hub_buffers_bounded:
  assumes "hub_step\<^sup>*\<^sup>* newHub s"
  shows "snapshotLocked (hring s) = lastn ringSize (hist s) \<and> length (chan s k) \<le> subBuf \<and>
    (cancels s k \<noteq> COpen \<longrightarrow> k \<notin> set (hsubs s))"
  using hub_runs.run_keeps [OF assms hub_inv_new] by (auto simp: hub_inv_def)

theorem hub_buffers_bounded_witness:
  "\<exists>s :: nat hub_sys. hub_step\<^sup>*\<^sup>* newHub s \<and> hist s = [5] \<and> snapshotLocked (hring s) = [5]"
proof -
  have "\<exists>s. hub_run [PubLock 0 (5::nat) []] newHub = Some s \<and> hist s = [5]"
    by (simp add: newHub_def)
  then obtain s :: "nat hub_sys" where run: "hub_step\<^sup>*\<^sup>* newHub s" and h: "hist s = [5]"
    using hub_run_steps by blast
  from hub_buffers_bounded [OF run] h buffer_sizes have "snapshotLocked (hring s) = [5]"
    by (simp add: ringSize_def)
  with run h show ?thesis by blast
qed

text \<open>
  C30. The delivery to a subscriber that cancels is not protected by the \<open>closed\<close> flag: a
  publisher that has passed the check sends after the channel was closed, and the send
  panics.
\<close>

theorem publish_can_panic:
  "\<exists>s :: nat hub_sys. hub_step\<^sup>*\<^sup>* newHub s \<and> panicked s"
proof -
  have "\<exists>s. hub_run [SubLock 0, SubStep 0, PubLock 0 (7::nat) [0], PubStep 0,
      CancelStep 0, CancelStep 0, CancelStep 0, PubStep 0] newHub = Some s \<and> panicked s"
    by (simp add: newHub_def newRing_def snapshotLocked_def chan_access_def flag_closed_def)
  then show ?thesis using hub_run_steps by blast
qed

text \<open>
  The replay and the live stream are not ordered: the subscriber is registered before its
  replay is drained, so a live event can reach the channel first, and the reader gets the
  history after it.
\<close>

theorem replay_out_of_order:
  "\<exists>s :: nat hub_sys. hub_step\<^sup>*\<^sup>* newHub s \<and> hist s = [1, 2] \<and> got s 0 = [2, 1]"
proof -
  have "\<exists>s. hub_run [PubLock 0 (1::nat) [], PubStep 0, SubLock 0, PubLock 0 2 [0], PubStep 0,
      PubStep 0, SubStep 0, SubStep 0, Recv 0, Recv 0] newHub = Some s \<and> hist s = [1, 2] \<and> got s 0 = [2, 1]"
    by (simp add: newHub_def newRing_def snapshotLocked_def chan_access_def flag_closed_def
        ring_push_def ringSize_def try_send_def subBuf_def)
  then show ?thesis using hub_run_steps by blast
qed

section \<open>The slog handler in front of the hub\<close>

text \<open>
  An attribute value that is not an error stays as it is (\<open>'v\<close>, what \<open>slog.Value.Any\<close> gives).
  The inner handler, whose error \<open>Handle\<close> ignores, writes to the process's output and has no
  other effect here.
\<close>

datatype 'v attr_value = ErrorAttr string | OtherAttr 'v

datatype 'v json_attr = JsonText string | JsonAny 'v

type_synonym 'v attr = "string \<times> 'v attr_value"

record 'v log_event =
  TS :: gotime
  Level :: string
  Msg :: string
  KV :: "(string \<rightharpoonup> 'v json_attr) option"

record 'v slog_record =
  rec_time :: gotime
  rec_level :: int
  rec_msg :: string
  rec_attrs :: "'v attr list"

record 'v fanout_handler =
  fattrs :: "'v attr list"
  fgroup :: string

definition attrValueForJSON :: "'v attr_value \<Rightarrow> 'v json_attr" where
  "attrValueForJSON v = (case v of ErrorAttr m \<Rightarrow> JsonText m | OtherAttr x \<Rightarrow> JsonAny x)"

text \<open>\<open>slog.LevelInfo\<close>, \<open>LevelWarn\<close> and \<open>LevelError\<close> are 0, 4 and 8.\<close>

definition levelString :: "int \<Rightarrow> string" where
  "levelString lvl =
     (if lvl \<ge> 8 then ''error'' else if lvl \<ge> 4 then ''warn'' else if lvl \<ge> 0 then ''info''
      else ''debug'')"

definition put_attr :: "(string \<rightharpoonup> 'v json_attr) \<Rightarrow> 'v attr \<Rightarrow> (string \<rightharpoonup> 'v json_attr)" where
  "put_attr m a = m(fst a \<mapsto> attrValueForJSON (snd a))"

definition Handle :: "gotime \<Rightarrow> 'v fanout_handler \<Rightarrow> 'v slog_record \<Rightarrow> 'v log_event" where
  "Handle now f r =
     (let kv = foldl put_attr (foldl put_attr Map.empty (fattrs f)) (rec_attrs r) in
      \<lparr>TS = (if rec_time r = zero_time then now else rec_time r),
       Level = levelString (rec_level r), Msg = rec_msg r,
       KV = (if fattrs f = [] \<and> rec_attrs r = [] then None else Some kv)\<rparr>)"

definition handler_WithAttrs :: "'v fanout_handler \<Rightarrow> 'v attr list \<Rightarrow> 'v fanout_handler" where
  "handler_WithAttrs f as = f\<lparr>fattrs := fattrs f @ as\<rparr>"

definition handler_WithGroup :: "'v fanout_handler \<Rightarrow> string \<Rightarrow> 'v fanout_handler" where
  "handler_WithGroup f name = f\<lparr>fgroup := name\<rparr>"

lemma foldl_put_attr:
  "foldl put_attr m as k =
     (case map_of (rev as) k of None \<Rightarrow> m k | Some v \<Rightarrow> Some (attrValueForJSON v))"
  by (induction as arbitrary: m) (auto simp: put_attr_def map_add_def split: option.split)

text \<open>An attribute of the record wins over one of the handler, a later one over an earlier.\<close>

lemma Handle_attr_lookup:
  "KV (Handle now f r) = Some kv \<Longrightarrow>
     kv k = map_option attrValueForJSON (map_of (rev (fattrs f @ rec_attrs r)) k)"
  by (auto simp: Handle_def Let_def foldl_put_attr map_add_def split: if_splits option.split)

end
