(* ===== verification/GoText.thy ===== *)
theory GoText
  imports Complex_Main GoLib "HOL-Library.Word"
begin

text \<open>
  More of the Go standard library, for the parts of the daemon that read text: cutting and
  splitting strings, the words of a line, hexadecimal text of bytes, and \<open>float64\<close> values.
\<close>

section \<open>Cutting and splitting\<close>

text \<open>\<open>strings.Cut(s, sep)\<close> for a non-empty separator.\<close>

fun strings_Cut :: "string \<Rightarrow> string \<Rightarrow> (string \<times> string) option" where
  "strings_Cut [] sep = (if sep = [] then Some ([], []) else None)"
| "strings_Cut (c # cs) sep =
     (if HasPrefix (c # cs) sep then Some ([], drop (length sep) (c # cs))
      else map_option (\<lambda>(a, b). (c # a, b)) (strings_Cut cs sep))"

lemma strings_Cut_Some: "strings_Cut s sep = Some (a, b) \<Longrightarrow> s = a @ sep @ b"
proof (induction s sep arbitrary: a rule: strings_Cut.induct)
  case (2 c cs sep)
  then show ?case by (auto simp: HasPrefix_iff split: if_splits)
qed (auto split: if_splits)

text \<open>The text before the first of some bytes, when there is one: \<open>rest[:strings.IndexAny(rest, cs)]\<close>.\<close>

definition before_any :: "char list \<Rightarrow> string \<Rightarrow> string option" where
  "before_any cs s = (if set cs \<inter> set s = {} then None else Some (takeWhile (\<lambda>c. c \<notin> set cs) s))"

text \<open>\<open>strings.Split(s, c)\<close> for a separator of one byte.\<close>

fun split_char :: "char \<Rightarrow> string \<Rightarrow> string list" where
  "split_char c [] = [[]]"
| "split_char c (x # xs) =
     (if x = c then [] # split_char c xs
      else (case split_char c xs of [] \<Rightarrow> [[x]] | p # ps \<Rightarrow> (x # p) # ps))"

lemma split_char_not_Nil [simp]: "split_char c s \<noteq> []"
  by (cases s) (auto split: list.split)

lemma split_char_none: "c \<notin> set s \<Longrightarrow> split_char c s = [s]"
  by (induction s) auto

lemma split_char_append: "c \<notin> set a \<Longrightarrow> split_char c (a @ c # b) = a # split_char c b"
  by (induction a) auto

definition newline_char :: char where
  "newline_char = CHR 0x0A"

definition text_lines :: "string \<Rightarrow> string list" where
  "text_lines = split_char newline_char"

text \<open>\<open>strings.Fields\<close>: the maximal runs without white space.  \<open>cur\<close> is the run being read.\<close>

function fields_from :: "string \<Rightarrow> string \<Rightarrow> string list" where
  "fields_from cur [] = (if cur = [] then [] else [cur])"
| "fields_from cur (c # cs) =
     (case find (\<lambda>e. e \<noteq> [] \<and> HasPrefix (c # cs) e) space_encodings of
        None \<Rightarrow> fields_from (cur @ [c]) cs
      | Some e \<Rightarrow> (if cur = [] then [] else [cur]) @ fields_from [] (drop (length e) (c # cs)))"
  by pat_completeness auto
termination
  by (relation "measure (\<lambda>(cur, s). length s)") (auto dest!: find_Some_set)

definition strings_Fields :: "string \<Rightarrow> string list" where
  "strings_Fields s = fields_from [] s"

text \<open>The last bytes of a text, as both executors have it.\<close>

definition tail :: "string \<Rightarrow> nat \<Rightarrow> string" where
  "tail s n = (if length s \<le> n then s else drop (length s - n) s)"

lemma tail_bound: "length (tail s n) = min (length s) n" "\<exists>p. s = p @ tail s n"
  by (auto simp: tail_def intro: exI [of _ "take (length s - n) s"] exI [of _ "[]"])

section \<open>Bytes and hexadecimal text\<close>

type_synonym byte = "8 word"

definition hex_digit :: "nat \<Rightarrow> char" where
  "hex_digit n = ''0123456789abcdef'' ! n"

definition hex_byte :: "byte \<Rightarrow> string" where
  "hex_byte b = [hex_digit (unat b div 16), hex_digit (unat b mod 16)]"

text \<open>\<open>hex.EncodeToString\<close>.\<close>

definition hex_EncodeToString :: "byte list \<Rightarrow> string" where
  "hex_EncodeToString bs = concat (map hex_byte bs)"

lemma hex_length [simp]: "length (hex_EncodeToString bs) = 2 * length bs"
  by (induction bs) (simp_all add: hex_EncodeToString_def hex_byte_def)

definition is_hex :: "char \<Rightarrow> bool" where
  "is_hex c \<longleftrightarrow> c \<in> set ''0123456789abcdef''"

lemma hex_digit_is_hex: "n < 16 \<Longrightarrow> is_hex (hex_digit n)"
  unfolding is_hex_def hex_digit_def by (rule nth_mem) simp

lemma hex_byte_is_hex: "c \<in> set (hex_byte b) \<Longrightarrow> is_hex c"
proof -
  have "unat b < 256" using unsigned_less [of b, where ?'a = nat] by simp
  then have "unat b div 16 < 16" by simp
  then show "c \<in> set (hex_byte b) \<Longrightarrow> is_hex c"
    by (auto simp: hex_byte_def intro: hex_digit_is_hex)
qed

lemma hex_text_is_hex: "c \<in> set (hex_EncodeToString bs) \<Longrightarrow> is_hex c"
  by (auto simp: hex_EncodeToString_def intro: hex_byte_is_hex)

text \<open>Text whose ends no white space encoding can match stays as it is when trimmed.\<close>

lemma trim_front_stops:
  assumes "s = [] \<or> (\<forall>e \<in> set encs. e = [] \<or> hd e \<noteq> hd s)"
  shows "trim_front encs s = s"
proof -
  have "find (\<lambda>e. e \<noteq> [] \<and> s \<noteq> [] \<and> HasPrefix s e) encs = None"
    using assms by (auto simp: find_None_iff HasPrefix_iff)
  then show ?thesis by (subst trim_front.simps) simp
qed

lemma TrimSpace_hex:
  assumes "\<And>c. c \<in> set s \<Longrightarrow> is_hex c"
  shows "TrimSpace s = s"
proof (cases "s = []")
  case True
  then show ?thesis by (simp add: TrimSpace_def trim_front_stops)
next
  case False
  have front: "\<forall>e \<in> set space_encodings. e = [] \<or> hd e \<noteq> c"
    and rear: "\<forall>e \<in> set (map rev space_encodings). e = [] \<or> hd e \<noteq> c" if "is_hex c" for c
    using that by (auto simp: is_hex_def space_encodings_def)
  have "is_hex (hd s)" "is_hex (hd (rev s))"
    using False by (auto intro!: assms simp: hd_rev)
  then show ?thesis
    using front rear by (simp add: TrimSpace_def trim_front_stops)
qed

section \<open>Floating point\<close>

text \<open>
  A \<open>float64\<close> is its exact value, or not finite.  Rounding to the nearest \<open>float64\<close> and
  \<open>strconv.ParseFloat\<close> are parameters of the environment that uses them.
\<close>

datatype gofloat = Fin rat | NonFin

text \<open>
  \<open>fmt.Sprintf("%.3f", x)\<close> of a finite value: rounded to three decimals, ties to even.  The two
  zeros of \<open>float64\<close> are one value here.
\<close>

definition round_half_even :: "rat \<Rightarrow> int" where
  "round_half_even x =
     (let n = \<lfloor>x\<rfloor>; r = x - of_int n in
      if r < 1 / 2 then n else if r > 1 / 2 then n + 1 else if even n then n else n + 1)"

definition fmt3f :: "rat \<Rightarrow> string" where
  "fmt3f v =
     (let n = nat (round_half_even (\<bar>v\<bar> * 1000)) in
      (if v < 0 then ''-'' else []) @ digits_of (n div 1000) @ ''.'' @ pad_digits 3 (n mod 1000))"

end
