(* ===== verification/Logging.thy ===== *)
theory Logging
  imports LogHub GoText
begin

text \<open>
  Structured logging, \<open>internal/observability/slog.go\<close>: the attributes every line carries, those a
  context adds, and what both sinks, the JSON lines and the hub of theory LogHub, make of a value.
  With it the forwarding of the user interface's output, \<open>pumpUIOutput\<close> of \<open>main.go\<close>.

  \<open>emb\<close> embeds the string values into the values of attributes.
\<close>

record log_attrs =
  LaAppVersion :: string
  LaRuntimeVersion :: string
  LaInstallationID :: string
  LaOS :: string
  LaArch :: string
  LaDeviceID :: string

definition slog_String :: "(string \<Rightarrow> 'v) \<Rightarrow> string \<Rightarrow> string \<Rightarrow> 'v attr" where
  "slog_String emb k v = (k, OtherAttr (emb v))"

text \<open>The logger that \<open>Setup\<close> makes the default: the fan-out handler with the daemon's attributes.\<close>

definition setup_attrs :: "(string \<Rightarrow> 'v) \<Rightarrow> log_attrs \<Rightarrow> 'v attr list" where
  "setup_attrs emb a =
     [slog_String emb ''service'' ''engine-toold'', slog_String emb ''app_version'' (LaAppVersion a),
      slog_String emb ''runtime_version'' (LaRuntimeVersion a),
      slog_String emb ''installation_id'' (LaInstallationID a), slog_String emb ''os'' (LaOS a),
      slog_String emb ''arch'' (LaArch a)] @
     (if LaDeviceID a \<noteq> [] then [slog_String emb ''device_id'' (LaDeviceID a)] else [])"

definition Setup :: "(string \<Rightarrow> 'v) \<Rightarrow> log_attrs \<Rightarrow> 'v fanout_handler" where
  "Setup emb a = handler_WithAttrs \<lparr>fattrs = [], fgroup = []\<rparr> (setup_attrs emb a)"

text \<open>A context is the attributes that \<open>WithAttrs\<close> stored in it.\<close>

definition ctx_WithAttrs :: "'v attr list \<Rightarrow> 'v attr list \<Rightarrow> 'v attr list" where
  "ctx_WithAttrs ctx as = ctx @ as"

definition WithJob :: "(string \<Rightarrow> 'v) \<Rightarrow> 'v attr list \<Rightarrow> string \<Rightarrow> string \<Rightarrow> string \<Rightarrow> 'v attr list" where
  "WithJob emb ctx workloadID jobID executorID =
     ctx_WithAttrs ctx [slog_String emb ''workload_id'' workloadID, slog_String emb ''job_id'' jobID,
       slog_String emb ''executor'' executorID]"

definition Logger :: "'v fanout_handler \<Rightarrow> 'v attr list \<Rightarrow> 'v fanout_handler" where
  "Logger h ctx = (if ctx = [] then h else handler_WithAttrs h ctx)"

text \<open>What the JSON handler writes for an attribute: an error as its text.\<close>

definition renderErrorAsString :: "'v attr \<Rightarrow> 'v json_attr" where
  "renderErrorAsString a = (case snd a of ErrorAttr m \<Rightarrow> JsonText m | OtherAttr x \<Rightarrow> JsonAny x)"

section \<open>What a line carries\<close>

lemma map_of_rev_append:
  "map_of (rev (xs @ ys)) k = (case map_of (rev ys) k of None \<Rightarrow> map_of (rev xs) k | Some v \<Rightarrow> Some v)"
  by (simp add: map_add_def)

lemma Logger_attrs: "fattrs (Logger h ctx) = fattrs h @ ctx"
  by (simp add: Logger_def handler_WithAttrs_def)

lemma setup_service: "map_of (rev (setup_attrs emb a)) ''service'' = Some (OtherAttr (emb ''engine-toold''))"
  by (simp add: setup_attrs_def slog_String_def)

lemma WithJob_found:
  "map_of (rev (as @ WithJob emb ctx wid jid x)) ''workload_id'' = Some (OtherAttr (emb wid))"
  "map_of (rev (as @ WithJob emb ctx wid jid x)) ''job_id'' = Some (OtherAttr (emb jid))"
  "map_of (rev (as @ WithJob emb ctx wid jid x)) ''executor'' = Some (OtherAttr (emb x))"
  by (simp_all add: WithJob_def ctx_WithAttrs_def slog_String_def)

text \<open>
  An event logged under the context of a job, by the logger that \<open>Setup\<close> installed, carries the
  service, the workload, the job and the executor unless the line itself (for the service: or
  the context) has an attribute of that name; and an attribute of the line has in the hub
  the value the JSON line has, an error its text.
\<close>

lemma job_lines_traceable:
  assumes kv: "KV (Handle now (Logger (Setup emb a) (WithJob emb ctx wid jid x)) r) = Some kv"
  shows "''workload_id'' \<notin> fst ` set (rec_attrs r) \<Longrightarrow> kv ''workload_id'' = Some (JsonAny (emb wid))"
    and "''job_id'' \<notin> fst ` set (rec_attrs r) \<Longrightarrow> kv ''job_id'' = Some (JsonAny (emb jid))"
    and "''executor'' \<notin> fst ` set (rec_attrs r) \<Longrightarrow> kv ''executor'' = Some (JsonAny (emb x))"
    and "''service'' \<notin> fst ` set (rec_attrs r) \<union> fst ` set ctx \<Longrightarrow> kv ''service'' = Some (JsonAny (emb ''engine-toold''))"
    and "map_of (rev (rec_attrs r)) k = Some v \<Longrightarrow> kv k = Some (renderErrorAsString (k, v))"
proof -
  have f: "fattrs (Logger (Setup emb a) (WithJob emb ctx wid jid x)) = setup_attrs emb a @ WithJob emb ctx wid jid x"
    by (simp add: Logger_attrs Setup_def handler_WithAttrs_def)
  note look = Handle_attr_lookup [OF kv, unfolded f map_of_rev_append [of _ "rec_attrs r"]]
  have none: "map_of (rev xs) k = None" if "k \<notin> fst ` set xs" for xs k
    using that by (simp add: map_of_eq_None_iff)
  have own: "kv k = map_option attrValueForJSON (map_of (rev (setup_attrs emb a @ WithJob emb ctx wid jid x)) k)"
    if "k \<notin> fst ` set (rec_attrs r)" for k
    using none [OF that] by (simp only: look option.case)
  show "''workload_id'' \<notin> fst ` set (rec_attrs r) \<Longrightarrow> kv ''workload_id'' = Some (JsonAny (emb wid))"
    "''job_id'' \<notin> fst ` set (rec_attrs r) \<Longrightarrow> kv ''job_id'' = Some (JsonAny (emb jid))"
    "''executor'' \<notin> fst ` set (rec_attrs r) \<Longrightarrow> kv ''executor'' = Some (JsonAny (emb x))"
    by (drule own, simp add: WithJob_found attrValueForJSON_def del: rev_append)+
  show "kv ''service'' = Some (JsonAny (emb ''engine-toold''))"
    if "''service'' \<notin> fst ` set (rec_attrs r) \<union> fst ` set ctx"
    using that setup_service [of emb a] none [of "''service''" ctx] own [of "''service''"]
    by (simp add: attrValueForJSON_def map_add_def WithJob_def ctx_WithAttrs_def slog_String_def)
  show "kv k = Some (renderErrorAsString (k, v))" if "map_of (rev (rec_attrs r)) k = Some v"
    using that by (simp add: look renderErrorAsString_def attrValueForJSON_def)
qed

section \<open>The output of the user interface\<close>

text \<open>
  \<open>bufio.Scanner\<close> with lines of at most 1 MiB: the lines of the text, without a last empty one, up to
  the first that does not fit its buffer; a carriage return at the end of a line is dropped.  The
  debug line at the end is below the level of the logger.
\<close>

definition maxLine :: nat where
  "maxLine = 1024 * 1024"

definition drop_cr :: "string \<Rightarrow> string" where
  "drop_cr l = (if l \<noteq> [] \<and> last l = CHR 0x0D then butlast l else l)"

definition scan_lines :: "string \<Rightarrow> string list" where
  "scan_lines s =
     (let ls = text_lines s; ls = (if last ls = [] then butlast ls else ls)
      in map drop_cr (takeWhile (\<lambda>l. length l < maxLine) ls))"

definition pumpUIOutput :: "(string \<Rightarrow> 'v) \<Rightarrow> gotime \<Rightarrow> string \<Rightarrow> string \<Rightarrow> 'v slog_record list" where
  "pumpUIOutput emb now source out =
     map (\<lambda>l. \<lparr>rec_time = now, rec_level = 0, rec_msg = ''ui output'',
        rec_attrs = [slog_String emb ''source'' source, slog_String emb ''line'' l]\<rparr>) (scan_lines out)"

lemma split_char_lines:
  "\<forall>l \<in> set ls. c \<notin> set l \<Longrightarrow> split_char c (concat (map (\<lambda>l. l @ [c]) ls)) = ls @ [[]]"
  by (induction ls) (simp_all add: split_char_append)

text \<open>Whole lines come out whole: what the interface printed line by line is what is logged.\<close>

lemma pump_whole_lines:
  assumes "\<forall>l \<in> set ls. newline_char \<notin> set l \<and> CHR 0x0D \<notin> set l \<and> length l < maxLine"
  shows "scan_lines (concat (map (\<lambda>l. l @ [newline_char]) ls)) = ls"
proof -
  have "text_lines (concat (map (\<lambda>l. l @ [newline_char]) ls)) = ls @ [[]]"
    unfolding text_lines_def using assms by (intro split_char_lines) blast
  moreover have "takeWhile (\<lambda>l. length l < maxLine) ls = ls" using assms by (simp add: takeWhile_eq_all_conv)
  moreover have "map drop_cr ls = ls"
    using assms last_in_set by (intro map_idI) (fastforce simp: drop_cr_def)
  ultimately show ?thesis by (simp only: scan_lines_def Let_def last_snoc simp_thms if_True butlast_snoc)
qed

text \<open>A line that is too long ends the forwarding: nothing after it is logged.\<close>

lemma pump_stops:
  assumes "newline_char \<notin> set l" and "maxLine \<le> length l"
  shows "pumpUIOutput emb now source (l @ newline_char # rest) = []"
  using assms by (auto simp: pumpUIOutput_def scan_lines_def text_lines_def split_char_append Let_def butlast_append maxLine_def)

end
