(* ===== verification/LogOrder.thy ===== *)
theory LogOrder
  imports LogHub
begin

text \<open>
  The order in which a subscriber of the log hub sees the events, when publishing is quiet: no
  event is published while an earlier one is still being delivered or a subscription is still
  replaying the history.  Subscriptions, reads and cancellations may come at any time.  Without
  that restriction the order is lost (\<open>replay_out_of_order\<close> in theory LogHub).
\<close>

section \<open>Quiet publishing\<close>

fun quiet :: "'e action \<Rightarrow> 'e hub_sys \<Rightarrow> bool" where
  "quiet (PubLock p ev l) s = ((\<forall>q. pubs s q = PIdle) \<and> (\<forall>k es st. subscribers s k \<noteq> SReplay es st))"
| "quiet a s = True"

inductive quiet_step :: "'e hub_sys \<Rightarrow> 'e hub_sys \<Rightarrow> bool" where
  act: "\<not> panicked s \<Longrightarrow> quiet a s \<Longrightarrow> hub_exec a s = Some t \<Longrightarrow> quiet_step s t"

inductive_cases quiet_stepE: "quiet_step s t"

fun quiet_run :: "'e action list \<Rightarrow> 'e hub_sys \<Rightarrow> 'e hub_sys \<Rightarrow> bool" where
  "quiet_run [] s t = (s = t)"
| "quiet_run (a # as) s t =
     (\<not> panicked s \<and> quiet a s \<and> (case hub_exec a s of None \<Rightarrow> False | Some u \<Rightarrow> quiet_run as u t))"

lemma quiet_run_steps: "quiet_run as s t \<Longrightarrow> quiet_step\<^sup>*\<^sup>* s t"
proof (induction as arbitrary: s)
  case (Cons a as)
  then obtain u where "\<not> panicked s" "quiet a s" "hub_exec a s = Some u" and "quiet_run as u t"
    by (auto split: option.splits)
  then show ?case by (meson Cons.IH converse_rtranclp_into_rtranclp quiet_step.act)
qed simp

section \<open>What is on its way to a subscriber\<close>

fun queued :: "'e pub_pc \<Rightarrow> nat set" where
  "queued PIdle = {}"
| "queued (PDeliver ev l st) = set l"

definition due :: "'e hub_sys \<Rightarrow> nat \<Rightarrow> 'e list" where
  "due s k = (case subscribers s k of
       SReplay es st \<Rightarrow> es
     | _ \<Rightarrow> (if \<exists>p. k \<in> queued (pubs s p) then [last (hist s)] else []))"

lemma queued_only: "(\<And>q. q \<noteq> p \<Longrightarrow> f q = PIdle) \<Longrightarrow> (\<exists>q. j \<in> queued (f q)) \<longleftrightarrow> j \<in> queued (f p)"
  by (metis empty_iff queued.simps(1))

lemma due_same:
  "subscribers t j = subscribers s j \<Longrightarrow> pubs t = pubs s \<Longrightarrow> hist t = hist s \<Longrightarrow> due t j = due s j"
  by (simp add: due_def split: sub_pc.split)

text \<open>
  Of a history \<open>h\<close> a subscriber has read \<open>g\<close>; \<open>c\<close> is in its channel and \<open>d\<close> still due: in order, the
  newest, up to the last, and while it reads nothing as many as the channel holds.
\<close>

definition in_order :: "'e list \<Rightarrow> 'e list \<Rightarrow> 'e list \<Rightarrow> 'e list \<Rightarrow> bool" where
  "in_order h g c d \<longleftrightarrow> suffix (c @ d) h \<and> subseq (g @ c @ d) h \<and>
     (g = [] \<longrightarrow> min subBuf (length h) \<le> length (c @ d)) \<and>
     (h \<noteq> [] \<longrightarrow> g @ c @ d \<noteq> [] \<and> last (g @ c @ d) = last h)"

text \<open>What the stage of a delivery says of the channel.\<close>

definition room :: "stage \<Rightarrow> 'e list \<Rightarrow> 'e list \<Rightarrow> bool" where
  "room st g c \<longleftrightarrow> (st = Drop \<longrightarrow> g = [] \<longrightarrow> length c = subBuf) \<and> (st = Retry \<longrightarrow> length c < subBuf)"

lemma room_start [simp]: "room Check g c" "room TrySend g c"
  by (simp_all add: room_def)

lemma room_read: "room st g (e # q) \<Longrightarrow> room st (g @ [e]) q"
  by (auto simp: room_def)

lemma in_order_sent: "in_order h g c (e # d) \<Longrightarrow> try_send c e = Some c' \<Longrightarrow> in_order h g c' d"
  by (auto simp: in_order_def try_send_def split: if_splits)

lemma in_order_drop:
  assumes ok: "in_order h g c (e # d)" and full: "room Drop g c"
  shows "in_order h g (tl c) (e # d)"
proof (cases c)
  case Nil
  with ok show ?thesis by simp
next
  case (Cons x q)
  have "suffix (q @ e # d) h" using ok Cons by (auto simp: in_order_def dest: suffix_ConsD)
  moreover have "subseq (g @ q @ e # d) (g @ c @ e # d)" unfolding Cons by (intro list_emb_append_mono) auto
  with ok have "subseq (g @ q @ e # d) h" by (auto simp: in_order_def intro: subseq_order.trans)
  ultimately show ?thesis using ok full Cons by (auto simp: in_order_def room_def)
qed

lemma in_order_read: "in_order h g (e # q) d \<Longrightarrow> in_order h (g @ [e]) q d"
  by (auto simp: in_order_def dest: suffix_ConsD)

lemma in_order_published: "in_order h g c [] \<Longrightarrow> in_order (h @ [e]) g c [e]"
  using list_emb_append_mono [of "(=)" "g @ c" h "[e]" "[e]"] by (auto simp: in_order_def)

lemma in_order_snapshot: "in_order h [] [] (lastn ringSize h)"
proof -
  have s: "suffix (lastn ringSize h) h" by (simp add: lastn_def suffix_drop)
  then have "subseq (lastn ringSize h) h" by (intro sublist_imp_subseq suffix_imp_sublist)
  moreover note s
  moreover have "h \<noteq> [] \<Longrightarrow> lastn ringSize h \<noteq> []" using buffer_sizes by (simp flip: length_greater_0_conv)
  ultimately show ?thesis using buffer_sizes
    by (auto simp: in_order_def min_def) (metis last_appendR suffix_def)+
qed

text \<open>One access to the channel of a registered subscriber.\<close>

lemma access_in_order:
  assumes acc: "chan_access st e k s = (r, t)" and "open": "cancels s k = COpen"
    and ok: "in_order h (got s k) (chan s k) (e # d)" and room: "room st (got s k) (chan s k)"
    and len: "length (chan s k) \<le> subBuf"
  shows "case r of None \<Rightarrow> in_order h (got s k) (chan t k) d
    | Some st' \<Rightarrow> in_order h (got s k) (chan t k) (e # d) \<and> room st' (got s k) (chan t k)"
proof (cases st)
  case Check
  with acc "open" ok show ?thesis by (auto simp: chan_access_def flag_closed_def)
next
  case TrySend
  with acc "open" ok len show ?thesis
    by (auto simp: chan_access_def room_def try_send_def intro: in_order_sent split: option.splits if_splits)
next
  case Drop
  then have "chan t k = tl (chan s k)" "r = Some Retry"
    using acc by (auto simp: chan_access_def split: list.splits)
  with in_order_drop [OF ok] room Drop len buffer_sizes show ?thesis by (auto simp: room_def)
next
  case Retry
  with room have "length (chan s k) < subBuf" by (simp add: room_def)
  with acc "open" ok Retry show ?thesis
    by (auto simp: chan_access_def try_send_def intro: in_order_sent)
qed

lemma access_others:
  assumes "chan_access st e k s = (r, t)"
  shows "got t = got s" "j \<noteq> k \<Longrightarrow> chan t j = chan s j"
  using assms by (auto simp: chan_access_def split: stage.splits if_splits option.splits)

section \<open>The invariant of quiet runs\<close>

definition sub_ok :: "'e hub_sys \<Rightarrow> nat \<Rightarrow> bool" where
  "sub_ok s k \<longleftrightarrow> in_order (hist s) (got s k) (chan s k) (due s k) \<and>
     (\<forall>es st. subscribers s k = SReplay es st \<longrightarrow> room st (got s k) (chan s k)) \<and>
     (\<forall>p ev l st. pubs s p = PDeliver ev (k # l) st \<longrightarrow> room st (got s k) (chan s k))"

definition pub_ok :: "'e hub_sys \<Rightarrow> nat \<Rightarrow> bool" where
  "pub_ok s p \<longleftrightarrow> (\<forall>ev l st. pubs s p = PDeliver ev l st \<longrightarrow> hist s \<noteq> [] \<and> ev = last (hist s) \<and> distinct l \<and>
     (\<forall>k \<in> set l. subscribers s k = SLive) \<and> (\<forall>q. q \<noteq> p \<longrightarrow> pubs s q = PIdle))"

definition order_inv :: "'e hub_sys \<Rightarrow> bool" where
  "order_inv s \<longleftrightarrow> hub_inv s \<and> (\<forall>p. pub_ok s p) \<and>
     (\<forall>k. subscribers s k = SNone \<longrightarrow> chan s k = [] \<and> got s k = []) \<and> (\<forall>k \<in> set (hsubs s). sub_ok s k)"

lemma order_inv_new: "order_inv newHub"
  using hub_inv_new by (simp add: order_inv_def pub_ok_def newHub_def)

lemma order_invD:
  assumes "order_inv s"
  shows "hub_inv s" "pub_ok s p" "k \<in> set (hsubs s) \<Longrightarrow> sub_ok s k"
    "k \<in> set (hsubs s) \<Longrightarrow> cancels s k = COpen" "length (chan s k) \<le> subBuf"
    "subscribers s k = SNone \<Longrightarrow> chan s k = [] \<and> got s k = [] \<and> k \<notin> set (hsubs s)"
  using assms by (auto simp: order_inv_def hub_inv_def)

lemma order_publish:
  assumes ok: "order_inv s" and q: "quiet (PubLock p ev l) s" and run: "hub_exec (PubLock p ev l) s = Some t"
  shows "order_inv t"
proof -
  have t: "t = s\<lparr>hring := ring_push (hring s) ev, hist := hist s @ [ev], pubs := (pubs s)(p := PDeliver ev l Check)\<rparr>"
    and l: "distinct l" "set l = set (hsubs s)" using run by (auto split: if_splits)
  have idle: "pubs s p' = PIdle" and live: "subscribers s k \<noteq> SReplay es st" for p' k es st using q by auto
  have hub: "hub_inv s" using ok by (simp add: order_invD)
  have subs: "subscribers s k = SLive" if "k \<in> set (hsubs s)" for k
    using hub live [of k] that by (cases "subscribers s k") (auto simp: hub_inv_def)
  have "sub_ok t k" if k: "k \<in> set (hsubs s)" for k
  proof -
    have "due s k = []" using idle subs [OF k] by (simp add: due_def)
    then have "in_order (hist s) (got s k) (chan s k) []" using order_invD(3) [OF ok k] by (simp add: sub_ok_def)
    from in_order_published [OF this, of ev] have "in_order (hist t) (got t k) (chan t k) [ev]" by (simp add: t)
    moreover have "due t k = [ev]"
      using subs [OF k] k l by (auto simp: due_def t intro!: exI [of _ p])
    ultimately show ?thesis using subs [OF k] idle by (auto simp: sub_ok_def t split: if_splits)
  qed
  then have "\<forall>k \<in> set (hsubs t). sub_ok t k" by (simp add: t)
  moreover have "pub_ok t p'" for p' using idle subs l by (auto simp: pub_ok_def t)
  moreover have "hub_inv t" using hub_exec_inv [OF run hub] .
  moreover have "subscribers t k = SNone \<longrightarrow> chan t k = [] \<and> got t k = []" for k
    using ok by (simp add: order_inv_def t)
  ultimately show ?thesis by (simp add: order_inv_def)
qed

lemma order_deliver:
  assumes ok: "order_inv s" and run: "hub_exec (PubStep p) s = Some t"
  shows "order_inv t"
proof (cases "pubs s p")
  case PIdle
  with run show ?thesis by simp
next
  case (PDeliver ev l st)
  have pub: "hist s \<noteq> []" "ev = last (hist s)" "distinct l" "\<forall>k \<in> set l. subscribers s k = SLive"
    and idle: "\<And>q. q \<noteq> p \<Longrightarrow> pubs s q = PIdle"
    using order_invD(2) [OF ok, of p] PDeliver by (auto simp: pub_ok_def)
  have hub: "hub_inv t" using hub_exec_inv [OF run] ok by (simp add: order_invD)
  have old_due: "due s k = (case subscribers s k of SReplay es st \<Rightarrow> es | _ \<Rightarrow> if k \<in> set l then [ev] else [])" for k
    using queued_only [of p "pubs s" k] idle PDeliver pub(2) by (simp add: due_def split: sub_pc.split)
  show ?thesis
  proof (cases l)
    case Nil
    then have t: "t = s\<lparr>pubs := (pubs s)(p := PIdle)\<rparr>" using run PDeliver by simp
    have "pubs t q = PIdle" for q using idle by (simp add: t)
    moreover from this have "due t k = due s k" for k
      unfolding old_due using Nil by (simp add: due_def t split: sub_pc.split)
    ultimately show ?thesis
      using ok hub by (auto simp: order_inv_def pub_ok_def sub_ok_def) (simp_all add: t)
  next
    case (Cons k l')
    obtain r u where acc: "chan_access st ev k s = (r, u)" by fastforce
    define after where "after = (case r of None \<Rightarrow> PDeliver ev l' Check | Some st' \<Rightarrow> PDeliver ev l st')"
    have t: "t = u\<lparr>pubs := (pubs u)(p := after)\<rparr>"
      using run PDeliver Cons acc by (auto simp: after_def split: option.splits)
    note frame = chan_access_frame [OF acc] and others = access_others [OF acc]
    have rest: "hist t = hist s" "hsubs t = hsubs s" "subscribers t = subscribers s" "cancels t = cancels s" "got t = got s"
      and pubs: "pubs t = (pubs s)(p := after)" and chan: "\<And>j. j \<noteq> k \<Longrightarrow> chan t j = chan s j" "chan t k = chan u k"
      using frame others by (simp_all add: t)
    have q: "queued after = (if r = None then set l' else set l)"
      by (simp add: after_def split: option.split)
    have new_due: "due t j = (case subscribers s j of SReplay es st \<Rightarrow> es | _ \<Rightarrow> if j \<in> queued after then [ev] else [])" for j
    proof -
      have "(\<exists>q. j \<in> queued (pubs t q)) \<longleftrightarrow> j \<in> queued after"
        using queued_only [of p "pubs t" j] idle by (simp add: pubs)
      then show ?thesis using pub(2) by (simp add: due_def rest split: sub_pc.split)
    qed
    have "sub_ok t j" if j: "j \<in> set (hsubs s)" for j
    proof (cases "j = k")
      case False
      have "due t j = due s j" unfolding new_due old_due q using False Cons by (auto split: sub_pc.split)
      moreover have "sub_ok s j" using order_invD(3) [OF ok j] .
      ultimately show ?thesis
        using False idle chan(1) [OF False] Cons
        by (auto simp: sub_ok_def rest pubs after_def split: if_splits option.splits)
    next
      case True
      have live: "subscribers s k = SLive" using pub(4) Cons by simp
      have s: "in_order (hist s) (got s k) (chan s k) (ev # [])" "room st (got s k) (chan s k)"
        using order_invD(3) [OF ok j] PDeliver Cons live True by (auto simp: sub_ok_def old_due)
      have a: "case r of None \<Rightarrow> in_order (hist s) (got s k) (chan u k) []
          | Some st' \<Rightarrow> in_order (hist s) (got s k) (chan u k) [ev] \<and> room st' (got s k) (chan u k)"
        using access_in_order [OF acc order_invD(4) [OF ok] s order_invD(5) [OF ok]] j True by simp
      have "due t k = (if r = None then [] else [ev])"
        unfolding new_due q using live pub(3) Cons by simp
      with a True live idle show ?thesis
        by (auto simp: sub_ok_def rest pubs chan after_def split: option.splits if_splits)
    qed
    then have "\<forall>j \<in> set (hsubs t). sub_ok t j" by (simp add: rest)
    moreover have "pub_ok t q" for q
      using pub idle Cons by (auto simp: pub_ok_def rest pubs after_def split: option.splits if_splits)
    moreover have "subscribers t j = SNone \<longrightarrow> chan t j = [] \<and> got t j = []" for j
      using ok pub(4) Cons by (cases "j = k") (auto simp: order_inv_def rest chan)
    ultimately show ?thesis using hub by (simp add: order_inv_def)
  qed
qed

lemma order_subscribe:
  assumes ok: "order_inv s" and run: "hub_exec (SubLock k) s = Some t"
  shows "order_inv t"
proof -
  have none: "subscribers s k = SNone" and
    t: "t = s\<lparr>subscribers := (subscribers s)(k := SReplay (snapshotLocked (hring s)) TrySend), hsubs := k # hsubs s\<rparr>"
    using run by (auto split: if_splits)
  have new: "chan s k = []" "got s k = []" "k \<notin> set (hsubs s)" using order_invD(6) [OF ok none] by auto
  have snap: "snapshotLocked (hring s) = lastn ringSize (hist s)" using order_invD(1) [OF ok] by (simp add: hub_inv_def)
  have "k \<notin> queued (pubs s p)" for p
    using order_invD(2) [OF ok, of p] none by (cases "pubs s p") (auto simp: pub_ok_def)
  then have "pubs s p \<noteq> PDeliver ev (k # l) st" for p ev l st by (metis list.set_intros(1) queued.simps(2))
  with in_order_snapshot [of "hist s"] new snap have "sub_ok t k" by (auto simp: sub_ok_def due_def t)
  moreover have "sub_ok t j" if j: "j \<in> set (hsubs s)" for j
  proof -
    have "j \<noteq> k" using j new by blast
    then have "due t j = due s j" by (intro due_same) (simp_all add: t)
    with order_invD(3) [OF ok j] \<open>j \<noteq> k\<close> show ?thesis by (auto simp: sub_ok_def t)
  qed
  moreover have "pub_ok t p" for p using order_invD(2) [OF ok, of p] none by (auto simp: pub_ok_def t)
  moreover have "hub_inv t" using hub_exec_inv [OF run] ok by (simp add: order_invD)
  ultimately show ?thesis using ok by (auto simp: order_inv_def t)
qed

lemma order_replay:
  assumes ok: "order_inv s" and run: "hub_exec (SubStep k) s = Some t"
  shows "order_inv t"
proof -
  obtain es st where at: "subscribers s k = SReplay es st" using run by (cases "subscribers s k") auto
  have hub: "hub_inv t" using hub_exec_inv [OF run] ok by (simp add: order_invD)
  have idle: "k \<notin> queued (pubs s p)" for p
    using order_invD(2) [OF ok, of p] at by (cases "pubs s p") (auto simp: pub_ok_def)
  then have head: "pubs s p \<noteq> PDeliver ev (k # l) st" for p ev l st by (metis list.set_intros(1) queued.simps(2))
  obtain u pc where t: "t = u\<lparr>subscribers := (subscribers s)(k := pc)\<rparr>" and pc: "pc = SLive \<or> (\<exists>es st. pc = SReplay es st)"
    and rest: "hist u = hist s" "hsubs u = hsubs s" "pubs u = pubs s" "cancels u = cancels s" "got u = got s"
      "\<And>j. j \<noteq> k \<Longrightarrow> chan u j = chan s j"
    and here: "k \<in> set (hsubs s) \<Longrightarrow> (case pc of SReplay es' st' \<Rightarrow>
        in_order (hist s) (got s k) (chan u k) es' \<and> room st' (got s k) (chan u k)
      | _ \<Rightarrow> in_order (hist s) (got s k) (chan u k) [])"
  proof (cases es)
    case Nil
    then have t: "t = s\<lparr>subscribers := (subscribers s)(k := SLive)\<rparr>" using run at by simp
    have "in_order (hist s) (got s k) (chan s k) []" if "k \<in> set (hsubs s)"
      using order_invD(3) [OF ok that] at Nil by (simp add: sub_ok_def due_def)
    with t show ?thesis by (intro that [of SLive s]) simp_all
  next
    case (Cons e d)
    obtain r u where acc: "chan_access st e k s = (r, u)" by fastforce
    note frame = chan_access_frame [OF acc] and others = access_others [OF acc]
    let ?pc = "case r of None \<Rightarrow> SReplay d TrySend | Some st' \<Rightarrow> SReplay es st'"
    have t: "t = u\<lparr>subscribers := (subscribers s)(k := ?pc)\<rparr>"
      using run at Cons acc frame by (auto split: option.splits)
    have "case ?pc of SReplay es' st' \<Rightarrow> in_order (hist s) (got s k) (chan u k) es' \<and> room st' (got s k) (chan u k)
        | _ \<Rightarrow> in_order (hist s) (got s k) (chan u k) []" if k: "k \<in> set (hsubs s)"
    proof -
      have "in_order (hist s) (got s k) (chan s k) (e # d)" "room st (got s k) (chan s k)"
        using order_invD(3) [OF ok k] at Cons by (auto simp: sub_ok_def due_def)
      from access_in_order [OF acc order_invD(4) [OF ok k] this order_invD(5) [OF ok]] Cons
      show ?thesis by (auto split: option.splits)
    qed
    with t frame others show ?thesis by (intro that [of ?pc u]) (auto split: option.split)
  qed
  have "sub_ok t j" if j: "j \<in> set (hsubs s)" for j
  proof (cases "j = k")
    case False
    then have "due t j = due s j" by (intro due_same) (simp_all add: t rest)
    with order_invD(3) [OF ok j] False show ?thesis by (auto simp: sub_ok_def t rest)
  next
    case True
    with here j have "in_order (hist s) (got s k) (chan u k) (due t k)"
      using pc idle by (auto simp: due_def t rest)
    with here j True pc head show ?thesis by (auto simp: sub_ok_def t rest)
  qed
  moreover have "pub_ok t p" for p using order_invD(2) [OF ok, of p] idle [of p] by (auto simp: pub_ok_def t rest)
  moreover have "subscribers t j = SNone \<longrightarrow> chan t j = [] \<and> got t j = []" for j
    using ok pc by (auto simp: order_inv_def t rest)
  ultimately show ?thesis using hub by (simp add: order_inv_def t rest)
qed

lemma order_read:
  assumes ok: "order_inv s" and run: "hub_exec (Recv k) s = Some t"
  shows "order_inv t"
proof -
  obtain e q where c: "chan s k = e # q" and live: "subscribers s k = SLive" and
    t: "t = s\<lparr>chan := (chan s)(k := q), got := (got s)(k := got s k @ [e])\<rparr>"
    using run by (auto split: list.splits if_splits)
  have due: "due t j = due s j" for j by (intro due_same) (simp_all add: t)
  have "sub_ok t j" if j: "j \<in> set (hsubs s)" for j
  proof (cases "j = k")
    case True
    with order_invD(3) [OF ok j] c live in_order_read [of "hist s" "got s k" e q "due s k"]
    show ?thesis by (auto simp: sub_ok_def due) (auto simp: t intro: room_read)
  next
    case False
    with order_invD(3) [OF ok j] show ?thesis by (auto simp: sub_ok_def due) (auto simp: t)
  qed
  moreover have "pub_ok t p" for p using order_invD(2) [OF ok, of p] by (auto simp: pub_ok_def t)
  moreover have "hub_inv t" using hub_exec_inv [OF run] ok by (simp add: order_invD)
  ultimately show ?thesis using ok live by (auto simp: order_inv_def t)
qed

lemma order_cancel:
  assumes ok: "order_inv s" and run: "hub_exec (CancelStep k) s = Some t"
  shows "order_inv t"
proof -
  have t: "pubs t = pubs s" "subscribers t = subscribers s" "chan t = chan s" "got t = got s" "hist t = hist s"
    "set (hsubs t) \<subseteq> set (hsubs s)"
    using run by (auto split: if_splits cancel_pc.splits)
  have "hub_inv t" using hub_exec_inv [OF run] ok by (simp add: order_invD)
  moreover have "due t j = due s j" for j by (intro due_same) (simp_all add: t)
  then have "sub_ok t j = sub_ok s j" "pub_ok t j = pub_ok s j" for j
    by (simp_all add: sub_ok_def pub_ok_def t)
  ultimately show ?thesis using ok t by (auto simp: order_inv_def)
qed

lemma quiet_exec_order:
  assumes "order_inv s" and "quiet a s" and "hub_exec a s = Some t"
  shows "order_inv t"
proof (cases a)
  case (PubLock p ev l)
  from order_publish [OF assms(1) assms(2,3) [unfolded PubLock]] show ?thesis .
next
  case (PubStep p)
  from order_deliver [OF assms(1) assms(3) [unfolded PubStep]] show ?thesis .
next
  case (SubLock k)
  from order_subscribe [OF assms(1) assms(3) [unfolded SubLock]] show ?thesis .
next
  case (SubStep k)
  from order_replay [OF assms(1) assms(3) [unfolded SubStep]] show ?thesis .
next
  case (Recv k)
  from order_read [OF assms(1) assms(3) [unfolded Recv]] show ?thesis .
next
  case (CancelStep k)
  from order_cancel [OF assms(1) assms(3) [unfolded CancelStep]] show ?thesis .
qed

interpretation quiet_runs: step_invariant quiet_step order_inv
  by unfold_locales (auto elim!: quiet_stepE intro: quiet_exec_order)

section \<open>The property\<close>

lemma suffix_lastn:
  assumes "suffix c h" and "min n (length h) \<le> length c" and "length c \<le> n"
  shows "c = lastn n h"
proof -
  obtain zs where h: "h = zs @ c" using assms(1) by (auto simp: suffix_def)
  with assms(2,3) have "length h - n = length zs" by (cases "n \<le> length h") auto
  then show ?thesis by (simp add: lastn_def h)
qed

text \<open>
  C20. What a subscriber of the log hub sees, when no event is published while an earlier one is
  still being delivered or a subscription is still replaying the history (subscriptions, reads and
  cancellations may come at any time): once the publishers are idle and the replay is over, its
  channel holds the newest events, in the order of the hub's history; what it has read and what is
  in the channel together are in that order too, none of them twice, and end with the last event; and if it
  has read nothing, the channel holds exactly the last 64 of the whole history, from before and
  after the subscription (the replay ring of 256 never shows).
\<close>

theorem subscriber_sees_newest:
  assumes run: "quiet_step\<^sup>*\<^sup>* newHub s" and idle: "\<And>p. pubs s p = PIdle"
    and k: "k \<in> set (hsubs s)" "subscribers s k = SLive"
  shows "suffix (chan s k) (hist s) \<and> subseq (got s k @ chan s k) (hist s) \<and>
    (hist s \<noteq> [] \<longrightarrow> got s k @ chan s k \<noteq> [] \<and> last (got s k @ chan s k) = last (hist s)) \<and>
    (got s k = [] \<longrightarrow> chan s k = lastn subBuf (hist s))"
proof -
  have inv: "order_inv s" using quiet_runs.run_keeps [OF run order_inv_new] .
  have "due s k = []" using idle k by (simp add: due_def)
  then have "in_order (hist s) (got s k) (chan s k) []" using order_invD(3) [OF inv k(1)] by (simp add: sub_ok_def)
  with suffix_lastn [of "chan s k" "hist s" subBuf] order_invD(5) [OF inv, of k] show ?thesis
    by (auto simp: in_order_def)
qed

theorem subscriber_sees_newest_witness:
  "\<exists>s :: nat hub_sys. quiet_step\<^sup>*\<^sup>* newHub s \<and> hist s = [1, 2] \<and> chan s 0 = lastn subBuf [1, 2]"
proof -
  have "\<exists>s. quiet_run [PubLock 0 (1::nat) [], PubStep 0, SubLock 0, SubStep 0, SubStep 0,
      PubLock 7 2 [0], PubStep 7, PubStep 7, PubStep 7] newHub s \<and>
      hist s = [1, 2] \<and> got s 0 = [] \<and> (\<forall>p. pubs s p = PIdle) \<and> hsubs s = [0] \<and> subscribers s 0 = SLive"
    by (simp add: newHub_def newRing_def snapshotLocked_def chan_access_def flag_closed_def
        ring_push_def ringSize_def try_send_def subBuf_def)
  then obtain s :: "nat hub_sys" where run: "quiet_step\<^sup>*\<^sup>* newHub s" and s: "hist s = [1, 2]" "got s 0 = []"
    "\<And>p. pubs s p = PIdle" "hsubs s = [0]" "subscribers s 0 = SLive"
    using quiet_run_steps by blast
  have "0 \<in> set (hsubs s)" by (simp add: s)
  from subscriber_sees_newest [OF run s(3) this s(5)] s run show ?thesis by auto
qed

end
