(* ===== verification/Store.thy ===== *)
theory Store
  imports GoLib
begin

text \<open>
  The local job store, \<open>internal/jobqueue/store.go\<close> and \<open>schema.sql\<close>: three SQL tables
  (jobs, job_events, job_attempts) and the operations of \<open>jobqueue.Store\<close>.

  A table is the list of its rows in rowid order.  Every SQL statement the code sends is one
  \<open>exec_stmt\<close>: the statement number \<open>stmts\<close> advances, and the environment decides whether the
  engine fails it (\<open>db_fault\<close>, which covers a cancelled context, a busy database and an I/O
  error); a statement that fails leaves the tables as they were, which is SQLite's documented
  statement atomicity.  The store's write mutex makes each operation one atomic step.
\<close>

section \<open>Tables\<close>

text \<open>The columns of \<open>jobs\<close> that the Go struct \<open>Job\<close> keeps with their type.\<close>

record job_cols =
  jid :: string
  workload_id :: string
  organization_id :: string
  workload_type :: string
  workload_version :: int
  payload_json :: string
  job_status :: string
  lease_token :: "string option"
  lease_expires_at :: "gotime option"
  resumable_state :: "string option"

text \<open>A row of the table has the two timestamps as text, the Go struct has them parsed.\<close>

record row = job_cols +
  created_at :: string
  updated_at :: string

record job = job_cols +
  CreatedAt :: gotime
  UpdatedAt :: gotime

record event =
  ev_id :: nat
  ev_job_id :: string
  ev_ts :: string
  ev_kind :: string
  ev_message :: string
  ev_attrs_json :: "string option"

record attempt =
  at_id :: nat
  at_job_id :: string
  attempt_num :: int
  started_at :: string
  finished_at :: "string option"
  outcome :: "string option"
  at_error :: "string option"

text \<open>\<open>ev_seq\<close> and \<open>at_seq\<close> are the AUTOINCREMENT counters (the last id given out).\<close>

record store =
  jobs :: "row list"
  events :: "event list"
  attempts :: "attempt list"
  ev_seq :: nat
  at_seq :: nat
  stmts :: nat

definition empty_store :: store where
  "empty_store = \<lparr>jobs = [], events = [], attempts = [], ev_seq = 0, at_seq = 0, stmts = 0\<rparr>"

text \<open>
  What the store needs from outside: the outcome of the n-th statement, the text of
  \<open>datetime('now')\<close> during it, how the engine breaks ties of an ORDER BY in it, how the driver
  scans a stored \<open>lease_expires_at\<close> into \<open>sql.NullTime\<close> (\<open>None\<close>: the scan reports an error),
  and \<open>time.Parse\<close> with the layout of \<open>parseSQLiteTime\<close>.
\<close>

record db_env =
  db_fault :: "nat \<Rightarrow> string option"
  db_now :: "nat \<Rightarrow> string"
  db_tie :: "nat \<Rightarrow> string \<Rightarrow> nat"
  db_scan_time :: "gotime \<Rightarrow> gotime option"
  parse_datetime :: "string \<Rightarrow> gotime option"

section \<open>Status values\<close>

definition StatusQueued :: string where "StatusQueued = ''queued''"

definition StatusRunning :: string where "StatusRunning = ''running''"

definition StatusSucceeded :: string where "StatusSucceeded = ''succeeded''"

definition StatusFailed :: string where "StatusFailed = ''failed''"

definition StatusAbandoned :: string where "StatusAbandoned = ''abandoned''"

definition StatusCancelled :: string where "StatusCancelled = ''cancelled''"

lemmas status_defs = StatusQueued_def StatusRunning_def StatusSucceeded_def StatusFailed_def
  StatusAbandoned_def StatusCancelled_def

definition IsTerminal :: "string \<Rightarrow> bool" where
  "IsTerminal st \<longleftrightarrow> st \<in> {StatusSucceeded, StatusFailed, StatusAbandoned, StatusCancelled}"

definition all_statuses :: "string list" where
  "all_statuses = [StatusQueued, StatusRunning, StatusSucceeded, StatusFailed,
     StatusAbandoned, StatusCancelled]"

lemma IsTerminal_simps [simp]:
  "\<not> IsTerminal StatusQueued" "\<not> IsTerminal StatusRunning"
  "IsTerminal StatusSucceeded" "IsTerminal StatusFailed"
  "IsTerminal StatusAbandoned" "IsTerminal StatusCancelled"
  by (simp_all add: IsTerminal_def status_defs)

lemma non_terminal_cases:
  "st \<in> set all_statuses \<Longrightarrow> \<not> IsTerminal st \<longleftrightarrow> st = StatusQueued \<or> st = StatusRunning"
  by (auto simp: all_statuses_def)

section \<open>Null values, time text\<close>

definition nullStr :: "string \<Rightarrow> string option" where
  "nullStr s = (if s = [] then None else Some s)"

definition nullTime :: "gotime \<Rightarrow> gotime option" where
  "nullTime t = (if t = zero_time then None else Some t)"

definition parseSQLiteTime :: "'e db_env_scheme \<Rightarrow> string \<Rightarrow> gotime" where
  "parseSQLiteTime E s =
     (if s = [] then zero_time
      else (case parse_datetime E s of None \<Rightarrow> zero_time | Some t \<Rightarrow> t))"

section \<open>Statements\<close>

definition tick :: "store \<Rightarrow> store" where
  "tick s = s\<lparr>stmts := Suc (stmts s)\<rparr>"

definition exec_stmt ::
  "'e db_env_scheme \<Rightarrow> (string \<Rightarrow> store \<Rightarrow> gerror + 'a \<times> store) \<Rightarrow> store \<Rightarrow> (gerror + 'a) \<times> store" where
  "exec_stmt E f s =
     (case db_fault E (stmts s) of
        Some m \<Rightarrow> (Inl (Plain m), tick s)
      | None \<Rightarrow> (case f (db_now E (stmts s)) (tick s) of
            Inl e \<Rightarrow> (Inl e, tick s)
          | Inr (x, t) \<Rightarrow> (Inr x, t)))"

text \<open>A SELECT: reads a value off the tables.\<close>

definition sql_select :: "(store \<Rightarrow> 'a) \<Rightarrow> string \<Rightarrow> store \<Rightarrow> gerror + 'a \<times> store" where
  "sql_select q now s = Inr (q s, s)"

text \<open>UPDATE jobs SET f WHERE p.  No statement of the code updates \<open>id\<close> or \<open>workload_id\<close>.\<close>

definition sql_update_jobs ::
  "(row \<Rightarrow> bool) \<Rightarrow> (string \<Rightarrow> row \<Rightarrow> row) \<Rightarrow> string \<Rightarrow> store \<Rightarrow> gerror + unit \<times> store" where
  "sql_update_jobs p f now s =
     Inr ((), s\<lparr>jobs := map (\<lambda>j. if p j then f now j else j) (jobs s)\<rparr>)"

text \<open>INSERT INTO jobs, with the PRIMARY KEY and the UNIQUE constraint of the schema.\<close>

definition sql_insert_job :: "(string \<Rightarrow> row) \<Rightarrow> string \<Rightarrow> store \<Rightarrow> gerror + unit \<times> store" where
  "sql_insert_job mk now s =
     (let j = mk now in
      if jid j \<in> jid ` set (jobs s) then Inl (Plain ''UNIQUE constraint failed: jobs.id'')
      else if workload_id j \<in> workload_id ` set (jobs s)
      then Inl (Plain ''UNIQUE constraint failed: jobs.workload_id'')
      else Inr ((), s\<lparr>jobs := jobs s @ [j]\<rparr>))"

text \<open>INSERT INTO job_events and job_attempts: foreign key on jobs(id), AUTOINCREMENT id.\<close>

definition sql_insert_event ::
  "string \<Rightarrow> string \<Rightarrow> string \<Rightarrow> string option \<Rightarrow> string \<Rightarrow> store \<Rightarrow> gerror + unit \<times> store" where
  "sql_insert_event jobID kind msg attrs now s =
     (if jobID \<notin> jid ` set (jobs s) then Inl (Plain ''FOREIGN KEY constraint failed'')
      else Inr ((), s\<lparr>events := events s @
             [\<lparr>ev_id = Suc (ev_seq s), ev_job_id = jobID, ev_ts = now, ev_kind = kind,
               ev_message = msg, ev_attrs_json = attrs\<rparr>],
           ev_seq := Suc (ev_seq s)\<rparr>))"

definition sql_insert_attempt ::
  "string \<Rightarrow> int \<Rightarrow> string \<Rightarrow> store \<Rightarrow> gerror + nat \<times> store" where
  "sql_insert_attempt jobID n now s =
     (if jobID \<notin> jid ` set (jobs s) then Inl (Plain ''FOREIGN KEY constraint failed'')
      else Inr (Suc (at_seq s), s\<lparr>attempts := attempts s @
             [\<lparr>at_id = Suc (at_seq s), at_job_id = jobID, attempt_num = n, started_at = now,
               finished_at = None, outcome = None, at_error = None\<rparr>],
           at_seq := Suc (at_seq s)\<rparr>))"

definition sql_update_attempts ::
  "(attempt \<Rightarrow> bool) \<Rightarrow> (string \<Rightarrow> attempt \<Rightarrow> attempt) \<Rightarrow> string \<Rightarrow> store \<Rightarrow> gerror + unit \<times> store" where
  "sql_update_attempts p f now s =
     Inr ((), s\<lparr>attempts := map (\<lambda>a. if p a then f now a else a) (attempts s)\<rparr>)"

lemmas sql_defs = sql_select_def sql_update_jobs_def sql_insert_job_def sql_insert_event_def
  sql_insert_attempt_def sql_update_attempts_def

section \<open>Operations on jobs\<close>

record insert_input =
  in_ID :: string
  in_WorkloadID :: string
  in_OrganizationID :: string
  in_WorkloadType :: string
  in_WorkloadVersion :: int
  in_PayloadJSON :: string
  in_LeaseToken :: string
  in_LeaseExpiresAt :: gotime

definition row_of_input :: "insert_input \<Rightarrow> string \<Rightarrow> row" where
  "row_of_input i now =
     \<lparr>jid = in_ID i, workload_id = in_WorkloadID i, organization_id = in_OrganizationID i,
      workload_type = in_WorkloadType i, workload_version = in_WorkloadVersion i,
      payload_json = in_PayloadJSON i, job_status = StatusQueued,
      lease_token = nullStr (in_LeaseToken i), lease_expires_at = nullTime (in_LeaseExpiresAt i),
      resumable_state = None, created_at = now, updated_at = now\<rparr>"

definition CreateJob ::
  "'e db_env_scheme \<Rightarrow> insert_input \<Rightarrow> store \<Rightarrow> (gerror + unit) \<times> store" where
  "CreateJob E i s =
     (case exec_stmt E (sql_insert_job (row_of_input i)) s of
        (Inl e, s') \<Rightarrow> (Inl (errorf ''insert job'' e), s')
      | (Inr u, s') \<Rightarrow> (Inr u, s'))"

text \<open>Scanning a row into the Go struct: only the nullable time can fail to scan.\<close>

definition scan_job :: "'e db_env_scheme \<Rightarrow> row \<Rightarrow> gerror + job" where
  "scan_job E r =
     (let mk = (\<lambda>l. \<lparr>jid = jid r, workload_id = workload_id r, organization_id = organization_id r,
          workload_type = workload_type r, workload_version = workload_version r,
          payload_json = payload_json r, job_status = job_status r, lease_token = lease_token r,
          lease_expires_at = l, resumable_state = resumable_state r,
          CreatedAt = parseSQLiteTime E (created_at r), UpdatedAt = parseSQLiteTime E (updated_at r)\<rparr>)
      in case lease_expires_at r of
           None \<Rightarrow> Inr (mk None)
         | Some t \<Rightarrow> (case db_scan_time E t of
               None \<Rightarrow> Inl (Plain ''sql: Scan error on column lease_expires_at'')
             | Some t' \<Rightarrow> Inr (mk (Some t'))))"

text \<open>The shared shape of \<open>QueryRowContext(...).Scan(...)\<close>: no row is \<open>sql.ErrNoRows\<close>.\<close>

definition query_job ::
  "'e db_env_scheme \<Rightarrow> (row \<Rightarrow> bool) \<Rightarrow> store \<Rightarrow> (gerror + job) \<times> store" where
  "query_job E p s =
     (case exec_stmt E (sql_select (\<lambda>d. find p (jobs d))) s of
        (Inl e, s') \<Rightarrow> (Inl e, s')
      | (Inr None, s') \<Rightarrow> (Inl (Sentinel ErrNoRows), s')
      | (Inr (Some r), s') \<Rightarrow> (scan_job E r, s'))"

definition GetJob :: "'e db_env_scheme \<Rightarrow> string \<Rightarrow> store \<Rightarrow> (gerror + job) \<times> store" where
  "GetJob E jobID s =
     (case query_job E (\<lambda>r. jid r = jobID) s of
        (Inl e, s') \<Rightarrow>
          (if errors_is e ErrNoRows then (Inl (Sentinel ErrNotFound), s')
           else (Inl (errorf ''get job'' e), s'))
      | (Inr j, s') \<Rightarrow> (Inr j, s'))"

definition GetByWorkloadID :: "'e db_env_scheme \<Rightarrow> string \<Rightarrow> store \<Rightarrow> (gerror + job) \<times> store" where
  "GetByWorkloadID E wid s =
     (case query_job E (\<lambda>r. workload_id r = wid) s of
        (Inl e, s') \<Rightarrow>
          (if errors_is e ErrNoRows then (Inl (Sentinel ErrNotFound), s')
           else (Inl (errorf ''get by workload id'' e), s'))
      | (Inr j, s') \<Rightarrow> (Inr j, s'))"

text \<open>
  \<open>Cancel\<close>: the status is looked up and, when it is not terminal, overwritten, both under the
  write mutex.
\<close>

definition Cancel :: "'e db_env_scheme \<Rightarrow> string \<Rightarrow> store \<Rightarrow> (gerror + unit) \<times> store" where
  "Cancel E jobID s =
     (case exec_stmt E (sql_select (\<lambda>d. find (\<lambda>r. jid r = jobID) (jobs d))) s of
        (Inl e, s') \<Rightarrow> (Inl (errorf ''cancel: lookup status'' e), s')
      | (Inr None, s') \<Rightarrow> (Inl (Sentinel ErrNotFound), s')
      | (Inr (Some r), s') \<Rightarrow>
          (if IsTerminal (job_status r) then (Inl (Sentinel ErrJobTerminal), s')
           else (case exec_stmt E (sql_update_jobs (\<lambda>r. jid r = jobID)
                        (\<lambda>now r. r\<lparr>job_status := StatusCancelled, updated_at := now\<rparr>)) s' of
               (Inl e, s'') \<Rightarrow> (Inl (errorf ''cancel: update status'' e), s'')
             | (Inr u, s'') \<Rightarrow> (Inr u, s''))))"

text \<open>The three one-statement updates of a job row share their shape.\<close>

definition update_job ::
  "'e db_env_scheme \<Rightarrow> string \<Rightarrow> string \<Rightarrow> (row \<Rightarrow> row) \<Rightarrow> store \<Rightarrow> (gerror + unit) \<times> store" where
  "update_job E what jobID f s =
     (case exec_stmt E (sql_update_jobs (\<lambda>r. jid r = jobID) (\<lambda>now r. (f r)\<lparr>updated_at := now\<rparr>)) s of
        (Inl e, s') \<Rightarrow> (Inl (errorf what e), s')
      | (Inr u, s') \<Rightarrow> (Inr u, s'))"

definition UpdateStatus :: "'e db_env_scheme \<Rightarrow> string \<Rightarrow> string \<Rightarrow> store \<Rightarrow> (gerror + unit) \<times> store" where
  "UpdateStatus E jobID st = update_job E ''update status'' jobID (\<lambda>r. r\<lparr>job_status := st\<rparr>)"

definition UpdateResumableState ::
  "'e db_env_scheme \<Rightarrow> string \<Rightarrow> string \<Rightarrow> store \<Rightarrow> (gerror + unit) \<times> store" where
  "UpdateResumableState E jobID state =
     update_job E ''update resumable state'' jobID (\<lambda>r. r\<lparr>resumable_state := nullStr state\<rparr>)"

definition UpdateLease ::
  "'e db_env_scheme \<Rightarrow> string \<Rightarrow> string \<Rightarrow> gotime \<Rightarrow> store \<Rightarrow> (gerror + unit) \<times> store" where
  "UpdateLease E jobID token expires =
     update_job E ''update lease'' jobID
       (\<lambda>r. r\<lparr>lease_token := nullStr token, lease_expires_at := nullTime expires\<rparr>)"

text \<open>
  \<open>ORDER BY created_at DESC\<close> compares the timestamp text; rows of the same second come in the
  engine's order, given by \<open>db_tie\<close>.
\<close>

definition newer_first :: "(string \<Rightarrow> nat) \<Rightarrow> row \<Rightarrow> row \<Rightarrow> bool" where
  "newer_first tie a b \<longleftrightarrow>
     created_at b < created_at a \<or> (created_at a = created_at b \<and> tie (jid a) \<le> tie (jid b))"

definition select_page ::
  "(string \<Rightarrow> nat) \<Rightarrow> string \<Rightarrow> int \<Rightarrow> int \<Rightarrow> store \<Rightarrow> row list" where
  "select_page tie st limit offset s =
     take (nat limit) (drop (nat offset)
       (order_by (newer_first tie) (filter (\<lambda>r. st = [] \<or> job_status r = st) (jobs s))))"

fun scan_all :: "'e db_env_scheme \<Rightarrow> row list \<Rightarrow> gerror + job list" where
  "scan_all E [] = Inr []"
| "scan_all E (r # rs) =
     (case scan_job E r of
        Inl e \<Rightarrow> Inl (errorf ''scan job'' e)
      | Inr j \<Rightarrow> (case scan_all E rs of Inl e \<Rightarrow> Inl e | Inr js \<Rightarrow> Inr (j # js)))"

definition ListJobs ::
  "'e db_env_scheme \<Rightarrow> string \<Rightarrow> int \<Rightarrow> int \<Rightarrow> store \<Rightarrow> (gerror + job list) \<times> store" where
  "ListJobs E st limit offset s =
     (let limit = (if limit \<le> 0 then 50 else limit) in
      case exec_stmt E (sql_select (select_page (db_tie E (stmts s)) st limit offset)) s of
        (Inl e, s') \<Rightarrow> (Inl (errorf ''list jobs'' e), s')
      | (Inr rs, s') \<Rightarrow> (scan_all E rs, s'))"

definition PendingRecovery :: "'e db_env_scheme \<Rightarrow> store \<Rightarrow> (gerror + job list) \<times> store" where
  "PendingRecovery E s = ListJobs E StatusRunning 100 0 s"

section \<open>Operations on events and attempts\<close>

definition AppendEvent ::
  "'e db_env_scheme \<Rightarrow> string \<Rightarrow> string \<Rightarrow> string \<Rightarrow> string \<Rightarrow> store \<Rightarrow> (gerror + unit) \<times> store" where
  "AppendEvent E jobID kind msg attrsJSON s =
     (case exec_stmt E (sql_insert_event jobID kind msg (nullStr attrsJSON)) s of
        (Inl e, s') \<Rightarrow> (Inl (errorf ''append event'' e), s')
      | (Inr u, s') \<Rightarrow> (Inr u, s'))"

definition event_newer_first :: "event \<Rightarrow> event \<Rightarrow> bool" where
  "event_newer_first a b \<longleftrightarrow> ev_ts b < ev_ts a \<or> (ev_ts a = ev_ts b \<and> ev_id b \<le> ev_id a)"

text \<open>The Go struct \<open>Event\<close>, with \<open>COALESCE(attrs_json, '')\<close> and the parsed timestamp.\<close>

record event_info =
  EventID :: nat
  EventJobID :: string
  EventTS :: gotime
  EventKind :: string
  EventMessage :: string
  EventAttrsJSON :: string

definition scan_event :: "'e db_env_scheme \<Rightarrow> event \<Rightarrow> event_info" where
  "scan_event E e =
     \<lparr>EventID = ev_id e, EventJobID = ev_job_id e, EventTS = parseSQLiteTime E (ev_ts e),
      EventKind = ev_kind e, EventMessage = ev_message e,
      EventAttrsJSON = (case ev_attrs_json e of None \<Rightarrow> [] | Some a \<Rightarrow> a)\<rparr>"

definition select_events :: "string \<Rightarrow> int \<Rightarrow> store \<Rightarrow> event list" where
  "select_events jobID limit s =
     take (nat limit)
       (order_by event_newer_first (filter (\<lambda>e. ev_job_id e = jobID) (events s)))"

definition ListEvents ::
  "'e db_env_scheme \<Rightarrow> string \<Rightarrow> int \<Rightarrow> store \<Rightarrow> (gerror + event_info list) \<times> store" where
  "ListEvents E jobID limit s =
     (let limit = (if limit \<le> 0 then 100 else limit) in
      case exec_stmt E (sql_select (select_events jobID limit)) s of
        (Inl e, s') \<Rightarrow> (Inl (errorf ''list events'' e), s')
      | (Inr es, s') \<Rightarrow> (Inr (map (scan_event E) es), s'))"

definition StartAttempt ::
  "'e db_env_scheme \<Rightarrow> string \<Rightarrow> int \<Rightarrow> store \<Rightarrow> (gerror + nat) \<times> store" where
  "StartAttempt E jobID n s =
     (case exec_stmt E (sql_insert_attempt jobID n) s of
        (Inl e, s') \<Rightarrow> (Inl (errorf ''start attempt'' e), s')
      | (Inr i, s') \<Rightarrow> (Inr i, s'))"

definition FinishAttempt ::
  "'e db_env_scheme \<Rightarrow> nat \<Rightarrow> string \<Rightarrow> string \<Rightarrow> store \<Rightarrow> (gerror + unit) \<times> store" where
  "FinishAttempt E attemptID out errMsg s =
     (case exec_stmt E (sql_update_attempts (\<lambda>a. at_id a = attemptID)
             (\<lambda>now a. a\<lparr>finished_at := Some now, outcome := Some out, at_error := nullStr errMsg\<rparr>)) s of
        (Inl e, s') \<Rightarrow> (Inl (errorf ''finish attempt'' e), s')
      | (Inr u, s') \<Rightarrow> (Inr u, s'))"

definition AttemptCount :: "'e db_env_scheme \<Rightarrow> string \<Rightarrow> store \<Rightarrow> (gerror + int) \<times> store" where
  "AttemptCount E jobID s =
     (case exec_stmt E (sql_select (\<lambda>d. int (length (filter (\<lambda>a. at_job_id a = jobID) (attempts d))))) s of
        (Inl e, s') \<Rightarrow> (Inl (errorf ''count attempts'' e), s')
      | (Inr n, s') \<Rightarrow> (Inr n, s'))"

section \<open>What a statement may do\<close>

text \<open>
  Well-formed tables: both key columns of \<open>jobs\<close> are unique, every status is one of the six,
  the two child tables reference existing jobs (the foreign keys), and their ids are unique
  and were given out by their counters.
\<close>

definition store_wf :: "store \<Rightarrow> bool" where
  "store_wf s \<longleftrightarrow>
     distinct (map jid (jobs s)) \<and> distinct (map workload_id (jobs s)) \<and>
     (\<forall>r \<in> set (jobs s). job_status r \<in> set all_statuses) \<and>
     (\<forall>e \<in> set (events s). ev_job_id e \<in> jid ` set (jobs s) \<and> ev_id e \<in> {1..ev_seq s}) \<and>
     distinct (map ev_id (events s)) \<and>
     (\<forall>a \<in> set (attempts s). at_job_id a \<in> jid ` set (jobs s) \<and> at_id a \<in> {1..at_seq s}) \<and>
     distinct (map at_id (attempts s))"

lemma store_wf_empty: "store_wf empty_store"
  by (simp add: store_wf_def empty_store_def)

text \<open>The columns of a row no statement of the code rewrites.\<close>

definition job_key :: "row \<Rightarrow> string \<times> string \<times> string \<times> string \<times> int \<times> string \<times> string" where
  "job_key r = (jid r, workload_id r, organization_id r, workload_type r, workload_version r,
     payload_json r, created_at r)"

definition attempt_key :: "attempt \<Rightarrow> nat \<times> string \<times> int \<times> string" where
  "attempt_key a = (at_id a, at_job_id a, attempt_num a, started_at a)"

text \<open>
  History: the event log only grows at its end, no job row and no attempt row disappears or
  changes its identity.
\<close>

definition store_before :: "store \<Rightarrow> store \<Rightarrow> bool" where
  "store_before s t \<longleftrightarrow>
     prefix (events s) (events t) \<and>
     prefix (map job_key (jobs s)) (map job_key (jobs t)) \<and>
     prefix (map attempt_key (attempts s)) (map attempt_key (attempts t)) \<and>
     stmts s \<le> stmts t"

definition safe :: "store \<Rightarrow> store \<Rightarrow> bool" where
  "safe s t \<longleftrightarrow> (store_wf s \<longrightarrow> store_wf t) \<and> store_before s t"

lemma store_before_refl [simp]: "store_before s s"
  by (simp add: store_before_def)

lemma store_before_trans: "store_before s t \<Longrightarrow> store_before t u \<Longrightarrow> store_before s u"
  by (auto simp: store_before_def intro: prefix_order.trans)

lemma safe_refl [simp]: "safe s s"
  by (simp add: safe_def)

lemma safe_trans [trans]: "safe s t \<Longrightarrow> safe t u \<Longrightarrow> safe s u"
  by (auto simp: safe_def intro: store_before_trans)

lemma store_wf_stmts [simp]: "store_wf (s\<lparr>stmts := n\<rparr>) = store_wf s"
  by (simp add: store_wf_def)

lemma safe_tick [simp]: "safe s (tick s)"
  by (simp add: safe_def store_before_def tick_def)

definition stmt_ok :: "(string \<Rightarrow> store \<Rightarrow> gerror + 'a \<times> store) \<Rightarrow> bool" where
  "stmt_ok f \<longleftrightarrow> (\<forall>now s x t. f now s = Inr (x, t) \<longrightarrow> safe s t)"

lemma exec_stmt_safe:
  assumes "stmt_ok f"
  shows "safe s (snd (exec_stmt E f s))"
proof -
  have "safe s t" if "f now (tick s) = Inr (x, t)" for now x t
  proof -
    have "safe s (tick s)" by simp
    also have "safe (tick s) t" using assms that by (auto simp: stmt_ok_def)
    finally show ?thesis .
  qed
  then show ?thesis
    by (auto simp: exec_stmt_def split: option.splits sum.splits)
qed

lemma stmt_ok_select [wf_intros]: "stmt_ok (sql_select q)"
  by (simp add: stmt_ok_def sql_select_def)

lemma stmt_ok_update_jobs [wf_intros]:
  assumes key: "\<And>now r. job_key (f now r) = job_key r"
    and st: "\<And>now r. job_status r \<in> set all_statuses \<Longrightarrow> job_status (f now r) \<in> set all_statuses"
  shows "stmt_ok (sql_update_jobs p f)"
proof -
  from key have "jid (f now r) = jid r" "workload_id (f now r) = workload_id r" for now r
    by (simp_all add: job_key_def)
  then show ?thesis
    using key st by (auto simp: stmt_ok_def sql_update_jobs_def safe_def store_wf_def store_before_def
        image_image)
qed

lemma stmt_ok_insert_job [wf_intros]:
  "(\<And>now. job_status (mk now) \<in> set all_statuses) \<Longrightarrow> stmt_ok (sql_insert_job mk)"
  by (auto simp: stmt_ok_def sql_insert_job_def safe_def store_wf_def store_before_def Let_def
      split: if_splits)

lemma stmt_ok_insert_event [wf_intros]: "stmt_ok (sql_insert_event i k m a)"
  by (fastforce simp: stmt_ok_def sql_insert_event_def safe_def store_wf_def store_before_def
      split: if_splits)

lemma stmt_ok_insert_attempt [wf_intros]: "stmt_ok (sql_insert_attempt i n)"
  by (fastforce simp: stmt_ok_def sql_insert_attempt_def safe_def store_wf_def store_before_def
      split: if_splits)

lemma stmt_ok_update_attempts [wf_intros]:
  assumes key: "\<And>now a. attempt_key (f now a) = attempt_key a"
  shows "stmt_ok (sql_update_attempts p f)"
proof -
  from key have "at_id (f now r) = at_id r" "at_job_id (f now r) = at_job_id r" for now r
    by (simp_all add: attempt_key_def)
  then show ?thesis
    using key by (auto simp: stmt_ok_def sql_update_attempts_def safe_def store_wf_def store_before_def)
qed

section \<open>Every operation keeps the tables well-formed and the history\<close>

lemma exec_stmt_safe_eq: "exec_stmt E f s = (r, t) \<Longrightarrow> stmt_ok f \<Longrightarrow> safe s t"
  using exec_stmt_safe by (metis snd_conv)

lemma exec_stmt_safe_from: "safe s0 s \<Longrightarrow> stmt_ok f \<Longrightarrow> safe s0 (snd (exec_stmt E f s))"
  using exec_stmt_safe [of f s E] safe_trans by blast

lemma safe_op_case:
  assumes "safe s0 (snd r)"
    and "\<And>e t. safe s0 t \<Longrightarrow> safe s0 (snd (A e t))" and "\<And>x t. safe s0 t \<Longrightarrow> safe s0 (snd (B x t))"
  shows "safe s0 (snd (case r of (Inl e, t) \<Rightarrow> A e t | (Inr x, t) \<Rightarrow> B x t))"
  using assms by (auto split: prod.split sum.split)

lemma CreateJob_safe [wf_intros]: "safe s (snd (CreateJob E i s))"
  by (auto simp: CreateJob_def row_of_input_def all_statuses_def split: prod.splits sum.splits
      dest!: exec_stmt_safe_eq intro!: wf_intros)

lemma query_job_safe [wf_intros]: "safe s (snd (query_job E p s))"
  by (auto simp: query_job_def split: prod.splits sum.splits option.splits
      dest!: exec_stmt_safe_eq intro!: wf_intros)

lemma GetJob_safe [wf_intros]: "safe s (snd (GetJob E i s))"
  using query_job_safe [of s E "\<lambda>r. jid r = i"]
  by (auto simp: GetJob_def split: prod.splits sum.splits)

lemma GetByWorkloadID_safe [wf_intros]: "safe s (snd (GetByWorkloadID E w s))"
  using query_job_safe [of s E "\<lambda>r. workload_id r = w"]
  by (auto simp: GetByWorkloadID_def split: prod.splits sum.splits)

lemma update_job_safe [wf_intros]:
  assumes "\<And>now r. job_key (f r) = job_key r"
    and "\<And>r. job_status r \<in> set all_statuses \<Longrightarrow> job_status (f r) \<in> set all_statuses"
  shows "safe s (snd (update_job E what i f s))"
proof -
  have "stmt_ok (sql_update_jobs (\<lambda>r. jid r = i) (\<lambda>now r. (f r)\<lparr>updated_at := now\<rparr>))"
    using assms by (auto intro!: wf_intros simp: job_key_def)
  then show ?thesis
    by (auto simp: update_job_def split: prod.splits sum.splits dest!: exec_stmt_safe_eq)
qed

lemma UpdateStatus_safe [wf_intros]:
  "st \<in> set all_statuses \<Longrightarrow> safe s (snd (UpdateStatus E i st s))"
  by (auto simp: UpdateStatus_def job_key_def intro!: wf_intros)

lemma UpdateResumableState_safe [wf_intros]: "safe s (snd (UpdateResumableState E i st s))"
  by (auto simp: UpdateResumableState_def job_key_def intro!: wf_intros)

lemma UpdateLease_safe [wf_intros]: "safe s (snd (UpdateLease E i tok ex s))"
  by (auto simp: UpdateLease_def job_key_def intro!: wf_intros)

lemma Cancel_safe [wf_intros]: "safe s (snd (Cancel E i s))"
proof -
  let ?set = "\<lambda>now r. r\<lparr>job_status := StatusCancelled, updated_at := now\<rparr> :: row"
  have "stmt_ok (sql_update_jobs (\<lambda>r. jid r = i) ?set)"
    by (auto intro!: wf_intros simp: job_key_def all_statuses_def)
  moreover have "stmt_ok (sql_select (\<lambda>d. find (\<lambda>r. jid r = i) (jobs d)))"
    by (rule wf_intros)
  ultimately show ?thesis
    by (auto simp: Cancel_def split: prod.splits sum.splits option.splits
        dest!: exec_stmt_safe_eq intro: safe_trans)
qed

lemma ListJobs_safe [wf_intros]: "safe s (snd (ListJobs E st l off s))"
  by (auto simp: ListJobs_def Let_def split: prod.splits sum.splits
      dest!: exec_stmt_safe_eq intro!: wf_intros)

lemma PendingRecovery_safe [wf_intros]: "safe s (snd (PendingRecovery E s))"
  by (simp add: PendingRecovery_def ListJobs_safe)

lemma AppendEvent_safe [wf_intros]: "safe s (snd (AppendEvent E i k m a s))"
  by (auto simp: AppendEvent_def split: prod.splits sum.splits
      dest!: exec_stmt_safe_eq intro!: wf_intros)

lemma ListEvents_safe [wf_intros]: "safe s (snd (ListEvents E i l s))"
  by (auto simp: ListEvents_def Let_def split: prod.splits sum.splits
      dest!: exec_stmt_safe_eq intro!: wf_intros)

lemma StartAttempt_safe [wf_intros]: "safe s (snd (StartAttempt E i n s))"
  by (auto simp: StartAttempt_def split: prod.splits sum.splits
      dest!: exec_stmt_safe_eq intro!: wf_intros)

lemma FinishAttempt_safe [wf_intros]: "safe s (snd (FinishAttempt E a out m s))"
  by (auto simp: FinishAttempt_def attempt_key_def split: prod.splits sum.splits
      dest!: exec_stmt_safe_eq intro!: wf_intros)

lemma AttemptCount_safe [wf_intros]: "safe s (snd (AttemptCount E i s))"
  by (auto simp: AttemptCount_def split: prod.splits sum.splits
      dest!: exec_stmt_safe_eq intro!: wf_intros)

section \<open>What an operation does to the tables\<close>

definition tables :: "store \<Rightarrow> row list \<times> event list \<times> attempt list \<times> nat \<times> nat" where
  "tables s = (jobs s, events s, attempts s, ev_seq s, at_seq s)"

lemma tick_simps [simp]:
  "jobs (tick s) = jobs s" "events (tick s) = events s" "attempts (tick s) = attempts s"
  "ev_seq (tick s) = ev_seq s" "at_seq (tick s) = at_seq s" "stmts (tick s) = Suc (stmts s)"
  "tables (tick s) = tables s"
  by (simp_all add: tick_def tables_def)

lemma exec_stmt_InlD: "exec_stmt E f s = (Inl e, t) \<Longrightarrow> t = tick s"
  by (auto simp: exec_stmt_def split: option.splits sum.splits)

lemma exec_stmt_InrD:
  "exec_stmt E f s = (Inr x, t) \<Longrightarrow>
     db_fault E (stmts s) = None \<and> f (db_now E (stmts s)) (tick s) = Inr (x, t)"
  by (auto simp: exec_stmt_def split: option.splits sum.splits)

lemma exec_stmt_ok:
  "db_fault E (stmts s) = None \<Longrightarrow>
     exec_stmt E f s = (case f (db_now E (stmts s)) (tick s) of
        Inl e \<Rightarrow> (Inl e, tick s) | Inr (x, t) \<Rightarrow> (Inr x, t))"
  by (simp add: exec_stmt_def)

lemma exec_stmt_fault:
  "db_fault E (stmts s) = Some m \<Longrightarrow> exec_stmt E f s = (Inl (Plain m), tick s)"
  by (simp add: exec_stmt_def)

lemmas stmtD = exec_stmt_InlD exec_stmt_InrD

definition set_row :: "string \<Rightarrow> (row \<Rightarrow> row) \<Rightarrow> row list \<Rightarrow> row list" where
  "set_row i f rs = map (\<lambda>r. if jid r = i then f r else r) rs"

lemma update_job_result:
  "update_job E what i f s = (r, t) \<Longrightarrow>
     (\<exists>e. r = Inl e \<and> t = tick s) \<or>
     (r = Inr () \<and> t = (tick s)\<lparr>jobs :=
        set_row i (\<lambda>r. (f r)\<lparr>updated_at := db_now E (stmts s)\<rparr>) (jobs s)\<rparr>)"
  by (auto simp: update_job_def sql_defs set_row_def split: prod.splits sum.splits dest!: stmtD)

text \<open>Reads leave the tables as they are, whatever they return.\<close>

lemma query_job_tables [frame_simps]: "snd (query_job E p s) = tick s"
  by (auto simp: query_job_def sql_defs split: prod.splits sum.splits option.splits dest!: stmtD)

lemma GetJob_tables [frame_simps]: "snd (GetJob E i s) = tick s"
  using query_job_tables [of E "\<lambda>r. jid r = i" s]
  by (auto simp: GetJob_def split: prod.splits sum.splits)

lemma GetByWorkloadID_tables [frame_simps]: "snd (GetByWorkloadID E w s) = tick s"
  using query_job_tables [of E "\<lambda>r. workload_id r = w" s]
  by (auto simp: GetByWorkloadID_def split: prod.splits sum.splits)

lemma ListJobs_tables [frame_simps]: "snd (ListJobs E st l off s) = tick s"
  by (auto simp: ListJobs_def Let_def sql_defs split: prod.splits sum.splits dest!: stmtD)

lemma ListEvents_tables [frame_simps]: "snd (ListEvents E i l s) = tick s"
  by (auto simp: ListEvents_def Let_def sql_defs split: prod.splits sum.splits dest!: stmtD)

lemma AttemptCount_tables [frame_simps]: "snd (AttemptCount E i s) = tick s"
  by (auto simp: AttemptCount_def sql_defs split: prod.splits sum.splits dest!: stmtD)

section \<open>Properties of the operations\<close>

text \<open>
  C22. Cancel is safe on every path: whatever statement fails, an error leaves the tables
  exactly as they were; it succeeds only on a job that exists and is not terminal, and then
  changes nothing but that row, to cancelled.  A terminal job is never touched.
\<close>

theorem Cancel_only_live_jobs:
  assumes run: "Cancel E i s = (r, t)"
  shows "(\<exists>e. r = Inl e \<and> tables t = tables s) \<or>
     (r = Inr () \<and>
      (\<exists>j \<in> set (jobs s). jid j = i \<and> \<not> IsTerminal (job_status j)) \<and>
      tables t = tables (s\<lparr>jobs := set_row i
        (\<lambda>j. j\<lparr>job_status := StatusCancelled, updated_at := db_now E (Suc (stmts s))\<rparr>) (jobs s)\<rparr>))"
proof (cases "db_fault E (stmts s)")
  case (Some m)
  with run show ?thesis by (auto simp: Cancel_def exec_stmt_fault)
next
  case None
  note ok = exec_stmt_ok [where E = E and s = s, OF None]
  show ?thesis
  proof (cases "find (\<lambda>r. jid r = i) (jobs s)")
    case None
    with run show ?thesis by (auto simp: Cancel_def ok sql_select_def)
  next
    case (Some j)
    then have j: "j \<in> set (jobs s)" "jid j = i" by (auto dest: find_Some_set)
    show ?thesis
    proof (cases "IsTerminal (job_status j)")
      case True
      with run Some show ?thesis by (auto simp: Cancel_def ok sql_select_def)
    next
      case False
      with run Some j show ?thesis
        by (auto simp: Cancel_def ok sql_select_def sql_update_jobs_def tables_def set_row_def
            split: prod.splits sum.splits dest!: stmtD)
    qed
  qed
qed

text \<open>A database that never fails and a driver that scans every time, for the closed examples.\<close>

definition calm_db :: db_env where
  "calm_db = \<lparr>db_fault = (\<lambda>_. None), db_now = (\<lambda>_. ''2026-05-07 15:30:00''), db_tie = (\<lambda>_ _. 0),
     db_scan_time = Some, parse_datetime = (\<lambda>_. Some (GoTime 1))\<rparr>"

definition sample_input :: insert_input where
  "sample_input = \<lparr>in_ID = ''j1'', in_WorkloadID = ''w1'', in_OrganizationID = ''o'',
     in_WorkloadType = ''video:clip'', in_WorkloadVersion = 1, in_PayloadJSON = ''{}'',
     in_LeaseToken = ''tok'', in_LeaseExpiresAt = GoTime 9\<rparr>"

lemmas sample_simps = calm_db_def sample_input_def row_of_input_def empty_store_def tick_def
  exec_stmt_def sql_defs nullStr_def nullTime_def zero_time_def

definition sample_store :: store where
  "sample_store = snd (CreateJob calm_db sample_input empty_store)"

lemma sample_store_eq:
  "sample_store = \<lparr>jobs = [row_of_input sample_input ''2026-05-07 15:30:00''], events = [],
     attempts = [], ev_seq = 0, at_seq = 0, stmts = 1\<rparr>"
  by (simp add: sample_store_def CreateJob_def sample_simps)

theorem Cancel_only_live_jobs_witness:
  "\<exists>t. Cancel calm_db ''j1'' sample_store = (Inr (), t) \<and> tables t \<noteq> tables sample_store \<and>
     ((\<exists>e. (Inr () :: gerror + unit) = Inl e \<and> tables t = tables sample_store) \<or>
      ((Inr () :: gerror + unit) = Inr () \<and>
       (\<exists>j \<in> set (jobs sample_store). jid j = ''j1'' \<and> \<not> IsTerminal (job_status j)) \<and>
       tables t = tables (sample_store\<lparr>jobs := set_row ''j1''
         (\<lambda>j. j\<lparr>job_status := StatusCancelled,
            updated_at := db_now calm_db (Suc (stmts sample_store))\<rparr>) (jobs sample_store)\<rparr>)))"
proof -
  obtain t where t: "Cancel calm_db ''j1'' sample_store = (Inr (), t)" "tables t \<noteq> tables sample_store"
    by (simp add: Cancel_def sample_store_eq sample_simps tables_def status_defs IsTerminal_def)
  from Cancel_only_live_jobs [OF t(1)] t show ?thesis by blast
qed

lemma scan_job_cols:
  "scan_job E r = Inr j \<Longrightarrow>
     jid j = jid r \<and> workload_id j = workload_id r \<and> organization_id j = organization_id r \<and>
     workload_type j = workload_type r \<and> workload_version j = workload_version r \<and>
     payload_json j = payload_json r \<and> job_status j = job_status r \<and>
     lease_token j = lease_token r \<and> resumable_state j = resumable_state r"
  by (auto simp: scan_job_def Let_def split: option.splits)

lemma query_job_ok:
  "db_fault E (stmts s) = None \<Longrightarrow>
     query_job E p s = (case find p (jobs s) of
        None \<Rightarrow> (Inl (Sentinel ErrNoRows), tick s) | Some r \<Rightarrow> (scan_job E r, tick s))"
  by (simp add: query_job_def exec_stmt_ok sql_select_def split: option.split)

lemma scan_job_not_ErrNoRows: "scan_job E r = Inl e \<Longrightarrow> \<not> errors_is e ErrNoRows"
  by (auto simp: scan_job_def Let_def split: option.splits)

lemma GetByWorkloadID_ok:
  "db_fault E (stmts s) = None \<Longrightarrow>
     GetByWorkloadID E w s =
       (case find (\<lambda>r. workload_id r = w) (jobs s) of
          None \<Rightarrow> (Inl (Sentinel ErrNotFound), tick s)
        | Some r \<Rightarrow> (case scan_job E r of
             Inl e \<Rightarrow> (Inl (errorf ''get by workload id'' e), tick s)
           | Inr j \<Rightarrow> (Inr j, tick s)))"
  by (auto simp: GetByWorkloadID_def query_job_ok scan_job_not_ErrNoRows
      split: option.split sum.split)

lemma CreateJob_InrD:
  "CreateJob E i s = (Inr (), t) \<Longrightarrow>
     in_ID i \<notin> jid ` set (jobs s) \<and> in_WorkloadID i \<notin> workload_id ` set (jobs s) \<and>
     t = (tick s)\<lparr>jobs := jobs s @ [row_of_input i (db_now E (stmts s))]\<rparr>"
  by (auto simp: CreateJob_def sql_insert_job_def Let_def row_of_input_def
      split: prod.splits sum.splits if_splits dest!: stmtD)

lemma CreateJob_duplicate:
  assumes "db_fault E (stmts s) = None" and "in_WorkloadID k \<in> workload_id ` set (jobs s)"
  shows "\<exists>e. CreateJob E k s = (Inl e, tick s)"
proof -
  have "workload_id (row_of_input k now) = in_WorkloadID k" for now
    by (simp add: row_of_input_def)
  with assms have "\<exists>e. sql_insert_job (row_of_input k) now (tick s) = Inl e" for now
    by (simp add: sql_insert_job_def Let_def)
  then obtain e where "sql_insert_job (row_of_input k) (db_now E (stmts s)) (tick s) = Inl e"
    by blast
  then show ?thesis
    by (simp add: CreateJob_def exec_stmt_ok [OF assms(1)])
qed

lemma find_append: "find p (xs @ ys) = (case find p xs of None \<Rightarrow> find p ys | Some x \<Rightarrow> Some x)"
  by (induction xs) auto

text \<open>
  Creating a job and looking its workload up again: the row holds exactly what was put in,
  queued, with the lease; any other workload still finds what it found before; and a second
  insert for the same workload, under whatever id, is refused and changes no table.
\<close>

theorem CreateJob_then_lookup:
  assumes made: "CreateJob E i s = (Inr (), t)"
    and calm: "db_fault E (stmts t) = None"
    and scans: "\<And>x. db_scan_time E x = Some x"
  shows "(\<exists>j. fst (GetByWorkloadID E (in_WorkloadID i) t) = Inr j \<and>
      jid j = in_ID i \<and> workload_id j = in_WorkloadID i \<and> workload_type j = in_WorkloadType i \<and>
      payload_json j = in_PayloadJSON i \<and> job_status j = StatusQueued \<and>
      lease_token j = nullStr (in_LeaseToken i) \<and>
      lease_expires_at j = nullTime (in_LeaseExpiresAt i)) \<and>
    (w \<noteq> in_WorkloadID i \<longrightarrow>
      fst (GetByWorkloadID E w t) = fst (GetByWorkloadID E w (s\<lparr>stmts := stmts t\<rparr>))) \<and>
    (in_WorkloadID k = in_WorkloadID i \<longrightarrow> (\<exists>e. CreateJob E k t = (Inl e, tick t)))"
proof (intro conjI impI)
  let ?r = "row_of_input i (db_now E (stmts s))"
  from made have fresh: "in_WorkloadID i \<notin> workload_id ` set (jobs s)"
    and t: "t = (tick s)\<lparr>jobs := jobs s @ [?r]\<rparr>"
    by (auto dest!: CreateJob_InrD)
  from fresh have "find (\<lambda>r. workload_id r = in_WorkloadID i) (jobs s) = None"
    by (simp add: find_key_None)
  then have new: "find (\<lambda>r. workload_id r = in_WorkloadID i) (jobs t) = Some ?r"
    by (simp add: t find_append row_of_input_def)
  show "\<exists>j. fst (GetByWorkloadID E (in_WorkloadID i) t) = Inr j \<and>
      jid j = in_ID i \<and> workload_id j = in_WorkloadID i \<and> workload_type j = in_WorkloadType i \<and>
      payload_json j = in_PayloadJSON i \<and> job_status j = StatusQueued \<and>
      lease_token j = nullStr (in_LeaseToken i) \<and>
      lease_expires_at j = nullTime (in_LeaseExpiresAt i)"
    by (simp add: GetByWorkloadID_ok [OF calm] new scan_job_def row_of_input_def scans
        split: option.split)
  show "fst (GetByWorkloadID E w t) = fst (GetByWorkloadID E w (s\<lparr>stmts := stmts t\<rparr>))"
    if "w \<noteq> in_WorkloadID i"
  proof -
    have "find (\<lambda>r. workload_id r = w) (jobs t) = find (\<lambda>r. workload_id r = w) (jobs s)"
      using that by (simp add: t find_append row_of_input_def split: option.split)
    with calm show ?thesis
      by (simp add: GetByWorkloadID_ok split: option.split sum.split)
  qed
  show "\<exists>e. CreateJob E k t = (Inl e, tick t)" if "in_WorkloadID k = in_WorkloadID i"
    using that by (intro CreateJob_duplicate calm) (simp add: t row_of_input_def)
qed

theorem CreateJob_then_lookup_witness:
  "CreateJob calm_db sample_input empty_store = (Inr (), sample_store) \<and>
   (\<exists>j. fst (GetByWorkloadID calm_db ''w1'' sample_store) = Inr j \<and> jid j = ''j1'' \<and>
      lease_token j = Some ''tok'') \<and>
   (\<exists>e. CreateJob calm_db (sample_input\<lparr>in_ID := ''j2''\<rparr>) sample_store = (Inl e, tick sample_store))"
proof -
  have made: "CreateJob calm_db sample_input empty_store = (Inr (), sample_store)"
    by (simp add: CreateJob_def sample_store_eq sample_simps)
  have calm: "db_fault calm_db (stmts sample_store) = None"
    and scans: "db_scan_time calm_db x = Some x" for x
    by (simp_all add: calm_db_def)
  have "in_WorkloadID (sample_input\<lparr>in_ID := ''j2''\<rparr>) = in_WorkloadID sample_input" by simp
  with CreateJob_then_lookup [OF made calm scans] made
  show ?thesis by (auto simp: sample_input_def nullStr_def)
qed

lemma scan_all_ok:
  "scan_all E rs = Inr js \<Longrightarrow> list_all2 (\<lambda>r j. scan_job E r = Inr j) rs js"
  by (induction E rs arbitrary: js rule: scan_all.induct) (auto split: sum.splits)

lemma scan_all_fails:
  "r \<in> set rs \<Longrightarrow> scan_job E r = Inl e \<Longrightarrow> \<exists>e'. scan_all E rs = Inl e'"
  by (induction E rs rule: scan_all.induct) (auto split: sum.splits)

lemma newer_first_sorted: "sorted_wrt (newer_first tie) (order_by (newer_first tie) rs)"
  by (rule sorted_order_by) (auto simp: newer_first_def)

lemma newer_first_created: "newer_first tie a b \<Longrightarrow> created_at b \<le> created_at a"
  by (auto simp: newer_first_def)

lemma sorted_wrt_page: "sorted_wrt P xs \<Longrightarrow> sorted_wrt P (take n (drop m xs))"
  by simp

lemma ListJobs_InrD:
  assumes "ListJobs E st limit offset s = (Inr js, t)"
  defines "n \<equiv> if limit \<le> 0 then 50 else limit"
  shows "list_all2 (\<lambda>r j. scan_job E r = Inr j) (select_page (db_tie E (stmts s)) st n offset s) js"
  using assms
  by (auto simp: ListJobs_def Let_def sql_select_def select_page_def split: prod.splits sum.splits
      dest!: stmtD intro!: scan_all_ok)

text \<open>
  A listing is one page of the table: as many rows as the limit (50 when none is given)
  and the offset leave, all of the asked status, each a row of the table and none twice,
  newest first.
\<close>

theorem ListJobs_page:
  assumes wf: "store_wf s" and run: "ListJobs E st limit offset s = (Inr js, t)"
  defines "n \<equiv> if limit \<le> 0 then 50 else nat limit"
    and "matching \<equiv> filter (\<lambda>r. st = [] \<or> job_status r = st) (jobs s)"
  shows "length js = min n (length matching - nat offset) \<and>
    (\<exists>rs. map jid rs = map jid js \<and> map job_status rs = map job_status js \<and>
      set rs \<subseteq> set matching \<and> distinct (map jid js) \<and>
      sorted_wrt (\<lambda>a b. created_at b \<le> created_at a) rs)"
proof (rule conjI)
  let ?le = "newer_first (db_tie E (stmts s))"
  define rs where "rs = take n (drop (nat offset) (order_by ?le matching))"
  have scanned: "list_all2 (\<lambda>r j. scan_job E r = Inr j) rs js"
    using ListJobs_InrD [OF run]
    by (simp add: rs_def n_def matching_def select_page_def split: if_splits)
  from list_all2_lengthD [OF scanned] show "length js = min n (length matching - nat offset)"
    by (simp add: rs_def min.commute)
  have cols: "map jid rs = map jid js" "map job_status rs = map job_status js"
    using scanned by (induction rule: list_all2_induct) (auto dest: scan_job_cols)
  have "set rs \<subseteq> set matching"
    unfolding rs_def using set_take_subset set_drop_subset by (metis order_trans set_order_by)
  moreover have "distinct (map jid rs)"
  proof -
    have inj: "inj_on jid (set matching)"
      using wf by (auto simp: store_wf_def matching_def distinct_map intro: inj_on_subset)
    have "distinct rs"
      using wf by (simp add: rs_def matching_def store_wf_def distinct_map)
    with inj \<open>set rs \<subseteq> set matching\<close> show ?thesis
      by (simp add: distinct_map inj_on_subset)
  qed
  moreover have "sorted_wrt (\<lambda>a b. created_at b \<le> created_at a) rs"
    using sorted_wrt_page [OF newer_first_sorted]
    unfolding rs_def by (rule sorted_wrt_mono_rel [rotated]) (auto dest: newer_first_created)
  ultimately show "\<exists>rs. map jid rs = map jid js \<and> map job_status rs = map job_status js \<and>
      set rs \<subseteq> set matching \<and> distinct (map jid js) \<and>
      sorted_wrt (\<lambda>a b. created_at b \<le> created_at a) rs"
    using cols by auto
qed

lemma sample_store_wf: "store_wf sample_store"
  by (simp add: store_wf_def sample_store_eq row_of_input_def all_statuses_def)

theorem ListJobs_page_witness:
  "\<exists>js t. ListJobs calm_db ''queued'' 0 0 sample_store = (Inr js, t) \<and> length js = 1"
proof -
  have "\<exists>js t. ListJobs calm_db ''queued'' 0 0 sample_store = (Inr js, t)"
    by (simp add: ListJobs_def sample_store_eq sample_simps select_page_def status_defs
        order_by_def scan_job_def)
  then obtain js t where run: "ListJobs calm_db ''queued'' 0 0 sample_store = (Inr js, t)" by blast
  have "length js = 1"
    using ListJobs_page [OF sample_store_wf run]
    by (simp add: sample_store_eq row_of_input_def status_defs)
  with run show ?thesis by blast
qed

text \<open>
  The driver behaviour the repository's own recovery test reports (\<open>recovery_test.go\<close>: a
  populated \<open>lease_expires_at\<close> comes back as a string and does not scan into
  \<open>sql.NullTime\<close>) is the hypothesis below.
\<close>

definition lease_unscannable :: "'e db_env_scheme \<Rightarrow> bool" where
  "lease_unscannable E \<longleftrightarrow> (\<forall>t. db_scan_time E t = None)"

text \<open>
  C29. With that driver a job that carries a lease expiry cannot be read back at all: neither
  by id, nor by workload (the error is not \<open>ErrNotFound\<close>), nor in the listing of its status, nor
  in any listing, whatever its filter, limit and offset, whose page the job falls on.
\<close>

theorem leased_job_unreadable:
  assumes wf: "store_wf s" and drv: "lease_unscannable E" and calm: "db_fault E (stmts s) = None"
    and r: "r \<in> set (jobs s)" and leased: "lease_expires_at r \<noteq> None"
  shows "(\<exists>e. fst (GetJob E (jid r) s) = Inl e \<and> \<not> errors_is e ErrNotFound) \<and>
    (\<exists>e. fst (GetByWorkloadID E (workload_id r) s) = Inl e \<and> \<not> errors_is e ErrNotFound) \<and>
    (\<exists>e. fst (ListJobs E (job_status r) (1 + int (length (jobs s))) 0 s) = Inl e) \<and>
    (\<forall>st lim off. r \<in> set (select_page (db_tie E (stmts s)) st (if lim \<le> 0 then 50 else lim) off s) \<longrightarrow>
      (\<exists>e. fst (ListJobs E st lim off s) = Inl e))"
proof (intro conjI)
  obtain m where bad: "scan_job E r = Inl (Plain m)"
    using drv leased by (auto simp: scan_job_def lease_unscannable_def Let_def)
  have keys: "distinct (map jid (jobs s))" "distinct (map workload_id (jobs s))"
    using wf by (auto simp: store_wf_def)
  show "\<exists>e. fst (GetJob E (jid r) s) = Inl e \<and> \<not> errors_is e ErrNotFound"
    using find_unique [OF keys(1) r] bad by (simp add: GetJob_def query_job_ok calm)
  show "\<exists>e. fst (GetByWorkloadID E (workload_id r) s) = Inl e \<and> \<not> errors_is e ErrNotFound"
    using find_unique [OF keys(2) r] bad by (simp add: GetByWorkloadID_ok calm)
  have page: "\<exists>e. fst (ListJobs E st lim off s) = Inl e"
    if on: "r \<in> set (select_page (db_tie E (stmts s)) st (if lim \<le> 0 then 50 else lim) off s)" for st lim off
  proof -
    have "r \<in> set (select_page (db_tie E (stmts s)) st (if lim \<le> 0 then 50 else lim) off (tick s))"
      using on by (simp add: select_page_def)
    from scan_all_fails [OF this bad] show ?thesis by (auto simp: ListJobs_def exec_stmt_ok [OF calm] sql_select_def)
  qed
  then show "\<forall>st lim off. r \<in> set (select_page (db_tie E (stmts s)) st (if lim \<le> 0 then 50 else lim) off s) \<longrightarrow>
    (\<exists>e. fst (ListJobs E st lim off s) = Inl e)" by blast
  have "r \<in> set (select_page (db_tie E (stmts s)) (job_status r) (1 + int (length (jobs s))) 0 s)"
    using r by (simp add: select_page_def nat_add_distrib le_Suc_eq le_trans [OF length_filter_le])
  then show "\<exists>e. fst (ListJobs E (job_status r) (1 + int (length (jobs s))) 0 s) = Inl e"
    by (intro page) simp
qed

theorem leased_job_unreadable_witness:
  "(\<exists>e. fst (GetByWorkloadID (calm_db\<lparr>db_scan_time := \<lambda>_. None\<rparr>) ''w1'' sample_store) = Inl e \<and>
     \<not> errors_is e ErrNotFound)"
proof -
  let ?E = "calm_db\<lparr>db_scan_time := \<lambda>_. None\<rparr>"
  have "row_of_input sample_input ''2026-05-07 15:30:00'' \<in> set (jobs sample_store)"
    by (simp add: sample_store_eq)
  moreover have "lease_expires_at (row_of_input sample_input ''2026-05-07 15:30:00'') \<noteq> None"
    by (simp add: sample_simps)
  moreover have "lease_unscannable ?E" "db_fault ?E (stmts sample_store) = None"
    by (simp_all add: lease_unscannable_def calm_db_def)
  ultimately show ?thesis
    using leased_job_unreadable [OF sample_store_wf, of ?E]
    by (metis (no_types) row_of_input_def job_cols.select_convs(2) sample_input_def insert_input.select_convs(2))
qed

end
