(* ===== verification/Net.thy ===== *)
theory Net
  imports Complex_Main Store
begin

text \<open>
  The network and the JSON layer as the program uses them: requests, responses, and the
  decoding of a JSON value into Go structs by \<open>encoding/json\<close>.

  The cloud is a parameter: a function from the requests sent so far to the outcome of the
  last one.  So are the clock, the random UUIDs, the text-to-JSON step of \<open>json.Unmarshal\<close>, the
  RFC 3339 codec of \<open>time.Time\<close> and the URL parser behind \<open>http.NewRequest\<close>.
\<close>

section \<open>JSON values\<close>

text \<open>A number literal without fraction and exponent is \<open>JInt\<close>: only those decode into a Go int.\<close>

datatype json =
    JNull
  | JBool bool
  | JInt int
  | JReal rat
  | JText string
  | JList "json list"
  | JObj "(string \<times> json) list"

section \<open>Requests and responses\<close>

record request =
  rq_method :: string
  rq_url :: string
  rq_headers :: "(string \<times> string) list"
  rq_body :: "json option"

text \<open>\<open>Reply status body err\<close>: \<open>err\<close> is the error of reading the body, \<open>body\<close> what was read.\<close>

datatype http_result = TransportError string | Reply int string "string option"

record env = db_env +
  server :: "request list \<Rightarrow> http_result"
  clock :: "nat \<Rightarrow> gotime"
  uuid :: "nat \<Rightarrow> string"
  url_ok :: "string \<Rightarrow> bool"
  json_of_text :: "string \<Rightarrow> json option"
  time_text :: "gotime \<Rightarrow> string option"
  time_of_text :: "string \<Rightarrow> gotime option"
  ks_fault :: "nat \<Rightarrow> (string \<times> bool) option"

text \<open>\<open>time.Time\<close> marshals to RFC 3339 text (or fails, for years beyond 9999) and parses back.\<close>

definition time_codec :: "'e env_scheme \<Rightarrow> bool" where
  "time_codec E \<longleftrightarrow> (\<forall>t s. time_text E t = Some s \<longrightarrow> time_of_text E s = Some t)"

text \<open>What the requests consume: the log of requests, clock readings and UUIDs drawn.\<close>

record netw =
  sent :: "request list"
  clock_reads :: nat
  uuids :: nat

definition http_do :: "'e env_scheme \<Rightarrow> request \<Rightarrow> 'w netw_scheme \<Rightarrow> http_result \<times> 'w netw_scheme" where
  "http_do E rq w = (server E (sent w @ [rq]), w\<lparr>sent := sent w @ [rq]\<rparr>)"

definition time_now :: "'e env_scheme \<Rightarrow> 'w netw_scheme \<Rightarrow> gotime \<times> 'w netw_scheme" where
  "time_now E w = (clock E (clock_reads w), w\<lparr>clock_reads := Suc (clock_reads w)\<rparr>)"

definition new_uuid :: "'e env_scheme \<Rightarrow> 'w netw_scheme \<Rightarrow> string \<times> 'w netw_scheme" where
  "new_uuid E w = (uuid E (uuids w), w\<lparr>uuids := Suc (uuids w)\<rparr>)"

definition StatusOK :: int where "StatusOK = 200"

definition StatusNoContent :: int where "StatusNoContent = 204"

definition StatusUnauthorized :: int where "StatusUnauthorized = 401"

lemmas http_status_defs = StatusOK_def StatusNoContent_def StatusUnauthorized_def

section \<open>Decoding into structs\<close>

text \<open>
  \<open>json.Unmarshal\<close> walks the keys of an object in order and stores each into the field it
  names, exactly or up to case; a later occurrence overwrites, \<open>null\<close> leaves a field as it is,
  and a value of the wrong kind makes the whole call return an error.
\<close>

definition fold_char :: "char \<Rightarrow> char" where
  "fold_char c = (if CHR ''A'' \<le> c \<and> c \<le> CHR ''Z'' then char_of (of_char c + 32 :: nat) else c)"

definition fold_key :: "string \<Rightarrow> string" where
  "fold_key = map fold_char"

type_synonym 'a decoder = "'a \<Rightarrow> json \<Rightarrow> 'a option"

definition dec_field :: "string \<Rightarrow> 'a decoder \<Rightarrow> 'a \<Rightarrow> (string \<times> json) list \<Rightarrow> 'a option" where
  "dec_field name dec zero kvs =
     foldl (\<lambda>r (k, j). case r of None \<Rightarrow> None
        | Some v \<Rightarrow> (if fold_key k = fold_key name then dec v j else Some v)) (Some zero) kvs"

definition dec_string :: "string decoder" where
  "dec_string v j = (case j of JNull \<Rightarrow> Some v | JText s \<Rightarrow> Some s | _ \<Rightarrow> None)"

definition dec_int :: "int decoder" where
  "dec_int v j =
     (case j of JNull \<Rightarrow> Some v
      | JInt n \<Rightarrow> (if - (2 ^ 63) \<le> n \<and> n < 2 ^ 63 then Some n else None)
      | _ \<Rightarrow> None)"

definition dec_time :: "'e env_scheme \<Rightarrow> gotime decoder" where
  "dec_time E v j = (case j of JNull \<Rightarrow> Some v | JText s \<Rightarrow> time_of_text E s | _ \<Rightarrow> None)"

text \<open>A \<open>map[string]any\<close>; the nil map is \<open>None\<close>.\<close>

definition dec_map :: "(string \<times> json) list option decoder" where
  "dec_map v j =
     (case j of JNull \<Rightarrow> Some None
      | JObj kvs \<Rightarrow> Some (Some ((case v of None \<Rightarrow> [] | Some m \<Rightarrow> m) @ kvs))
      | _ \<Rightarrow> None)"

text \<open>A struct: its fields are decoded over the value that is there.\<close>

definition dec_struct :: "('a \<Rightarrow> (string \<times> json) list \<Rightarrow> 'a option) \<Rightarrow> 'a decoder" where
  "dec_struct f v j = (case j of JNull \<Rightarrow> Some v | JObj kvs \<Rightarrow> f v kvs | _ \<Rightarrow> None)"

lemmas dec_defs = dec_field_def dec_string_def dec_int_def dec_time_def dec_map_def dec_struct_def
  fold_key_def fold_char_def

text \<open>The \<open>data\<close> envelope of the cloud's responses, from the text of the body.\<close>

definition unmarshal_data :: "'e env_scheme \<Rightarrow> 'a decoder \<Rightarrow> 'a \<Rightarrow> string \<Rightarrow> gerror + 'a" where
  "unmarshal_data E dec zero body =
     (case json_of_text E body of
        None \<Rightarrow> Inl (Plain ''invalid JSON'')
      | Some j \<Rightarrow>
          (case dec_struct (dec_field ''data'' dec) zero j of
             None \<Rightarrow> Inl (Plain ''json: cannot unmarshal'')
           | Some v \<Rightarrow> Inr v))"

text \<open>A calm environment for the closed examples, given the cloud and the JSON texts in play.\<close>

definition far_time :: gotime where
  "far_time = GoTime (1000 * minute)"

definition calm_env :: "(request list \<Rightarrow> http_result) \<Rightarrow> (string \<Rightarrow> json option) \<Rightarrow> env" where
  "calm_env srv js =
     \<lparr>db_fault = (\<lambda>_. None), db_now = (\<lambda>_. ''2026-05-07 15:30:00''), db_tie = (\<lambda>_ _. 0),
      db_scan_time = Some, parse_datetime = (\<lambda>_. Some (GoTime 1)),
      server = srv, clock = (\<lambda>_. zero_time), uuid = (\<lambda>n. replicate (Suc n) (CHR ''u'')),
      url_ok = (\<lambda>_. True), json_of_text = js,
      time_text = (\<lambda>t. if t = zero_time then Some ''Z'' else if t = far_time then Some ''F'' else None),
      time_of_text = (\<lambda>s. if s = ''Z'' then Some zero_time else if s = ''F'' then Some far_time else None),
      ks_fault = (\<lambda>_. None)\<rparr>"

lemma calm_env_codec [simp]: "time_codec (calm_env srv js)"
  by (simp add: time_codec_def calm_env_def far_time_def zero_time_def)

lemma calm_env_simps [simp]:
  "server (calm_env srv js) = srv" "json_of_text (calm_env srv js) = js"
  "clock (calm_env srv js) n = zero_time" "url_ok (calm_env srv js) u"
  "ks_fault (calm_env srv js) k = None" "db_fault (calm_env srv js) k = None"
  "db_scan_time (calm_env srv js) t = Some t"
  by (simp_all add: calm_env_def)

end
