(* ===== verification/Auth.thy ===== *)
theory Auth
  imports Net
begin

text \<open>
  Package \<open>internal/auth\<close>: the persisted session bundle and its keystore backends
  (\<open>keystore.go\<close>), the pairing client (\<open>pairing.go\<close>) and the token source that hands out the
  bearer token and rotates it (\<open>source.go\<close>).

  The keystore and the token source each guard their methods with a mutex, so a method is one
  atomic operation here.
\<close>

section \<open>Session bundles\<close>

record session_bundle =
  DeviceID :: string
  OrganizationID :: string
  UserID :: string
  SessionJWT :: string
  SessionExpiresAt :: gotime
  RefreshToken :: string
  RefreshExpiresAt :: gotime
  HwFingerprint :: string

definition zero_bundle :: session_bundle where
  "zero_bundle = \<lparr>DeviceID = [], OrganizationID = [], UserID = [], SessionJWT = [],
     SessionExpiresAt = zero_time, RefreshToken = [], RefreshExpiresAt = zero_time,
     HwFingerprint = []\<rparr>"

text \<open>\<open>json.Marshal\<close> of a bundle with the struct tags: only an unprintable time makes it fail.\<close>

definition bundle_json :: "'e env_scheme \<Rightarrow> session_bundle \<Rightarrow> json option" where
  "bundle_json E b =
     (case (time_text E (SessionExpiresAt b), time_text E (RefreshExpiresAt b)) of
        (Some s, Some r) \<Rightarrow> Some (JObj
          [(''device_id'', JText (DeviceID b)), (''organization_id'', JText (OrganizationID b)),
           (''user_id'', JText (UserID b)), (''session_jwt'', JText (SessionJWT b)),
           (''session_expires_at'', JText s), (''refresh_token'', JText (RefreshToken b)),
           (''refresh_expires_at'', JText r), (''hw_fingerprint'', JText (HwFingerprint b))])
      | _ \<Rightarrow> None)"

definition bundle_fields :: "'e env_scheme \<Rightarrow> session_bundle \<Rightarrow> (string \<times> json) list \<Rightarrow> session_bundle option" where
  "bundle_fields E b kvs =
     (case (dec_field ''device_id'' dec_string (DeviceID b) kvs,
            dec_field ''organization_id'' dec_string (OrganizationID b) kvs,
            dec_field ''user_id'' dec_string (UserID b) kvs,
            dec_field ''session_jwt'' dec_string (SessionJWT b) kvs,
            dec_field ''session_expires_at'' (dec_time E) (SessionExpiresAt b) kvs,
            dec_field ''refresh_token'' dec_string (RefreshToken b) kvs,
            dec_field ''refresh_expires_at'' (dec_time E) (RefreshExpiresAt b) kvs,
            dec_field ''hw_fingerprint'' dec_string (HwFingerprint b) kvs) of
        (Some d, Some org, Some u, Some j, Some je, Some r, Some re, Some h) \<Rightarrow>
          Some \<lparr>DeviceID = d, OrganizationID = org, UserID = u, SessionJWT = j,
                SessionExpiresAt = je, RefreshToken = r, RefreshExpiresAt = re, HwFingerprint = h\<rparr>
      | _ \<Rightarrow> None)"

definition bundle_of_json :: "'e env_scheme \<Rightarrow> json \<Rightarrow> session_bundle option" where
  "bundle_of_json E j = dec_struct (bundle_fields E) zero_bundle j"

lemma bundle_roundtrip:
  assumes "time_codec E" and "bundle_json E b = Some j"
  shows "bundle_of_json E j = Some b"
proof -
  from assms(2) obtain s r where s: "time_text E (SessionExpiresAt b) = Some s"
    and r: "time_text E (RefreshExpiresAt b) = Some r"
    by (auto simp: bundle_json_def split: option.splits)
  with assms have "time_of_text E s = Some (SessionExpiresAt b)"
    "time_of_text E r = Some (RefreshExpiresAt b)"
    by (auto simp: time_codec_def)
  with assms(2) s r show ?thesis
    by (auto simp: bundle_json_def bundle_of_json_def bundle_fields_def zero_bundle_def dec_defs)
qed

section \<open>Keystore backends\<close>

text \<open>
  \<open>NewKeystore\<close> picks the OS keyring, else a file, else a disabled store with the error of its
  initialisation.  What lies at the item's key or path is nothing, a JSON text, or text that
  is not JSON.  The n-th call on the medium may fail (\<open>ks_fault\<close>); a failed file write may
  have damaged the file, the flag of the fault.
\<close>

datatype kitem = NoItem | Stored json | Damaged

datatype kbackend = KeyringBackend | FileBackend | DisabledBackend gerror

record keystore =
  backend :: kbackend
  item :: kitem
  ks_calls :: nat

definition NewKeystore :: "string option \<Rightarrow> string option \<Rightarrow> kitem \<Rightarrow> keystore" where
  "NewKeystore ring_err mkdir_err present =
     (let b = (case ring_err of
          None \<Rightarrow> KeyringBackend
        | Some _ \<Rightarrow> (case mkdir_err of
              None \<Rightarrow> FileBackend
            | Some m \<Rightarrow> DisabledBackend (errorf ''init keystore secretsDir'' (Plain m))))
      in \<lparr>backend = b, item = present, ks_calls = 0\<rparr>)"

definition ks_tick :: "keystore \<Rightarrow> keystore" where
  "ks_tick k = k\<lparr>ks_calls := Suc (ks_calls k)\<rparr>"

definition ks_Save :: "'e env_scheme \<Rightarrow> session_bundle \<Rightarrow> keystore \<Rightarrow> gerror option \<times> keystore" where
  "ks_Save E b k =
     (case backend k of
        DisabledBackend e \<Rightarrow> (Some e, k)
      | KeyringBackend \<Rightarrow>
          (case bundle_json E b of
             None \<Rightarrow> (Some (errorf ''marshal session'' (Plain ''json: error calling MarshalJSON'')), k)
           | Some j \<Rightarrow> (case ks_fault E (ks_calls k) of
                 Some (m, _) \<Rightarrow> (Some (errorf ''keyring set'' (Plain m)), ks_tick k)
               | None \<Rightarrow> (None, (ks_tick k)\<lparr>item := Stored j\<rparr>)))
      | FileBackend \<Rightarrow>
          (case bundle_json E b of
             None \<Rightarrow> (Some (errorf ''marshal session'' (Plain ''json: error calling MarshalJSON'')), k)
           | Some j \<Rightarrow> (case ks_fault E (ks_calls k) of
                 Some (m, damaged) \<Rightarrow>
                   (Some (Plain m), (ks_tick k)\<lparr>item := (if damaged then Damaged else item k)\<rparr>)
               | None \<Rightarrow> (None, (ks_tick k)\<lparr>item := Stored j\<rparr>))))"

definition unmarshal_session :: "'e env_scheme \<Rightarrow> kitem \<Rightarrow> gerror + session_bundle" where
  "unmarshal_session E i =
     (case i of
        NoItem \<Rightarrow> Inl (Sentinel ErrNoSession)
      | Damaged \<Rightarrow> Inl (errorf ''unmarshal session'' (Plain ''invalid JSON''))
      | Stored j \<Rightarrow> (case bundle_of_json E j of
            None \<Rightarrow> Inl (errorf ''unmarshal session'' (Plain ''json: cannot unmarshal''))
          | Some b \<Rightarrow> Inr b))"

definition ks_Load :: "'e env_scheme \<Rightarrow> keystore \<Rightarrow> (gerror + session_bundle) \<times> keystore" where
  "ks_Load E k =
     (case backend k of
        DisabledBackend e \<Rightarrow> (Inl e, k)
      | KeyringBackend \<Rightarrow> (case ks_fault E (ks_calls k) of
            Some (m, _) \<Rightarrow> (Inl (errorf ''keyring get'' (Plain m)), ks_tick k)
          | None \<Rightarrow> (unmarshal_session E (item k), ks_tick k))
      | FileBackend \<Rightarrow> (case ks_fault E (ks_calls k) of
            Some (m, _) \<Rightarrow> (Inl (errorf ''read session'' (Plain m)), ks_tick k)
          | None \<Rightarrow> (unmarshal_session E (item k), ks_tick k)))"

definition ks_Clear :: "'e env_scheme \<Rightarrow> keystore \<Rightarrow> gerror option \<times> keystore" where
  "ks_Clear E k =
     (case backend k of
        DisabledBackend e \<Rightarrow> (Some e, k)
      | KeyringBackend \<Rightarrow> (case ks_fault E (ks_calls k) of
            Some (m, _) \<Rightarrow> (Some (errorf ''keyring remove'' (Plain m)), ks_tick k)
          | None \<Rightarrow> (None, (ks_tick k)\<lparr>item := NoItem\<rparr>))
      | FileBackend \<Rightarrow> (case ks_fault E (ks_calls k) of
            Some (m, _) \<Rightarrow> (Some (errorf ''remove session'' (Plain m)), ks_tick k)
          | None \<Rightarrow> (None, (ks_tick k)\<lparr>item := NoItem\<rparr>)))"

definition ks_Backend :: "keystore \<Rightarrow> string" where
  "ks_Backend k =
     (case backend k of KeyringBackend \<Rightarrow> ''keyring'' | FileBackend \<Rightarrow> ''file''
      | DisabledBackend _ \<Rightarrow> ''disabled'')"

text \<open>
  The contract of a keystore: after a successful save a load that reaches the medium returns
  what was saved, after a successful clear it reports \<open>ErrNoSession\<close>, and loading does not
  change what a later load returns.
\<close>

locale session_store =
  fixes save :: "'b \<Rightarrow> 's \<Rightarrow> gerror option \<times> 's" and load :: "'s \<Rightarrow> (gerror + 'b) \<times> 's"
    and clear :: "'s \<Rightarrow> gerror option \<times> 's" and calm :: "'s \<Rightarrow> bool"
  assumes load_saved: "save b s = (None, t) \<Longrightarrow> calm t \<Longrightarrow> fst (load t) = Inr b"
    and load_cleared: "clear s = (None, t) \<Longrightarrow> calm t \<Longrightarrow> fst (load t) = Inl (Sentinel ErrNoSession)"
    and load_keeps: "load s = (r, t) \<Longrightarrow> calm s \<Longrightarrow> calm t \<Longrightarrow> fst (load t) = r"
begin

lemma last_save_wins:
  "save b s = (None, t) \<Longrightarrow> save b' t = (None, u) \<Longrightarrow> calm u \<Longrightarrow> fst (load u) = Inr b'"
  by (rule load_saved)

lemma cleared_then_saved:
  "clear s = (None, t) \<Longrightarrow> save b t = (None, u) \<Longrightarrow> calm u \<Longrightarrow> fst (load u) = Inr b"
  by (rule load_saved)

lemma load_twice:
  "save b s = (None, t) \<Longrightarrow> calm t \<Longrightarrow> load t = (r, u) \<Longrightarrow> calm u \<Longrightarrow> fst (load u) = Inr b"
  using load_saved load_keeps by fastforce

end

definition ks_calm :: "'e env_scheme \<Rightarrow> keystore \<Rightarrow> bool" where
  "ks_calm E k \<longleftrightarrow> time_codec E \<and> ks_fault E (ks_calls k) = None"

lemma ks_tick_simps [simp]: "backend (ks_tick k) = backend k" "item (ks_tick k) = item k"
  by (simp_all add: ks_tick_def)

interpretation keystores: session_store "ks_Save E" "ks_Load E" "ks_Clear E" "ks_calm E" for E
proof unfold_locales
  fix b s t
  assume "ks_Save E b s = (None, t)" and "ks_calm E t"
  then show "fst (ks_Load E t) = Inr b"
    by (auto simp: ks_Save_def ks_Load_def ks_calm_def unmarshal_session_def bundle_roundtrip
        split: kbackend.splits option.splits)
next
  fix s t
  assume "ks_Clear E s = (None, t)" and "ks_calm E t"
  then show "fst (ks_Load E t) = Inl (Sentinel ErrNoSession)"
    by (auto simp: ks_Clear_def ks_Load_def ks_calm_def unmarshal_session_def
        split: kbackend.splits option.splits)
next
  fix s r t
  assume "ks_Load E s = (r, t)" and "ks_calm E s" and "ks_calm E t"
  then show "fst (ks_Load E t) = r"
    by (auto simp: ks_Load_def ks_calm_def split: kbackend.splits option.splits)
qed

end
