(* ===== verification/Tokens.thy ===== *)
theory Tokens
  imports Auth
begin

text \<open>
  The pairing client (\<open>internal/auth/pairing.go\<close>) and the token source
  (\<open>internal/auth/source.go\<close>) over the keystore of theory Auth.
\<close>

section \<open>Pairing client\<close>

text \<open>A \<open>PairingClient\<close> is its base URL, without trailing slashes.\<close>

definition NewPairingClient :: "string \<Rightarrow> string" where
  "NewPairingClient baseURL = TrimRightSlash baseURL"

record response_token =
  Token :: string
  ExpiresAt :: gotime

record exchange_response =
  ResDeviceID :: string
  ResOrganizationID :: string
  Session :: response_token
  Refreshed :: response_token

definition zero_token :: response_token where
  "zero_token = \<lparr>Token = [], ExpiresAt = zero_time\<rparr>"

definition zero_exchange :: exchange_response where
  "zero_exchange = \<lparr>ResDeviceID = [], ResOrganizationID = [], Session = zero_token,
     Refreshed = zero_token\<rparr>"

definition dec_token :: "'e env_scheme \<Rightarrow> response_token decoder" where
  "dec_token E = dec_struct (\<lambda>v kvs.
     case (dec_field ''token'' dec_string (Token v) kvs,
           dec_field ''expires_at'' (dec_time E) (ExpiresAt v) kvs) of
       (Some t, Some x) \<Rightarrow> Some \<lparr>Token = t, ExpiresAt = x\<rparr>
     | _ \<Rightarrow> None)"

definition dec_device :: "(string \<times> string) decoder" where
  "dec_device = dec_struct (\<lambda>v kvs.
     case (dec_field ''id'' dec_string (fst v) kvs,
           dec_field ''organization_id'' dec_string (snd v) kvs) of
       (Some i, Some org) \<Rightarrow> Some (i, org)
     | _ \<Rightarrow> None)"

definition dec_exchange :: "'e env_scheme \<Rightarrow> exchange_response decoder" where
  "dec_exchange E = dec_struct (\<lambda>v kvs.
     case (dec_field ''device'' dec_device (ResDeviceID v, ResOrganizationID v) kvs,
           dec_field ''session'' (dec_token E) (Session v) kvs,
           dec_field ''refresh'' (dec_token E) (Refreshed v) kvs) of
       (Some (i, org), Some s, Some r) \<Rightarrow>
         Some \<lparr>ResDeviceID = i, ResOrganizationID = org, Session = s, Refreshed = r\<rparr>
     | _ \<Rightarrow> None)"

definition bad_url :: gerror where
  "bad_url = Plain ''parse: invalid URL''"

lemma bad_url_plain [simp]: "\<not> errors_is bad_url x"
  by (simp add: bad_url_def)

text \<open>
  \<open>Exchange\<close> and \<open>Refresh\<close> are the same call under two names and paths.  The error of reading
  the response body is ignored, whatever was read is used.
\<close>

definition post_request :: "string \<Rightarrow> json \<Rightarrow> string \<Rightarrow> request" where
  "post_request url body idem =
     \<lparr>rq_method = ''POST'', rq_url = url,
      rq_headers = [(''Content-Type'', ''application/json''), (''Idempotency-Key'', idem)],
      rq_body = Some body\<rparr>"

definition pairing_reply :: "'e env_scheme \<Rightarrow> string \<Rightarrow> http_result \<Rightarrow> gerror + exchange_response" where
  "pairing_reply E what r =
     (case r of
        TransportError m \<Rightarrow> Inl (errorf (what @ '' http'') (Plain m))
      | Reply st body _ \<Rightarrow>
          (if st = StatusUnauthorized then
             Inl (Wrap (what @ '': '' @ sentinel_text AuthErrUnauthorized @ '' (body: '' @ body @ '')'')
                (Sentinel AuthErrUnauthorized))
           else if st \<noteq> StatusOK then Inl (Plain (what @ '': status '' @ itoa st @ '': '' @ body))
           else (case unmarshal_data E (dec_exchange E) zero_exchange body of
               Inl e \<Rightarrow> Inl (errorf (''decode '' @ what) e)
             | Inr x \<Rightarrow> Inr x)))"

definition pairing_call ::
  "'e env_scheme \<Rightarrow> string \<Rightarrow> string \<Rightarrow> json \<Rightarrow> 'w netw_scheme \<Rightarrow>
     (gerror + exchange_response) \<times> 'w netw_scheme" where
  "pairing_call E what url body w =
     (if \<not> url_ok E url then (Inl (errorf (''new '' @ what @ '' request'') bad_url), w)
      else
        (let (idem, w1) = new_uuid E w; (r, w2) = http_do E (post_request url body idem) w1
         in (pairing_reply E what r, w2)))"

record device =
  InstallationID :: string
  DisplayName :: string
  Hostname :: string
  DevOS :: string
  DevArch :: string
  AppVersion :: string
  RuntimeVersion :: string

definition omitempty :: "string \<Rightarrow> string \<Rightarrow> (string \<times> json) list" where
  "omitempty k v = (if v = [] then [] else [(k, JText v)])"

definition device_json :: "device \<Rightarrow> json" where
  "device_json d = JObj
     ([(''installation_id'', JText (InstallationID d)), (''display_name'', JText (DisplayName d))] @
      omitempty ''hostname'' (Hostname d) @ [(''os'', JText (DevOS d)), (''arch'', JText (DevArch d))] @
      omitempty ''app_version'' (AppVersion d) @ omitempty ''runtime_version'' (RuntimeVersion d))"

record exchange_request =
  DisplayCode :: string
  Device :: device
  ReqHwFingerprint :: string
  DevicePubkey :: string

definition exchange_json :: "exchange_request \<Rightarrow> json" where
  "exchange_json r = JObj
     ([(''display_code'', JText (DisplayCode r)), (''device'', device_json (Device r)),
       (''hw_fingerprint'', JText (ReqHwFingerprint r))] @ omitempty ''device_pubkey'' (DevicePubkey r))"

definition Exchange ::
  "'e env_scheme \<Rightarrow> string \<Rightarrow> exchange_request \<Rightarrow> 'w netw_scheme \<Rightarrow>
     (gerror + exchange_response) \<times> 'w netw_scheme" where
  "Exchange E base req = pairing_call E ''exchange'' (base @ ''/v1/desktop/exchange'') (exchange_json req)"

definition refresh_json :: "string \<Rightarrow> string \<Rightarrow> json" where
  "refresh_json token fp = JObj [(''refresh_token'', JText token), (''hw_fingerprint'', JText fp)]"

definition Refresh ::
  "'e env_scheme \<Rightarrow> string \<Rightarrow> string \<Rightarrow> string \<Rightarrow> 'w netw_scheme \<Rightarrow>
     (gerror + exchange_response) \<times> 'w netw_scheme" where
  "Refresh E base token fp =
     pairing_call E ''refresh'' (base @ ''/v1/desktop/sessions/refresh'') (refresh_json token fp)"

definition unpair_reply :: "http_result \<Rightarrow> gerror option" where
  "unpair_reply r =
     (case r of
        TransportError m \<Rightarrow>
          Some (Wrap (sentinel_text ErrCloudUnreachable @ '': '' @ m) (Sentinel ErrCloudUnreachable))
      | Reply st body _ \<Rightarrow>
          (if st = StatusOK \<or> st = StatusNoContent then None
           else if st = StatusUnauthorized then None
           else if st \<ge> 500 then
             Some (Wrap (sentinel_text ErrCloudUnreachable @ '': status '' @ itoa st @ '': '' @ body)
               (Sentinel ErrCloudUnreachable))
           else Some (Plain (''unpair: status '' @ itoa st @ '': '' @ body))))"

definition Unpair ::
  "'e env_scheme \<Rightarrow> string \<Rightarrow> string \<Rightarrow> string \<Rightarrow> 'w netw_scheme \<Rightarrow> gerror option \<times> 'w netw_scheme" where
  "Unpair E base sessionJWT hwFingerprint w =
     (let url = base @ ''/v1/desktop/devices/self'' in
      if sessionJWT = [] then (Some (Plain ''unpair: empty session jwt''), w)
      else if \<not> url_ok E url then (Some (errorf ''new unpair request'' bad_url), w)
      else
        (let (idem, w1) = new_uuid E w;
             (r, w2) = http_do E
               \<lparr>rq_method = ''DELETE'', rq_url = url,
                rq_headers = [(''Authorization'', ''Bearer '' @ sessionJWT)] @
                  (if hwFingerprint \<noteq> [] then [(''X-Device-Fingerprint'', hwFingerprint)] else []) @
                  [(''Idempotency-Key'', idem)],
                rq_body = None\<rparr> w1
         in (unpair_reply r, w2)))"

section \<open>Token source\<close>

text \<open>\<open>pairing\<close> is the pairing client's base URL, \<open>None\<close> for the nil pointer.\<close>

record token_source =
  cached :: session_bundle
  cachedKnown :: bool
  pairing :: "string option"

record authw = netw +
  ks :: keystore
  tok :: token_source

definition NewTokenSource :: "string option \<Rightarrow> token_source" where
  "NewTokenSource p = \<lparr>cached = zero_bundle, cachedKnown = False, pairing = p\<rparr>"

definition refreshGracePeriod :: int where
  "refreshGracePeriod = 5 * minute"

text \<open>The load both refreshing methods begin with.\<close>

definition load_cache ::
  "'e env_scheme \<Rightarrow> string \<Rightarrow> 'w authw_scheme \<Rightarrow> (gerror + unit) \<times> 'w authw_scheme" where
  "load_cache E what w =
     (if cachedKnown (tok w) then (Inr (), w)
      else (case ks_Load E (ks w) of
          (Inl e, k) \<Rightarrow> (Inl (errorf what e), w\<lparr>ks := k\<rparr>)
        | (Inr b, k) \<Rightarrow> (Inr (), w\<lparr>ks := k, tok := (tok w)\<lparr>cached := b, cachedKnown := True\<rparr>\<rparr>)))"

definition rotated :: "session_bundle \<Rightarrow> exchange_response \<Rightarrow> session_bundle" where
  "rotated b r = b\<lparr>SessionJWT := Token (Session r), SessionExpiresAt := ExpiresAt (Session r),
     RefreshToken := Token (Refreshed r), RefreshExpiresAt := ExpiresAt (Refreshed r)\<rparr>"

text \<open>
  The refresh round trip at the end of both: the cache takes the rotated pair before the
  keystore does, so a failed save leaves the new pair in memory only.
\<close>

definition rotate_session ::
  "'e env_scheme \<Rightarrow> (gerror \<Rightarrow> gerror) \<Rightarrow> string \<Rightarrow> 'w authw_scheme \<Rightarrow> (gerror + string) \<times> 'w authw_scheme" where
  "rotate_session E wrap saving w =
     (case pairing (tok w) of
        None \<Rightarrow> (Inl (Plain ''token source: refresh not configured''), w)
      | Some base \<Rightarrow>
          (case Refresh E base (RefreshToken (cached (tok w))) (HwFingerprint (cached (tok w))) w of
             (Inl e, w1) \<Rightarrow> (Inl (wrap e), w1)
           | (Inr resp, w1) \<Rightarrow>
               (let b = rotated (cached (tok w1)) resp; w2 = w1\<lparr>tok := (tok w1)\<lparr>cached := b\<rparr>\<rparr> in
                case ks_Save E b (ks w2) of
                  (Some e, k) \<Rightarrow> (Inl (errorf saving e), w2\<lparr>ks := k\<rparr>)
                | (None, k) \<Rightarrow> (Inr (SessionJWT b), w2\<lparr>ks := k\<rparr>))))"

definition BearerToken :: "'e env_scheme \<Rightarrow> 'w authw_scheme \<Rightarrow> (gerror + string) \<times> 'w authw_scheme" where
  "BearerToken E w =
     (case load_cache E ''token source load'' w of
        (Inl e, w1) \<Rightarrow> (Inl e, w1)
      | (Inr u, w1) \<Rightarrow>
          (let (now, w2) = time_now E w1 in
           if time_until now (SessionExpiresAt (cached (tok w2))) > refreshGracePeriod
           then (Inr (SessionJWT (cached (tok w2))), w2)
           else rotate_session E (errorf ''refresh session'') ''token source save rotated'' w2))"

definition ForceRefresh :: "'e env_scheme \<Rightarrow> 'w authw_scheme \<Rightarrow> (gerror + string) \<times> 'w authw_scheme" where
  "ForceRefresh E w =
     (case load_cache E ''force refresh load'' w of
        (Inl e, w1) \<Rightarrow> (Inl e, w1)
      | (Inr u, w1) \<Rightarrow> rotate_session E (\<lambda>e. e) ''force refresh save'' w1)"

definition Bundle :: "'w authw_scheme \<Rightarrow> session_bundle" where
  "Bundle w = cached (tok w)"

definition Invalidate :: "'w authw_scheme \<Rightarrow> 'w authw_scheme" where
  "Invalidate w = w\<lparr>tok := (tok w)\<lparr>cached := zero_bundle, cachedKnown := False\<rparr>\<rparr>"

definition Reset :: "'e env_scheme \<Rightarrow> 'w authw_scheme \<Rightarrow> gerror option \<times> 'w authw_scheme" where
  "Reset E w =
     (case ks_Clear E (ks w) of (r, k) \<Rightarrow>
        (r, w\<lparr>tok := (tok w)\<lparr>cached := zero_bundle, cachedKnown := False\<rparr>, ks := k\<rparr>))"

definition SetBundle :: "'e env_scheme \<Rightarrow> session_bundle \<Rightarrow> 'w authw_scheme \<Rightarrow> gerror option \<times> 'w authw_scheme" where
  "SetBundle E b w =
     (case ks_Save E b (ks w) of (r, k) \<Rightarrow>
        (r, w\<lparr>tok := (tok w)\<lparr>cached := b, cachedKnown := True\<rparr>, ks := k\<rparr>))"

section \<open>Requests and errors of the pairing calls\<close>

definition after_call :: "request \<Rightarrow> 'w netw_scheme \<Rightarrow> 'w netw_scheme" where
  "after_call rq w = w\<lparr>uuids := Suc (uuids w), sent := sent w @ [rq]\<rparr>"

lemma after_call_simps [simp]:
  "sent (after_call rq w) = sent w @ [rq]" "clock_reads (after_call rq w) = clock_reads w"
  "ks (after_call rq v) = ks v" "tok (after_call rq v) = tok v"
  for v :: "'w authw_scheme"
  by (simp_all add: after_call_def)

lemma pairing_call_eq:
  "pairing_call E what url body w =
     (if url_ok E url then
        (pairing_reply E what (server E (sent w @ [post_request url body (uuid E (uuids w))])),
         after_call (post_request url body (uuid E (uuids w))) w)
      else (Inl (errorf (''new '' @ what @ '' request'') bad_url), w))"
  by (simp add: pairing_call_def new_uuid_def http_do_def after_call_def)

lemma unmarshal_data_plain: "unmarshal_data E dec z b = Inl e \<Longrightarrow> \<not> errors_is e x"
  by (auto simp: unmarshal_data_def split: option.splits)

lemma pairing_reply_sentinels:
  "pairing_reply E what r = Inl e \<Longrightarrow>
     errors_is e x \<longleftrightarrow> x = AuthErrUnauthorized \<and> (\<exists>b m. r = Reply StatusUnauthorized b m)"
  by (auto simp: pairing_reply_def http_status_defs unmarshal_data_plain
      split: http_result.splits if_splits sum.splits)

text \<open>
  \<open>Unpair\<close> reports success exactly when a request was sent and the cloud answered 200, 204 or
  401, and \<open>ErrCloudUnreachable\<close>, which gates the forced local clear, exactly when the request
  failed in transport or the cloud answered with a status of 500 or above; never for a 4xx.
\<close>

theorem Unpair_outcomes:
  assumes url: "url_ok E (base @ ''/v1/desktop/devices/self'')" and jwt: "j \<noteq> []"
    and run: "Unpair E base j fp w = (r, w')"
  shows "\<exists>rq. sent w' = sent w @ [rq] \<and> rq_method rq = ''DELETE'' \<and>
    (''Authorization'', ''Bearer '' @ j) \<in> set (rq_headers rq) \<and>
    (r = None \<longleftrightarrow> (\<exists>st b m. server E (sent w') = Reply st b m \<and> st \<in> {200, 204, 401})) \<and>
    ((\<exists>e. r = Some e \<and> errors_is e ErrCloudUnreachable) \<longleftrightarrow>
       (\<exists>m. server E (sent w') = TransportError m) \<or>
       (\<exists>st b m. server E (sent w') = Reply st b m \<and> st \<ge> 500))"
  using run url jwt
  by (cases "server E (sent w')")
    (auto simp: Unpair_def Let_def new_uuid_def http_do_def unpair_reply_def http_status_defs
      split: if_splits)

theorem Unpair_outcomes_witness:
  "fst (Unpair (calm_env (\<lambda>_. Reply 503 [] None) (\<lambda>_. None)) ''http://c'' ''jwt'' []
      \<lparr>sent = [], clock_reads = 0, uuids = 0\<rparr>) \<noteq> None"
proof -
  let ?E = "calm_env (\<lambda>_. Reply 503 [] None) (\<lambda>_. None)"
  let ?w = "\<lparr>sent = [], clock_reads = 0, uuids = 0\<rparr> :: netw"
  obtain r w' where run: "Unpair ?E ''http://c'' ''jwt'' [] ?w = (r, w')" by fastforce
  have url: "url_ok ?E (''http://c'' @ ''/v1/desktop/devices/self'')" by (simp add: calm_env_def)
  have "server ?E (sent w') = Reply 503 [] None" by (simp add: calm_env_def)
  with Unpair_outcomes [OF url _ run] have "r \<noteq> None" by auto
  with run show ?thesis by simp
qed

section \<open>What the token source returns\<close>

text \<open>The bundle the next call works with: the cached one, or what the keystore holds.\<close>

definition current_bundle :: "'e env_scheme \<Rightarrow> 'w authw_scheme \<Rightarrow> session_bundle \<Rightarrow> bool" where
  "current_bundle E w b \<longleftrightarrow>
     (if cachedKnown (tok w) then b = cached (tok w)
      else unmarshal_session E (item (ks w)) = Inr b)"

definition on_disk :: "'e env_scheme \<Rightarrow> 'w authw_scheme \<Rightarrow> session_bundle \<Rightarrow> bool" where
  "on_disk E w b \<longleftrightarrow> unmarshal_session E (item (ks w)) = Inr b"

lemma ks_Load_InrD: "ks_Load E k = (Inr b, k') \<Longrightarrow> k' = ks_tick k \<and> unmarshal_session E (item k) = Inr b"
  by (auto simp: ks_Load_def split: kbackend.splits option.splits)

lemma ks_Load_InlD: "ks_Load E k = (Inl e, k') \<Longrightarrow> item k' = item k \<and> backend k' = backend k"
  by (auto simp: ks_Load_def split: kbackend.splits option.splits)

lemma ks_Save_okD:
  "ks_Save E b k = (None, k') \<Longrightarrow> time_codec E \<Longrightarrow> unmarshal_session E (item k') = Inr b"
  by (auto simp: ks_Save_def unmarshal_session_def bundle_roundtrip split: kbackend.splits option.splits)

lemma load_cache_InrD:
  assumes "load_cache E what w = (Inr u, w1)"
  shows "current_bundle E w (cached (tok w1)) \<and> cachedKnown (tok w1) \<and>
    pairing (tok w1) = pairing (tok w) \<and> sent w1 = sent w \<and> clock_reads w1 = clock_reads w \<and>
    uuids w1 = uuids w \<and> item (ks w1) = item (ks w)"
  using assms
  by (auto simp: load_cache_def current_bundle_def split: if_splits prod.splits sum.splits dest!: ks_Load_InrD)

lemma load_cache_InlD:
  assumes "load_cache E what w = (Inl e, w1)"
  shows "tok w1 = tok w \<and> sent w1 = sent w \<and> item (ks w1) = item (ks w)"
  using assms
  by (auto simp: load_cache_def split: if_splits prod.splits sum.splits dest!: ks_Load_InlD)

definition refresh_request :: "'e env_scheme \<Rightarrow> string \<Rightarrow> session_bundle \<Rightarrow> nat \<Rightarrow> request" where
  "refresh_request E base b n =
     post_request (base @ ''/v1/desktop/sessions/refresh'')
       (refresh_json (RefreshToken b) (HwFingerprint b)) (uuid E n)"

lemma Refresh_eq:
  "Refresh E base (RefreshToken b) (HwFingerprint b) w =
     (if url_ok E (base @ ''/v1/desktop/sessions/refresh'') then
        (pairing_reply E ''refresh'' (server E (sent w @ [refresh_request E base b (uuids w)])),
         after_call (refresh_request E base b (uuids w)) w)
      else (Inl (errorf (''new '' @ ''refresh'' @ '' request'') bad_url), w))"
  unfolding Refresh_def pairing_call_eq refresh_request_def ..

lemma rotate_session_InrD:
  assumes "rotate_session E wrap saving w = (Inr t, w')"
  shows "\<exists>base resp. pairing (tok w) = Some base \<and>
    sent w' = sent w @ [refresh_request E base (cached (tok w)) (uuids w)] \<and>
    pairing_reply E ''refresh'' (server E (sent w')) = Inr resp \<and>
    tok w' = (tok w)\<lparr>cached := rotated (cached (tok w)) resp\<rparr> \<and>
    t = SessionJWT (cached (tok w')) \<and> (time_codec E \<longrightarrow> on_disk E w' (cached (tok w')))"
  using assms
  by (auto simp: rotate_session_def Refresh_eq Let_def on_disk_def
      split: option.splits prod.splits sum.splits if_splits dest: ks_Save_okD)

text \<open>
  C18. A token that \<open>BearerToken\<close> returns is the session token of the bundle now cached, and
  either that bundle has more than five minutes left and no request was made, or it had not:
  then exactly one refresh request, carrying the old refresh token and the device
  fingerprint, was sent, and the rotated bundle is both in the cache and in the keystore.
\<close>

theorem BearerToken_success:
  assumes codec: "time_codec E" and run: "BearerToken E w = (Inr t, w')"
  shows "\<exists>b. current_bundle E w b \<and> cachedKnown (tok w') \<and> t = SessionJWT (cached (tok w')) \<and>
    (if time_until (clock E (clock_reads w)) (SessionExpiresAt b) > refreshGracePeriod
     then sent w' = sent w \<and> cached (tok w') = b
     else (\<exists>base resp. sent w' = sent w @ [refresh_request E base b (uuids w)] \<and>
        pairing_reply E ''refresh'' (server E (sent w')) = Inr resp \<and>
        cached (tok w') = rotated b resp \<and> on_disk E w' (rotated b resp)))"
proof -
  obtain w1 where load: "load_cache E ''token source load'' w = (Inr (), w1)"
    using run by (cases "load_cache E ''token source load'' w") (auto simp: BearerToken_def split: sum.splits)
  note l = load_cache_InrD [OF load]
  let ?b = "cached (tok w1)" and ?w2 = "w1\<lparr>clock_reads := Suc (clock_reads w1)\<rparr>"
  have now: "time_now E w1 = (clock E (clock_reads w), ?w2)"
    using l by (simp add: time_now_def)
  show ?thesis
  proof (cases "time_until (clock E (clock_reads w)) (SessionExpiresAt ?b) > refreshGracePeriod")
    case True
    with run load now have "t = SessionJWT ?b" "w' = ?w2" by (auto simp: BearerToken_def)
    with True l show ?thesis by (intro exI [of _ ?b]) simp
  next
    case False
    with run load now have
      "rotate_session E (errorf ''refresh session'') ''token source save rotated'' ?w2 = (Inr t, w')"
      by (simp add: BearerToken_def)
    from rotate_session_InrD [OF this] False codec l show ?thesis
      by (intro exI [of _ ?b]) auto
  qed
qed

definition sample_bundle :: session_bundle where
  "sample_bundle = zero_bundle\<lparr>SessionJWT := ''jwt'', RefreshToken := ''r1'', HwFingerprint := ''fp''\<rparr>"

definition sample_world :: authw where
  "sample_world = \<lparr>sent = [], clock_reads = 0, uuids = 0,
     ks = \<lparr>backend = FileBackend, item = NoItem, ks_calls = 0\<rparr>,
     tok = \<lparr>cached = sample_bundle, cachedKnown = True, pairing = Some ''http://c''\<rparr>\<rparr>"

text \<open>A cloud that rotates every session, with the body text \<open>ok\<close>.\<close>

definition rotating_env :: env where
  "rotating_env = calm_env (\<lambda>_. Reply 200 ''ok'' None)
     (\<lambda>_. Some (JObj [(''data'', JObj [(''session'', JObj [(''token'', JText ''jwt2''), (''expires_at'', JText ''F'')]),
        (''refresh'', JObj [(''token'', JText ''r2''), (''expires_at'', JText ''F'')])])]))"

lemma sample_expired:
  "time_until (clock rotating_env n) (SessionExpiresAt sample_bundle) \<le> refreshGracePeriod"
  by (simp add: time_until_def rotating_env_def calm_env_def sample_bundle_def zero_bundle_def
      zero_time_def refreshGracePeriod_def minute_def second_def)

lemma rotating_reply:
  "pairing_reply rotating_env ''refresh'' (server rotating_env h) =
     Inr \<lparr>ResDeviceID = [], ResOrganizationID = [], Session = \<lparr>Token = ''jwt2'', ExpiresAt = far_time\<rparr>,
       Refreshed = \<lparr>Token = ''r2'', ExpiresAt = far_time\<rparr>\<rparr>"
  by (simp add: pairing_reply_def rotating_env_def calm_env_def http_status_defs unmarshal_data_def
      dec_exchange_def dec_token_def dec_device_def dec_defs zero_exchange_def zero_token_def
      far_time_def zero_time_def)

lemma rotating_simps [simp]:
  "url_ok rotating_env u" "ks_fault rotating_env n = None"
  "time_text rotating_env far_time = Some ''F''"
  by (simp_all add: rotating_env_def calm_env_def far_time_def zero_time_def minute_def second_def)

lemma sample_world_simps [simp]:
  "sent sample_world = []" "clock_reads sample_world = 0" "uuids sample_world = 0"
  "cached (tok sample_world) = sample_bundle" "cachedKnown (tok sample_world)"
  "pairing (tok sample_world) = Some ''http://c''" "backend (ks sample_world) = FileBackend"
  by (simp_all add: sample_world_def)

theorem BearerToken_success_witness:
  "\<exists>t w'. BearerToken rotating_env sample_world = (Inr t, w') \<and> t = ''jwt2'' \<and> length (sent w') = 1"
proof -
  obtain r w' where run: "BearerToken rotating_env sample_world = (r, w')" by fastforce
  have "fst (BearerToken rotating_env sample_world) = Inr ''jwt2''"
    using sample_expired [of 0]
    by (simp add: BearerToken_def load_cache_def time_now_def rotate_session_def Refresh_eq
        rotating_reply Let_def ks_Save_def rotated_def bundle_json_def)
  with run have "\<exists>t. r = Inr t" by simp
  then obtain t where r: "r = Inr t" ..
  have codec: "time_codec rotating_env" by (simp add: rotating_env_def)
  have known: "current_bundle rotating_env sample_world b \<longleftrightarrow> b = sample_bundle" for b
    by (simp add: current_bundle_def)
  from BearerToken_success [OF codec run [unfolded r]] sample_expired [of 0] run r
  show ?thesis by (auto simp: known rotating_reply rotated_def)
qed

text \<open>The only error of a disabled keystore is the one of its initialisation.\<close>

definition ks_wf :: "keystore \<Rightarrow> bool" where
  "ks_wf k \<longleftrightarrow> (\<forall>e x. backend k = DisabledBackend e \<longrightarrow> \<not> errors_is e x)"

lemma NewKeystore_wf: "ks_wf (NewKeystore ring dir i)"
  by (auto simp: ks_wf_def NewKeystore_def split: option.splits)

lemma ks_Save_errD: "ks_Save E b k = (Some e, k') \<Longrightarrow> ks_wf k \<Longrightarrow> \<not> errors_is e x"
  by (auto simp: ks_Save_def ks_wf_def split: kbackend.splits option.splits)

lemma ks_Load_errD:
  "ks_Load E k = (Inl e, k') \<Longrightarrow> ks_wf k \<Longrightarrow> errors_is e x \<Longrightarrow> x = ErrNoSession \<and> item k = NoItem"
  by (auto simp: ks_Load_def ks_wf_def unmarshal_session_def
      split: kbackend.splits option.splits kitem.splits)

lemma load_cache_errD:
  "load_cache E what w = (Inl e, w1) \<Longrightarrow> ks_wf (ks w) \<Longrightarrow> errors_is e x \<Longrightarrow>
     x = ErrNoSession \<and> item (ks w) = NoItem \<and> \<not> cachedKnown (tok w)"
  by (auto simp: load_cache_def split: if_splits prod.splits sum.splits dest: ks_Load_errD)

lemma load_cache_backend: "load_cache E what w = (r, w1) \<Longrightarrow> backend (ks w1) = backend (ks w)"
  by (auto simp: load_cache_def ks_Load_def
      split: if_splits prod.splits sum.splits kbackend.splits option.splits)

lemma rotate_session_InlD:
  assumes "rotate_session E wrap saving w = (Inl e, w')" and "ks_wf (ks w)"
    and wrap: "\<And>e x. errors_is (wrap e) x = errors_is e x" and x: "errors_is e x"
  shows "x = AuthErrUnauthorized \<and>
     (\<exists>base. sent w' = sent w @ [refresh_request E base (cached (tok w)) (uuids w)]) \<and>
     (\<exists>b m. server E (sent w') = Reply StatusUnauthorized b m) \<and>
     ks w' = ks w \<and> tok w' = tok w"
  using assms
  by (auto simp: rotate_session_def Refresh_eq Let_def pairing_reply_sentinels
      split: option.splits prod.splits sum.splits if_splits dest!: ks_Save_errD)

text \<open>
  C31. The only sentinel errors of \<open>BearerToken\<close> are \<open>auth.ErrNoSession\<close>, when nothing is cached
  and the keystore holds nothing, and \<open>auth.ErrUnauthorized\<close>, when a refresh request was sent and
  the cloud answered 401; then the cached and the stored bundle are what they were before.  In
  particular it never returns \<open>sync.ErrUnauthorized\<close>.
\<close>

theorem BearerToken_sentinels:
  assumes wf: "ks_wf (ks w)" and run: "BearerToken E w = (Inl e, w')" and x: "errors_is e x"
  shows "(x = ErrNoSession \<and> \<not> cachedKnown (tok w) \<and> item (ks w) = NoItem \<and> sent w' = sent w) \<or>
    (x = AuthErrUnauthorized \<and>
     (\<exists>base b body m. current_bundle E w b \<and> cached (tok w') = b \<and>
        time_until (clock E (clock_reads w)) (SessionExpiresAt b) \<le> refreshGracePeriod \<and>
        sent w' = sent w @ [refresh_request E base b (uuids w)] \<and>
        server E (sent w') = Reply StatusUnauthorized body m \<and> item (ks w') = item (ks w)))"
proof (cases "load_cache E ''token source load'' w")
  case load: (Pair r w1)
  show ?thesis
  proof (cases r)
    case (Inl e')
    with run load have eq: "e' = e" "w' = w1" by (simp_all add: BearerToken_def)
    with load Inl have "load_cache E ''token source load'' w = (Inl e, w1)" by simp
    from load_cache_errD [OF this wf x] load_cache_InlD [OF this] eq show ?thesis by simp
  next
    case (Inr u)
    with load have "load_cache E ''token source load'' w = (Inr u, w1)" by simp
    note l = load_cache_InrD [OF this] load_cache_backend [OF this]
    let ?w2 = "w1\<lparr>clock_reads := Suc (clock_reads w1)\<rparr>"
    have now: "time_now E w1 = (clock E (clock_reads w), ?w2)"
      using l by (simp add: time_now_def)
    from run load Inr now have soon:
      "\<not> time_until (clock E (clock_reads w)) (SessionExpiresAt (cached (tok w1))) > refreshGracePeriod"
      and rot: "rotate_session E (errorf ''refresh session'') ''token source save rotated'' ?w2 = (Inl e, w')"
      by (auto simp: BearerToken_def split: if_splits)
    have "ks_wf (ks ?w2)" using wf l by (simp add: ks_wf_def)
    from rotate_session_InlD [OF rot this _ x] l soon show ?thesis by auto
  qed
qed

definition rejecting_env :: env where
  "rejecting_env = calm_env (\<lambda>_. Reply 401 ''no'' None) (\<lambda>_. None)"

lemma rejecting_simps [simp]:
  "url_ok rejecting_env u" "clock rejecting_env n = zero_time"
  by (simp_all add: rejecting_env_def calm_env_def)

lemma rejecting_expired: "\<not> refreshGracePeriod < time_until zero_time (SessionExpiresAt sample_bundle)"
  by (simp add: time_until_def sample_bundle_def zero_bundle_def zero_time_def refreshGracePeriod_def
      minute_def second_def)

lemma rejecting_reply:
  "pairing_reply rejecting_env what (server rejecting_env h) =
     Inl (Wrap (what @ '': '' @ sentinel_text AuthErrUnauthorized @ '' (body: no)'')
       (Sentinel AuthErrUnauthorized))"
  by (simp add: pairing_reply_def rejecting_env_def calm_env_def http_status_defs)

lemma rejecting_run:
  "BearerToken rejecting_env sample_world =
     (Inl (errorf ''refresh session'' (Wrap (''refresh: '' @ sentinel_text AuthErrUnauthorized @ '' (body: no)'')
        (Sentinel AuthErrUnauthorized))),
      after_call (refresh_request rejecting_env ''http://c'' sample_bundle 0)
        (sample_world\<lparr>clock_reads := Suc 0\<rparr>))"
  using rejecting_expired
  by (simp add: BearerToken_def load_cache_def time_now_def rotate_session_def Refresh_eq rejecting_reply)

theorem BearerToken_sentinels_witness:
  "length (sent (snd (BearerToken rejecting_env sample_world))) = 1"
proof -
  have wf: "ks_wf (ks sample_world)" by (simp add: ks_wf_def sample_world_def)
  from BearerToken_sentinels [OF wf rejecting_run, of AuthErrUnauthorized] rejecting_run
  show ?thesis by auto
qed

end
