(* ===== verification/Cloud.thy ===== *)
theory Cloud
  imports Tokens "HOL-Library.Word"
begin

text \<open>
  The cloud client, \<open>internal/sync/client.go\<close>, and the lease heartbeat, \<open>internal/sync/lease.go\<close>.

  A \<open>*Client\<close> is its base URL and fingerprint; its \<open>TokenSource\<close> is the one of theory Tokens, in
  the state.  The fixed HTTP timeout is one of the ways the cloud answers \<open>TransportError\<close>, and so
  is a cancelled context.  The bodies of requests are JSON values, with the keys of a Go map in
  the order \<open>json.Marshal\<close> writes them.
\<close>

section \<open>Client\<close>

record cloud_client =
  baseURL :: string
  fingerprint :: string

definition DefaultHTTPTimeout :: int where
  "DefaultHTTPTimeout = 30 * second"

definition New :: "string \<Rightarrow> string \<Rightarrow> cloud_client" where
  "New base fp = \<lparr>baseURL = TrimRightSlash base, fingerprint = fp\<rparr>"

record workload_dto =
  DtoID :: string
  DtoOrganizationID :: string
  DtoType :: string
  DtoVersion :: int
  DtoPayload :: "(string \<times> json) list option"
  DtoRequiredCapabilities :: "(string \<times> json) list option"
  DtoRequiredExecutor :: string

record lease_dto =
  LeaseTok :: string
  LeaseExpires :: gotime
  TTLSec :: int
  HeartbeatIntervalSec :: int

record claim_response =
  ClaimWorkload :: workload_dto
  ClaimLease :: lease_dto

definition zero_workload :: workload_dto where
  "zero_workload = \<lparr>DtoID = [], DtoOrganizationID = [], DtoType = [], DtoVersion = 0,
     DtoPayload = None, DtoRequiredCapabilities = None, DtoRequiredExecutor = []\<rparr>"

definition zero_lease :: lease_dto where
  "zero_lease = \<lparr>LeaseTok = [], LeaseExpires = zero_time, TTLSec = 0, HeartbeatIntervalSec = 0\<rparr>"

definition zero_claim :: claim_response where
  "zero_claim = \<lparr>ClaimWorkload = zero_workload, ClaimLease = zero_lease\<rparr>"

lemmas zero_claim_defs = zero_claim_def zero_workload_def zero_lease_def

definition dec_workload :: "workload_dto decoder" where
  "dec_workload = dec_struct (\<lambda>v kvs.
     case (dec_field ''id'' dec_string (DtoID v) kvs,
           dec_field ''organization_id'' dec_string (DtoOrganizationID v) kvs,
           dec_field ''workload_type'' dec_string (DtoType v) kvs,
           dec_field ''workload_version'' dec_int (DtoVersion v) kvs,
           dec_field ''payload'' dec_map (DtoPayload v) kvs,
           dec_field ''required_capabilities'' dec_map (DtoRequiredCapabilities v) kvs,
           dec_field ''required_executor'' dec_string (DtoRequiredExecutor v) kvs) of
       (Some i, Some org, Some t, Some n, Some p, Some c, Some e) \<Rightarrow>
         Some \<lparr>DtoID = i, DtoOrganizationID = org, DtoType = t, DtoVersion = n, DtoPayload = p,
               DtoRequiredCapabilities = c, DtoRequiredExecutor = e\<rparr>
     | _ \<Rightarrow> None)"

definition dec_lease :: "'e env_scheme \<Rightarrow> lease_dto decoder" where
  "dec_lease E = dec_struct (\<lambda>v kvs.
     case (dec_field ''token'' dec_string (LeaseTok v) kvs,
           dec_field ''expires_at'' (dec_time E) (LeaseExpires v) kvs,
           dec_field ''ttl_sec'' dec_int (TTLSec v) kvs,
           dec_field ''heartbeat_interval_sec'' dec_int (HeartbeatIntervalSec v) kvs) of
       (Some t, Some x, Some n, Some h) \<Rightarrow>
         Some \<lparr>LeaseTok = t, LeaseExpires = x, TTLSec = n, HeartbeatIntervalSec = h\<rparr>
     | _ \<Rightarrow> None)"

definition dec_claim :: "'e env_scheme \<Rightarrow> claim_response decoder" where
  "dec_claim E = dec_struct (\<lambda>v kvs.
     case (dec_field ''workload'' dec_workload (ClaimWorkload v) kvs,
           dec_field ''lease'' (dec_lease E) (ClaimLease v) kvs) of
       (Some w, Some l) \<Rightarrow> Some \<lparr>ClaimWorkload = w, ClaimLease = l\<rparr>
     | _ \<Rightarrow> None)"

section \<open>HTTP plumbing\<close>

text \<open>
  \<open>doRaw\<close>: the token first, then the request; \<open>Idempotency-Key\<close> goes with the methods that
  change something, the content type with a body.  \<open>do\<close> is \<open>doRaw\<close> after marshalling its body,
  which can only fail for a number JSON has no text for.
\<close>

definition changing_method :: "string \<Rightarrow> bool" where
  "changing_method meth \<longleftrightarrow> meth \<in> {''POST'', ''PUT'', ''PATCH'', ''DELETE''}"

definition cloud_request ::
  "cloud_client \<Rightarrow> string \<Rightarrow> string \<Rightarrow> string \<Rightarrow> string \<Rightarrow> json option \<Rightarrow> request" where
  "cloud_request c tk idem meth path body =
     \<lparr>rq_method = meth, rq_url = baseURL c @ path,
      rq_headers = [(''Authorization'', ''Bearer '' @ tk)] @
        (if fingerprint c \<noteq> [] then [(''X-Device-Fingerprint'', fingerprint c)] else []) @
        (if changing_method meth then [(''Idempotency-Key'', idem)] else []) @
        (if body \<noteq> None then [(''Content-Type'', ''application/json'')] else []),
      rq_body = body\<rparr>"

definition cloud_reply :: "http_result \<Rightarrow> gerror + string \<times> int" where
  "cloud_reply r =
     (case r of
        TransportError m \<Rightarrow> Inl (errorf ''http do'' (Plain m))
      | Reply st body None \<Rightarrow> Inr (body, st)
      | Reply st body (Some m) \<Rightarrow> Inl (errorf ''read body'' (Plain m)))"

definition doRaw ::
  "'e env_scheme \<Rightarrow> cloud_client \<Rightarrow> string \<Rightarrow> string \<Rightarrow> json option \<Rightarrow> 'w authw_scheme \<Rightarrow>
     (gerror + string \<times> int) \<times> 'w authw_scheme" where
  "doRaw E c meth path body w =
     (case BearerToken E w of
        (Inl e, w1) \<Rightarrow> (Inl (errorf ''token source'' e), w1)
      | (Inr tk, w1) \<Rightarrow>
          (if \<not> url_ok E (baseURL c @ path) then (Inl (errorf ''new request'' bad_url), w1)
           else
             (let (idem, w2) = (if changing_method meth then new_uuid E w1 else ([], w1));
                  (r, w3) = http_do E (cloud_request c tk idem meth path body) w2
              in (cloud_reply r, w3))))"

definition do_json ::
  "'e env_scheme \<Rightarrow> cloud_client \<Rightarrow> string \<Rightarrow> string \<Rightarrow> json option option \<Rightarrow> 'w authw_scheme \<Rightarrow>
     (gerror + string \<times> int) \<times> 'w authw_scheme" where
  "do_json E c meth path body w =
     (case body of
        None \<Rightarrow> doRaw E c meth path None w
      | Some None \<Rightarrow> (Inl (errorf ''marshal'' (Plain ''json: unsupported value'')), w)
      | Some (Some j) \<Rightarrow> doRaw E c meth path (Some j) w)"

section \<open>The workload protocol\<close>

definition Claim ::
  "'e env_scheme \<Rightarrow> cloud_client \<Rightarrow> 'w authw_scheme \<Rightarrow> (gerror + claim_response) \<times> 'w authw_scheme" where
  "Claim E c w =
     (case do_json E c ''GET'' ''/v1/workloads/claim'' None w of
        (Inl e, w1) \<Rightarrow> (Inl e, w1)
      | (Inr (body, st), w1) \<Rightarrow>
          (if st = StatusOK then
             (case unmarshal_data E (dec_claim E) zero_claim body of
                Inl e \<Rightarrow> (Inl (errorf ''decode claim'' e), w1)
              | Inr x \<Rightarrow> (Inr x, w1))
           else if st = StatusNoContent then (Inl (Sentinel ErrNoWork), w1)
           else if st = StatusUnauthorized then (Inl (Sentinel SyncErrUnauthorized), w1)
           else (Inl (Plain (''claim: unexpected status '' @ itoa st @ '': '' @ body)), w1)))"

definition workload_path :: "string \<Rightarrow> string \<Rightarrow> string" where
  "workload_path wid what = ''/v1/workloads/'' @ wid @ ''/'' @ what"

text \<open>The calls that check \<open>status >= 400\<close> after the same plumbing.\<close>

definition checked_reply ::
  "string \<Rightarrow> (gerror + string \<times> int) \<times> 'w \<Rightarrow> gerror option \<times> 'w" where
  "checked_reply what r =
     (case r of
        (Inl e, w1) \<Rightarrow> (Some e, w1)
      | (Inr (body, st), w1) \<Rightarrow>
          (if st \<ge> 400 then (Some (Plain (what @ '': status '' @ itoa st @ '': '' @ body)), w1)
           else (None, w1)))"

definition heartbeat_body :: "string \<Rightarrow> json" where
  "heartbeat_body leaseToken = JObj [(''lease_token'', JText leaseToken)]"

definition dec_heartbeat :: "'e env_scheme \<Rightarrow> lease_dto decoder" where
  "dec_heartbeat E = dec_struct (dec_field ''lease'' (dec_lease E))"

definition Heartbeat ::
  "'e env_scheme \<Rightarrow> cloud_client \<Rightarrow> string \<Rightarrow> string \<Rightarrow> 'w authw_scheme \<Rightarrow>
     (gerror + lease_dto) \<times> 'w authw_scheme" where
  "Heartbeat E c wid leaseToken w =
     (case do_json E c ''POST'' (workload_path wid ''heartbeat'') (Some (Some (heartbeat_body leaseToken))) w of
        (Inl e, w1) \<Rightarrow> (Inl e, w1)
      | (Inr (body, st), w1) \<Rightarrow>
          (if st \<noteq> StatusOK then (Inl (Plain (''heartbeat: status '' @ itoa st @ '': '' @ body)), w1)
           else (case unmarshal_data E (dec_heartbeat E) zero_lease body of
               Inl e \<Rightarrow> (Inl (errorf ''decode heartbeat'' e), w1)
             | Inr l \<Rightarrow> (Inr l, w1))))"

text \<open>A \<open>float64\<close> without a JSON text (NaN or an infinity) is \<open>None\<close>.\<close>

definition Progress ::
  "'e env_scheme \<Rightarrow> cloud_client \<Rightarrow> string \<Rightarrow> string \<Rightarrow> rat option \<Rightarrow> string \<Rightarrow> string \<Rightarrow>
     'w authw_scheme \<Rightarrow> gerror option \<times> 'w authw_scheme" where
  "Progress E c wid leaseToken fraction stage detail w =
     (let body = map_option (\<lambda>f. JObj [(''detail'', JText detail), (''fraction'', JReal f),
            (''lease_token'', JText leaseToken), (''stage'', JText stage)]) fraction
      in case do_json E c ''POST'' (workload_path wid ''progress'') (Some body) w of
           (Inl e, w1) \<Rightarrow> (Some e, w1)
         | (Inr x, w1) \<Rightarrow> (None, w1))"

record presign_response =
  PsStorageKey :: string
  PsUploadURL :: string
  PsExpiresAt :: gotime
  PsMethod :: string
  PsHeaders :: "(string \<times> string) list option"

definition zero_presign :: presign_response where
  "zero_presign = \<lparr>PsStorageKey = [], PsUploadURL = [], PsExpiresAt = zero_time, PsMethod = [],
     PsHeaders = None\<rparr>"

text \<open>A \<open>map[string]string\<close>: a \<open>null\<close> member stores the empty string.\<close>

fun dec_str_members :: "(string \<times> json) list \<Rightarrow> (string \<times> string) list option" where
  "dec_str_members [] = Some []"
| "dec_str_members ((k, j) # kvs) =
     (case (dec_string [] j, dec_str_members kvs) of
        (Some v, Some r) \<Rightarrow> Some ((k, v) # r) | _ \<Rightarrow> None)"

definition dec_str_map :: "(string \<times> string) list option decoder" where
  "dec_str_map v j =
     (case j of JNull \<Rightarrow> Some None
      | JObj kvs \<Rightarrow> map_option (\<lambda>r. Some ((case v of None \<Rightarrow> [] | Some m \<Rightarrow> m) @ r)) (dec_str_members kvs)
      | _ \<Rightarrow> None)"

definition dec_presign :: "'e env_scheme \<Rightarrow> presign_response decoder" where
  "dec_presign E = dec_struct (\<lambda>v kvs.
     case (dec_field ''storage_key'' dec_string (PsStorageKey v) kvs,
           dec_field ''upload_url'' dec_string (PsUploadURL v) kvs,
           dec_field ''expires_at'' (dec_time E) (PsExpiresAt v) kvs,
           dec_field ''method'' dec_string (PsMethod v) kvs,
           dec_field ''headers'' dec_str_map (PsHeaders v) kvs) of
       (Some k, Some u, Some x, Some m, Some h) \<Rightarrow>
         Some \<lparr>PsStorageKey = k, PsUploadURL = u, PsExpiresAt = x, PsMethod = m, PsHeaders = h\<rparr>
     | _ \<Rightarrow> None)"

definition presign_body :: "string \<Rightarrow> string \<Rightarrow> string \<Rightarrow> int \<Rightarrow> json" where
  "presign_body leaseToken kind keySuffix sizeBytes = JObj [(''key_suffix'', JText keySuffix),
     (''lease_token'', JText leaseToken), (''output_kind'', JText kind), (''size_bytes'', JInt sizeBytes)]"

definition PresignUpload ::
  "'e env_scheme \<Rightarrow> cloud_client \<Rightarrow> string \<Rightarrow> string \<Rightarrow> string \<Rightarrow> string \<Rightarrow> int \<Rightarrow> 'w authw_scheme \<Rightarrow>
     (gerror + presign_response) \<times> 'w authw_scheme" where
  "PresignUpload E c wid leaseToken kind keySuffix sizeBytes w =
     (case do_json E c ''POST'' (workload_path wid ''upload-url'')
             (Some (Some (presign_body leaseToken kind keySuffix sizeBytes))) w of
        (Inl e, w1) \<Rightarrow> (Inl e, w1)
      | (Inr (body, st), w1) \<Rightarrow>
          (if st \<noteq> StatusOK then (Inl (Plain (''presign upload: status '' @ itoa st @ '': '' @ body)), w1)
           else (case unmarshal_data E (dec_presign E) zero_presign body of
               Inl e \<Rightarrow> (Inl (errorf ''decode presign'' e), w1)
             | Inr x \<Rightarrow> (Inr x, w1))))"

record output_entry =
  OutKind :: string
  OutStorageKey :: string
  OutBytes :: int
  OutChecksum :: string
  OutMetadata :: "(string \<times> json) list"

definition output_json :: "output_entry \<Rightarrow> json" where
  "output_json x = JObj
     ([(''kind'', JText (OutKind x)), (''storage_key'', JText (OutStorageKey x)),
       (''bytes'', JInt (OutBytes x))] @ omitempty ''checksum_sha256'' (OutChecksum x) @
      (if OutMetadata x = [] then [] else [(''metadata'', JObj (OutMetadata x))]))"

definition RecordOutputs ::
  "'e env_scheme \<Rightarrow> cloud_client \<Rightarrow> string \<Rightarrow> string \<Rightarrow> output_entry list \<Rightarrow> 'w authw_scheme \<Rightarrow>
     gerror option \<times> 'w authw_scheme" where
  "RecordOutputs E c wid leaseToken outs w =
     checked_reply ''record outputs'' (do_json E c ''POST'' (workload_path wid ''outputs'')
       (Some (Some (JObj [(''lease_token'', JText leaseToken), (''outputs'', JList (map output_json outs))]))) w)"

definition complete_body :: "string \<Rightarrow> (string \<times> json) list \<Rightarrow> json" where
  "complete_body leaseToken summary = JObj [(''lease_token'', JText leaseToken), (''summary'', JObj summary)]"

definition Complete ::
  "'e env_scheme \<Rightarrow> cloud_client \<Rightarrow> string \<Rightarrow> string \<Rightarrow> (string \<times> json) list \<Rightarrow> 'w authw_scheme \<Rightarrow>
     gerror option \<times> 'w authw_scheme" where
  "Complete E c wid leaseToken summary w =
     checked_reply ''complete'' (do_json E c ''POST'' (workload_path wid ''complete'')
       (Some (Some (complete_body leaseToken summary))) w)"

definition fail_body :: "string \<Rightarrow> string \<Rightarrow> bool \<Rightarrow> json" where
  "fail_body leaseToken errMsg retryable = JObj [(''error'', JText errMsg),
     (''lease_token'', JText leaseToken), (''retryable'', JBool retryable)]"

definition Fail ::
  "'e env_scheme \<Rightarrow> cloud_client \<Rightarrow> string \<Rightarrow> string \<Rightarrow> string \<Rightarrow> bool \<Rightarrow> 'w authw_scheme \<Rightarrow>
     gerror option \<times> 'w authw_scheme" where
  "Fail E c wid leaseToken errMsg retryable w =
     checked_reply ''fail'' (do_json E c ''POST'' (workload_path wid ''fail'')
       (Some (Some (fail_body leaseToken errMsg retryable))) w)"

definition surrender_body :: "string \<Rightarrow> string \<Rightarrow> json" where
  "surrender_body leaseToken reason = JObj [(''lease_token'', JText leaseToken), (''reason'', JText reason)]"

definition Surrender ::
  "'e env_scheme \<Rightarrow> cloud_client \<Rightarrow> string \<Rightarrow> string \<Rightarrow> string \<Rightarrow> 'w authw_scheme \<Rightarrow>
     gerror option \<times> 'w authw_scheme" where
  "Surrender E c wid leaseToken reason w =
     checked_reply ''surrender'' (do_json E c ''POST'' (workload_path wid ''surrender'')
       (Some (Some (surrender_body leaseToken reason))) w)"

text \<open>The payload of a capability report is already encoded; an empty one is sent without a body.\<close>

definition ReportCapability ::
  "'e env_scheme \<Rightarrow> cloud_client \<Rightarrow> string \<Rightarrow> json option \<Rightarrow> 'w authw_scheme \<Rightarrow>
     gerror option \<times> 'w authw_scheme" where
  "ReportCapability E c deviceID payload w =
     checked_reply ''report capability''
       (doRaw E c ''POST'' (''/v1/desktop/devices/'' @ deviceID @ ''/capabilities'') payload w)"

section \<open>What a call leaves alone\<close>

text \<open>
  No call touches the state beyond the requests, the keystore and the token cache: whatever
  a later component adds to the record keeps its value.
\<close>

definition same_rest :: "'w authw_scheme \<Rightarrow> 'w authw_scheme \<Rightarrow> bool" where
  "same_rest w w' \<longleftrightarrow> authw.more w' = authw.more w \<and> (\<exists>pre. sent w' = sent w @ pre) \<and>
     pairing (tok w') = pairing (tok w) \<and> backend (ks w') = backend (ks w)"

lemma same_rest_refl [simp]: "same_rest w w"
  by (simp add: same_rest_def)

lemma same_rest_trans [trans]: "same_rest w v \<Longrightarrow> same_rest v u \<Longrightarrow> same_rest w u"
  by (auto simp: same_rest_def)

lemma ks_Save_backend: "backend (snd (ks_Save E b k)) = backend k"
  by (auto simp: ks_Save_def split: kbackend.splits option.splits)

lemma ks_Load_backend: "backend (snd (ks_Load E k)) = backend k"
  by (auto simp: ks_Load_def split: kbackend.splits option.splits)

lemma load_cache_rest: "load_cache E what w = (r, w1) \<Longrightarrow> same_rest w w1"
  using ks_Load_backend [of E "ks w"]
  by (auto simp: load_cache_def same_rest_def split: if_splits prod.splits sum.splits)

lemma after_call_rest: "same_rest w (after_call rq w)"
  by (simp add: same_rest_def after_call_def)

lemma Refresh_rest: "Refresh E base tk fp w = (r, w') \<Longrightarrow> same_rest w w'"
  by (auto simp: Refresh_def pairing_call_eq after_call_rest split: if_splits)

lemma save_rest:
  "ks_Save E b (ks w) = (r, k) \<Longrightarrow> same_rest v w \<Longrightarrow> same_rest v (w\<lparr>ks := k\<rparr>)"
  using ks_Save_backend [of E b "ks w"] by (simp add: same_rest_def)

lemma set_cached_rest: "same_rest w (w\<lparr>tok := (tok w)\<lparr>cached := b\<rparr>\<rparr>)"
  by (simp add: same_rest_def)

lemma rotate_session_rest:
  assumes "rotate_session E wrap saving w = (r, w')"
  shows "same_rest w w'"
proof (cases "pairing (tok w)")
  case None
  with assms show ?thesis by (simp add: rotate_session_def)
next
  case (Some base)
  obtain q w1 where q: "Refresh E base (RefreshToken (cached (tok w))) (HwFingerprint (cached (tok w))) w = (q, w1)"
    by fastforce
  note r1 = Refresh_rest [OF q]
  show ?thesis
  proof (cases q)
    case (Inl e)
    with assms Some q r1 show ?thesis by (simp add: rotate_session_def)
  next
    case (Inr resp)
    let ?b = "rotated (cached (tok w1)) resp" and ?w2 = "w1\<lparr>tok := (tok w1)\<lparr>cached := rotated (cached (tok w1)) resp\<rparr>\<rparr>"
    obtain z k where z: "ks_Save E ?b (ks ?w2) = (z, k)" by fastforce
    from assms Some q Inr z have "w' = ?w2\<lparr>ks := k\<rparr>"
      by (auto simp: rotate_session_def Let_def split: option.splits)
    then show ?thesis using save_rest [OF z same_rest_trans [OF r1 set_cached_rest]] by simp
  qed
qed

lemma time_now_rest: "time_now E w = (t, w1) \<Longrightarrow> same_rest w w1"
  by (auto simp: time_now_def same_rest_def)

lemma BearerToken_rest: "BearerToken E w = (r, w') \<Longrightarrow> same_rest w w'"
  unfolding BearerToken_def
  by (auto split: prod.splits sum.splits if_splits
      dest!: load_cache_rest time_now_rest rotate_session_rest intro: same_rest_trans)

lemma ForceRefresh_rest: "ForceRefresh E w = (r, w') \<Longrightarrow> same_rest w w'"
  unfolding ForceRefresh_def
  by (auto split: prod.splits sum.splits dest!: load_cache_rest rotate_session_rest intro: same_rest_trans)

lemma Invalidate_rest: "same_rest w (Invalidate w)"
  by (simp add: same_rest_def Invalidate_def)

text \<open>The request of a call, after the token, and the state that follows it.\<close>

definition after_send :: "bool \<Rightarrow> request \<Rightarrow> 'w netw_scheme \<Rightarrow> 'w netw_scheme" where
  "after_send drawn rq w = w\<lparr>uuids := (if drawn then Suc (uuids w) else uuids w), sent := sent w @ [rq]\<rparr>"

lemma after_send_simps [simp]:
  "sent (after_send d rq w) = sent w @ [rq]"
  "ks (after_send d rq v) = ks v" "tok (after_send d rq v) = tok v"
  "authw.more (after_send d rq v) = authw.more v"
  for v :: "'w authw_scheme"
  by (simp_all add: after_send_def)

definition next_request :: "'e env_scheme \<Rightarrow> cloud_client \<Rightarrow> string \<Rightarrow> string \<Rightarrow> json option \<Rightarrow> 'w netw_scheme \<Rightarrow>
    string \<Rightarrow> request" where
  "next_request E c meth path body w tk =
     cloud_request c tk (if changing_method meth then uuid E (uuids w) else []) meth path body"

lemma doRaw_eq:
  "doRaw E c meth path body w =
     (case BearerToken E w of
        (Inl e, w1) \<Rightarrow> (Inl (errorf ''token source'' e), w1)
      | (Inr tk, w1) \<Rightarrow>
          (if \<not> url_ok E (baseURL c @ path) then (Inl (errorf ''new request'' bad_url), w1)
           else (cloud_reply (server E (sent w1 @ [next_request E c meth path body w1 tk])),
                 after_send (changing_method meth) (next_request E c meth path body w1 tk) w1)))"
  by (auto simp: doRaw_def next_request_def after_send_def new_uuid_def http_do_def
      split: prod.splits sum.splits)

lemma doRaw_rest: "doRaw E c meth path body w = (r, w') \<Longrightarrow> same_rest w w'"
  by (auto simp: doRaw_eq same_rest_def split: prod.splits sum.splits if_splits
      dest!: BearerToken_rest)

lemma do_json_rest: "do_json E c meth path body w = (r, w') \<Longrightarrow> same_rest w w'"
  by (auto simp: do_json_def split: option.splits dest: doRaw_rest)

lemma checked_reply_rest: "same_rest w (snd r) \<Longrightarrow> same_rest w (snd (checked_reply what r))"
  by (auto simp: checked_reply_def split: prod.splits sum.splits)

lemma checked_do_rest: "same_rest w (snd (checked_reply what (do_json E c meth path body w)))"
  by (rule checked_reply_rest) (metis do_json_rest prod.collapse)

lemma Complete_rest [frame_simps]: "same_rest w (snd (Complete E c i tk sm w))"
  unfolding Complete_def by (rule checked_do_rest)

lemma Fail_rest [frame_simps]: "same_rest w (snd (Fail E c i tk m b w))"
  unfolding Fail_def by (rule checked_do_rest)

lemma Surrender_rest [frame_simps]: "same_rest w (snd (Surrender E c i tk m w))"
  unfolding Surrender_def by (rule checked_do_rest)

lemma RecordOutputs_rest [frame_simps]: "same_rest w (snd (RecordOutputs E c i tk xs w))"
  unfolding RecordOutputs_def by (rule checked_do_rest)

lemma ReportCapability_rest [frame_simps]: "same_rest w (snd (ReportCapability E c d p w))"
  unfolding ReportCapability_def by (rule checked_reply_rest) (metis doRaw_rest prod.collapse)

lemma Claim_rest: "Claim E c w = (r, w') \<Longrightarrow> same_rest w w'"
  unfolding Claim_def
  by (auto split: prod.splits sum.splits if_splits dest!: do_json_rest)

lemma Heartbeat_rest: "Heartbeat E c i tk w = (r, w') \<Longrightarrow> same_rest w w'"
  unfolding Heartbeat_def
  by (auto split: prod.splits sum.splits if_splits dest!: do_json_rest)

lemma Progress_rest [frame_simps]: "same_rest w (snd (Progress E c i tk f st d w))"
  unfolding Progress_def
  by (auto simp: Let_def split: prod.splits sum.splits dest!: do_json_rest)

section \<open>Requests and errors of a call\<close>

lemma BearerToken_InrD:
  assumes "BearerToken E w = (Inr t, w')"
  shows "t = SessionJWT (cached (tok w')) \<and> cachedKnown (tok w') \<and>
    (sent w' = sent w \<or> (\<exists>rq. sent w' = sent w @ [rq]))"
  using assms
  by (auto simp: BearerToken_def time_now_def split: prod.splits sum.splits if_splits
      dest!: load_cache_InrD rotate_session_InrD)

lemma BearerToken_errD:
  assumes "BearerToken E w = (Inl e, w')" and "ks_wf (ks w)" and "errors_is e x"
  shows "x = ErrNoSession \<or> x = AuthErrUnauthorized"
  using assms
  by (auto simp: BearerToken_def time_now_def ks_wf_def split: prod.splits sum.splits if_splits
      dest!: load_cache_errD rotate_session_InlD dest: load_cache_backend)

lemma cloud_reply_plain: "cloud_reply r = Inl e \<Longrightarrow> \<not> errors_is e x"
  by (auto simp: cloud_reply_def split: http_result.splits option.splits)

lemma cloud_reply_InrD: "cloud_reply r = Inr (b, st) \<Longrightarrow> r = Reply st b None"
  by (auto simp: cloud_reply_def split: http_result.splits option.splits)

lemma doRaw_errD:
  "doRaw E c meth path body w = (Inl e, w') \<Longrightarrow> ks_wf (ks w) \<Longrightarrow> errors_is e x \<Longrightarrow>
     x = ErrNoSession \<or> x = AuthErrUnauthorized"
  by (auto simp: doRaw_eq cloud_reply_plain split: prod.splits sum.splits if_splits
      dest: BearerToken_errD)

lemma next_request_fields:
  "rq_method (next_request E c meth path body w tk) = meth"
  "rq_url (next_request E c meth path body w tk) = baseURL c @ path"
  "rq_body (next_request E c meth path body w tk) = body"
  "map_of (rq_headers (next_request E c meth path body w tk)) ''Authorization'' = Some (''Bearer '' @ tk)"
  "map_of (rq_headers (next_request E c meth path body w tk)) ''X-Device-Fingerprint'' = nullStr (fingerprint c)"
  "map_of (rq_headers (next_request E c meth path body w tk)) ''Idempotency-Key'' = None \<longleftrightarrow>
     \<not> changing_method meth"
  by (simp_all add: next_request_def cloud_request_def nullStr_def)

text \<open>
  C19. A call that gets an answer sent at most one refresh request and then its own request, last,
  with the session token now in the cache as bearer, the device fingerprint when the client has
  one, an idempotency key exactly when the method changes something, and its own method, URL
  and body; the answer is the cloud's to that request.
\<close>

theorem doRaw_request:
  assumes run: "doRaw E c meth path body w = (Inr (b, st), w')"
  shows "\<exists>pre rq. sent w' = sent w @ pre @ [rq] \<and> length pre \<le> 1 \<and>
    server E (sent w') = Reply st b None \<and>
    rq_method rq = meth \<and> rq_url rq = baseURL c @ path \<and> rq_body rq = body \<and>
    map_of (rq_headers rq) ''Authorization'' = Some (''Bearer '' @ SessionJWT (cached (tok w'))) \<and>
    map_of (rq_headers rq) ''X-Device-Fingerprint'' = nullStr (fingerprint c) \<and>
    (map_of (rq_headers rq) ''Idempotency-Key'' = None \<longleftrightarrow> \<not> changing_method meth)"
proof -
  from run obtain tk w1 where tk: "BearerToken E w = (Inr tk, w1)"
    and w': "w' = after_send (changing_method meth) (next_request E c meth path body w1 tk) w1"
    and reply: "cloud_reply (server E (sent w')) = Inr (b, st)"
    by (auto simp: doRaw_eq split: prod.splits sum.splits if_splits)
  let ?rq = "next_request E c meth path body w1 tk"
  have tok: "tk = SessionJWT (cached (tok w1))"
    and sent: "sent w1 = sent w \<or> (\<exists>rq. sent w1 = sent w @ [rq])"
    using BearerToken_InrD [OF tk] by simp_all
  from sent obtain pre where pre: "sent w1 = sent w @ pre" "length pre \<le> 1"
  proof
    assume "sent w1 = sent w"
    then show thesis by (intro that [of "[]"]) simp_all
  next
    assume "\<exists>rq. sent w1 = sent w @ [rq]"
    then show thesis using that by force
  qed
  have "sent w' = sent w @ pre @ [?rq]" using w' pre by simp
  moreover have "server E (sent w') = Reply st b None" by (rule cloud_reply_InrD [OF reply])
  moreover have "SessionJWT (cached (tok w')) = tk" using w' tok by simp
  ultimately show ?thesis
    using pre(2) next_request_fields [of E c meth path body w1 tk]
    by (intro exI [of _ pre] exI [of _ ?rq]) simp
qed

text \<open>A signed-in world whose session is far from expiry.\<close>

definition fresh_bundle :: session_bundle where
  "fresh_bundle = sample_bundle\<lparr>SessionExpiresAt := far_time\<rparr>"

definition fresh_world :: authw where
  "fresh_world = sample_world\<lparr>tok := (tok sample_world)\<lparr>cached := fresh_bundle\<rparr>\<rparr>"

lemma fresh_not_expired: "refreshGracePeriod < time_until zero_time (SessionExpiresAt fresh_bundle)"
  by (simp add: time_until_def fresh_bundle_def far_time_def zero_time_def refreshGracePeriod_def
      minute_def second_def)

lemma fresh_jwt [simp]: "SessionJWT fresh_bundle = ''jwt''"
  by (simp add: fresh_bundle_def sample_bundle_def)

lemma fresh_token:
  "BearerToken E w = (Inr ''jwt'', w\<lparr>clock_reads := Suc (clock_reads w)\<rparr>)"
  if "clock E (clock_reads w) = zero_time" "cachedKnown (tok w)" "cached (tok w) = fresh_bundle"
  using that fresh_not_expired by (simp add: BearerToken_def load_cache_def time_now_def)

lemma fresh_world_simps [simp]:
  "sent fresh_world = []" "cachedKnown (tok fresh_world)" "cached (tok fresh_world) = fresh_bundle"
  "backend (ks fresh_world) = FileBackend"
  by (simp_all add: fresh_world_def)

lemma fresh_doRaw:
  assumes "clock E (clock_reads w) = zero_time" "\<And>u. url_ok E u"
    and "cachedKnown (tok w)" "cached (tok w) = fresh_bundle"
  shows "doRaw E c meth path body w =
    (let v = w\<lparr>clock_reads := Suc (clock_reads w)\<rparr>; rq = next_request E c meth path body v ''jwt''
     in (cloud_reply (server E (sent w @ [rq])), after_send (changing_method meth) rq v))"
  using assms by (simp add: doRaw_eq fresh_token Let_def)

theorem doRaw_request_witness:
  "\<exists>w'. doRaw (calm_env (\<lambda>_. Reply 200 ''{}'' None) (\<lambda>_. None)) (New ''http://c/'' ''fp'') ''POST'' ''/x'' None fresh_world
      = (Inr (''{}'', 200), w') \<and> length (sent w') \<ge> 1"
proof -
  let ?E = "calm_env (\<lambda>_. Reply 200 ''{}'' None) (\<lambda>_. None)"
  obtain w' where run: "doRaw ?E (New ''http://c/'' ''fp'') ''POST'' ''/x'' None fresh_world = (Inr (''{}'', 200), w')"
    by (simp add: fresh_doRaw Let_def cloud_reply_def)
  from doRaw_request [OF run] run show ?thesis by auto
qed

definition claim_request :: "cloud_client \<Rightarrow> string \<Rightarrow> request" where
  "claim_request c tk = cloud_request c tk [] ''GET'' ''/v1/workloads/claim'' None"

lemma Claim_errors_from:
  assumes "Claim E c w = (Inl e, w')" and "ks_wf (ks w)" and "errors_is e x"
  shows "x = ErrNoSession \<or> x = AuthErrUnauthorized \<or>
    (\<exists>pre tk b. sent w' = sent w @ pre @ [claim_request c tk] \<and>
       (x = ErrNoWork \<and> server E (sent w') = Reply StatusNoContent b None \<or>
        x = SyncErrUnauthorized \<and> server E (sent w') = Reply StatusUnauthorized b None))"
proof -
  obtain r w1 where run: "doRaw E c ''GET'' ''/v1/workloads/claim'' None w = (r, w1)" by fastforce
  show ?thesis
  proof (cases r)
    case (Inl e1)
    with assms run have "e1 = e" by (simp add: Claim_def do_json_def)
    with doRaw_errD assms run Inl show ?thesis by blast
  next
    case (Inr bs)
    obtain b st where bs: "bs = (b, st)" by fastforce
    from run Inr bs obtain tk v where tk: "BearerToken E w = (Inr tk, v)"
      and w1: "w1 = after_send False (claim_request c tk) v"
      and reply: "server E (sent w1) = Reply st b None"
      by (auto simp: doRaw_eq claim_request_def next_request_def changing_method_def
          split: prod.splits sum.splits if_splits dest: cloud_reply_InrD)
    from BearerToken_rest [OF tk] obtain pre where "sent v = sent w @ pre" by (auto simp: same_rest_def)
    with assms run Inr bs w1 reply show ?thesis
      by (auto simp: Claim_def do_json_def unmarshal_data_plain
          split: if_splits sum.splits)
  qed
qed

section \<open>The heartbeat ticker\<close>

text \<open>
  \<open>StartHeartbeat\<close>: the interval it runs with (the scheduler passes the lease's seconds as an
  \<open>int64\<close> of nanoseconds, which wraps), and its goroutine as a step relation.  \<open>hb_due\<close> is the
  ticker's channel of capacity one; \<open>hb_beats\<close> lists the outcomes of the heartbeats sent so far
  and \<open>hb_lost\<close> the errors \<open>OnLost\<close> was called with.  \<open>Stop\<close> is the cancellation followed by
  waiting for \<open>hb_running\<close> to be false.  The world may change between the goroutine's steps.
\<close>

definition heartbeat_interval :: "int \<Rightarrow> int" where
  "heartbeat_interval d = (if d \<le> 0 then 25 * second else d)"

definition lease_interval :: "lease_dto \<Rightarrow> int" where
  "lease_interval l = sint (word_of_int (HeartbeatIntervalSec l * second) :: 64 word)"

record 'w heartbeat =
  hb_cancelled :: bool
  hb_due :: bool
  hb_running :: bool
  hb_beats :: "(gerror + lease_dto) list"
  hb_lost :: "gerror list"
  hb_world :: 'w

definition StartHeartbeat :: "'w \<Rightarrow> 'w heartbeat" where
  "StartHeartbeat w = \<lparr>hb_cancelled = False, hb_due = False, hb_running = True, hb_beats = [],
     hb_lost = [], hb_world = w\<rparr>"

text \<open>One round of the loop's second branch.\<close>

definition hb_beat ::
  "'e env_scheme \<Rightarrow> cloud_client \<Rightarrow> string \<Rightarrow> string \<Rightarrow> bool \<Rightarrow> 'w authw_scheme heartbeat \<Rightarrow>
     'w authw_scheme heartbeat" where
  "hb_beat E c wid leaseToken has_onlost h =
     (case Heartbeat E c wid leaseToken (hb_world h) of
        (Inr l, w') \<Rightarrow> h\<lparr>hb_due := False, hb_beats := hb_beats h @ [Inr l], hb_world := w'\<rparr>
      | (Inl e, w') \<Rightarrow> h\<lparr>hb_due := False, hb_beats := hb_beats h @ [Inl e], hb_world := w',
            hb_lost := (if has_onlost then hb_lost h @ [e] else hb_lost h), hb_running := False\<rparr>)"

inductive hb_step ::
  "'e env_scheme \<Rightarrow> cloud_client \<Rightarrow> string \<Rightarrow> string \<Rightarrow> bool \<Rightarrow> 'w authw_scheme heartbeat \<Rightarrow>
     'w authw_scheme heartbeat \<Rightarrow> bool"
  for E c wid tk onlost where
  due: "hb_step E c wid tk onlost h (h\<lparr>hb_due := True\<rparr>)"
| cancel: "hb_step E c wid tk onlost h (h\<lparr>hb_cancelled := True\<rparr>)"
| others: "hb_step E c wid tk onlost h (h\<lparr>hb_world := w\<rparr>)"
| quit: "hb_running h \<Longrightarrow> hb_cancelled h \<Longrightarrow> hb_step E c wid tk onlost h (h\<lparr>hb_running := False\<rparr>)"
| beat: "hb_running h \<Longrightarrow> hb_due h \<Longrightarrow> hb_step E c wid tk onlost h (hb_beat E c wid tk onlost h)"

inductive_cases hb_stepE: "hb_step E c wid tk onlost h h'"

definition hb_ok :: "'w heartbeat \<Rightarrow> bool" where
  "hb_ok h \<longleftrightarrow> (\<exists>ls. hb_beats h = map Inr ls \<and> hb_lost h = []) \<or>
     (\<exists>ls e. hb_beats h = map Inr ls @ [Inl e] \<and> hb_lost h = [e] \<and> \<not> hb_running h)"

lemma hb_beat_ok:
  assumes "hb_ok h" and "hb_running h"
  shows "hb_ok (hb_beat E c wid tk True h)"
proof -
  from assms obtain ls where ls: "hb_beats h = map Inr ls" "hb_lost h = []" by (auto simp: hb_ok_def)
  obtain r w' where r: "Heartbeat E c wid tk (hb_world h) = (r, w')" by fastforce
  show ?thesis
  proof (cases r)
    case (Inl e)
    with r ls show ?thesis by (simp add: hb_beat_def hb_ok_def)
  next
    case (Inr l)
    with r ls have "hb_beats (hb_beat E c wid tk True h) = map Inr (ls @ [l])"
      "hb_lost (hb_beat E c wid tk True h) = []"
      by (simp_all add: hb_beat_def)
    then show ?thesis unfolding hb_ok_def by blast
  qed
qed

lemma hb_step_ok: "hb_step E c wid tk True h h' \<Longrightarrow> hb_ok h \<Longrightarrow> hb_ok h'"
  by (erule hb_stepE) (auto simp: hb_beat_ok, auto simp: hb_ok_def)

interpretation beats: step_invariant "hb_step E c wid tk True" hb_ok for E c wid tk
  by unfold_locales (rule hb_step_ok)

definition hb_ended :: "'w heartbeat \<Rightarrow> 'w heartbeat \<Rightarrow> bool" where
  "hb_ended h h' \<longleftrightarrow> (\<not> hb_running h \<longrightarrow> \<not> hb_running h' \<and> hb_beats h' = hb_beats h)"

interpretation beat_history: step_monotone "hb_step E c wid tk onlost" hb_ended for E c wid tk onlost
  by unfold_locales (auto simp: hb_ended_def elim!: hb_stepE)

text \<open>
  C32. Whatever else happens, the heartbeat goroutine calls \<open>OnLost\<close> at most once: exactly when a
  heartbeat failed, with that heartbeat's error, whatever it is; it has then ended.  Every
  heartbeat before it succeeded, and once the goroutine has ended no further one is sent.
\<close>

theorem heartbeat_lost_once:
  assumes reach: "(hb_step E c wid tk True)\<^sup>*\<^sup>* (StartHeartbeat w) h"
    and later: "(hb_step E c wid tk True)\<^sup>*\<^sup>* h h'"
  shows "((\<exists>ls. hb_beats h = map Inr ls \<and> hb_lost h = []) \<or>
      (\<exists>ls e. hb_beats h = map Inr ls @ [Inl e] \<and> hb_lost h = [e] \<and> \<not> hb_running h)) \<and>
    (\<not> hb_running h \<longrightarrow> \<not> hb_running h' \<and> hb_beats h' = hb_beats h)"
proof -
  have "hb_ok (StartHeartbeat w)" by (simp add: hb_ok_def StartHeartbeat_def)
  from beats.run_keeps [OF reach this] beat_history.run_before [OF later]
  show ?thesis by (simp add: hb_ok_def hb_ended_def)
qed

text \<open>A lease the cloud has given to someone else.\<close>

definition conflict_env :: env where
  "conflict_env = calm_env (\<lambda>_. Reply 409 ''stolen'' None) (\<lambda>_. None)"

lemma conflict_heartbeat:
  "\<exists>w' e. Heartbeat conflict_env c wid tk fresh_world = (Inl e, w')"
  by (simp add: Heartbeat_def do_json_def conflict_env_def fresh_doRaw Let_def cloud_reply_def
      http_status_defs)

theorem heartbeat_lost_once_witness:
  "\<exists>h. (hb_step conflict_env (New ''http://c'' ''fp'') ''wl'' ''lt'' True)\<^sup>*\<^sup>* (StartHeartbeat fresh_world) h \<and>
     length (hb_lost h) = 1 \<and> length (hb_beats h) = 1"
proof -
  let ?step = "hb_step conflict_env (New ''http://c'' ''fp'') ''wl'' ''lt'' True"
  let ?h1 = "(StartHeartbeat fresh_world)\<lparr>hb_due := True\<rparr>"
  let ?h2 = "hb_beat conflict_env (New ''http://c'' ''fp'') ''wl'' ''lt'' True ?h1"
  have "?step (StartHeartbeat fresh_world) ?h1" by (rule hb_step.due)
  moreover have "?step ?h1 ?h2" by (rule hb_step.beat) (simp_all add: StartHeartbeat_def)
  ultimately have reach: "?step\<^sup>*\<^sup>* (StartHeartbeat fresh_world) ?h2" by simp
  have "\<not> hb_running ?h2"
    using conflict_heartbeat [of "New ''http://c'' ''fp''" "''wl''" "''lt''"]
    by (auto simp: hb_beat_def StartHeartbeat_def)
  moreover have "hb_lost ?h2 \<noteq> []"
    using conflict_heartbeat [of "New ''http://c'' ''fp''" "''wl''" "''lt''"]
    by (auto simp: hb_beat_def StartHeartbeat_def)
  moreover have "length (hb_beats ?h2) = 1"
    using conflict_heartbeat [of "New ''http://c'' ''fp''" "''wl''" "''lt''"]
    by (auto simp: hb_beat_def StartHeartbeat_def)
  ultimately show ?thesis
    using heartbeat_lost_once [OF reach rtranclp.rtrancl_refl] reach by (intro exI [of _ ?h2]) auto
qed

end
