(* ===== verification/Registry.thy ===== *)
theory Registry
  imports Cloud
begin

text \<open>
  Package \<open>internal/runtime/registry\<close>: the executors the scheduler dispatches to.

  An executor is a record of its methods over a state \<open>'w\<close>; \<open>ex_Execute\<close> is what happens between
  its call and its return, which includes whatever the other goroutines of the daemon do
  meanwhile.  \<open>Cancel\<close> and \<open>Recover\<close> of the Go interface are not in the record: nothing in the
  program calls them.
\<close>

section \<open>Workloads and executors\<close>

record workload =
  wl_ID :: string
  wl_OrganizationID :: string
  wl_Type :: string
  wl_Version :: int
  wl_Payload :: "(string \<times> json) list option"
  wl_RequiredCaps :: "(string \<times> json) list option"

record resource_estimate =
  CPUCores :: rat
  RAMBytes :: int
  DiskBytes :: int
  GPU :: bool
  Duration :: int

text \<open>The job handle an executor gets, as far as it is data.\<close>

record job_handle =
  jh_id :: string
  jh_wl :: workload
  jh_leaseToken :: string
  jh_workDir :: string

record 'w executor =
  ex_ID :: string
  ex_CanRun :: "workload \<Rightarrow> bool"
  ex_Estimate :: "workload \<Rightarrow> resource_estimate"
  ex_Execute :: "job_handle \<Rightarrow> 'w \<Rightarrow> gerror option \<times> 'w"

section \<open>The registry\<close>

text \<open>
  The map of a registry, as the list of its entries in the order they were made.  \<open>Register\<close>
  panics (\<open>None\<close>) on a duplicate.  A range over the map gives its values in any order, so a
  statement about \<open>All\<close> may only be about the values as a collection.
\<close>

type_synonym 'w registry = "(string \<times> 'w executor) list"

definition NewRegistry :: "'w registry" where
  "NewRegistry = []"

definition Register :: "'w executor \<Rightarrow> 'w registry \<Rightarrow> 'w registry option" where
  "Register e r = (if map_of r (ex_ID e) \<noteq> None then None else Some (r @ [(ex_ID e, e)]))"

definition Lookup :: "'w registry \<Rightarrow> string \<Rightarrow> 'w executor option" where
  "Lookup r t = map_of r t"

definition All_executors :: "'w registry \<Rightarrow> 'w executor list" where
  "All_executors r = map snd r"

text \<open>The boot-time wiring: one \<open>Register\<close> after the other, a panic ends the process.\<close>

fun register_all :: "'w executor list \<Rightarrow> 'w registry \<Rightarrow> 'w registry option" where
  "register_all [] r = Some r"
| "register_all (e # es) r = (case Register e r of None \<Rightarrow> None | Some r' \<Rightarrow> register_all es r')"

text \<open>What the scheduler relies on: looking up finds what was registered, and only that.\<close>

locale dispatch_table =
  fixes register :: "'x \<Rightarrow> 't \<Rightarrow> 't option" and lookup :: "'t \<Rightarrow> 'k \<Rightarrow> 'x option" and key :: "'x \<Rightarrow> 'k"
  assumes register_panics: "register x t = None \<longleftrightarrow> lookup t (key x) \<noteq> None"
    and register_adds: "register x t = Some t' \<Longrightarrow> lookup t' k = (if k = key x then Some x else lookup t k)"
begin

lemma registered_found: "register x t = Some t' \<Longrightarrow> lookup t' (key x) = Some x"
  by (simp add: register_adds)

lemma registered_keeps: "register x t = Some t' \<Longrightarrow> lookup t k = Some y \<Longrightarrow> lookup t' k = Some y"
  using register_panics [of x t] by (cases "k = key x") (auto simp: register_adds)

lemma no_second: "register x t = Some t' \<Longrightarrow> key y = key x \<Longrightarrow> register y t' = None"
  by (simp add: register_panics register_adds)

end

interpretation executors: dispatch_table Register Lookup ex_ID
proof unfold_locales
  fix x and t :: "'a registry"
  show "Register x t = None \<longleftrightarrow> Lookup t (ex_ID x) \<noteq> None" by (simp add: Register_def Lookup_def)
next
  fix x and t t' :: "'a registry" and k
  assume "Register x t = Some t'"
  then show "Lookup t' k = (if k = ex_ID x then Some x else Lookup t k)"
    by (cases "map_of t k") (auto simp: Register_def Lookup_def map_add_def split: if_splits option.splits)
qed

lemma register_all_result:
  "register_all es r =
     (if distinct (map ex_ID es) \<and> (\<forall>e \<in> set es. Lookup r (ex_ID e) = None)
      then Some (r @ map (\<lambda>e. (ex_ID e, e)) es) else None)"
proof (induction es arbitrary: r)
  case (Cons e es)
  show ?case
  proof (cases "Lookup r (ex_ID e)")
    case None
    have "Lookup (r @ [(ex_ID e, e)]) k = None \<longleftrightarrow> Lookup r k = None \<and> k \<noteq> ex_ID e" for k
      by (auto simp: Lookup_def map_add_def split: option.splits)
    with None Cons show ?thesis by (auto simp: Register_def Lookup_def image_iff) metis+
  qed (simp add: Register_def Lookup_def)
qed simp

lemma map_of_keyed: "map_of (map (\<lambda>e. (f e, e)) es) k = find (\<lambda>e. f e = k) es"
  by (induction es) auto

text \<open>
  Wiring a list of executors succeeds exactly when their ids are distinct; then a workload
  type is dispatched to the executor with that id, if there is one, and every executor is
  advertised once.
\<close>

theorem wired_dispatch:
  "(case register_all es NewRegistry of
      None \<Rightarrow> \<not> distinct (map ex_ID es)
    | Some r \<Rightarrow> distinct (map ex_ID es) \<and> Lookup r t = find (\<lambda>e. ex_ID e = t) es \<and>
        length (All_executors r) = length es \<and> set (All_executors r) = set es)"
  by (simp add: register_all_result NewRegistry_def Lookup_def All_executors_def map_of_keyed image_image comp_def)

end
