(* ===== verification/Recovery.thy ===== *)
theory Recovery
  imports Store "HOL-Library.Multiset"
begin

text \<open>
  Boot-time recovery and bulk failure, \<open>internal/jobqueue/recovery.go\<close>: the transaction of
  \<open>failActive\<close>, statement by statement, with its deferred rollback; the two callers; and the
  runs of the store as a whole, in which any operation of the package may be next.
\<close>

section \<open>The bulk-failure transaction\<close>

definition ReasonOrphanedAfterRestart :: string where
  "ReasonOrphanedAfterRestart = ''orphaned_after_restart''"

definition ReasonUnpaired :: string where
  "ReasonUnpaired = ''unpaired''"

text \<open>\<open>tx.Rollback\<close>: the tables and the counters are those at the start of the transaction.\<close>

definition rollback :: "store \<Rightarrow> store \<Rightarrow> store" where
  "rollback s0 s = s0\<lparr>stmts := stmts s\<rparr>"

text \<open>SELECT id FROM jobs WHERE status IN (...): the ids in the engine's order.\<close>

definition select_ids :: "(string \<Rightarrow> nat) \<Rightarrow> string list \<Rightarrow> store \<Rightarrow> string list" where
  "select_ids tie statuses s =
     order_by (\<lambda>a b. tie a \<le> tie b) (map jid (filter (\<lambda>r. job_status r \<in> set statuses) (jobs s)))"

text \<open>The event loop: the first insert that fails ends it.\<close>

fun insert_events ::
  "'e db_env_scheme \<Rightarrow> string \<Rightarrow> string \<Rightarrow> string list \<Rightarrow> store \<Rightarrow> (gerror + unit) \<times> store" where
  "insert_events E kind msg [] s = (Inr (), s)"
| "insert_events E kind msg (i # is) s =
     (case exec_stmt E (sql_insert_event i kind msg None) s of
        (Inl e, s') \<Rightarrow> (Inl (errorf (''failActive: insert event for '' @ i) e), s')
      | (Inr u, s') \<Rightarrow> insert_events E kind msg is s')"

text \<open>The statements between BEGIN and the return; the last one is COMMIT.\<close>

definition fail_active_tx ::
  "'e db_env_scheme \<Rightarrow> string list \<Rightarrow> string \<Rightarrow> string \<Rightarrow> store \<Rightarrow> (gerror + int) \<times> store" where
  "fail_active_tx E statuses eventKind message s =
     (case exec_stmt E (sql_select (select_ids (db_tie E (stmts s)) statuses)) s of
        (Inl e, s1) \<Rightarrow> (Inl (errorf ''failActive: select ids'' e), s1)
      | (Inr ids, s1) \<Rightarrow>
          (if ids = [] then
             (case exec_stmt E (sql_select (\<lambda>_. ())) s1 of
                (Inl e, s2) \<Rightarrow> (Inl (errorf ''failActive: commit empty'' e), s2)
              | (Inr u, s2) \<Rightarrow> (Inr 0, s2))
           else
             (case exec_stmt E (sql_update_jobs (\<lambda>r. job_status r \<in> set statuses)
                     (\<lambda>now r. r\<lparr>job_status := StatusFailed, updated_at := now\<rparr>)) s1 of
                (Inl e, s2) \<Rightarrow> (Inl (errorf ''failActive: update'' e), s2)
              | (Inr u, s2) \<Rightarrow>
                  (case exec_stmt E (sql_select (\<lambda>_. ())) s2 of
                     (Inl e, s3) \<Rightarrow> (Inl (errorf ''failActive: prepare event'' e), s3)
                   | (Inr u, s3) \<Rightarrow>
                       (case insert_events E eventKind message ids s3 of
                          (Inl e, s4) \<Rightarrow> (Inl e, s4)
                        | (Inr u, s4) \<Rightarrow>
                            (case exec_stmt E (sql_select (\<lambda>_. ())) s4 of
                               (Inl e, s5) \<Rightarrow> (Inl (errorf ''failActive: commit'' e), s5)
                             | (Inr u, s5) \<Rightarrow> (Inr (int (length ids)), s5)))))))"

definition failActive ::
  "'e db_env_scheme \<Rightarrow> string list \<Rightarrow> string \<Rightarrow> string \<Rightarrow> store \<Rightarrow> (gerror + int) \<times> store" where
  "failActive E statuses eventKind message s =
     (if statuses = [] then (Inl (Plain ''failActive: empty statuses''), s)
      else if eventKind = [] then (Inl (Plain ''failActive: empty eventKind''), s)
      else (case exec_stmt E (sql_select (\<lambda>_. ())) s of
          (Inl e, s1) \<Rightarrow> (Inl (errorf ''failActive: begin tx'' e), s1)
        | (Inr u, s1) \<Rightarrow>
            (case fail_active_tx E statuses eventKind message s1 of
               (Inl e, s2) \<Rightarrow> (Inl e, rollback s1 s2)
             | (Inr n, s2) \<Rightarrow> (Inr n, s2))))"

definition RecoverOrphaned ::
  "'e db_env_scheme \<Rightarrow> string \<Rightarrow> store \<Rightarrow> (gerror + int) \<times> store" where
  "RecoverOrphaned E reason s =
     (let reason = (if reason = [] then ReasonOrphanedAfterRestart else reason)
      in failActive E [StatusRunning] ''orphan_failed'' reason s)"

definition SweepActiveToFailed ::
  "'e db_env_scheme \<Rightarrow> string \<Rightarrow> store \<Rightarrow> (gerror + int) \<times> store" where
  "SweepActiveToFailed E reason s =
     (let reason = (if reason = [] then ReasonUnpaired else reason)
      in failActive E [StatusQueued, StatusRunning] ''unpair_failed'' reason s)"

section \<open>All or nothing\<close>

lemma order_by_mset [simp]: "mset (order_by le xs) = mset xs"
proof -
  have ins: "mset (insert_by le x ys) = add_mset x (mset ys)" for x ys
    by (induction ys) auto
  show ?thesis by (induction xs) (simp_all add: order_by_def ins)
qed

lemma tables_rollback [simp]: "tables (rollback s0 s) = tables s0"
  by (simp add: tables_def rollback_def)

definition new_event :: "string \<Rightarrow> string \<Rightarrow> event \<Rightarrow> bool" where
  "new_event kind msg e \<longleftrightarrow> ev_kind e = kind \<and> ev_message e = msg \<and> ev_attrs_json e = None"

lemma insert_events_result:
  "insert_events E kind msg is s = (Inr (), t) \<Longrightarrow>
     jobs t = jobs s \<and> attempts t = attempts s \<and> at_seq t = at_seq s \<and>
     (\<exists>es. events t = events s @ es \<and> map ev_job_id es = is \<and> list_all (new_event kind msg) es)"
proof (induction "is" arbitrary: s)
  case Nil
  then show ?case by simp
next
  case (Cons i "is")
  then obtain u where u: "exec_stmt E (sql_insert_event i kind msg None) s = (Inr (), u)"
    and rest: "insert_events E kind msg is u = (Inr (), t)"
    by (auto split: prod.splits sum.splits)
  from u have step: "jobs u = jobs s" "attempts u = attempts s" "at_seq u = at_seq s"
    "\<exists>e. events u = events s @ [e] \<and> ev_job_id e = i \<and> new_event kind msg e"
    by (auto simp: sql_insert_event_def new_event_def split: if_splits dest!: exec_stmt_InrD)
  from Cons.IH [OF rest] step show ?case
    by (elim conjE exE) (rule conjI, simp, rule conjI, simp, rule conjI, simp,
      rule_tac x = "e # es" in exI, simp)
qed

text \<open>What the flip does to one row, and to the table.\<close>

definition fail_row :: "string list \<Rightarrow> string \<Rightarrow> row \<Rightarrow> row" where
  "fail_row statuses now r =
     (if job_status r \<in> set statuses then r\<lparr>job_status := StatusFailed, updated_at := now\<rparr> else r)"

definition active_rows :: "string list \<Rightarrow> store \<Rightarrow> row list" where
  "active_rows statuses s = filter (\<lambda>r. job_status r \<in> set statuses) (jobs s)"

lemma fail_active_tx_result:
  assumes "fail_active_tx E sts kind msg s = (Inr n, t)"
  shows "n = int (length (active_rows sts s)) \<and> attempts t = attempts s \<and>
    (\<exists>now. jobs t = map (fail_row sts now) (jobs s)) \<and>
    (\<exists>es. events t = events s @ es \<and> mset (map ev_job_id es) = mset (map jid (active_rows sts s)) \<and>
       list_all (new_event kind msg) es)"
proof -
  let ?ids = "select_ids (db_tie E (stmts s)) sts (tick s)"
  have ids: "mset ?ids = mset (map jid (active_rows sts s))"
    by (simp add: select_ids_def active_rows_def)
  then have len: "length ?ids = length (active_rows sts s)"
    by (metis length_map size_mset)
  have sel: "exec_stmt E (sql_select (select_ids (db_tie E (stmts s)) sts)) s = (Inr ?ids, tick s)"
  proof (cases "db_fault E (stmts s)")
    case None
    then show ?thesis by (simp add: exec_stmt_ok sql_select_def)
  next
    case (Some m)
    with assms show ?thesis by (simp add: fail_active_tx_def exec_stmt_fault)
  qed
  show ?thesis
  proof (cases "?ids = []")
    case True
    with ids have none: "active_rows sts s = []" by simp
    then have "map (fail_row sts now) (jobs s) = jobs s" for now
      by (auto simp: active_rows_def fail_row_def filter_empty_conv intro: map_idI)
    with True none assms sel show ?thesis
      by (auto simp: fail_active_tx_def sql_select_def split: prod.splits sum.splits dest!: stmtD)
  next
    case False
    then obtain s2 s3 s4 where
      upd: "exec_stmt E (sql_update_jobs (\<lambda>r. job_status r \<in> set sts)
          (\<lambda>now r. r\<lparr>job_status := StatusFailed, updated_at := now\<rparr>)) (tick s) = (Inr (), s2)"
      and prep: "exec_stmt E (sql_select (\<lambda>_. ())) s2 = (Inr (), s3)"
      and ins: "insert_events E kind msg ?ids s3 = (Inr (), s4)"
      and com: "exec_stmt E (sql_select (\<lambda>_. ())) s4 = (Inr (), t)"
      and n: "n = int (length ?ids)"
      using assms sel by (auto simp: fail_active_tx_def split: prod.splits sum.splits)
    from upd have "jobs s2 = map (fail_row sts (db_now E (Suc (stmts s)))) (jobs s)"
      "events s2 = events s" "attempts s2 = attempts s"
      by (auto simp: sql_update_jobs_def fail_row_def dest!: exec_stmt_InrD)
    moreover from prep have "s3 = tick s2"
      by (auto simp: sql_select_def dest!: exec_stmt_InrD)
    moreover from com have "t = tick s4"
      by (auto simp: sql_select_def dest!: exec_stmt_InrD)
    ultimately show ?thesis
      using insert_events_result [OF ins] n len ids by (auto simp del: mset_map)
  qed
qed

lemma failActive_InlD: "failActive E sts kind msg s = (Inl e, t) \<Longrightarrow> tables t = tables s"
  by (auto simp: failActive_def sql_select_def split: if_splits prod.splits sum.splits dest!: stmtD)

lemma failActive_InrD: "failActive E sts kind msg s = (Inr n, t) \<Longrightarrow> fail_active_tx E sts kind msg (tick s) = (Inr n, t)"
  by (auto simp: failActive_def sql_select_def split: if_splits prod.splits sum.splits dest!: stmtD)

lemma failActive_jobs:
  "failActive E sts kind msg s = (Inr n, t) \<Longrightarrow> \<exists>now. jobs t = map (fail_row sts now) (jobs s)"
  using fail_active_tx_result [OF failActive_InrD] by fastforce

text \<open>
  C12. The bulk failure is atomic: whichever statement of the transaction fails, an error
  leaves every table as it was.  Otherwise the returned count is the number of jobs in one of
  the statuses; exactly those rows become failed and no other row changes; the event log
  grows by exactly one event per flipped job, all of the given kind and message.
\<close>

theorem failActive_atomic:
  assumes run: "failActive E sts kind msg s = (r, t)"
  shows "(\<exists>e. r = Inl e \<and> tables t = tables s) \<or>
    (r = Inr (int (length (active_rows sts s))) \<and> attempts t = attempts s \<and>
     (\<exists>now. jobs t = map (fail_row sts now) (jobs s)) \<and>
     (\<exists>es. events t = events s @ es \<and>
        mset (map ev_job_id es) = mset (map jid (active_rows sts s)) \<and>
        list_all (new_event kind msg) es))"
proof (cases r)
  case (Inl e)
  with run failActive_InlD show ?thesis by blast
next
  case (Inr n)
  with run fail_active_tx_result [OF failActive_InrD, of E sts kind msg s n t] show ?thesis
    by (simp add: active_rows_def)
qed

definition orphan_store :: store where
  "orphan_store = snd (UpdateStatus calm_db ''j1'' StatusRunning sample_store)"

lemma orphan_store_eq:
  "orphan_store = \<lparr>jobs = [(row_of_input sample_input ''2026-05-07 15:30:00'')\<lparr>job_status := StatusRunning\<rparr>],
     events = [], attempts = [], ev_seq = 0, at_seq = 0, stmts = 2\<rparr>"
  by (simp add: orphan_store_def UpdateStatus_def update_job_def sample_store_eq sample_simps)

lemma orphan_recovered:
  "\<exists>t. RecoverOrphaned calm_db [] orphan_store = (Inr 1, t)"
  by (simp add: RecoverOrphaned_def failActive_def fail_active_tx_def orphan_store_eq sample_simps
      select_ids_def order_by_def status_defs)

theorem failActive_atomic_witness:
  "\<exists>t. failActive calm_db [StatusRunning] ''orphan_failed'' ReasonOrphanedAfterRestart orphan_store = (Inr 1, t) \<and>
     (\<exists>es. events t = es \<and> mset (map ev_job_id es) = {#''j1''#})"
proof -
  from orphan_recovered obtain t where
    t: "failActive calm_db [StatusRunning] ''orphan_failed'' ReasonOrphanedAfterRestart orphan_store = (Inr 1, t)"
    by (auto simp: RecoverOrphaned_def)
  have "map jid (active_rows [StatusRunning] orphan_store) = [''j1'']"
    by (simp add: active_rows_def orphan_store_eq row_of_input_def sample_input_def)
  with failActive_atomic [OF t] t show ?thesis by (auto simp: orphan_store_eq)
qed

section \<open>Idempotence\<close>

lemma active_rows_after:
  assumes "StatusFailed \<notin> set sts" and "jobs t = map (fail_row sts now) (jobs s)"
  shows "active_rows sts t = []"
  using assms by (auto simp: active_rows_def fail_row_def filter_empty_conv)

lemma failActive_none_active:
  assumes "active_rows sts s = []" and "failActive E sts kind msg s = (r, t)"
  shows "tables t = tables s \<and> (\<forall>n. r = Inr n \<longrightarrow> n = 0)"
proof (cases r)
  case (Inl e)
  with failActive_InlD assms(2) show ?thesis by blast
next
  case (Inr n)
  with assms(2) have tx: "fail_active_tx E sts kind msg (tick s) = (Inr n, t)"
    by (simp add: failActive_InrD)
  have "select_ids tie sts u = []" if "jobs u = jobs s" for tie u
    using assms(1) that by (simp add: select_ids_def active_rows_def order_by_def)
  with tx Inr show ?thesis
    by (auto simp: fail_active_tx_def sql_select_def tables_def split: if_splits prod.splits sum.splits dest!: stmtD)
qed

text \<open>
  The sweeps are idempotent: after a boot-time recovery that succeeded no job is running,
  and after an unpair sweep that succeeded no job is queued or running; calling the sweep
  again, whatever the database does, changes no table, and when it succeeds it reports 0 jobs.
\<close>

theorem sweeps_idempotent:
  assumes "sweep = RecoverOrphaned \<and> live = [StatusRunning] \<or>
           sweep = SweepActiveToFailed \<and> live = [StatusQueued, StatusRunning]"
    and first: "sweep E reason s = (Inr n, t)"
    and again: "sweep E' reason' t = (r, u)"
  shows "(\<forall>j \<in> set (jobs t). job_status j \<notin> set live) \<and> tables u = tables t \<and>
    (\<forall>k. r = Inr k \<longrightarrow> k = 0)"
proof -
  obtain kind msg kind' msg' where f: "failActive E live kind msg s = (Inr n, t)"
    and g: "failActive E' live kind' msg' t = (r, u)"
    using assms by (auto simp: RecoverOrphaned_def SweepActiveToFailed_def Let_def)
  from failActive_jobs [OF f] obtain now where "jobs t = map (fail_row live now) (jobs s)" ..
  then have none: "active_rows live t = []"
    using assms(1) by (intro active_rows_after) (auto simp: status_defs)
  then have "\<forall>j \<in> set (jobs t). job_status j \<notin> set live"
    by (simp add: active_rows_def filter_empty_conv)
  with failActive_none_active [OF none g] show ?thesis by simp
qed

theorem sweeps_idempotent_witness:
  "\<exists>t r u. RecoverOrphaned calm_db [] orphan_store = (Inr 1, t) \<and>
     RecoverOrphaned calm_db [] t = (r, u) \<and> tables u = tables t"
proof -
  obtain t where t: "RecoverOrphaned calm_db [] orphan_store = (Inr 1, t)"
    using orphan_recovered by blast
  obtain r u where u: "RecoverOrphaned calm_db [] t = (r, u)" by fastforce
  have "RecoverOrphaned = RecoverOrphaned \<and> [StatusRunning] = [StatusRunning] \<or>
    RecoverOrphaned = SweepActiveToFailed \<and> [StatusRunning] = [StatusQueued, StatusRunning]" by simp
  from sweeps_idempotent [OF this t u] t u show ?thesis by blast
qed

section \<open>Runs of the store\<close>

lemma insert_events_safe: "safe s0 s \<Longrightarrow> safe s0 (snd (insert_events E kind msg is s))"
proof (induction "is" arbitrary: s)
  case Nil
  then show ?case by simp
next
  case (Cons i "is")
  have "safe s0 (snd (exec_stmt E (sql_insert_event i kind msg None) s))"
    using Cons.prems by (rule exec_stmt_safe_from) (rule stmt_ok_insert_event)
  then show ?case
    unfolding insert_events.simps by (rule safe_op_case) (simp_all add: Cons.IH)
qed

lemma fail_active_tx_safe: "safe s0 s \<Longrightarrow> safe s0 (snd (fail_active_tx E sts kind msg s))"
proof -
  have upd: "stmt_ok (sql_update_jobs (\<lambda>r. job_status r \<in> set sts)
      (\<lambda>now r. r\<lparr>job_status := StatusFailed, updated_at := now\<rparr>))"
    by (auto intro!: wf_intros simp: job_key_def all_statuses_def)
  assume "safe s0 s"
  then show ?thesis
    unfolding fail_active_tx_def
    by (auto intro!: safe_op_case exec_stmt_safe_from insert_events_safe upd stmt_ok_select)
qed

lemma rollback_safe: "safe s0 s1 \<Longrightarrow> store_before s1 s2 \<Longrightarrow> safe s0 (rollback s1 s2)"
  by (auto simp: safe_def store_before_def rollback_def)

lemma tx_or_rollback_safe:
  assumes "safe s s1"
  shows "safe s (snd (case fail_active_tx E sts kind msg s1 of
      (Inl e, s2) \<Rightarrow> (Inl e, rollback s1 s2) | (Inr n, s2) \<Rightarrow> (Inr n, s2)))"
proof -
  obtain r s2 where tx: "fail_active_tx E sts kind msg s1 = (r, s2)" by fastforce
  with fail_active_tx_safe [OF safe_refl, of s1 E sts kind msg] have "safe s1 s2" by simp
  then have "store_before s1 s2" by (simp add: safe_def)
  with assms \<open>safe s1 s2\<close> rollback_safe safe_trans show ?thesis
    unfolding tx by (cases r) auto
qed

lemma failActive_safe [wf_intros]: "safe s (snd (failActive E sts kind msg s))"
proof -
  have "safe s (snd (case exec_stmt E (sql_select (\<lambda>_. ())) s of
      (Inl e, s1) \<Rightarrow> (Inl (errorf ''failActive: begin tx'' e), s1)
    | (Inr u, s1) \<Rightarrow> (case fail_active_tx E sts kind msg s1 of
        (Inl e, s2) \<Rightarrow> (Inl e, rollback s1 s2) | (Inr n, s2) \<Rightarrow> (Inr n, s2))))"
    by (rule safe_op_case) (auto intro: exec_stmt_safe_from stmt_ok_select tx_or_rollback_safe)
  then show ?thesis by (simp add: failActive_def)
qed

lemma RecoverOrphaned_safe [wf_intros]: "safe s (snd (RecoverOrphaned E reason s))"
  by (simp add: RecoverOrphaned_def Let_def failActive_safe)

lemma SweepActiveToFailed_safe [wf_intros]: "safe s (snd (SweepActiveToFailed E reason s))"
  by (simp add: SweepActiveToFailed_def Let_def failActive_safe)

text \<open>
  One step of the store in a daemon: any goroutine completes any operation of the package with
  any arguments.  The callers of \<open>UpdateStatus\<close> pass one of the six status constants.
\<close>

inductive store_step :: "'e db_env_scheme \<Rightarrow> store \<Rightarrow> store \<Rightarrow> bool" for E where
  create: "store_step E s (snd (CreateJob E i s))"
| get: "store_step E s (snd (GetJob E i s))"
| get_workload: "store_step E s (snd (GetByWorkloadID E w s))"
| list: "store_step E s (snd (ListJobs E st l off s))"
| cancel: "store_step E s (snd (Cancel E i s))"
| set_status: "st \<in> set all_statuses \<Longrightarrow> store_step E s (snd (UpdateStatus E i st s))"
| set_resumable: "store_step E s (snd (UpdateResumableState E i x s))"
| set_lease: "store_step E s (snd (UpdateLease E i tok ex s))"
| append_event: "store_step E s (snd (AppendEvent E i k m a s))"
| list_events: "store_step E s (snd (ListEvents E i l s))"
| start_attempt: "store_step E s (snd (StartAttempt E i n s))"
| finish_attempt: "store_step E s (snd (FinishAttempt E a out m s))"
| count_attempts: "store_step E s (snd (AttemptCount E i s))"
| recover: "store_step E s (snd (RecoverOrphaned E reason s))"
| sweep: "store_step E s (snd (SweepActiveToFailed E reason s))"

lemma store_step_safe: "store_step E s t \<Longrightarrow> safe s t"
  by (induction rule: store_step.induct) (auto intro: wf_intros)

interpretation store_run: step_invariant "store_step E" store_wf for E
  by unfold_locales (auto dest: store_step_safe simp: safe_def)

interpretation store_history: step_monotone "store_step E" store_before for E
  by unfold_locales (auto dest: store_step_safe simp: safe_def intro: store_before_trans)

text \<open>
  C28. In every run of a fresh database, under any faults and any order of operations, both job
  keys stay unique, every status is one of the six, every event and every attempt belongs to
  an existing job and has an id of its own.
\<close>

theorem store_wf_reachable:
  assumes "(store_step E)\<^sup>*\<^sup>* empty_store s"
  shows "store_wf s"
  using store_run.run_keeps [OF assms store_wf_empty] .

theorem store_wf_reachable_witness: "store_wf sample_store"
proof (rule store_wf_reachable)
  show "(store_step calm_db)\<^sup>*\<^sup>* empty_store sample_store"
    unfolding sample_store_def by (blast intro: store_step.create)
qed

text \<open>
  History is append-only: between any two states of a run the event log of the earlier one
  is a prefix of the later one's, and no job row and no attempt is deleted or changes its
  identity (id, workload, organization, type, version, payload, creation time; attempt number
  and start).
\<close>

theorem store_history_append_only:
  assumes "(store_step E)\<^sup>*\<^sup>* s t"
  shows "prefix (events s) (events t) \<and> prefix (map job_key (jobs s)) (map job_key (jobs t)) \<and>
    prefix (map attempt_key (attempts s)) (map attempt_key (attempts t))"
  using store_history.run_before [OF assms] by (simp add: store_before_def)

theorem store_history_append_only_witness:
  "prefix (map job_key (jobs sample_store)) (map job_key (jobs orphan_store)) \<and>
   job_status (hd (jobs sample_store)) \<noteq> job_status (hd (jobs orphan_store))"
proof -
  have "(store_step calm_db)\<^sup>*\<^sup>* sample_store orphan_store"
    unfolding orphan_store_def by (intro r_into_rtranclp store_step.set_status) (simp add: all_statuses_def)
  from store_history_append_only [OF this] show ?thesis
    by (simp add: sample_store_eq orphan_store_eq row_of_input_def status_defs)
qed

end
