(* ===== verification/Resources.thy ===== *)
theory Resources
  imports Complex_Main GoLib "HOL-Library.Word"
begin

text \<open>
  Concurrency slots and resource gates, \<open>internal/runtime/resources/manager.go\<close>.  The counter is
  an \<open>int32\<close>; percentages and gigabytes (\<open>float64\<close> in the code, only ever compared) are
  rational numbers.  What gopsutil reports is an argument: \<open>None\<close> is a probe that failed.

  \<open>Reserve\<close> loads the counter, probes, and then adds to it, in two separate atomic accesses, so
  next to the sequential operation there is a step relation in which the releases of the job
  goroutines, and any number of reserving goroutines, interleave with it.
\<close>

section \<open>Manager\<close>

record limits =
  MaxConcurrentJobs :: int
  MaxCPUPercent :: rat
  MaxRAMPercent :: rat
  MinDiskFreeGB :: rat

definition DefaultMaxConcurrentJobs :: int where "DefaultMaxConcurrentJobs = 2"

definition DefaultMaxCPUPercent :: rat where "DefaultMaxCPUPercent = 70"

definition DefaultMaxRAMPercent :: rat where "DefaultMaxRAMPercent = 95"

definition DefaultMinDiskFreeGB :: rat where "DefaultMinDiskFreeGB = 5"

lemmas default_defs = DefaultMaxConcurrentJobs_def DefaultMaxCPUPercent_def
  DefaultMaxRAMPercent_def DefaultMinDiskFreeGB_def

text \<open>
  \<open>slots\<close> holds the \<open>released\<close> flag of every \<open>Slot\<close> ever returned, in the order they were; a
  \<open>*Slot\<close> is an index into it, and the nil pointer is \<open>None\<close>.
\<close>

record manager =
  mlimits :: limits
  active :: "32 word"
  slots :: "bool list"

definition NewManager :: "limits \<Rightarrow> manager" where
  "NewManager l =
     \<lparr>mlimits =
        \<lparr>MaxConcurrentJobs =
           (if MaxConcurrentJobs l \<le> 0 then DefaultMaxConcurrentJobs else MaxConcurrentJobs l),
         MaxCPUPercent = (if MaxCPUPercent l \<le> 0 then DefaultMaxCPUPercent else MaxCPUPercent l),
         MaxRAMPercent = (if MaxRAMPercent l \<le> 0 then DefaultMaxRAMPercent else MaxRAMPercent l),
         MinDiskFreeGB = (if MinDiskFreeGB l \<le> 0 then DefaultMinDiskFreeGB else MinDiskFreeGB l)\<rparr>,
      active = 0, slots = []\<rparr>"

record probes =
  cpu_percent :: "rat list option"
  ram_used_percent :: "rat option"
  disk_free_bytes :: "64 word option"

definition Active :: "manager \<Rightarrow> int" where
  "Active m = sint (active m)"

definition free_gb :: "64 word \<Rightarrow> rat" where
  "free_gb b = of_int (uint b) / (1024 * 1024 * 1024)"

text \<open>The four early returns of \<open>Reserve\<close>; a failing probe does not refuse.\<close>

definition reserve_refused :: "manager \<Rightarrow> probes \<Rightarrow> bool" where
  "reserve_refused m p \<longleftrightarrow>
     Active m \<ge> MaxConcurrentJobs (mlimits m) \<or>
     (case cpu_percent p of Some (c # _) \<Rightarrow> c > MaxCPUPercent (mlimits m) | _ \<Rightarrow> False) \<or>
     (case ram_used_percent p of Some v \<Rightarrow> v > MaxRAMPercent (mlimits m) | None \<Rightarrow> False) \<or>
     (case disk_free_bytes p of Some b \<Rightarrow> free_gb b < MinDiskFreeGB (mlimits m) | None \<Rightarrow> False)"

text \<open>\<open>atomic.AddInt32(&m.active, 1)\<close> and the new slot.\<close>

definition take_slot :: "manager \<Rightarrow> manager" where
  "take_slot m = m\<lparr>active := active m + 1, slots := slots m @ [False]\<rparr>"

definition Reserve :: "probes \<Rightarrow> manager \<Rightarrow> (gerror + nat) \<times> manager" where
  "Reserve p m =
     (if reserve_refused m p then (Inl (Sentinel ErrResourceUnavailable), m)
      else (Inr (length (slots m)), take_slot m))"

definition Release :: "nat option \<Rightarrow> manager \<Rightarrow> manager" where
  "Release s m =
     (case s of
        None \<Rightarrow> m
      | Some i \<Rightarrow>
          (if i < length (slots m) \<and> \<not> slots m ! i
           then m\<lparr>slots := (slots m)[i := True], active := active m - 1\<rparr>
           else m))"

record snapshot =
  snap_active :: int
  snap_max :: int
  snap_cpu :: rat
  snap_ram :: rat
  snap_disk_gb :: rat

definition Probe :: "probes \<Rightarrow> manager \<Rightarrow> snapshot" where
  "Probe p m =
     \<lparr>snap_active = Active m, snap_max = MaxConcurrentJobs (mlimits m),
      snap_cpu = (case cpu_percent p of Some (c # _) \<Rightarrow> c | _ \<Rightarrow> 0),
      snap_ram = (case ram_used_percent p of Some v \<Rightarrow> v | None \<Rightarrow> 0),
      snap_disk_gb = (case disk_free_bytes p of Some b \<Rightarrow> free_gb b | None \<Rightarrow> 0)\<rparr>"

section \<open>Slots as a pool\<close>

text \<open>The slots handed out and not yet given back.\<close>

definition held :: "manager \<Rightarrow> nat set" where
  "held m = {i. i < length (slots m) \<and> \<not> slots m ! i}"

text \<open>
  The interface the scheduler relies on: a refused reservation changes nothing, a granted one
  adds a fresh handle to the pool, a release takes exactly that handle out, once.
\<close>

locale slot_pool =
  fixes reserve :: "'p \<Rightarrow> 's \<Rightarrow> (gerror + nat) \<times> 's"
    and release :: "nat option \<Rightarrow> 's \<Rightarrow> 's"
    and out :: "'s \<Rightarrow> nat set"
  assumes reserve_refuses: "reserve p s = (Inl e, t) \<Longrightarrow> t = s"
    and reserve_grants: "reserve p s = (Inr i, t) \<Longrightarrow> i \<notin> out s \<and> out t = insert i (out s)"
    and release_returns: "out (release (Some i) s) = out s - {i}"
begin

lemma reserve_release: "reserve p s = (Inr i, t) \<Longrightarrow> out (release (Some i) t) = out s"
  by (auto simp: release_returns dest: reserve_grants)

lemma release_twice: "out (release (Some i) (release (Some i) s)) = out (release (Some i) s)"
  by (simp add: release_returns)

end

interpretation pool: slot_pool Reserve Release held
proof unfold_locales
  fix p m e t
  assume "Reserve p m = (Inl e, t)"
  then show "t = m" by (auto simp: Reserve_def split: if_splits)
next
  fix p m i t
  assume "Reserve p m = (Inr i, t)"
  then show "i \<notin> held m \<and> held t = insert i (held m)"
    by (auto simp: Reserve_def held_def take_slot_def nth_append less_Suc_eq split: if_splits)
next
  fix i m
  show "held (Release (Some i) m) = held m - {i}"
    by (auto simp: Release_def held_def nth_list_update)
qed

section \<open>The counter\<close>

definition unreleased :: "manager \<Rightarrow> nat" where
  "unreleased m = length (filter Not (slots m))"

lemma unreleased_release:
  assumes "i < length (slots m)" and "\<not> slots m ! i"
  shows "unreleased (Release (Some i) m) + 1 = unreleased m"
proof -
  let ?a = "take i (slots m)" and ?b = "drop (Suc i) (slots m)"
  have "slots m = ?a @ False # ?b" and "(slots m)[i := True] = ?a @ True # ?b"
    using assms by (metis id_take_nth_drop) (simp add: assms upd_conv_take_nth_drop)
  then have "length (filter Not (slots m)) = length (filter Not ?a) + Suc (length (filter Not ?b))"
    and "length (filter Not ((slots m)[i := True])) = length (filter Not ?a) + length (filter Not ?b)"
    by (metis filter_append length_append filter.simps(2) length_Cons)
      (metis \<open>(slots m)[i := True] = ?a @ True # ?b\<close> filter_append length_append filter.simps(2))
  with assms show ?thesis by (simp add: unreleased_def Release_def)
qed

text \<open>A goroutine in \<open>Reserve\<close> is between its checks and its add when it is in \<open>passed\<close>.\<close>

record pool_run =
  pm :: manager
  passed :: "nat list"

definition start_run :: "limits \<Rightarrow> pool_run" where
  "start_run l = \<lparr>pm = NewManager l, passed = []\<rparr>"

inductive pool_step :: "nat \<Rightarrow> pool_run \<Rightarrow> pool_run \<Rightarrow> bool" for n where
  check: "k < n \<Longrightarrow> k \<notin> set (passed s) \<Longrightarrow> \<not> reserve_refused (pm s) p \<Longrightarrow>
     pool_step n s (s\<lparr>passed := k # passed s\<rparr>)"
| add: "k \<in> set (passed s) \<Longrightarrow>
     pool_step n s \<lparr>pm = take_slot (pm s), passed = remove1 k (passed s)\<rparr>"
| release: "pool_step n s (s\<lparr>pm := Release i (pm s)\<rparr>)"

text \<open>
  With one reserving goroutine: the counter is the number of slots out, read without
  wrap-around, and leaves room for the reservation in flight.
\<close>

definition pool_inv :: "pool_run \<Rightarrow> bool" where
  "pool_inv s \<longleftrightarrow>
     Active (pm s) = int (unreleased (pm s)) \<and>
     int (unreleased (pm s)) + int (length (passed s)) \<le> MaxConcurrentJobs (mlimits (pm s)) \<and>
     MaxConcurrentJobs (mlimits (pm s)) < 2 ^ 31 \<and> (passed s = [] \<or> passed s = [0])"

lemma sint_succ: "sint (a :: 32 word) < 2 ^ 31 - 1 \<Longrightarrow> sint (a + 1) = sint a + 1"
  using sint_ge [of a] by (simp add: sint_word_ariths signed_take_bit_int_eq_self)

lemma sint_pred: "- (2 ^ 31) < sint (a :: 32 word) \<Longrightarrow> sint (a - 1) = sint a - 1"
  using sint_lt [of a] by (simp add: sint_word_ariths signed_take_bit_int_eq_self)

lemma unreleased_take [simp]: "unreleased (take_slot m) = Suc (unreleased m)"
  by (simp add: unreleased_def take_slot_def)

lemma Release_cases:
  "Release i m = m \<or> (\<exists>k. i = Some k \<and> k < length (slots m) \<and> \<not> slots m ! k)"
  by (auto simp: Release_def split: option.split)

lemma Release_limits [simp]: "mlimits (Release i m) = mlimits m"
  by (auto simp: Release_def split: option.split)

lemma pool_inv_release:
  assumes "pool_inv s"
  shows "pool_inv (s\<lparr>pm := Release i (pm s)\<rparr>)"
proof (cases "Release i (pm s) = pm s")
  case True
  with assms show ?thesis by (simp add: pool_inv_def)
next
  case False
  then obtain k where k: "i = Some k" "k < length (slots (pm s))" "\<not> slots (pm s) ! k"
    using Release_cases by blast
  from unreleased_release [OF k(2,3)]
  have "unreleased (Release i (pm s)) + 1 = unreleased (pm s)" by (simp add: k(1))
  moreover have "active (Release i (pm s)) = active (pm s) - 1"
    using k by (simp add: Release_def)
  ultimately show ?thesis
    using assms sint_pred [of "active (pm s)"] by (auto simp: pool_inv_def Active_def)
qed

lemma pool_step_inv: "pool_step 1 s t \<Longrightarrow> pool_inv s \<Longrightarrow> pool_inv t"
proof (induction rule: pool_step.induct)
  case (check k s p)
  then show ?case by (auto simp: pool_inv_def reserve_refused_def)
next
  case (add k s)
  then have one: "passed s = [0]" and k: "k = 0" by (auto simp: pool_inv_def)
  with add have "sint (active (pm s)) < 2 ^ 31 - 1"
    by (simp add: pool_inv_def Active_def)
  with add one k show ?case
    using sint_succ [of "active (pm s)"] by (simp add: pool_inv_def Active_def take_slot_def [abs_def] unreleased_def)
next
  case (release s i)
  then show ?case by (rule pool_inv_release [rotated])
qed

interpretation single_reserver: step_invariant "pool_step 1" pool_inv
  by unfold_locales (rule pool_step_inv)

lemma start_run_inv: "MaxConcurrentJobs l < 2 ^ 31 \<Longrightarrow> pool_inv (start_run l)"
  by (simp add: pool_inv_def start_run_def NewManager_def Active_def unreleased_def default_defs)

lemma pool_limits_step: "pool_step n s t \<Longrightarrow> mlimits (pm t) = mlimits (pm s)"
  by (induction rule: pool_step.induct) (simp_all add: take_slot_def)

lemma pool_limits: "(pool_step n)\<^sup>*\<^sup>* s t \<Longrightarrow> mlimits (pm t) = mlimits (pm s)"
  by (induction rule: rtranclp_induct) (simp_all add: pool_limits_step)

text \<open>
  With a single goroutine that reserves (the scheduler loop), in every interleaving of its
  checks and adds with releases by the job goroutines, also repeated or nil ones, the number
  \<open>Active\<close> reports is the number of slots out, is never negative and never exceeds
  \<open>MaxConcurrentJobs\<close>; the \<open>int32\<close> never wraps.
\<close>

theorem active_jobs_bounded:
  assumes "MaxConcurrentJobs l < 2 ^ 31" and "(pool_step 1)\<^sup>*\<^sup>* (start_run l) s"
  shows "Active (pm s) = int (unreleased (pm s)) \<and> 0 \<le> Active (pm s) \<and>
    Active (pm s) \<le> MaxConcurrentJobs (mlimits (NewManager l))"
proof -
  have "pool_inv s"
    using single_reserver.run_keeps [OF assms(2) start_run_inv [OF assms(1)]] .
  moreover have "mlimits (pm s) = mlimits (NewManager l)"
    using pool_limits [OF assms(2)] by (simp add: start_run_def)
  ultimately show ?thesis by (auto simp: pool_inv_def)
qed

definition zero_limits :: limits where
  "zero_limits = \<lparr>MaxConcurrentJobs = 0, MaxCPUPercent = 0, MaxRAMPercent = 0, MinDiskFreeGB = 0\<rparr>"

definition no_probes :: probes where
  "no_probes = \<lparr>cpu_percent = None, ram_used_percent = None, disk_free_bytes = None\<rparr>"

theorem active_jobs_bounded_witness:
  "\<exists>s. (pool_step 1)\<^sup>*\<^sup>* (start_run zero_limits) s \<and> Active (pm s) = 1 \<and>
     Active (pm s) \<le> MaxConcurrentJobs (mlimits (NewManager zero_limits))"
proof -
  let ?s0 = "start_run zero_limits"
  let ?s1 = "?s0\<lparr>passed := [0]\<rparr>"
  let ?s2 = "\<lparr>pm = take_slot (pm ?s1), passed = remove1 0 (passed ?s1)\<rparr>"
  have "pool_step 1 ?s0 ?s1"
    using pool_step.check [of 0 1 ?s0 no_probes]
    by (simp add: start_run_def reserve_refused_def NewManager_def zero_limits_def no_probes_def
        Active_def default_defs)
  moreover have "pool_step 1 ?s1 ?s2" by (rule pool_step.add) simp
  ultimately have run: "(pool_step 1)\<^sup>*\<^sup>* ?s0 ?s2" by simp
  have "MaxConcurrentJobs zero_limits < 2 ^ 31" by (simp add: zero_limits_def)
  from active_jobs_bounded [OF this run]
  have "Active (pm ?s2) \<le> MaxConcurrentJobs (mlimits (NewManager zero_limits))" by blast
  moreover have "Active (pm ?s2) = 1"
    by (simp add: Active_def take_slot_def start_run_def NewManager_def)
  ultimately show ?thesis using run by blast
qed

text \<open>
  The single reserver is needed: the check of the counter and the add are two accesses, and
  with two goroutines in \<open>Reserve\<close> both can pass the check, so that three jobs run under the
  default limit of two.
\<close>

theorem two_reservers_exceed_limit:
  "\<exists>s. (pool_step 2)\<^sup>*\<^sup>* (start_run zero_limits) s \<and>
     Active (pm s) > MaxConcurrentJobs (mlimits (pm s))"
proof -
  let ?free = "\<lambda>m. \<not> reserve_refused m no_probes"
  let ?m0 = "NewManager zero_limits"
  let ?m1 = "take_slot ?m0"
  let ?m2 = "take_slot ?m1"
  let ?m3 = "take_slot ?m2"
  have free: "?free ?m0" "?free ?m1"
    by (simp_all add: reserve_refused_def NewManager_def zero_limits_def no_probes_def
        Active_def default_defs take_slot_def)
  have "pool_step 2 \<lparr>pm = ?m0, passed = []\<rparr> \<lparr>pm = ?m0, passed = [0]\<rparr>"
    using pool_step.check [of 0 2 "\<lparr>pm = ?m0, passed = []\<rparr>" no_probes] free by simp
  moreover have "pool_step 2 \<lparr>pm = ?m0, passed = [0]\<rparr> \<lparr>pm = ?m1, passed = []\<rparr>"
    using pool_step.add [of 0 "\<lparr>pm = ?m0, passed = [0]\<rparr>" 2] by simp
  moreover have "pool_step 2 \<lparr>pm = ?m1, passed = []\<rparr> \<lparr>pm = ?m1, passed = [0]\<rparr>"
    using pool_step.check [of 0 2 "\<lparr>pm = ?m1, passed = []\<rparr>" no_probes] free by simp
  moreover have "pool_step 2 \<lparr>pm = ?m1, passed = [0]\<rparr> \<lparr>pm = ?m1, passed = [1, 0]\<rparr>"
    using pool_step.check [of 1 2 "\<lparr>pm = ?m1, passed = [0]\<rparr>" no_probes] free by simp
  moreover have "pool_step 2 \<lparr>pm = ?m1, passed = [1, 0]\<rparr> \<lparr>pm = ?m2, passed = [1]\<rparr>"
    using pool_step.add [of 0 "\<lparr>pm = ?m1, passed = [1, 0]\<rparr>" 2] by simp
  moreover have "pool_step 2 \<lparr>pm = ?m2, passed = [1]\<rparr> \<lparr>pm = ?m3, passed = []\<rparr>"
    using pool_step.add [of 1 "\<lparr>pm = ?m2, passed = [1]\<rparr>" 2] by simp
  ultimately have "(pool_step 2)\<^sup>*\<^sup>* (start_run zero_limits) \<lparr>pm = ?m3, passed = []\<rparr>"
    unfolding start_run_def by (meson converse_rtranclp_into_rtranclp rtranclp.rtrancl_refl)
  moreover have "Active ?m3 > MaxConcurrentJobs (mlimits ?m3)"
    by (simp add: Active_def NewManager_def zero_limits_def take_slot_def default_defs)
  ultimately show ?thesis
    by (intro exI [of _ "\<lparr>pm = ?m3, passed = []\<rparr>"]) simp
qed

end
