(* ===== verification/Scheduler.thy ===== *)
theory Scheduler
  imports Registry Recovery Resources
begin

text \<open>
  The scheduler, \<open>internal/runtime/scheduler.go\<close>, over the store, the slot pool, the cloud client,
  the token source and the executor registry; with the creation and cleanup of a job's work
  directory from \<open>internal/runtime/jobhandle.go\<close>.

  The state of the daemon is the record of the token source with the store, the pool, the two
  flags, the cancellation of the root context and the work directories.  The poll loop is one
  goroutine; a claimed workload runs in a goroutine of its own.
\<close>

section \<open>State\<close>

record denv = env +
  json_text :: "json \<Rightarrow> string"
  probe_at :: "nat \<Rightarrow> probes"
  mkdir_fault :: "string \<Rightarrow> string option"
  rm_fails :: "string \<Rightarrow> bool"

record daemon = authw +
  db :: store
  pool :: manager
  paused_flag :: bool
  reauth_flag :: bool
  ctx_done :: bool
  workdirs :: "string set"
  files :: "string \<Rightarrow> string option"
  probe_reads :: nat

text \<open>
  The dependencies of a scheduler that never change: \<open>HasAuth\<close> is \<open>Auth != nil\<close>.  The store,
  the pool and the token source are in the state.
\<close>

record 'w sched_deps =
  DepRegistry :: "'w registry"
  DepCloud :: cloud_client
  DepBaseTmp :: string
  HasAuth :: bool

definition Pause :: "'d daemon_scheme \<Rightarrow> 'd daemon_scheme" where
  "Pause w = w\<lparr>paused_flag := True\<rparr>"

definition Resume :: "'d daemon_scheme \<Rightarrow> 'd daemon_scheme" where
  "Resume w = w\<lparr>paused_flag := False, reauth_flag := False\<rparr>"

definition Paused :: "'d daemon_scheme \<Rightarrow> bool" where
  "Paused w = paused_flag w"

definition ReauthRequired :: "'d daemon_scheme \<Rightarrow> bool" where
  "ReauthRequired w = reauth_flag w"

definition pollInterval :: int where
  "pollInterval = 5 * second"

text \<open>An operation of the store, run on the daemon's.\<close>

definition on_db :: "(store \<Rightarrow> 'a \<times> store) \<Rightarrow> 'd daemon_scheme \<Rightarrow> 'a \<times> 'd daemon_scheme" where
  "on_db f w = (case f (db w) of (r, s) \<Rightarrow> (r, w\<lparr>db := s\<rparr>))"

definition result_is :: "gerror + 'a \<Rightarrow> sentinel \<Rightarrow> bool" where
  "result_is r x = (case r of Inl e \<Rightarrow> errors_is e x | Inr _ \<Rightarrow> False)"

section \<open>Claiming\<close>

definition claimWithReauth ::
  "'e env_scheme \<Rightarrow> 'x sched_deps \<Rightarrow> 'w authw_scheme \<Rightarrow> (gerror + claim_response) \<times> 'w authw_scheme" where
  "claimWithReauth E D w =
     (case Claim E (DepCloud D) w of (r, w1) \<Rightarrow>
        if \<not> result_is r SyncErrUnauthorized \<or> \<not> HasAuth D then (r, w1)
        else (case Claim E (DepCloud D) (Invalidate w1) of (r2, w2) \<Rightarrow>
          if \<not> result_is r2 SyncErrUnauthorized then (r2, w2)
          else (case ForceRefresh E w2 of
              (Inl e, w3) \<Rightarrow>
                (if errors_is e AuthErrUnauthorized then (Inl (Sentinel SyncErrUnauthorized), w3)
                 else (Inl (errorf ''force refresh'' e), w3))
            | (Inr t, w3) \<Rightarrow> Claim E (DepCloud D) w3)))"

definition workload_of :: "workload_dto \<Rightarrow> workload" where
  "workload_of d = \<lparr>wl_ID = DtoID d, wl_OrganizationID = DtoOrganizationID d, wl_Type = DtoType d,
     wl_Version = DtoVersion d, wl_Payload = DtoPayload d, wl_RequiredCaps = DtoRequiredCapabilities d\<rparr>"

text \<open>A job goroutine that was started: the executor, the workload, the lease and the slot.\<close>

record 'w flight =
  fl_exec :: "'w executor"
  fl_wl :: workload
  fl_lease :: lease_dto
  fl_slot :: nat

definition release_slot :: "nat \<Rightarrow> 'd daemon_scheme \<Rightarrow> 'd daemon_scheme" where
  "release_slot i w = w\<lparr>pool := Release (Some i) (pool w)\<rparr>"

text \<open>
  \<open>tick\<close>, with the deferred release on every path that does not hand the slot on.  The result is
  the goroutine it started, if any.
\<close>

definition dispatch ::
  "'e env_scheme \<Rightarrow> ('d daemon_scheme) sched_deps \<Rightarrow> nat \<Rightarrow> claim_response \<Rightarrow> 'd daemon_scheme \<Rightarrow>
     ('d daemon_scheme) flight option \<times> 'd daemon_scheme" where
  "dispatch E D slot resp w =
     (let wl = workload_of (ClaimWorkload resp); lease = ClaimLease resp in
      case Lookup (DepRegistry D) (wl_Type wl) of
        None \<Rightarrow> (None, release_slot slot
          (snd (Surrender E (DepCloud D) (wl_ID wl) (LeaseTok lease) ''no_executor'' w)))
      | Some ex \<Rightarrow>
          (if \<not> ex_CanRun ex wl then (None, release_slot slot
             (snd (Surrender E (DepCloud D) (wl_ID wl) (LeaseTok lease) ''version_mismatch'' w)))
           else (Some \<lparr>fl_exec = ex, fl_wl = wl, fl_lease = lease, fl_slot = slot\<rparr>, w)))"

definition sched_tick ::
  "'e denv_scheme \<Rightarrow> ('d daemon_scheme) sched_deps \<Rightarrow> 'd daemon_scheme \<Rightarrow>
     ('d daemon_scheme) flight option \<times> 'd daemon_scheme" where
  "sched_tick E D w =
     (case Reserve (probe_at E (probe_reads w)) (pool w) of
        (Inl e, m) \<Rightarrow> (None, w\<lparr>pool := m, probe_reads := Suc (probe_reads w)\<rparr>)
      | (Inr slot, m) \<Rightarrow>
          (case claimWithReauth E D (w\<lparr>pool := m, probe_reads := Suc (probe_reads w)\<rparr>) of
             (Inr resp, w1) \<Rightarrow> dispatch E D slot resp w1
           | (Inl e, w1) \<Rightarrow>
               (if errors_is e ErrNoWork then (None, release_slot slot w1)
                else if errors_is e SyncErrUnauthorized
                then (None, release_slot slot (w1\<lparr>reauth_flag := True, paused_flag := True\<rparr>))
                else (None, release_slot slot w1))))"

section \<open>Running a workload\<close>

text \<open>
  \<open>upsertJobForWorkload\<close>: \<open>None\<close> is \<open>ok = false\<close>.  A failed attempt count counts as zero.
\<close>

definition payload_json_value :: "workload \<Rightarrow> json" where
  "payload_json_value wl = (case wl_Payload wl of None \<Rightarrow> JNull | Some kvs \<Rightarrow> JObj kvs)"

definition new_job_input :: "'e denv_scheme \<Rightarrow> string \<Rightarrow> workload \<Rightarrow> lease_dto \<Rightarrow> insert_input" where
  "new_job_input E jobID wl lease =
     \<lparr>in_ID = jobID, in_WorkloadID = wl_ID wl, in_OrganizationID = wl_OrganizationID wl,
      in_WorkloadType = wl_Type wl, in_WorkloadVersion = wl_Version wl,
      in_PayloadJSON = json_text E (payload_json_value wl),
      in_LeaseToken = LeaseTok lease, in_LeaseExpiresAt = LeaseExpires lease\<rparr>"

definition surrender_store_error ::
  "'e denv_scheme \<Rightarrow> 'x sched_deps \<Rightarrow> workload \<Rightarrow> lease_dto \<Rightarrow> 'd daemon_scheme \<Rightarrow>
     (string \<times> int) option \<times> 'd daemon_scheme" where
  "surrender_store_error E D wl lease w =
     (None, snd (Surrender E (DepCloud D) (wl_ID wl) (LeaseTok lease) ''store_error'' w))"

definition take_over ::
  "'e denv_scheme \<Rightarrow> 'x sched_deps \<Rightarrow> workload \<Rightarrow> lease_dto \<Rightarrow> string \<Rightarrow> 'd daemon_scheme \<Rightarrow>
     (string \<times> int) option \<times> 'd daemon_scheme" where
  "take_over E D wl lease jobID w =
     (case on_db (UpdateLease E jobID (LeaseTok lease) (LeaseExpires lease)) w of
        (Inl e, w1) \<Rightarrow> surrender_store_error E D wl lease w1
      | (Inr u, w1) \<Rightarrow>
          (case on_db (AttemptCount E jobID) w1 of (r, w2) \<Rightarrow>
             (Some (jobID, (case r of Inl _ \<Rightarrow> 0 | Inr n \<Rightarrow> n) + 1), w2)))"

definition upsertJobForWorkload ::
  "'e denv_scheme \<Rightarrow> 'x sched_deps \<Rightarrow> workload \<Rightarrow> lease_dto \<Rightarrow> 'd daemon_scheme \<Rightarrow>
     (string \<times> int) option \<times> 'd daemon_scheme" where
  "upsertJobForWorkload E D wl lease w =
     (case on_db (GetByWorkloadID E (wl_ID wl)) w of
        (Inl e, w1) \<Rightarrow>
          (if \<not> errors_is e ErrNotFound then surrender_store_error E D wl lease w1
           else
             (let (jobID, w2) = new_uuid E w1 in
              case on_db (CreateJob E (new_job_input E jobID wl lease)) w2 of
                (Inl e', w3) \<Rightarrow> surrender_store_error E D wl lease w3
              | (Inr u, w3) \<Rightarrow> (Some (jobID, 1), w3)))
      | (Inr existing, w1) \<Rightarrow>
          (if job_status existing = StatusQueued \<or> job_status existing = StatusRunning
           then take_over E D wl lease (jid existing) w1
           else if job_status existing = StatusSucceeded
           then (None, snd (Complete E (DepCloud D) (wl_ID wl) (LeaseTok lease)
             [(''executor_id'', JText []), (''local_status'', JText ''already_succeeded'')] w1))
           else (None, snd (Fail E (DepCloud D) (wl_ID wl) (LeaseTok lease)
             (''local_already_attempted: '' @ job_status existing) False w1))))"

text \<open>
  \<open>NewJobHandle\<close> makes the work directory; \<open>Cleanup\<close> removes it with what is in it, and ignores a
  failure.  \<open>files\<close> is the content of the files, by clean absolute path.
\<close>

definition below :: "string \<Rightarrow> string \<Rightarrow> bool" where
  "below d p \<longleftrightarrow> HasPrefix p (d @ ''/'')"

definition NewJobHandle ::
  "'e denv_scheme \<Rightarrow> 'x sched_deps \<Rightarrow> string \<Rightarrow> workload \<Rightarrow> lease_dto \<Rightarrow> 'd daemon_scheme \<Rightarrow>
     (gerror + job_handle) \<times> 'd daemon_scheme" where
  "NewJobHandle E D jobID wl lease w =
     (let wd = path_join [DepBaseTmp D, ''job-'' @ jobID] in
      case mkdir_fault E wd of
        Some m \<Rightarrow> (Inl (errorf ''workdir'' (Plain m)), w)
      | None \<Rightarrow> (Inr \<lparr>jh_id = jobID, jh_wl = wl, jh_leaseToken = LeaseTok lease, jh_workDir = wd\<rparr>,
          w\<lparr>workdirs := insert wd (workdirs w)\<rparr>))"

definition Cleanup :: "'e denv_scheme \<Rightarrow> job_handle \<Rightarrow> 'd daemon_scheme \<Rightarrow> 'd daemon_scheme" where
  "Cleanup E h w =
     (if rm_fails E (jh_workDir h) then w
      else w\<lparr>workdirs := workdirs w - {jh_workDir h},
              files := (\<lambda>p. if below (jh_workDir h) p then None else files w p)\<rparr>)"

text \<open>The two database writes at the end of each path of \<open>runOne\<close>; their errors are dropped.\<close>

definition conclude ::
  "'e denv_scheme \<Rightarrow> string \<Rightarrow> nat \<Rightarrow> string \<Rightarrow> string \<Rightarrow> string \<Rightarrow> 'd daemon_scheme \<Rightarrow> 'd daemon_scheme" where
  "conclude E jobID attemptID st out msg w =
     snd (on_db (FinishAttempt E attemptID out msg) (snd (on_db (UpdateStatus E jobID st) w)))"

definition finish_run ::
  "'e denv_scheme \<Rightarrow> ('d daemon_scheme) sched_deps \<Rightarrow> ('d daemon_scheme) executor \<Rightarrow> workload \<Rightarrow> lease_dto \<Rightarrow>
     string \<Rightarrow> nat \<Rightarrow> gerror option \<Rightarrow> 'd daemon_scheme \<Rightarrow> 'd daemon_scheme" where
  "finish_run E D ex wl lease jobID attemptID res w =
     (case res of
        Some e \<Rightarrow>
          conclude E jobID attemptID StatusFailed ''failed'' (err_text e)
            (snd (Fail E (DepCloud D) (wl_ID wl) (LeaseTok lease) (err_text e) (\<not> ctx_done w) w))
      | None \<Rightarrow>
          conclude E jobID attemptID StatusSucceeded ''succeeded'' []
            (snd (Complete E (DepCloud D) (wl_ID wl) (LeaseTok lease)
               [(''executor_id'', JText (ex_ID ex)),
                (''executor_version'', JText (duration_text (Duration (ex_Estimate ex wl))))] w)))"

definition run_job ::
  "'e denv_scheme \<Rightarrow> ('d daemon_scheme) sched_deps \<Rightarrow> ('d daemon_scheme) executor \<Rightarrow> workload \<Rightarrow> lease_dto \<Rightarrow>
     string \<Rightarrow> nat \<Rightarrow> 'd daemon_scheme \<Rightarrow> 'd daemon_scheme" where
  "run_job E D ex wl lease jobID attemptID w =
     (case NewJobHandle E D jobID wl lease w of
        (Inl e, w1) \<Rightarrow>
          conclude E jobID attemptID StatusFailed ''failed'' (err_text e)
            (snd (Fail E (DepCloud D) (wl_ID wl) (LeaseTok lease) (''job handle: '' @ err_text e) False w1))
      | (Inr h, w1) \<Rightarrow>
          (case ex_Execute ex h w1 of (res, w2) \<Rightarrow>
             Cleanup E h (finish_run E D ex wl lease jobID attemptID res w2)))"

definition runOne ::
  "'e denv_scheme \<Rightarrow> ('d daemon_scheme) sched_deps \<Rightarrow> ('d daemon_scheme) executor \<Rightarrow> workload \<Rightarrow> lease_dto \<Rightarrow>
     'd daemon_scheme \<Rightarrow> 'd daemon_scheme" where
  "runOne E D ex wl lease w =
     (case upsertJobForWorkload E D wl lease w of
        (None, w1) \<Rightarrow> w1
      | (Some (jobID, n), w1) \<Rightarrow>
          (let w2 = snd (on_db (UpdateStatus E jobID StatusRunning) w1);
               (r, w3) = on_db (StartAttempt E jobID n) w2
           in run_job E D ex wl lease jobID (case r of Inl _ \<Rightarrow> 0 | Inr i \<Rightarrow> i) w3))"

section \<open>Recovery at boot, and the loop\<close>

fun fail_each :: "'e denv_scheme \<Rightarrow> job list \<Rightarrow> 'd daemon_scheme \<Rightarrow> 'd daemon_scheme" where
  "fail_each E [] w = w"
| "fail_each E (j # js) w = fail_each E js (snd (on_db (UpdateStatus E (jid j) StatusFailed) w))"

definition recoverPending :: "'e denv_scheme \<Rightarrow> 'd daemon_scheme \<Rightarrow> 'd daemon_scheme" where
  "recoverPending E w =
     (case on_db (PendingRecovery E) w of
        (Inl e, w1) \<Rightarrow> w1
      | (Inr js, w1) \<Rightarrow> fail_each E js w1)"

text \<open>
  \<open>Run\<close> and the job goroutines.  The loop's ticks, the ends of the jobs in flight, the pause and
  resume requests and the cancellation of the context come in any order, and between them the
  rest of the daemon does whatever leaves the pool alone.
\<close>

record 'd sched =
  sw :: "'d daemon_scheme"
  flying :: "('d daemon_scheme) flight list"

definition land :: "'e denv_scheme \<Rightarrow> ('d daemon_scheme) sched_deps \<Rightarrow> ('d daemon_scheme) flight \<Rightarrow>
    'd daemon_scheme \<Rightarrow> 'd daemon_scheme" where
  "land E D f w = release_slot (fl_slot f) (runOne E D (fl_exec f) (fl_wl f) (fl_lease f) w)"

inductive sched_step ::
  "'e denv_scheme \<Rightarrow> ('d daemon_scheme) sched_deps \<Rightarrow> 'd sched \<Rightarrow> 'd sched \<Rightarrow> bool"
  for E D where
  poll: "\<not> ctx_done (sw s) \<Longrightarrow> \<not> paused_flag (sw s) \<Longrightarrow> sched_tick E D (sw s) = (f, w) \<Longrightarrow>
    sched_step E D s (s\<lparr>sw := w, flying := flying s @ (case f of None \<Rightarrow> [] | Some x \<Rightarrow> [x])\<rparr>)"
| land: "i < length (flying s) \<Longrightarrow>
    sched_step E D s (s\<lparr>sw := land E D (flying s ! i) (sw s),
      flying := take i (flying s) @ drop (Suc i) (flying s)\<rparr>)"
| pause: "sched_step E D s (s\<lparr>sw := Pause (sw s)\<rparr>)"
| resume: "sched_step E D s (s\<lparr>sw := Resume (sw s)\<rparr>)"
| rest: "pool w = pool (sw s) \<Longrightarrow> sched_step E D s (s\<lparr>sw := w\<rparr>)"

inductive_cases sched_stepE: "sched_step E D s t"

text \<open>\<open>Run\<close> starts with the recovery of the jobs found running.\<close>

definition start_sched :: "'e denv_scheme \<Rightarrow> 'd daemon_scheme \<Rightarrow> 'd sched" where
  "start_sched E w = \<lparr>sw = recoverPending E w, flying = []\<rparr>"

section \<open>Frames\<close>

lemma same_rest_daemon:
  fixes w w' :: "'d daemon_scheme"
  assumes "same_rest w w'"
  shows "db w' = db w" "pool w' = pool w" "paused_flag w' = paused_flag w"
    "reauth_flag w' = reauth_flag w" "ctx_done w' = ctx_done w" "workdirs w' = workdirs w" "files w' = files w"
    "probe_reads w' = probe_reads w"
  using assms by (cases w; cases w'; simp add: same_rest_def)+

lemma claimWithReauth_rest:
  assumes "claimWithReauth E D w = (r, w')"
  shows "same_rest w w'"
proof -
  obtain r1 w1 where c1: "Claim E (DepCloud D) w = (r1, w1)" by fastforce
  obtain r2 w2 where c2: "Claim E (DepCloud D) (Invalidate w1) = (r2, w2)" by fastforce
  obtain r3 w3 where c3: "ForceRefresh E w2 = (r3, w3)" by fastforce
  obtain r4 w4 where c4: "Claim E (DepCloud D) w3 = (r4, w4)" by fastforce
  have "same_rest w w1" by (rule Claim_rest [OF c1])
  moreover have "same_rest w1 w2" using Invalidate_rest Claim_rest [OF c2] by (rule same_rest_trans)
  moreover have "same_rest w2 w3" by (rule ForceRefresh_rest [OF c3])
  moreover have "same_rest w3 w4" by (rule Claim_rest [OF c4])
  moreover have "w' \<in> {w1, w2, w3, w4}"
    using assms c1 c2 c3 c4 by (auto simp: claimWithReauth_def split: if_splits sum.splits)
  ultimately show ?thesis using same_rest_trans by blast
qed

lemma on_db_eq: "on_db f w = (fst (f (db w)), w\<lparr>db := snd (f (db w))\<rparr>)"
  by (simp add: on_db_def split_beta)

lemma on_db_parts [simp]:
  "pool (snd (on_db f w)) = pool w" "paused_flag (snd (on_db f w)) = paused_flag w"
  "reauth_flag (snd (on_db f w)) = reauth_flag w" "ctx_done (snd (on_db f w)) = ctx_done w"
  "workdirs (snd (on_db f w)) = workdirs w" "files (snd (on_db f w)) = files w" "db (snd (on_db f w)) = snd (f (db w))"
  "sent (snd (on_db f w)) = sent w" "tok (snd (on_db f w)) = tok w" "ks (snd (on_db f w)) = ks w"
  by (simp_all add: on_db_eq)

lemmas report_daemon [simp] =
  same_rest_daemon [OF Complete_rest] same_rest_daemon [OF Fail_rest] same_rest_daemon [OF Surrender_rest]

lemma release_slot_parts [simp]:
  "pool (release_slot i w) = Release (Some i) (pool w)" "db (release_slot i w) = db w"
  "paused_flag (release_slot i w) = paused_flag w" "reauth_flag (release_slot i w) = reauth_flag w"
  "sent (release_slot i w) = sent w"
  by (simp_all add: release_slot_def)

lemma dispatch_cases:
  "dispatch E D slot resp w =
     (case Lookup (DepRegistry D) (wl_Type (workload_of (ClaimWorkload resp))) of
        None \<Rightarrow> (None, release_slot slot (snd (Surrender E (DepCloud D)
            (wl_ID (workload_of (ClaimWorkload resp))) (LeaseTok (ClaimLease resp)) ''no_executor'' w)))
      | Some ex \<Rightarrow>
          (if \<not> ex_CanRun ex (workload_of (ClaimWorkload resp)) then
             (None, release_slot slot (snd (Surrender E (DepCloud D)
                (wl_ID (workload_of (ClaimWorkload resp))) (LeaseTok (ClaimLease resp)) ''version_mismatch'' w)))
           else (Some \<lparr>fl_exec = ex, fl_wl = workload_of (ClaimWorkload resp), fl_lease = ClaimLease resp,
                  fl_slot = slot\<rparr>, w)))"
  by (simp add: dispatch_def Let_def)

text \<open>What a tick does to the pool: the whole of it.\<close>

lemma sched_tick_pool:
  assumes "sched_tick E D w = (f, w')"
  shows "case Reserve (probe_at E (probe_reads w)) (pool w) of
      (Inl e, m) \<Rightarrow> f = None \<and> pool w' = pool w
    | (Inr i, m) \<Rightarrow> (case f of None \<Rightarrow> pool w' = Release (Some i) m | Some x \<Rightarrow> fl_slot x = i \<and> pool w' = m)"
proof (cases "Reserve (probe_at E (probe_reads w)) (pool w)")
  case (Pair r m)
  show ?thesis
  proof (cases r)
    case (Inl e)
    with Pair assms pool.reserve_refuses show ?thesis by (auto simp: sched_tick_def)
  next
    case (Inr i)
    obtain q w1 where q: "claimWithReauth E D (w\<lparr>pool := m, probe_reads := Suc (probe_reads w)\<rparr>) = (q, w1)"
      by fastforce
    have "pool w1 = m" using same_rest_daemon(2) [OF claimWithReauth_rest [OF q]] by simp
    with assms Pair Inr q show ?thesis
      by (auto simp: sched_tick_def dispatch_cases split: sum.splits if_splits option.splits)
  qed
qed


end
