(* ===== verification/Ipc.thy ===== *)
theory Ipc
  imports Scheduler
begin

text \<open>
  The loopback control server, \<open>internal/ipc\<close>: the middleware (\<open>server.go\<close>), the routes, and the
  handlers of jobs, pairing, unpairing and the log stream.

  A request is its method, path, headers, query values, content length and the first JSON value
  of its body (\<open>None\<close> when there is none or it does not parse).  Paths are without percent
  escapes.  Every handler runs on the daemon's state; net/http runs each in its own goroutine,
  and here a handler is one atomic step.
\<close>

section \<open>Requests and responses\<close>

record ienv = denv +
  fmt_time :: "gotime \<Rightarrow> string"

record ipc_request =
  hq_method :: string
  hq_path :: string
  hq_header :: "string \<Rightarrow> string"
  hq_query :: "string \<Rightarrow> string"
  hq_json :: "json option"
  hq_length :: int

text \<open>\<open>rs_body\<close> is \<open>None\<close> for an empty body and for one whose encoding failed.\<close>

record ipc_response =
  rs_status :: int
  rs_headers :: "(string \<times> string) list"
  rs_body :: "json option"

text \<open>A response, or the log stream that runs until the client goes.\<close>

datatype ipc_result = Respond ipc_response | StreamLogs "(string \<times> string) list"

text \<open>\<open>PairURL\<close> is the pairing client, \<open>None\<close> when pairing is not configured.\<close>

record ipc_server =
  srv_token :: string
  allowOrigin :: bool
  AppVersionText :: string
  PairURL :: "string option"
  PairDevice :: device
  PairFingerprint :: string
  StoreConfigured :: bool
  HubReady :: bool
  CanFlush :: bool

definition writeJSON :: "int \<Rightarrow> json option \<Rightarrow> ipc_response" where
  "writeJSON st body = \<lparr>rs_status = st, rs_headers = [(''Content-Type'', ''application/json'')], rs_body = body\<rparr>"

definition writeErr :: "int \<Rightarrow> string \<Rightarrow> ipc_response" where
  "writeErr st m = writeJSON st (Some (JObj [(''error'', JText m)]))"

lemma write_status [simp]: "rs_status (writeJSON st b) = st" "rs_status (writeErr st m) = st"
  by (simp_all add: writeJSON_def writeErr_def)

section \<open>Listening\<close>

text \<open>The address check of \<open>Listen\<close> and the address it binds.\<close>

definition listen_address :: "string \<Rightarrow> gerror + string" where
  "listen_address listen =
     (if \<not> HasPrefix listen ''127.0.0.1'' \<and> \<not> HasPrefix listen '':'' then
        Inl (Plain ''ipc listen MUST start with 127.0.0.1 or :'')
      else if HasPrefix listen '':'' then Inr (''127.0.0.1'' @ listen)
      else Inr listen)"

section \<open>Integers of the query\<close>

text \<open>\<open>atoiOr\<close> adds up in a Go \<open>int\<close>, 64 bits wide.\<close>

fun atoi_loop :: "string \<Rightarrow> 64 word \<Rightarrow> 64 word option" where
  "atoi_loop [] n = Some n"
| "atoi_loop (c # cs) n =
     (if c < CHR ''0'' \<or> c > CHR ''9'' then None
      else atoi_loop cs (n * 10 + of_nat (of_char c - 48)))"

definition atoiOr :: "string \<Rightarrow> int \<Rightarrow> int" where
  "atoiOr s fallback =
     (if s = [] then fallback else (case atoi_loop s 0 of None \<Rightarrow> fallback | Some n \<Rightarrow> sint n))"

section \<open>Rendering jobs\<close>

definition opt_list :: "'a option list \<Rightarrow> 'a list option" where
  "opt_list xs = (if None \<in> set xs then None else Some (map the xs))"

definition null_string_json :: "string option \<Rightarrow> json" where
  "null_string_json s =
     JObj [(''String'', JText (case s of None \<Rightarrow> [] | Some v \<Rightarrow> v)), (''Valid'', JBool (s \<noteq> None))]"

text \<open>The struct \<open>Job\<close> has no tags: the listing shows its Go field names and its SQL null types.\<close>

definition job_json :: "'e env_scheme \<Rightarrow> job \<Rightarrow> json option" where
  "job_json E j =
     (case (time_text E (case lease_expires_at j of None \<Rightarrow> zero_time | Some t \<Rightarrow> t),
            time_text E (CreatedAt j), time_text E (UpdatedAt j)) of
        (Some l, Some c, Some u) \<Rightarrow> Some (JObj
          [(''ID'', JText (jid j)), (''WorkloadID'', JText (workload_id j)),
           (''OrganizationID'', JText (organization_id j)), (''WorkloadType'', JText (workload_type j)),
           (''WorkloadVersion'', JInt (workload_version j)), (''PayloadJSON'', JText (payload_json j)),
           (''Status'', JText (job_status j)), (''LeaseToken'', null_string_json (lease_token j)),
           (''LeaseExpiresAt'', JObj [(''Time'', JText l), (''Valid'', JBool (lease_expires_at j \<noteq> None))]),
           (''ResumableState'', null_string_json (resumable_state j)),
           (''CreatedAt'', JText c), (''UpdatedAt'', JText u)])
      | _ \<Rightarrow> None)"

definition opt_field :: "string \<Rightarrow> string option \<Rightarrow> (string \<times> json) list" where
  "opt_field k v = (case v of None \<Rightarrow> [] | Some s \<Rightarrow> [(k, JText s)])"

definition jobDTO :: "'e env_scheme \<Rightarrow> job \<Rightarrow> json option" where
  "jobDTO E j =
     (case (time_text E (CreatedAt j), time_text E (UpdatedAt j),
            (case lease_expires_at j of None \<Rightarrow> Some None | Some t \<Rightarrow> map_option Some (time_text E t))) of
        (Some c, Some u, Some l) \<Rightarrow> Some (JObj
          ([(''created_at'', JText c), (''id'', JText (jid j))] @ opt_field ''lease_expires_at'' l @
           opt_field ''lease_token'' (lease_token j) @
           [(''organization_id'', JText (organization_id j)), (''payload_json'', JText (payload_json j))] @
           opt_field ''resumable_state'' (resumable_state j) @
           [(''status'', JText (job_status j)), (''updated_at'', JText u),
            (''workload_id'', JText (workload_id j)), (''workload_type'', JText (workload_type j)),
            (''workload_version'', JInt (workload_version j))]))
      | _ \<Rightarrow> None)"

section \<open>Handlers\<close>

definition handleStatus :: "'e ienv_scheme \<Rightarrow> ipc_server \<Rightarrow> 'd daemon_scheme \<Rightarrow> ipc_response \<times> 'd daemon_scheme" where
  "handleStatus E S w =
     (let (now, w1) = time_now E w in
      (writeJSON 200 (map_option (\<lambda>t. JObj [(''active'', JInt (Active (pool w))),
          (''app_version'', JText (AppVersionText S)), (''paused'', JBool (Paused w)),
          (''timestamp'', JText t)]) (time_text E now)), w1))"

definition handleJobsList ::
  "'e ienv_scheme \<Rightarrow> ipc_request \<Rightarrow> 'd daemon_scheme \<Rightarrow> ipc_response \<times> 'd daemon_scheme" where
  "handleJobsList E r w =
     (case on_db (ListJobs E (hq_query r ''status'') (atoiOr (hq_query r ''limit'') 50)
             (atoiOr (hq_query r ''offset'') 0)) w of
        (Inl e, w1) \<Rightarrow> (writeErr 500 (err_text e), w1)
      | (Inr js, w1) \<Rightarrow>
          (writeJSON 200 (map_option (\<lambda>l. JObj [(''jobs'', JList l)]) (opt_list (map (job_json E) js))), w1))"

definition handlePause :: "ipc_request \<Rightarrow> 'd daemon_scheme \<Rightarrow> ipc_response \<times> 'd daemon_scheme" where
  "handlePause r w =
     (if hq_method r \<noteq> ''POST'' then (writeErr 405 ''POST required'', w)
      else (writeJSON 200 (Some (JObj [(''paused'', JBool True)])), Pause w))"

definition handleResume :: "ipc_request \<Rightarrow> 'd daemon_scheme \<Rightarrow> ipc_response \<times> 'd daemon_scheme" where
  "handleResume r w =
     (if hq_method r \<noteq> ''POST'' then (writeErr 405 ''POST required'', w)
      else (writeJSON 200 (Some (JObj [(''paused'', JBool False)])), Resume w))"

definition handleCapabilities :: "'e ienv_scheme \<Rightarrow> 'd daemon_scheme \<Rightarrow> ipc_response \<times> 'd daemon_scheme" where
  "handleCapabilities E w =
     (let s = Probe (probe_at E (probe_reads w)) (pool w) in
      (writeJSON 200 (Some (JObj [(''Active'', JInt (snap_active s)), (''MaxConcurrent'', JInt (snap_max s)),
         (''CPUPercent'', JReal (snap_cpu s)), (''RAMUsedPct'', JReal (snap_ram s)),
         (''DiskFreeGB'', JReal (snap_disk_gb s))])), w\<lparr>probe_reads := Suc (probe_reads w)\<rparr>))"

definition getJob ::
  "'e ienv_scheme \<Rightarrow> string \<Rightarrow> 'd daemon_scheme \<Rightarrow> ipc_response \<times> 'd daemon_scheme" where
  "getJob E jobID w =
     (case on_db (GetJob E jobID) w of
        (Inl e, w1) \<Rightarrow>
          (if errors_is e ErrNotFound then (writeErr 404 ''job not found'', w1)
           else (writeErr 500 (err_text (errorf ''ipc: get job'' e)), w1))
      | (Inr j, w1) \<Rightarrow> (writeJSON 200 (jobDTO E j), w1))"

definition cancelJob ::
  "'e ienv_scheme \<Rightarrow> string \<Rightarrow> 'd daemon_scheme \<Rightarrow> ipc_response \<times> 'd daemon_scheme" where
  "cancelJob E jobID w =
     (case on_db (Cancel E jobID) w of
        (Inr u, w1) \<Rightarrow>
          (writeJSON 200 (Some (JObj [(''id'', JText jobID), (''status'', JText StatusCancelled)])), w1)
      | (Inl e, w1) \<Rightarrow>
          (if errors_is e ErrNotFound then (writeErr 404 ''job not found'', w1)
           else if errors_is e ErrJobTerminal then (writeErr 409 ''job already terminal'', w1)
           else (writeErr 500 ''internal_error'', w1)))"

definition handleJobByID ::
  "'e ienv_scheme \<Rightarrow> ipc_request \<Rightarrow> 'd daemon_scheme \<Rightarrow> ipc_response \<times> 'd daemon_scheme" where
  "handleJobByID E r w =
     (let rest = TrimPrefix (hq_path r) ''/v1/jobs/'' in
      if rest = [] \<or> rest = hq_path r then (writeErr 404 ''not found'', w)
      else
        (let parts = SplitN2 (CHR ''/'') rest; jobID = hd parts in
         if jobID = [] then (writeErr 400 ''missing job id'', w)
         else if length parts = 1 \<and> hq_method r = ''GET'' then getJob E jobID w
         else if length parts = 2 \<and> parts ! 1 = ''cancel'' \<and> hq_method r = ''POST'' then cancelJob E jobID w
         else if length parts = 1 then (writeErr 405 ''GET required'', w)
         else if length parts = 2 \<and> parts ! 1 = ''cancel'' then (writeErr 405 ''POST required'', w)
         else (writeErr 404 ''not found'', w)))"

section \<open>Pairing\<close>

definition on_ks :: "(keystore \<Rightarrow> 'a \<times> keystore) \<Rightarrow> 'd daemon_scheme \<Rightarrow> 'a \<times> 'd daemon_scheme" where
  "on_ks f w = (case f (ks w) of (r, k) \<Rightarrow> (r, w\<lparr>ks := k\<rparr>))"

text \<open>\<open>AlreadyPaired\<close> as \<open>main\<close> wires it, on the keystore the handlers share.\<close>

definition AlreadyPaired :: "'e env_scheme \<Rightarrow> 'd daemon_scheme \<Rightarrow> bool \<times> 'd daemon_scheme" where
  "AlreadyPaired E w =
     (case on_ks (ks_Load E) w of
        (Inl e, w1) \<Rightarrow> (False, w1)
      | (Inr b, w1) \<Rightarrow> (SessionJWT b \<noteq> [], w1))"

definition dec_pair_request :: "string decoder" where
  "dec_pair_request = dec_struct (dec_field ''display_code'' dec_string)"

definition paired_bundle :: "string \<Rightarrow> exchange_response \<Rightarrow> session_bundle" where
  "paired_bundle fp resp =
     \<lparr>DeviceID = ResDeviceID resp, OrganizationID = ResOrganizationID resp, UserID = [],
      SessionJWT = Token (Session resp), SessionExpiresAt = ExpiresAt (Session resp),
      RefreshToken = Token (Refreshed resp), RefreshExpiresAt = ExpiresAt (Refreshed resp),
      HwFingerprint = fp\<rparr>"

definition pair_exchange ::
  "'e ienv_scheme \<Rightarrow> ipc_server \<Rightarrow> string \<Rightarrow> string \<Rightarrow> 'd daemon_scheme \<Rightarrow> ipc_response \<times> 'd daemon_scheme" where
  "pair_exchange E S base code w =
     (case Exchange E base \<lparr>DisplayCode = code, Device = PairDevice S,
             ReqHwFingerprint = PairFingerprint S, DevicePubkey = []\<rparr> w of
        (Inl e, w1) \<Rightarrow>
          (if errors_is e AuthErrUnauthorized then (writeErr 401 ''invalid_code'', w1)
           else (writeErr 502 ''cloud_unreachable'', w1))
      | (Inr resp, w1) \<Rightarrow>
          (case on_ks (ks_Save E (paired_bundle (PairFingerprint S) resp)) w1 of
             (Some e, w2) \<Rightarrow> (writeErr 500 ''internal_error'', w2)
           | (None, w2) \<Rightarrow> (writeJSON 200 (Some (JObj
               [(''org_id'', JText (ResOrganizationID resp)), (''device_id'', JText (ResDeviceID resp)),
                (''expires_at'', JText (fmt_time E (ExpiresAt (Session resp))))])), w2)))"

definition handlePair ::
  "'e ienv_scheme \<Rightarrow> ipc_server \<Rightarrow> ipc_request \<Rightarrow> 'd daemon_scheme \<Rightarrow> ipc_response \<times> 'd daemon_scheme" where
  "handlePair E S r w =
     (if hq_method r \<noteq> ''POST'' then (writeErr 405 ''POST required'', w)
      else (case PairURL S of
          None \<Rightarrow> (writeErr 503 ''pairing not configured'', w)
        | Some base \<Rightarrow>
            (case Option.bind (hq_json r) (dec_pair_request []) of
               None \<Rightarrow> (writeErr 400 ''invalid_json'', w)
             | Some display \<Rightarrow>
                 (let code = TrimSpace display in
                  if code = [] then (writeErr 400 ''missing display_code'', w)
                  else (case AlreadyPaired E w of (paired, w1) \<Rightarrow>
                    if paired then (writeErr 409 ''already_paired'', w1)
                    else pair_exchange E S base code w1)))))"

section \<open>Unpairing\<close>

definition dec_bool :: "bool decoder" where
  "dec_bool v j = (case j of JNull \<Rightarrow> Some v | JBool b \<Rightarrow> Some b | _ \<Rightarrow> None)"

definition dec_unpair_request :: "bool decoder" where
  "dec_unpair_request = dec_struct (dec_field ''force'' dec_bool)"

text \<open>Steps 2 and 3: the sweep, whose error is only logged, and the keystore.\<close>

definition clear_local ::
  "'e ienv_scheme \<Rightarrow> bool \<Rightarrow> 'd daemon_scheme \<Rightarrow> ipc_response \<times> 'd daemon_scheme" where
  "clear_local E forced w =
     (case on_db (SweepActiveToFailed E ReasonUnpaired) w of (swept, w1) \<Rightarrow>
      (case on_ks (ks_Clear E) w1 of
         (Some e, w2) \<Rightarrow> (writeErr 500 ''internal_error'', w2)
       | (None, w2) \<Rightarrow> (writeJSON 200 (Some (JObj
           [(''cleared_jobs'', JInt (case swept of Inl _ \<Rightarrow> 0 | Inr n \<Rightarrow> n)),
            (''forced'', JBool forced)])), w2)))"

definition unpair_loaded ::
  "'e ienv_scheme \<Rightarrow> string \<Rightarrow> bool \<Rightarrow> 'd daemon_scheme \<Rightarrow> ipc_response \<times> 'd daemon_scheme" where
  "unpair_loaded E base force w =
     (case on_ks (ks_Load E) w of
        (Inl e, w1) \<Rightarrow>
          (if errors_is e ErrNoSession then (writeErr 409 ''not_paired'', w1)
           else (writeErr 500 ''internal_error'', w1))
      | (Inr b, w1) \<Rightarrow>
          (case Unpair E base (SessionJWT b) (HwFingerprint b) w1 of
             (None, w2) \<Rightarrow> clear_local E False w2
           | (Some e, w2) \<Rightarrow>
               (if errors_is e ErrCloudUnreachable then
                  (if \<not> force then (writeErr 502 ''cloud_unreachable'', w2)
                   else clear_local E True w2)
                else (writeErr 502 ''cloud_rejected'', w2))))"

definition handleUnpair ::
  "'e ienv_scheme \<Rightarrow> ipc_server \<Rightarrow> ipc_request \<Rightarrow> 'd daemon_scheme \<Rightarrow> ipc_response \<times> 'd daemon_scheme" where
  "handleUnpair E S r w =
     (if hq_method r \<noteq> ''POST'' then (writeErr 405 ''POST required'', w)
      else (case PairURL S of
          None \<Rightarrow> (writeErr 503 ''pairing not configured'', w)
        | Some base \<Rightarrow>
            (if \<not> StoreConfigured S then (writeErr 503 ''jobqueue not configured'', w)
             else (case (if hq_length r > 0 then Option.bind (hq_json r) (dec_unpair_request False)
                         else Some False) of
                 None \<Rightarrow> (writeErr 400 ''invalid_json'', w)
               | Some force \<Rightarrow> unpair_loaded E base force w))))"

section \<open>The log stream\<close>

definition handleLogsStream :: "ipc_server \<Rightarrow> ipc_request \<Rightarrow> ipc_result" where
  "handleLogsStream S r =
     (if hq_method r \<noteq> ''GET'' then Respond (writeErr 405 ''GET required'')
      else if \<not> HubReady S then Respond (writeErr 503 ''log hub not initialized'')
      else if \<not> CanFlush S then Respond (writeErr 500 ''streaming unsupported'')
      else StreamLogs [(''Content-Type'', ''text/event-stream''), (''Cache-Control'', ''no-cache''),
        (''Connection'', ''keep-alive''), (''X-Accel-Buffering'', ''no'')])"

text \<open>The frame of one event, whose JSON text the encoder ends with a newline.\<close>

definition sse_frame :: "string \<Rightarrow> string" where
  "sse_frame event_json = ''data: '' @ (event_json @ newline) @ newline"

section \<open>Routes and middleware\<close>

datatype route = RStatus | RJobs | RPause | RResume | RCapabilities | RJobByID | RPair | RUnpair | RLogs

definition routes :: "(string \<times> route) list" where
  "routes = [(''/v1/status'', RStatus), (''/v1/jobs'', RJobs), (''/v1/pause'', RPause),
     (''/v1/resume'', RResume), (''/v1/capabilities'', RCapabilities), (''/v1/pair'', RPair),
     (''/v1/unpair'', RUnpair), (''/v1/logs/stream'', RLogs)]"

text \<open>
  \<open>http.ServeMux\<close>: an unclean path is redirected to its clean form, a registered path goes to its
  handler, and one below the registered subtree \<open>/v1/jobs/\<close> to that of the subtree.
\<close>

definition mux_clean :: "string \<Rightarrow> string" where
  "mux_clean p =
     (if p = [] then ''/''
      else
        (let q = (if hd p = CHR ''/'' then p else ''/'' @ p); np = path_clean q
         in if last q = CHR ''/'' \<and> np \<noteq> ''/'' then np @ ''/'' else np))"

definition mux_match :: "string \<Rightarrow> route option" where
  "mux_match p =
     (case map_of routes p of
        Some r \<Rightarrow> Some r
      | None \<Rightarrow> (if HasPrefix p ''/v1/jobs/'' then Some RJobByID else None))"

definition lift_response :: "ipc_response \<times> 'w \<Rightarrow> ipc_result \<times> 'w" where
  "lift_response p = (Respond (fst p), snd p)"

definition run_route ::
  "'e ienv_scheme \<Rightarrow> ipc_server \<Rightarrow> route \<Rightarrow> ipc_request \<Rightarrow> 'd daemon_scheme \<Rightarrow> ipc_result \<times> 'd daemon_scheme" where
  "run_route E S rt r w =
     (case rt of
        RStatus \<Rightarrow> lift_response (handleStatus E S w)
      | RJobs \<Rightarrow> lift_response (handleJobsList E r w)
      | RPause \<Rightarrow> lift_response (handlePause r w)
      | RResume \<Rightarrow> lift_response (handleResume r w)
      | RCapabilities \<Rightarrow> lift_response (handleCapabilities E w)
      | RJobByID \<Rightarrow> lift_response (handleJobByID E r w)
      | RPair \<Rightarrow> lift_response (handlePair E S r w)
      | RUnpair \<Rightarrow> lift_response (handleUnpair E S r w)
      | RLogs \<Rightarrow> (handleLogsStream S r, w))"

definition serve_mux ::
  "'e ienv_scheme \<Rightarrow> ipc_server \<Rightarrow> ipc_request \<Rightarrow> 'd daemon_scheme \<Rightarrow> ipc_result \<times> 'd daemon_scheme" where
  "serve_mux E S r w =
     (if mux_clean (hq_path r) \<noteq> hq_path r then
        (Respond \<lparr>rs_status = 301, rs_headers = [(''Location'', mux_clean (hq_path r))], rs_body = None\<rparr>, w)
      else (case mux_match (hq_path r) of
          None \<Rightarrow> (Respond \<lparr>rs_status = 404, rs_headers = [(''Content-Type'', ''text/plain; charset=utf-8'')],
                     rs_body = None\<rparr>, w)
        | Some rt \<Rightarrow> run_route E S rt r w))"

definition sseQueryAuthShim :: "ipc_request \<Rightarrow> ipc_request" where
  "sseQueryAuthShim r =
     (if hq_path r = ''/v1/logs/stream'' \<and> hq_header r ''Authorization'' = [] \<and> hq_query r ''token'' \<noteq> []
      then r\<lparr>hq_header := (hq_header r)(''Authorization'' := ''Bearer '' @ hq_query r ''token''),
             hq_query := (hq_query r)(''token'' := [])\<rparr>
      else r)"

definition tauriOriginAllowlist :: "string list" where
  "tauriOriginAllowlist = [''tauri://localhost'', ''https://tauri.localhost'']"

definition origin_ok :: "ipc_server \<Rightarrow> string \<Rightarrow> bool" where
  "origin_ok S origin \<longleftrightarrow> origin = [] \<or> allowOrigin S \<or> origin \<in> set tauriOriginAllowlist"

definition cors_headers :: "string \<Rightarrow> (string \<times> string) list" where
  "cors_headers origin =
     (if origin = [] then []
      else [(''Access-Control-Allow-Origin'', origin), (''Vary'', ''Origin''),
            (''Access-Control-Allow-Credentials'', ''true'')])"

definition preflight :: "ipc_request \<Rightarrow> ipc_response" where
  "preflight r =
     \<lparr>rs_status = 204,
      rs_headers = cors_headers (hq_header r ''Origin'') @
        [(''Access-Control-Allow-Headers'',
          (let q = hq_header r ''Access-Control-Request-Headers'' in
           if q \<noteq> [] then q else ''Authorization, Accept, Content-Type'')),
         (''Access-Control-Allow-Methods'', ''GET, POST, DELETE, OPTIONS''),
         (''Access-Control-Max-Age'', ''600'')],
      rs_body = None\<rparr>"

definition with_cors :: "(string \<times> string) list \<Rightarrow> ipc_result \<Rightarrow> ipc_result" where
  "with_cors hs res =
     (case res of
        Respond r \<Rightarrow> Respond (r\<lparr>rs_headers := hs @ rs_headers r\<rparr>)
      | StreamLogs h \<Rightarrow> StreamLogs (hs @ h))"

definition bearer_ok :: "ipc_server \<Rightarrow> string \<Rightarrow> bool" where
  "bearer_ok S authz \<longleftrightarrow> TrimSpace (TrimPrefix authz ''Bearer '') = srv_token S"

definition middleware ::
  "ipc_server \<Rightarrow> (ipc_request \<Rightarrow> 'w \<Rightarrow> ipc_result \<times> 'w) \<Rightarrow> ipc_request \<Rightarrow> 'w \<Rightarrow> ipc_result \<times> 'w" where
  "middleware S continue r w =
     (let origin = hq_header r ''Origin'' in
      if \<not> origin_ok S origin then (Respond (writeErr 403 ''origin not allowed''), w)
      else if hq_method r = ''OPTIONS'' \<and> origin \<noteq> [] then (Respond (preflight r), w)
      else if \<not> bearer_ok S (hq_header r ''Authorization'') then
        (with_cors (cors_headers origin) (Respond (writeErr 401 ''unauthorized'')), w)
      else (case continue r w of (res, w1) \<Rightarrow> (with_cors (cors_headers origin) res, w1)))"

definition ipc_serve ::
  "'e ienv_scheme \<Rightarrow> ipc_server \<Rightarrow> ipc_request \<Rightarrow> 'd daemon_scheme \<Rightarrow> ipc_result \<times> 'd daemon_scheme" where
  "ipc_serve E S r w = middleware S (serve_mux E S) (sseQueryAuthShim r) w"

end
