(* ===== verification/LogStream.thy ===== *)
theory LogStream
  imports LogHub Ipc
begin

text \<open>
  \<open>internal/ipc/handlers_logs.go\<close>, the loop behind the stream's headers, over the log hub of
  \<open>internal/observability/sse.go\<close>: every open stream reads its subscriber's channel and writes
  each event to its connection in three writes.  The reader of the stream is the event source
  of the desktop shell's browser view, of which this theory has the line parser of the HTML
  standard as a reference.
\<close>

section \<open>What the reader of an event stream makes of its bytes\<close>

text \<open>
  The complete lines of a text, ended by a line feed, a carriage return or both; \<open>cur\<close> is the
  line being read, backwards.  A byte order mark in front of the text is not treated.
\<close>

function sse_lines :: "string \<Rightarrow> string \<Rightarrow> string list" where
  "sse_lines cur [] = []"
| "sse_lines cur (c # cs) =
     (if c = CHR 0x0A then rev cur # sse_lines [] cs
      else if c = CHR 0x0D then
        rev cur # sse_lines [] (if cs \<noteq> [] \<and> hd cs = CHR 0x0A then tl cs else cs)
      else sse_lines (c # cur) cs)"
  by pat_completeness auto
termination
  by (relation "measure (\<lambda>(cur, s). length s)") auto

text \<open>The value of a \<open>data\<close> field, one leading space removed.\<close>

definition data_field :: "string \<Rightarrow> string option" where
  "data_field l =
     (if l = ''data'' then Some []
      else if HasPrefix l ''data:'' then
        Some (let v = drop 5 l in if v \<noteq> [] \<and> hd v = CHR 0x20 then tl v else v)
      else None)"

text \<open>A blank line dispatches the data lines before it, an event that no blank line ends is dropped.\<close>

fun sse_dispatch :: "string list \<Rightarrow> string list \<Rightarrow> string list" where
  "sse_dispatch buf [] = []"
| "sse_dispatch buf (l # ls) =
     (if l = [] then
        (if buf = [] then sse_dispatch [] ls
         else concat (hd buf # map (\<lambda>v. newline @ v) (tl buf)) # sse_dispatch [] ls)
      else (case data_field l of
          None \<Rightarrow> sse_dispatch buf ls
        | Some v \<Rightarrow> sse_dispatch (buf @ [v]) ls))"

definition sse_events :: "string \<Rightarrow> string list" where
  "sse_events s = sse_dispatch [] (sse_lines [] s)"

text \<open>\<open>encoding/json\<close> escapes the control characters of a text, so what it writes is one line.\<close>

definition one_line :: "string \<Rightarrow> bool" where
  "one_line j \<longleftrightarrow> CHR 0x0A \<notin> set j \<and> CHR 0x0D \<notin> set j"

lemma sse_lines_end: "one_line a \<Longrightarrow> sse_lines cur (a @ CHR 0x0A # b) = (rev cur @ a) # sse_lines [] b"
  by (induction a arbitrary: cur) (auto simp: one_line_def)

lemma sse_lines_open: "one_line a \<Longrightarrow> sse_lines cur a = []"
  by (induction a arbitrary: cur) (auto simp: one_line_def)

lemma data_field_line [simp]: "data_field (''data: '' @ j) = Some j"
  by (simp add: data_field_def HasPrefix_def)

lemma one_line_data: "one_line j \<Longrightarrow> one_line (''data: '' @ j)"
  by (simp add: one_line_def)

lemma sse_events_frame:
  assumes "one_line j"
  shows "sse_events (sse_frame j @ rest) = j # sse_events rest"
proof -
  have "sse_lines [] (sse_frame j @ rest) = (''data: '' @ j) # [] # sse_lines [] rest"
    using sse_lines_end [OF one_line_data [OF assms], of "[]" "CHR 0x0A # rest"]
    by (simp add: sse_frame_def newline_def)
  moreover have "''data: '' @ j \<noteq> []" by simp
  ultimately show ?thesis
    unfolding sse_events_def by (simp only: sse_dispatch.simps data_field_line) simp
qed

lemma sse_events_frames:
  "\<forall>j \<in> set js. one_line j \<Longrightarrow> sse_events (concat (map sse_frame js) @ rest) = js @ sse_events rest"
  by (induction js) (simp_all add: sse_events_frame)

text \<open>A frame cut short is no event.\<close>

lemma sse_events_cut:
  assumes "one_line j" and "sse_frame j = p @ q" and "q \<noteq> []"
  shows "sse_events p = []"
proof -
  define b where "b = ''data: '' @ j"
  have b: "one_line b" using one_line_data [OF assms(1)] by (simp add: b_def)
  have "b @ [CHR 0x0A] @ [CHR 0x0A] = p @ q"
    using assms(2) by (simp add: sse_frame_def newline_def b_def)
  with assms(3) consider u where "b = p @ u" | "p = b @ [CHR 0x0A]"
    by (auto simp: append_eq_append_conv2 Cons_eq_append_conv append_eq_Cons_conv)
  then show ?thesis
  proof cases
    case 1
    with b have "one_line p" by (simp add: one_line_def)
    then show ?thesis by (simp add: sse_events_def sse_lines_open)
  next
    case 2
    then have "sse_lines [] p = [b]" using sse_lines_end [OF b, of "[]" "[]"] by simp
    then show ?thesis
      by (simp only: sse_events_def) (simp add: b_def data_field_line [simplified])
  qed
qed

section \<open>One connection\<close>

text \<open>
  What a connection has taken and how often it was written to.  The faults of a connection are a
  parameter: its write number \<open>i\<close> fails after \<open>n\<close> bytes when \<open>F i = Some n\<close>.
\<close>

record wire =
  written :: string
  writes :: nat

definition conn_write :: "(nat \<Rightarrow> nat option) \<Rightarrow> string \<Rightarrow> wire \<Rightarrow> bool \<times> wire" where
  "conn_write F s w =
     (case F (writes w) of
        None \<Rightarrow> (True, \<lparr>written = written w @ s, writes = Suc (writes w)\<rparr>)
      | Some n \<Rightarrow> (False, \<lparr>written = written w @ take n s, writes = Suc (writes w)\<rparr>))"

text \<open>
  One event: the prefix, the encoder's line, the blank line; \<open>False\<close> where the handler returns.
  \<open>J\<close> is the JSON text of an event, \<open>None\<close> where the encoder rejects a value; it then has
  written nothing.
\<close>

definition send_event :: "('e \<Rightarrow> string option) \<Rightarrow> (nat \<Rightarrow> nat option) \<Rightarrow> 'e \<Rightarrow> wire \<Rightarrow> bool \<times> wire" where
  "send_event J F ev w =
     (case conn_write F ''data: '' w of
        (False, w1) \<Rightarrow> (False, w1)
      | (True, w1) \<Rightarrow>
          (case J ev of
             None \<Rightarrow> (False, w1)
           | Some j \<Rightarrow>
               (case conn_write F (j @ newline) w1 of
                  (False, w2) \<Rightarrow> (False, w2)
                | (True, w2) \<Rightarrow> conn_write F newline w2)))"

lemma conn_write_done: "conn_write F s w = (True, w') \<Longrightarrow> written w' = written w @ s"
  by (auto simp: conn_write_def split: option.splits)

lemma conn_write_fails: "conn_write F s w = (False, w') \<Longrightarrow> \<exists>p q. s = p @ q \<and> written w' = written w @ p"
  by (auto simp: conn_write_def split: option.splits) (metis append_take_drop_id)

lemma send_event_ok:
  "send_event J F ev w = (True, w') \<Longrightarrow> \<exists>j. J ev = Some j \<and> written w' = written w @ sse_frame j"
  by (auto simp: send_event_def sse_frame_def split: prod.splits bool.splits option.splits
      dest!: conn_write_done)

text \<open>
  A handler that returns leaves the frame of the event cut short, or whole when only the write of
  its last byte failed.
\<close>

lemma send_event_fails:
  assumes "send_event J F ev w = (False, w')" and one: "\<And>j. J ev = Some j \<Longrightarrow> one_line j"
  shows "\<exists>p. written w' = written w @ p \<and>
    (sse_events p = [] \<or> (\<exists>j. J ev = Some j \<and> p = sse_frame j))"
proof -
  have empty: "one_line []" by (simp add: one_line_def)
  have pre: "sse_events p = []" if "''data: '' = p @ q" for p q
    using sse_events_cut [OF empty, of p "q @ newline @ newline"] that
    by (simp add: sse_frame_def newline_def)
  consider "conn_write F ''data: '' w = (False, w')"
    | "conn_write F ''data: '' w = (True, w')" "J ev = None"
    | w1 j where "conn_write F ''data: '' w = (True, w1)" "J ev = Some j"
        "conn_write F (j @ newline) w1 = (False, w')"
    | w1 w2 j where "conn_write F ''data: '' w = (True, w1)" "J ev = Some j"
        "conn_write F (j @ newline) w1 = (True, w2)" "conn_write F newline w2 = (False, w')"
    using assms(1) by (auto simp: send_event_def split: prod.splits bool.splits option.splits)
  then show ?thesis
  proof cases
    case 1
    then show ?thesis using conn_write_fails pre by metis
  next
    case 2
    then show ?thesis using conn_write_done pre [of "''data: ''" "[]"] by auto
  next
    case 3
    from conn_write_fails [OF 3(3)] obtain p q
      where p: "j @ newline = p @ q" "written w' = written w1 @ p" by blast
    then have "sse_frame j = (''data: '' @ p) @ q @ newline" by (simp add: sse_frame_def)
    from sse_events_cut [OF one [OF 3(2)] this] p conn_write_done [OF 3(1)]
    show ?thesis by (simp add: newline_def)
  next
    case 4
    from conn_write_fails [OF 4(4)] obtain p q
      where p: "newline = p @ q" "written w' = written w2 @ p" by blast
    let ?p = "''data: '' @ (j @ newline) @ p"
    have f: "sse_frame j = ?p @ q" using p(1) by (simp add: sse_frame_def)
    have s: "written w' = written w @ ?p"
      using p(2) conn_write_done [OF 4(1)] conn_write_done [OF 4(3)] by simp
    show ?thesis
    proof (cases "q = []")
      case True
      with f s 4(2) show ?thesis by auto
    next
      case False
      from sse_events_cut [OF one [OF 4(2)] f False] s show ?thesis by blast
    qed
  qed
qed

section \<open>No event reaches a reader twice\<close>

text \<open>What a subscriber has read, has in its channel and still has to be replayed.\<close>

definition pending :: "'e hub_sys \<Rightarrow> nat \<Rightarrow> 'e list" where
  "pending h k = (case subscribers h k of SReplay es _ \<Rightarrow> es | _ \<Rightarrow> [])"

definition in_hand :: "'e hub_sys \<Rightarrow> nat \<Rightarrow> 'e list" where
  "in_hand h k = got h k @ chan h k @ pending h k"

definition reading_inv :: "'e hub_sys \<Rightarrow> bool" where
  "reading_inv h \<longleftrightarrow>
     (\<forall>k. distinct (in_hand h k) \<and> set (in_hand h k) \<subseteq> set (hist h) \<and>
       (subscribers h k = SNone \<longrightarrow> in_hand h k = []))"

text \<open>What a publisher is still to deliver is new to every subscriber left in its list.\<close>

definition delivery :: "'e hub_sys \<Rightarrow> nat \<Rightarrow> ('e \<times> nat list) option" where
  "delivery h p = (case pubs h p of PIdle \<Rightarrow> None | PDeliver ev l st \<Rightarrow> Some (ev, l))"

definition delivering_inv :: "'e hub_sys \<Rightarrow> bool" where
  "delivering_inv h \<longleftrightarrow>
     (\<forall>p ev l. delivery h p = Some (ev, l) \<longrightarrow>
        ev \<in> set (hist h) \<and> distinct l \<and>
        (\<forall>k \<in> set l. subscribers h k \<noteq> SNone \<and> ev \<notin> set (in_hand h k)) \<and>
        (\<forall>q ev' l'. q \<noteq> p \<and> delivery h q = Some (ev', l') \<longrightarrow> ev \<noteq> ev'))"

lemma delivery_update [simp]:
  "delivery (h\<lparr>pubs := (pubs h)(p := x)\<rparr>) q =
     (if q = p then (case x of PIdle \<Rightarrow> None | PDeliver ev l st \<Rightarrow> Some (ev, l)) else delivery h q)"
  by (simp add: delivery_def)

lemma in_hand_cong:
  "got t = got h \<Longrightarrow> chan t = chan h \<Longrightarrow> subscribers t = subscribers h \<Longrightarrow> in_hand t = in_hand h"
  by (auto simp: in_hand_def pending_def)

lemma once_new: "reading_inv newHub" "delivering_inv newHub"
  by (simp_all add: reading_inv_def delivering_inv_def delivery_def in_hand_def pending_def newHub_def)

text \<open>A step that starts no delivery, and gives the subscribers left nothing of one that is under way, keeps the second.\<close>

lemma delivering_keeps:
  assumes "delivering_inv h" and "set (hist h) \<subseteq> set (hist t)"
    and "\<And>p ev l. delivery t p = Some (ev, l) \<Longrightarrow>
      \<exists>l0. delivery h p = Some (ev, l0) \<and> (distinct l0 \<longrightarrow> distinct l) \<and>
        (\<forall>k \<in> set l. k \<in> set l0 \<and>
          (subscribers h k \<noteq> SNone \<and> ev \<notin> set (in_hand h k) \<longrightarrow> subscribers t k \<noteq> SNone \<and> ev \<notin> set (in_hand t k)))"
  shows "delivering_inv t"
  unfolding delivering_inv_def
proof (intro allI impI)
  fix p ev l
  assume "delivery t p = Some (ev, l)"
  from assms(3) [OF this] obtain l0 where l0: "delivery h p = Some (ev, l0)" "distinct l0 \<longrightarrow> distinct l"
    "\<forall>k \<in> set l. k \<in> set l0 \<and>
      (subscribers h k \<noteq> SNone \<and> ev \<notin> set (in_hand h k) \<longrightarrow> subscribers t k \<noteq> SNone \<and> ev \<notin> set (in_hand t k))"
    by blast
  have h: "ev \<in> set (hist h) \<and> distinct l0 \<and>
        (\<forall>k \<in> set l0. subscribers h k \<noteq> SNone \<and> ev \<notin> set (in_hand h k)) \<and>
        (\<forall>q ev' l'. q \<noteq> p \<and> delivery h q = Some (ev', l') \<longrightarrow> ev \<noteq> ev')"
    using assms(1) l0(1) unfolding delivering_inv_def by blast
  have others: "\<exists>l0. delivery h q = Some (ev', l0)" if "delivery t q = Some (ev', l')" for q ev' l'
    using assms(3) [OF that] by blast
  show "ev \<in> set (hist t) \<and> distinct l \<and>
        (\<forall>k \<in> set l. subscribers t k \<noteq> SNone \<and> ev \<notin> set (in_hand t k)) \<and>
        (\<forall>q ev' l'. q \<noteq> p \<and> delivery t q = Some (ev', l') \<longrightarrow> ev \<noteq> ev')"
    using h l0(2,3) assms(2) others by blast
qed

lemma hub_exec_hist: "hub_exec a h = Some t \<Longrightarrow> \<exists>es. hist t = hist h @ es"
proof (cases a)
  case (PubStep p)
  then show "hub_exec a h = Some t \<Longrightarrow> \<exists>es. hist t = hist h @ es"
    by (auto split: pub_pc.splits list.splits prod.splits option.splits dest!: chan_access_frame)
next
  case (SubStep k)
  then show "hub_exec a h = Some t \<Longrightarrow> \<exists>es. hist t = hist h @ es"
    by (auto split: sub_pc.splits list.splits prod.splits option.splits dest!: chan_access_frame)
qed (auto split: if_splits list.splits cancel_pc.splits)

text \<open>One channel access leaves the channel, drops its oldest event, or is over with the event in it.\<close>

lemma chan_access_effect:
  assumes "chan_access st ev k h = (r, t)"
  shows "got t = got h \<and> (\<forall>j. j \<noteq> k \<longrightarrow> chan t j = chan h j) \<and>
    (chan t k = chan h k \<or> chan t k = tl (chan h k) \<and> r \<noteq> None \<or> chan t k = chan h k @ [ev] \<and> r = None)"
  using assms
  by (auto simp: chan_access_def try_send_def split: stage.splits if_splits option.splits list.splits)

text \<open>So what a subscriber holds stays, loses an event, or gains the delivered one.\<close>

lemma access_in_hand:
  assumes "chan_access st ev k h = (r, t)"
  shows "j \<noteq> k \<Longrightarrow> in_hand t j = in_hand h j"
    and "set (in_hand t k) \<subseteq> insert ev (set (in_hand h k))"
    and "r \<noteq> None \<Longrightarrow> set (in_hand t k) \<subseteq> set (in_hand h k)"
    and "distinct (in_hand h k) \<Longrightarrow> ev \<notin> set (in_hand h k) \<Longrightarrow> distinct (in_hand t k)"
proof -
  have "subscribers t = subscribers h" using chan_access_frame [OF assms] by simp
  then have pend: "pending t = pending h" by (auto simp: pending_def)
  have tl: "set (tl q) \<subseteq> set q" for q :: "'a list" by (cases q) auto
  note eff = chan_access_effect [OF assms]
  show "j \<noteq> k \<Longrightarrow> in_hand t j = in_hand h j" using eff by (simp add: in_hand_def pend)
  show "set (in_hand t k) \<subseteq> insert ev (set (in_hand h k))"
    using eff tl [of "chan h k"] by (auto simp: in_hand_def pend)
  show "r \<noteq> None \<Longrightarrow> set (in_hand t k) \<subseteq> set (in_hand h k)"
    using eff tl [of "chan h k"] by (auto simp: in_hand_def pend)
  show "distinct (in_hand h k) \<Longrightarrow> ev \<notin> set (in_hand h k) \<Longrightarrow> distinct (in_hand t k)"
    using eff tl [of "chan h k"] by (auto simp: in_hand_def pend distinct_tl)
qed

lemma pub_step_once:
  assumes "hub_exec (PubStep p) h = Some t" and R: "reading_inv h" and D: "delivering_inv h"
  shows "reading_inv t \<and> delivering_inv t"
proof -
  obtain ev l st where pd: "pubs h p = PDeliver ev l st"
    using assms(1) by (auto split: pub_pc.splits)
  have dp: "delivery h p = Some (ev, l)" by (simp add: delivery_def pd)
  show ?thesis
  proof (cases l)
    case Nil
    with assms(1) pd have t: "t = h\<lparr>pubs := (pubs h)(p := PIdle)\<rparr>" by simp
    have eq: "in_hand t = in_hand h" "subscribers t = subscribers h" "hist t = hist h"
      and less: "\<And>q ev' m. delivery t q = Some (ev', m) \<Longrightarrow> delivery h q = Some (ev', m)"
      using in_hand_cong [of t h] by (auto simp: t split: if_splits)
    have "delivering_inv t"
      by (rule delivering_keeps [OF D]) (auto simp: eq dest: less)
    then show ?thesis using R by (simp add: reading_inv_def eq)
  next
    case (Cons k ks)
    obtain r u where acc: "chan_access st ev k h = (r, u)" by fastforce
    define l' where "l' = (if r = None then ks else l)"
    obtain st' where t: "t = u\<lparr>pubs := (pubs u)(p := PDeliver ev l' st')\<rparr>"
      using assms(1) pd Cons acc by (auto simp: l'_def split: option.splits)
    note fr = chan_access_frame [OF acc]
    have in_hand: "in_hand t = in_hand u" by (rule in_hand_cong) (simp_all add: t)
    have frt: "hist t = hist h" "subscribers t = subscribers h" using fr by (simp_all add: t)
    have dt: "delivery t q = (if q = p then Some (ev, l') else delivery h q)" for q
      using fr by (simp add: t delivery_def)
    have own: "ev \<in> set (hist h)" "distinct l" "\<forall>j \<in> set l. subscribers h j \<noteq> SNone \<and> ev \<notin> set (in_hand h j)"
      and other: "\<And>q ev' l0. q \<noteq> p \<Longrightarrow> delivery h q = Some (ev', l0) \<Longrightarrow> ev' \<noteq> ev"
      using D dp unfolding delivering_inv_def by blast+
    have "reading_inv t"
      unfolding reading_inv_def
    proof
      fix j
      have "distinct (in_hand h j) \<and> set (in_hand h j) \<subseteq> set (hist h) \<and> (subscribers h j = SNone \<longrightarrow> in_hand h j = [])"
        using R by (simp add: reading_inv_def)
      then show "distinct (in_hand t j) \<and> set (in_hand t j) \<subseteq> set (hist t) \<and>
          (subscribers t j = SNone \<longrightarrow> in_hand t j = [])"
        using own Cons access_in_hand [OF acc] by (cases "j = k") (auto simp: in_hand frt)
    qed
    moreover have "delivering_inv t"
    proof (rule delivering_keeps [OF D])
      show "set (hist h) \<subseteq> set (hist t)" by (simp add: frt)
    next
      fix q ev' m
      assume q: "delivery t q = Some (ev', m)"
      have new: "ev' \<notin> set (in_hand h j) \<Longrightarrow> ev' \<notin> set (in_hand t j)" if "q \<noteq> p \<or> j \<in> set l'" for j
        using that q other [of q ev' m] own(2) access_in_hand [OF acc] Cons
        by (cases "j = k") (auto simp: dt in_hand l'_def split: if_splits)
      show "\<exists>l0. delivery h q = Some (ev', l0) \<and> (distinct l0 \<longrightarrow> distinct m) \<and>
          (\<forall>j \<in> set m. j \<in> set l0 \<and> (subscribers h j \<noteq> SNone \<and> ev' \<notin> set (in_hand h j) \<longrightarrow>
            subscribers t j \<noteq> SNone \<and> ev' \<notin> set (in_hand t j)))"
        using q dp new Cons by (auto simp: dt l'_def frt split: if_splits)
    qed
    ultimately show ?thesis ..
  qed
qed

text \<open>The other actions start no delivery of an old event, and leave what is under way as it is.\<close>

lemma same_deliveries_once:
  assumes D: "delivering_inv h" and "delivery t = delivery h" and "hist t = hist h"
    and "\<And>k. subscribers h k \<noteq> SNone \<Longrightarrow> subscribers t k \<noteq> SNone \<and> set (in_hand t k) \<subseteq> set (in_hand h k)"
  shows "delivering_inv t"
proof (rule delivering_keeps [OF D])
  fix p ev l
  assume "delivery t p = Some (ev, l)"
  with assms(2,4) show "\<exists>l0. delivery h p = Some (ev, l0) \<and> (distinct l0 \<longrightarrow> distinct l) \<and>
      (\<forall>k \<in> set l. k \<in> set l0 \<and> (subscribers h k \<noteq> SNone \<and> ev \<notin> set (in_hand h k) \<longrightarrow>
        subscribers t k \<noteq> SNone \<and> ev \<notin> set (in_hand t k)))"
    by auto
qed (simp add: assms(3))

lemma sub_lock_once:
  assumes "hub_exec (SubLock k) h = Some t" and H: "hub_inv h" and "distinct (hist h)"
    and R: "reading_inv h" and D: "delivering_inv h"
  shows "reading_inv t \<and> delivering_inv t"
proof -
  let ?r = "snapshotLocked (hring h)"
  have none: "subscribers h k = SNone"
    and t: "t = h\<lparr>subscribers := (subscribers h)(k := SReplay ?r TrySend), hsubs := k # hsubs h\<rparr>"
    using assms(1) by (auto split: if_splits)
  have empty: "got h k = []" "chan h k = []" using R none by (auto simp: reading_inv_def in_hand_def)
  have hand: "in_hand t j = (if j = k then ?r else in_hand h j)" for j
    by (simp add: in_hand_def pending_def t empty)
  have "?r = lastn ringSize (hist h)" using H by (simp add: hub_inv_def)
  with assms(3) have "distinct ?r" "set ?r \<subseteq> set (hist h)"
    by (auto simp: lastn_def dest: in_set_dropD)
  moreover have frame: "delivery t = delivery h" "hist t = hist h"
      "\<And>j. subscribers t j = SNone \<longleftrightarrow> j \<noteq> k \<and> subscribers h j = SNone"
    by (auto simp: t delivery_def)
  ultimately have "reading_inv t" using R by (auto simp: reading_inv_def hand)
  moreover have "delivering_inv t"
    by (rule same_deliveries_once [OF D]) (auto simp: hand none frame)
  ultimately show ?thesis ..
qed

lemma sub_step_hand:
  assumes "hub_exec (SubStep k) h = Some t" and "distinct (in_hand h j)"
  shows "distinct (in_hand t j) \<and> set (in_hand t j) \<subseteq> set (in_hand h j)"
proof -
  obtain es st where sub: "subscribers h k = SReplay es st"
    using assms(1) by (auto split: sub_pc.splits)
  show ?thesis
  proof (cases es)
    case Nil
    with assms(1) sub have "t = h\<lparr>subscribers := (subscribers h)(k := SLive)\<rparr>" by simp
    then have "pending t j = pending h j" "got t = got h" "chan t = chan h"
      using sub Nil by (simp_all add: pending_def)
    with assms(2) show ?thesis by (simp add: in_hand_def)
  next
    case (Cons ev es')
    obtain r u where acc: "chan_access st ev k h = (r, u)" by fastforce
    define es2 where "es2 = (if r = None then es' else es)"
    obtain st' where t: "t = u\<lparr>subscribers := (subscribers u)(k := SReplay es2 st')\<rparr>"
      using assms(1) sub Cons acc by (auto simp: es2_def split: option.splits)
    have pend: "pending t i = (if i = k then es2 else pending h i)" for i
      using chan_access_frame [OF acc] by (simp add: pending_def t)
    have ch: "chan t = chan u" "got t = got u" by (simp_all add: t)
    have old: "pending h k = ev # es'" by (simp add: pending_def sub Cons)
    have tl: "x \<in> set (tl q) \<Longrightarrow> x \<in> set q" for x and q :: "'a list" by (cases q) auto
    from assms(2) chan_access_effect [OF acc] show ?thesis
      by (cases "j = k") (auto simp: in_hand_def pend ch old es2_def Cons distinct_tl disjoint_iff
          split: if_splits dest!: tl)
  qed
qed

lemma sub_step_once:
  assumes "hub_exec (SubStep k) h = Some t" and R: "reading_inv h" and D: "delivering_inv h"
  shows "reading_inv t \<and> delivering_inv t"
proof -
  have frame: "delivery t = delivery h" "hist t = hist h" "\<And>j. subscribers t j = SNone \<longleftrightarrow> subscribers h j = SNone"
    using assms(1)
    by (auto simp: delivery_def fun_eq_iff split: sub_pc.splits list.splits prod.splits option.splits if_splits
        dest!: chan_access_frame)
  note hand = sub_step_hand [OF assms(1)]
  have old: "distinct (in_hand h j)" "set (in_hand h j) \<subseteq> set (hist h)"
      "subscribers h j = SNone \<Longrightarrow> in_hand h j = []" for j
    using R by (simp_all add: reading_inv_def)
  have "reading_inv t"
    unfolding reading_inv_def
  proof
    fix j
    show "distinct (in_hand t j) \<and> set (in_hand t j) \<subseteq> set (hist t) \<and> (subscribers t j = SNone \<longrightarrow> in_hand t j = [])"
      using hand [OF old(1), of j] old(2,3) [of j] by (auto simp: frame(2,3))
  qed
  moreover have "delivering_inv t"
    using hand [OF old(1)] by (intro same_deliveries_once [OF D frame(1,2)]) (simp add: frame(3))
  ultimately show ?thesis ..
qed

lemma other_step_once:
  assumes "hub_exec a h = Some t" and "a = Recv k \<or> a = CancelStep k"
    and R: "reading_inv h" and D: "delivering_inv h"
  shows "reading_inv t \<and> delivering_inv t"
proof -
  have frame: "delivery t = delivery h" "hist t = hist h" "subscribers t = subscribers h" "in_hand t = in_hand h"
    using assms(1,2)
    by (auto simp: delivery_def in_hand_def pending_def fun_eq_iff split: list.splits if_splits cancel_pc.splits)
  then show ?thesis
    using R same_deliveries_once [OF D, of t] by (simp add: reading_inv_def)
qed

lemma pub_lock_once:
  assumes "hub_exec (PubLock p ev l) h = Some t" and H: "hub_inv h" and "distinct (hist t)"
    and R: "reading_inv h" and D: "delivering_inv h"
  shows "reading_inv t \<and> delivering_inv t"
proof -
  have l: "pubs h p = PIdle" "distinct l" "set l = set (hsubs h)"
    and t: "t = h\<lparr>hring := ring_push (hring h) ev, hist := hist h @ [ev], pubs := (pubs h)(p := PDeliver ev l Check)\<rparr>"
    using assms(1) by (auto split: if_splits)
  have hand: "in_hand t = in_hand h" by (rule in_hand_cong) (simp_all add: t)
  have frame: "hist t = hist h @ [ev]" "subscribers t = subscribers h"
      "\<And>q. delivery t q = (if q = p then Some (ev, l) else delivery h q)"
    by (simp_all add: t delivery_def)
  have fresh: "ev \<notin> set (hist h)" using assms(3) by (simp add: frame)
  have old: "set (in_hand h j) \<subseteq> set (hist h)" for j using R by (simp add: reading_inv_def)
  have live: "\<forall>k \<in> set l. subscribers h k \<noteq> SNone" using H l(3) by (simp add: hub_inv_def)
  have "reading_inv t" using R by (auto simp: reading_inv_def hand frame)
  moreover have "delivering_inv t"
    unfolding delivering_inv_def
  proof (intro allI impI)
    fix q e m
    assume q: "delivery t q = Some (e, m)"
    have prev: "e' \<in> set (hist h) \<and> distinct m' \<and>
        (\<forall>k \<in> set m'. subscribers h k \<noteq> SNone \<and> e' \<notin> set (in_hand h k)) \<and>
        (\<forall>q2 e2 m2. q2 \<noteq> q' \<and> delivery h q2 = Some (e2, m2) \<longrightarrow> e' \<noteq> e2)"
      if "delivery h q' = Some (e', m')" for q' e' m'
      using D that unfolding delivering_inv_def by blast
    show "e \<in> set (hist t) \<and> distinct m \<and>
        (\<forall>k \<in> set m. subscribers t k \<noteq> SNone \<and> e \<notin> set (in_hand t k)) \<and>
        (\<forall>q2 e2 m2. q2 \<noteq> q \<and> delivery t q2 = Some (e2, m2) \<longrightarrow> e \<noteq> e2)"
    proof (cases "q = p")
      case True
      with q have "e = ev" "m = l" by (simp_all add: frame)
      then show ?thesis using True l(2) live fresh old prev by (auto simp: frame hand)
    next
      case False
      with q have qh: "delivery h q = Some (e, m)" by (simp add: frame)
      with prev [OF this] fresh show ?thesis by (auto simp: frame hand split: if_splits)
    qed
  qed
  ultimately show ?thesis ..
qed

lemma hub_exec_once:
  assumes "hub_exec a h = Some t" and "hub_inv h" and "distinct (hist t)"
    and "reading_inv h" and "delivering_inv h"
  shows "reading_inv t \<and> delivering_inv t"
proof (cases a)
  case (PubLock p ev l)
  show ?thesis by (rule pub_lock_once [OF assms(1) [unfolded PubLock] assms(2-5)])
next
  case (PubStep p)
  show ?thesis by (rule pub_step_once [OF assms(1) [unfolded PubStep] assms(4,5)])
next
  case (SubLock k)
  have "distinct (hist h)" using hub_exec_hist [OF assms(1)] assms(3) by auto
  then show ?thesis by (rule sub_lock_once [OF assms(1) [unfolded SubLock] assms(2) _ assms(4,5)])
next
  case (SubStep k)
  show ?thesis by (rule sub_step_once [OF assms(1) [unfolded SubStep] assms(4,5)])
next
  case (Recv k)
  show ?thesis by (rule other_step_once [OF assms(1) _ assms(4,5)]) (simp add: Recv)
next
  case (CancelStep k)
  show ?thesis by (rule other_step_once [OF assms(1) _ assms(4,5)]) (simp add: CancelStep)
qed

text \<open>
  In every interleaving, when no event is published twice, what a subscriber has read, has in
  its channel and has still to be replayed are different published events.
\<close>

lemma hub_once:
  assumes "hub_step\<^sup>*\<^sup>* newHub h" and "distinct (hist h)"
  shows "reading_inv h \<and> delivering_inv h"
  using assms
proof (induction rule: rtranclp_induct)
  case base
  show ?case by (simp add: once_new)
next
  case (step h t)
  from step.hyps(2) obtain a where a: "hub_exec a h = Some t" by (auto elim: hub_stepE)
  then have "distinct (hist h)" using hub_exec_hist [OF a] step.prems by auto
  with step.IH have "reading_inv h \<and> delivering_inv h" by simp
  moreover have "hub_inv h" by (rule hub_runs.run_keeps [OF step.hyps(1) hub_inv_new])
  ultimately show ?case using hub_exec_once [OF a] step.prems by blast
qed

section \<open>The open streams over the hub\<close>

text \<open>
  One handler per subscriber: its connection and whether it has returned.  The loop takes an
  event from the channel and writes it; the request's end and a closed channel make the handler
  return at any time.  The writes of one event touch nothing but their own connection, so taking
  an event and sending it is one step.  Each connection has its own faults.
\<close>

record 'e log_streams =
  loghub :: "'e hub_sys"
  conns :: "nat \<Rightarrow> wire"
  returned :: "nat \<Rightarrow> bool"

definition newStreams :: "'e log_streams" where
  "newStreams = \<lparr>loghub = newHub, conns = (\<lambda>_. \<lparr>written = [], writes = 0\<rparr>), returned = (\<lambda>_. False)\<rparr>"

datatype 'e stream_action = HubAct "'e action" | Pump nat | Leave nat

definition pump :: "('e \<Rightarrow> string option) \<Rightarrow> (nat \<Rightarrow> nat option) \<Rightarrow> nat \<Rightarrow> 'e log_streams \<Rightarrow> 'e log_streams option" where
  "pump J F k s =
     (if returned s k then None
      else (case hub_exec (Recv k) (loghub s) of
          None \<Rightarrow> None
        | Some h \<Rightarrow>
            (case send_event J F (hd (chan (loghub s) k)) (conns s k) of
               (ok, w) \<Rightarrow> Some \<lparr>loghub = h, conns = (conns s)(k := w), returned = (returned s)(k := \<not> ok)\<rparr>)))"

fun stream_exec ::
  "('e \<Rightarrow> string option) \<Rightarrow> (nat \<Rightarrow> nat \<Rightarrow> nat option) \<Rightarrow> 'e stream_action \<Rightarrow> 'e log_streams \<Rightarrow> 'e log_streams option" where
  "stream_exec J F (HubAct a) s =
     (if \<exists>k. a = Recv k then None
      else map_option (\<lambda>h. s\<lparr>loghub := h\<rparr>) (hub_exec a (loghub s)))"
| "stream_exec J F (Pump k) s = pump J (F k) k s"
| "stream_exec J F (Leave k) s =
     (if subscribers (loghub s) k = SLive \<and> \<not> returned s k then Some (s\<lparr>returned := (returned s)(k := True)\<rparr>)
      else None)"

inductive stream_step ::
  "('e \<Rightarrow> string option) \<Rightarrow> (nat \<Rightarrow> nat \<Rightarrow> nat option) \<Rightarrow> 'e log_streams \<Rightarrow> 'e log_streams \<Rightarrow> bool"
  for J F where
  act: "\<not> panicked (loghub s) \<Longrightarrow> stream_exec J F a s = Some t \<Longrightarrow> stream_step J F s t"

inductive_cases stream_stepE: "stream_step J F s t"

text \<open>Every run of the streams is one of the hub.\<close>

lemma stream_step_hub: "stream_step J F s t \<Longrightarrow> hub_step\<^sup>*\<^sup>* (loghub s) (loghub t)"
proof (erule stream_stepE)
  fix a
  assume run: "\<not> panicked (loghub s)" "stream_exec J F a s = Some t"
  show "hub_step\<^sup>*\<^sup>* (loghub s) (loghub t)"
  proof (cases a)
    case (HubAct b)
    with run(2) have "hub_exec b (loghub s) = Some (loghub t)" by (auto split: if_splits)
    with run(1) show ?thesis by (blast intro: hub_step.act)
  next
    case (Pump k)
    with run(2) have "hub_exec (Recv k) (loghub s) = Some (loghub t)"
      by (auto simp del: hub_exec.simps simp: pump_def split: if_splits option.splits prod.splits)
    with run(1) show ?thesis by (blast intro: hub_step.act)
  next
    case (Leave k)
    with run(2) have "loghub t = loghub s" by (auto split: if_splits)
    then show ?thesis by simp
  qed
qed

lemma stream_run_hub: "(stream_step J F)\<^sup>*\<^sup>* s t \<Longrightarrow> hub_step\<^sup>*\<^sup>* (loghub s) (loghub t)"
  by (induction rule: rtranclp_induct) (auto dest: stream_step_hub)

text \<open>What a connection has taken: whole frames of the events read, and after a return perhaps the start of one more.\<close>

definition conn_inv :: "('e \<Rightarrow> string option) \<Rightarrow> 'e list \<Rightarrow> bool \<Rightarrow> string \<Rightarrow> bool" where
  "conn_inv J es ret out \<longleftrightarrow>
     (\<exists>n p. (\<forall>e \<in> set (take n es). J e \<noteq> None) \<and>
        out = concat (map sse_frame (map (the \<circ> J) (take n es))) @ p \<and> sse_events p = [] \<and>
        (\<not> ret \<longrightarrow> length es \<le> n \<and> p = []))"

definition streams_inv :: "('e \<Rightarrow> string option) \<Rightarrow> 'e log_streams \<Rightarrow> bool" where
  "streams_inv J s \<longleftrightarrow> (\<forall>k. conn_inv J (got (loghub s) k) (returned s k) (written (conns s k)))"

lemma conn_inv_new: "conn_inv J [] False []"
  by (auto simp: conn_inv_def sse_events_def)

lemma conn_inv_returned: "conn_inv J es ret out \<Longrightarrow> conn_inv J es True out"
  by (auto simp: conn_inv_def)

lemma conn_inv_send:
  assumes inv: "conn_inv J es False (written w)" and sent: "send_event J F ev w = (ok, w')"
    and one: "\<And>j. J ev = Some j \<Longrightarrow> one_line j"
  shows "conn_inv J (es @ [ev]) (\<not> ok) (written w')"
proof -
  let ?out = "\<lambda>es. concat (map sse_frame (map (the \<circ> J) es))"
  from inv have ok_es: "\<forall>e \<in> set es. J e \<noteq> None" and out: "written w = ?out es"
    by (auto simp: conn_inv_def)
  have whole: "conn_inv J (es @ [ev]) r (?out (es @ [ev]))" if "J ev \<noteq> None" for r
    unfolding conn_inv_def using ok_es that
    by (intro exI [of _ "Suc (length es)"] exI [of _ "[]"]) (auto simp: sse_events_def)
  show ?thesis
  proof (cases ok)
    case True
    with send_event_ok [of J F ev w w'] sent obtain j where "J ev = Some j" "written w' = written w @ sse_frame j"
      by auto
    with whole [of False] True out show ?thesis by simp
  next
    case False
    with send_event_fails [of J F ev w w'] sent one obtain p where p: "written w' = written w @ p"
      "sse_events p = [] \<or> (\<exists>j. J ev = Some j \<and> p = sse_frame j)" by auto
    from p(2) show ?thesis
    proof
      assume "sse_events p = []"
      then show ?thesis
        unfolding conn_inv_def using ok_es p(1) out False
        by (intro exI [of _ "length es"] exI [of _ p]) simp
    next
      assume "\<exists>j. J ev = Some j \<and> p = sse_frame j"
      with whole [of True] p(1) out False show ?thesis by auto
    qed
  qed
qed

lemma hub_exec_got:
  "hub_exec a h = Some t \<Longrightarrow> \<not> (\<exists>k. a = Recv k) \<Longrightarrow> got t = got h"
  by (cases a) (auto split: if_splits pub_pc.splits sub_pc.splits list.splits prod.splits option.splits
      cancel_pc.splits dest!: chan_access_effect)

lemma recv_got:
  "hub_exec (Recv k) h = Some t \<Longrightarrow> got t = (got h)(k := got h k @ [hd (chan h k)])"
  by (auto split: list.splits if_splits)

lemma stream_step_inv:
  assumes "stream_step J F s t" and one: "\<And>e j. J e = Some j \<Longrightarrow> one_line j" and inv: "streams_inv J s"
  shows "streams_inv J t"
proof -
  from assms(1) obtain a where run: "stream_exec J F a s = Some t" by (auto elim: stream_stepE)
  show ?thesis
  proof (cases a)
    case (HubAct b)
    with run inv hub_exec_got [of b "loghub s"] show ?thesis by (auto simp: streams_inv_def split: if_splits)
  next
    case (Pump k)
    obtain ok w where sent: "send_event J (F k) (hd (chan (loghub s) k)) (conns s k) = (ok, w)"
      by fastforce
    with run Pump obtain h where live: "\<not> returned s k" and h: "hub_exec (Recv k) (loghub s) = Some h"
      and t: "t = \<lparr>loghub = h, conns = (conns s)(k := w), returned = (returned s)(k := \<not> ok)\<rparr>"
      by (auto simp del: hub_exec.simps simp: pump_def split: if_splits option.splits)
    have "conn_inv J (got (loghub s) k) False (written (conns s k))"
      using inv live by (simp add: streams_inv_def) metis
    from conn_inv_send [OF this sent one] inv show ?thesis
      by (simp add: streams_inv_def t recv_got [OF h])
  next
    case (Leave k)
    with run have "t = s\<lparr>returned := (returned s)(k := True)\<rparr>" by (auto split: if_splits)
    with inv show ?thesis by (auto simp: streams_inv_def dest: conn_inv_returned)
  qed
qed

lemma stream_run_inv:
  assumes "(stream_step J F)\<^sup>*\<^sup>* newStreams s" and "\<And>e j. J e = Some j \<Longrightarrow> one_line j"
  shows "streams_inv J s"
  using assms(1)
proof (induction rule: rtranclp_induct)
  case base
  show ?case by (simp add: streams_inv_def newStreams_def newHub_def conn_inv_new)
next
  case (step s t)
  show ?case by (rule stream_step_inv [OF step.hyps(2) _ step.IH]) (rule assms(2))
qed

text \<open>
  C21. In every interleaving of publishers, subscriptions, cancellations and open streams, with
  any write of any connection failing: what the reader of a stream parses out of the bytes its
  connection took is exactly the JSON texts of the first events its handler read from the hub,
  in that order; all of them as long as the handler has not returned.  Where no event is
  published twice, the handler has read different published events, so no event reaches a
  reader twice.
\<close>

theorem log_stream_reader:
  assumes "(stream_step J F)\<^sup>*\<^sup>* newStreams s"
    and "\<And>e j. J e = Some j \<Longrightarrow> one_line j"
    and "distinct (hist (loghub s))"
  shows "distinct (got (loghub s) k) \<and> set (got (loghub s) k) \<subseteq> set (hist (loghub s)) \<and>
    (\<exists>n. map Some (sse_events (written (conns s k))) = map J (take n (got (loghub s) k)) \<and>
      (\<not> returned s k \<longrightarrow> length (got (loghub s) k) \<le> n))"
proof -
  let ?es = "got (loghub s) k"
  have "reading_inv (loghub s)"
    using hub_once [OF _ assms(3)] stream_run_hub [OF assms(1)] by (simp add: newStreams_def)
  then have "distinct (in_hand (loghub s) k) \<and> set (in_hand (loghub s) k) \<subseteq> set (hist (loghub s))"
    by (simp add: reading_inv_def)
  then have read: "distinct ?es" "set ?es \<subseteq> set (hist (loghub s))" by (auto simp: in_hand_def)
  have "streams_inv J s" using stream_run_inv [OF assms(1)] assms(2) by blast
  then obtain n p where known: "\<forall>e \<in> set (take n ?es). J e \<noteq> None" and "sse_events p = []"
    and out: "written (conns s k) = concat (map sse_frame (map (the \<circ> J) (take n ?es))) @ p"
    and all: "\<not> returned s k \<longrightarrow> length ?es \<le> n"
    unfolding streams_inv_def conn_inv_def by blast
  moreover have "one_line j" if "j \<in> set (map (the \<circ> J) (take n ?es))" for j
    using that known assms(2) by fastforce
  ultimately have "sse_events (written (conns s k)) = map (the \<circ> J) (take n ?es)"
    using sse_events_frames by (metis append_Nil2)
  with known have "map Some (sse_events (written (conns s k))) = map J (take n ?es)" by simp
  with all read show ?thesis by blast
qed

text \<open>An event the encoder rejects ends the stream of every subscriber that reads it, whatever the connection.\<close>

lemma unencodable_event_ends_stream:
  "pump J F k s = Some t \<Longrightarrow> J (hd (chan (loghub s) k)) = None \<Longrightarrow> returned t k"
  by (auto simp del: hub_exec.simps simp: pump_def send_event_def
      split: if_splits option.splits prod.splits bool.splits)

text \<open>A run with two events, one replayed and one live, whose second frame's last write fails.\<close>

definition demo_actions :: "nat stream_action list" where
  "demo_actions = [HubAct (PubLock 0 1 []), HubAct (PubStep 0), HubAct (SubLock 0), HubAct (SubStep 0),
     HubAct (SubStep 0), HubAct (PubLock 0 2 [0]), HubAct (PubStep 0), HubAct (PubStep 0), Pump 0, Pump 0]"

fun stream_run ::
  "('e \<Rightarrow> string option) \<Rightarrow> (nat \<Rightarrow> nat \<Rightarrow> nat option) \<Rightarrow> 'e stream_action list \<Rightarrow> 'e log_streams \<Rightarrow> 'e log_streams option" where
  "stream_run J F [] s = Some s"
| "stream_run J F (a # as) s =
     (if panicked (loghub s) then None
      else (case stream_exec J F a s of None \<Rightarrow> None | Some t \<Rightarrow> stream_run J F as t))"

lemma stream_run_steps: "stream_run J F as s = Some t \<Longrightarrow> (stream_step J F)\<^sup>*\<^sup>* s t"
proof (induction as arbitrary: s)
  case (Cons a as)
  then obtain u where "\<not> panicked (loghub s)" "stream_exec J F a s = Some u" "stream_run J F as u = Some t"
    by (auto split: if_splits option.splits)
  then show ?case by (meson Cons.IH converse_rtranclp_into_rtranclp stream_step.act)
qed simp

theorem log_stream_reader_witness:
  "\<exists>s :: nat log_streams. hist (loghub s) = [1, 2] \<and> got (loghub s) 0 = [1, 2] \<and> returned s 0 \<and>
     sse_events (written (conns s 0)) = [''one''] \<and> distinct (got (loghub s) 0)"
proof -
  let ?J = "\<lambda>e :: nat. Some (if e = 1 then ''one'' else ''two'')"
  let ?F = "\<lambda>k i :: nat. if i = 5 then Some (0 :: nat) else None"
  have "\<exists>s. stream_run ?J ?F demo_actions newStreams = Some s \<and> hist (loghub s) = [1, 2] \<and>
      got (loghub s) 0 = [1, 2] \<and> returned s 0 \<and>
      written (conns s 0) = sse_frame ''one'' @ ''data: two'' @ newline"
    by (simp add: demo_actions_def newStreams_def newHub_def newRing_def snapshotLocked_def chan_access_def
        flag_closed_def ring_push_def ringSize_def try_send_def subBuf_def pump_def send_event_def
        conn_write_def sse_frame_def)
  then obtain s where run: "(stream_step ?J ?F)\<^sup>*\<^sup>* newStreams s"
    and s: "hist (loghub s) = [1, 2]" "got (loghub s) 0 = [1, 2]" "returned s 0"
      "written (conns s 0) = sse_frame ''one'' @ ''data: two'' @ newline"
    using stream_run_steps by blast
  have one: "one_line j" if "?J e = Some j" for e j
    using that by (auto simp: one_line_def split: if_splits)
  have "distinct (got (loghub s) 0)"
    using log_stream_reader [OF run one] s(1) by simp
  moreover have "sse_events (written (conns s 0)) = [''one'']"
    unfolding s(4) using sse_events_frame [of "''one''" "''data: two'' @ newline"]
    by (simp add: one_line_def sse_events_def newline_def data_field_def HasPrefix_def)
  ultimately show ?thesis using s(1,2,3) by blast
qed

end
