(* ===== verification/Media.thy ===== *)
theory Media
  imports Scheduler GoText
begin

text \<open>
  The world of a running executor: files, processes, downloads and uploads, over the daemon's
  state; package \<open>internal/upload\<close>; and the methods of the job handle an executor calls
  (\<open>internal/runtime/jobhandle.go\<close>).

  Outside the repository, and parameters here: what a command writes and returns, what an HTTP
  server answers to a GET or to an upload, SHA-256, the file system's failures, and the rounding
  of \<open>float64\<close>.
\<close>

section \<open>Environment and state\<close>

record put_request =
  pt_method :: string
  pt_url :: string
  pt_headers :: "(string \<times> string) list"
  pt_body :: string
  pt_length :: int

record progress_event =
  Fraction :: gofloat
  Stage :: string
  Detail :: string

record tool =
  ToolID :: string
  ToolPath :: string
  ToolVersion :: string

record encoder =
  Codec :: string
  HW :: bool
  EncArgs :: "string list"

text \<open>
  The answer to one GET: no response, a redirect to an absolute URL that the client follows, or
  a response whose body was read so far, with the error that stopped the reading.
\<close>

datatype fetch_reply = FetchErr string | MovedTo string | Fetched int string "string option"

text \<open>
  Faults are per operation: \<open>fs_fault E n\<close> is the error of the \<open>n\<close>th file operation, and when it
  is one of a write, \<open>fs_partial E n\<close> bytes went through.  \<open>run_cmd E n path args fs\<close> is the
  \<open>n\<close>th process: its combined output, its error, and the files after it.  \<open>cancelled E n\<close>: the
  job's context is cancelled once \<open>n\<close> processes were started.  \<open>ch_room E n\<close>: the progress
  channel has room at the \<open>n\<close>th send.  \<open>renumber E x\<close> is the JSON number \<open>encoding/json\<close> writes for the
  \<open>float64\<close> it read from a number of value \<open>x\<close>; \<open>quoted\<close> is \<open>strconv.Quote\<close>.
\<close>

record menv = denv +
  fs_fault :: "nat \<Rightarrow> string option"
  fs_partial :: "nat \<Rightarrow> nat"
  run_cmd :: "nat \<Rightarrow> string \<Rightarrow> string list \<Rightarrow> (string \<Rightarrow> string option) \<Rightarrow>
    string \<times> string option \<times> (string \<Rightarrow> string option)"
  fetch :: "string list \<Rightarrow> fetch_reply"
  blob :: "put_request list \<Rightarrow> http_result"
  sha256_hex :: "string \<Rightarrow> string"
  float64 :: "rat \<Rightarrow> gofloat"
  parse_float :: "string \<Rightarrow> gofloat option"
  renumber :: "rat \<Rightarrow> json"
  quoted :: "string \<Rightarrow> string"
  cancelled :: "nat \<Rightarrow> bool"
  ch_room :: "nat \<Rightarrow> bool"
  look_path :: "nat \<Rightarrow> string option"
  goos :: string

record media = daemon +
  fs_ops :: nat
  procs :: "(string \<times> string list) list"
  puts :: "put_request list"
  gets :: "string list"
  lookups :: nat
  pushed :: "progress_event list"
  pushes :: nat
  tool_cache :: "(string \<times> tool) list"
  enc_once :: "encoder option"

section \<open>Files\<close>

definition no_file :: "string \<Rightarrow> string \<Rightarrow> string" where
  "no_file op p = op @ '' '' @ p @ '': no such file or directory''"

definition fs_tick :: "'m media_scheme \<Rightarrow> 'm media_scheme" where
  "fs_tick w = w\<lparr>fs_ops := Suc (fs_ops w)\<rparr>"

definition os_Create :: "'e menv_scheme \<Rightarrow> string \<Rightarrow> 'm media_scheme \<Rightarrow> gerror option \<times> 'm media_scheme" where
  "os_Create E p w =
     (case fs_fault E (fs_ops w) of
        Some m \<Rightarrow> (Some (Plain m), fs_tick w)
      | None \<Rightarrow> (None, (fs_tick w)\<lparr>files := (files w)(p := Some [])\<rparr>))"

text \<open>
  \<open>io.Copy\<close> into the created file \<open>p\<close>, from a reader that gives \<open>content\<close> and then \<open>rerr\<close> or the end.
\<close>

definition io_Copy ::
  "'e menv_scheme \<Rightarrow> string \<Rightarrow> string \<Rightarrow> string option \<Rightarrow> 'm media_scheme \<Rightarrow> gerror option \<times> 'm media_scheme" where
  "io_Copy E p content rerr w =
     (case fs_fault E (fs_ops w) of
        Some m \<Rightarrow> (Some (Plain m),
          (fs_tick w)\<lparr>files := (files w)(p := Some (take (fs_partial E (fs_ops w)) content))\<rparr>)
      | None \<Rightarrow> (map_option Plain rerr, (fs_tick w)\<lparr>files := (files w)(p := Some content)\<rparr>))"

datatype stat_result = StatErr string | NotExist | StatSize int

definition os_Stat :: "'e menv_scheme \<Rightarrow> string \<Rightarrow> 'm media_scheme \<Rightarrow> stat_result \<times> 'm media_scheme" where
  "os_Stat E p w =
     ((case fs_fault E (fs_ops w) of
         Some m \<Rightarrow> StatErr m
       | None \<Rightarrow> (case files w p of None \<Rightarrow> NotExist | Some c \<Rightarrow> StatSize (int (length c)))), fs_tick w)"

definition stat_error :: "string \<Rightarrow> stat_result \<Rightarrow> gerror option" where
  "stat_error p r =
     (case r of StatErr m \<Rightarrow> Some (Plain m) | NotExist \<Rightarrow> Some (Plain (no_file ''stat'' p)) | StatSize n \<Rightarrow> None)"

definition stat_size :: "stat_result \<Rightarrow> int option" where
  "stat_size r = (case r of StatSize n \<Rightarrow> Some n | _ \<Rightarrow> None)"

text \<open>\<open>os.Open\<close>; the result is the content the open file gives.\<close>

definition os_Open :: "'e menv_scheme \<Rightarrow> string \<Rightarrow> 'm media_scheme \<Rightarrow> (gerror + string) \<times> 'm media_scheme" where
  "os_Open E p w =
     ((case fs_fault E (fs_ops w) of
         Some m \<Rightarrow> Inl (Plain m)
       | None \<Rightarrow> (case files w p of None \<Rightarrow> Inl (Plain (no_file ''open'' p)) | Some c \<Rightarrow> Inr c)), fs_tick w)"

text \<open>Reading or rewinding an open file.\<close>

definition fs_try :: "'e menv_scheme \<Rightarrow> 'm media_scheme \<Rightarrow> gerror option \<times> 'm media_scheme" where
  "fs_try E w = (map_option Plain (fs_fault E (fs_ops w)), fs_tick w)"

definition os_Remove :: "'e menv_scheme \<Rightarrow> string \<Rightarrow> 'm media_scheme \<Rightarrow> 'm media_scheme" where
  "os_Remove E p w =
     (case fs_fault E (fs_ops w) of
        Some m \<Rightarrow> fs_tick w
      | None \<Rightarrow> (fs_tick w)\<lparr>files := (files w)(p := None)\<rparr>)"

section \<open>Processes\<close>

definition run_command ::
  "'e menv_scheme \<Rightarrow> string \<Rightarrow> string list \<Rightarrow> 'm media_scheme \<Rightarrow> (string \<times> gerror option) \<times> 'm media_scheme" where
  "run_command E path args w =
     (case run_cmd E (length (procs w)) path args (files w) of
        (out, err, fs) \<Rightarrow> ((out, map_option Plain err), w\<lparr>procs := procs w @ [(path, args)], files := fs\<rparr>))"

definition ctx_err :: "'e menv_scheme \<Rightarrow> 'm media_scheme \<Rightarrow> gerror option" where
  "ctx_err E w =
     (if ctx_done w \<or> cancelled E (length (procs w)) then Some (Plain ''context canceled'') else None)"

section \<open>Downloads\<close>

text \<open>
  \<open>http.Client.Do\<close> on a GET, with the client's default policy: redirects are followed, and the
  client gives up when ten requests were made.  The first argument is how many more it may make;
  the error texts of net/http are not modelled.
\<close>

fun http_follow ::
  "nat \<Rightarrow> 'e menv_scheme \<Rightarrow> string \<Rightarrow> 'm media_scheme \<Rightarrow> (gerror + int \<times> string \<times> string option) \<times> 'm media_scheme"
where
  "http_follow 0 E u w = (Inl (Plain ''stopped after 10 redirects''), w)"
| "http_follow (Suc n) E u w =
     (let w1 = w\<lparr>gets := gets w @ [u]\<rparr> in
      case fetch E (gets w1) of
        FetchErr m \<Rightarrow> (Inl (Plain m), w1)
      | Fetched st body err \<Rightarrow> (Inr (st, body, err), w1)
      | MovedTo v \<Rightarrow> http_follow n E v w1)"

text \<open>The body both executors give their download; only the text of one error differs.\<close>

definition stream_to_file ::
  "'e menv_scheme \<Rightarrow> string \<Rightarrow> string \<Rightarrow> string \<Rightarrow> 'm media_scheme \<Rightarrow> gerror option \<times> 'm media_scheme" where
  "stream_to_file E newreq u dst w =
     (if \<not> url_ok E u then (Some (errorf newreq bad_url), w)
      else (case http_follow 10 E u w of
          (Inl e, w1) \<Rightarrow> (Some (errorf ''get'' e), w1)
        | (Inr (st, body, err), w1) \<Rightarrow>
            (if st \<ge> 300 then (Some (Plain (''download status '' @ itoa st)), w1)
             else (case os_Create E dst w1 of
                 (Some e, w2) \<Rightarrow> (Some (errorf ''create'' e), w2)
               | (None, w2) \<Rightarrow>
                   (case io_Copy E dst body err w2 of
                      (Some e, w3) \<Rightarrow> (Some (errorf ''copy'' e), w3)
                    | (None, w3) \<Rightarrow> (None, w3))))))"

section \<open>Uploads: package upload\<close>

text \<open>The method names \<open>http.NewRequest\<close> accepts: the token characters of RFC 7230.\<close>

definition token_char :: "char \<Rightarrow> bool" where
  "token_char c \<longleftrightarrow>
     list_ex (\<lambda>(a, z). a \<le> c \<and> c \<le> z) [(CHR ''a'', CHR ''z''), (CHR ''A'', CHR ''Z''), (CHR ''0'', CHR ''9'')] \<or>
     c \<in> set ''!#$%&*+-.^_`|~'' \<or> c = CHR 0x27"

definition valid_method :: "string \<Rightarrow> bool" where
  "valid_method m \<longleftrightarrow> m \<noteq> [] \<and> (\<forall>c \<in> set m. token_char c)"

record upload_result =
  ResBytes :: int
  ResChecksum :: string

text \<open>The last part of \<open>UploadFile\<close>: the request, whose body is the file, and the answer.\<close>

definition send_blob ::
  "'e menv_scheme \<Rightarrow> put_request \<Rightarrow> 'm media_scheme \<Rightarrow> (gerror + upload_result) \<times> 'm media_scheme" where
  "send_blob E rq w =
     (if \<not> valid_method (pt_method rq) \<or> \<not> url_ok E (pt_url rq) then (Inl (errorf ''new upload req'' bad_url), w)
      else
        (let w1 = w\<lparr>puts := puts w @ [rq]\<rparr> in
         case blob E (puts w1) of
           TransportError m \<Rightarrow> (Inl (errorf ''upload do'' (Plain m)), w1)
         | Reply st body err \<Rightarrow>
             (if st \<ge> 300 then (Inl (Plain (''upload status '' @ itoa st @ '': '' @ body)), w1)
              else (Inr \<lparr>ResBytes = pt_length rq, ResChecksum = sha256_hex E (pt_body rq)\<rparr>, w1))))"

definition UploadFile ::
  "'e menv_scheme \<Rightarrow> string \<Rightarrow> string \<Rightarrow> string \<Rightarrow> (string \<times> string) list \<Rightarrow> 'm media_scheme \<Rightarrow>
     (gerror + upload_result) \<times> 'm media_scheme" where
  "UploadFile E filePath presignedURL method headers w =
     (let meth = (if method = [] then ''PUT'' else method) in
      case os_Stat E filePath w of (st, w1) \<Rightarrow>
      (case stat_error filePath st of
         Some e \<Rightarrow> (Inl (errorf (''stat '' @ filePath) e), w1)
       | None \<Rightarrow>
      (case os_Open E filePath w1 of
         (Inl e, w2) \<Rightarrow> (Inl (errorf (''open '' @ filePath) e), w2)
       | (Inr content, w2) \<Rightarrow>
      (case fs_try E w2 of
         (Some e, w3) \<Rightarrow> (Inl (errorf (''hash '' @ filePath) e), w3)
       | (None, w3) \<Rightarrow>
      (case fs_try E w3 of
         (Some e, w4) \<Rightarrow> (Inl (errorf (''rewind '' @ filePath) e), w4)
       | (None, w4) \<Rightarrow>
           send_blob E \<lparr>pt_method = meth, pt_url = presignedURL, pt_headers = headers, pt_body = content,
             pt_length = (case stat_size st of None \<Rightarrow> 0 | Some n \<Rightarrow> n)\<rparr> w4)))))"

section \<open>The job handle\<close>

text \<open>
  \<open>AddOutput\<close>.  The client is \<open>None\<close> when uploading is not configured; the metadata is \<open>None\<close> when
  it holds a number JSON has no text for.
\<close>

definition record_output ::
  "'e menv_scheme \<Rightarrow> cloud_client \<Rightarrow> job_handle \<Rightarrow> output_entry \<Rightarrow> bool \<Rightarrow> 'm media_scheme \<Rightarrow>
     gerror option \<times> 'm media_scheme" where
  "record_output E c h out encodable w =
     (case (if encodable then RecordOutputs E c (wl_ID (jh_wl h)) (jh_leaseToken h) [out] w
            else (Some (errorf ''marshal'' (Plain ''json: unsupported value'')), w)) of
        (Some e, w1) \<Rightarrow> (Some (errorf ''record output'' e), w1)
      | (None, w1) \<Rightarrow> (None, w1))"

definition upload_output ::
  "'e menv_scheme \<Rightarrow> cloud_client \<Rightarrow> job_handle \<Rightarrow> string \<Rightarrow> string \<Rightarrow> string \<Rightarrow> int \<Rightarrow>
     (string \<times> json) list option \<Rightarrow> 'm media_scheme \<Rightarrow> gerror option \<times> 'm media_scheme" where
  "upload_output E c h kind keySuffix tmp sizeBytes meta w =
     (case PresignUpload E c (wl_ID (jh_wl h)) (jh_leaseToken h) kind keySuffix sizeBytes w of
        (Inl e, w1) \<Rightarrow> (Some (errorf ''presign upload'' e), w1)
      | (Inr p, w1) \<Rightarrow>
          (case UploadFile E tmp (PsUploadURL p) (PsMethod p)
                  (case PsHeaders p of None \<Rightarrow> [] | Some hs \<Rightarrow> hs) w1 of
             (Inl e, w2) \<Rightarrow> (Some (errorf ''upload'' e), w2)
           | (Inr res, w2) \<Rightarrow>
               record_output E c h \<lparr>OutKind = kind, OutStorageKey = PsStorageKey p, OutBytes = ResBytes res,
                 OutChecksum = ResChecksum res, OutMetadata = (case meta of None \<Rightarrow> [] | Some m \<Rightarrow> m)\<rparr>
                 (meta \<noteq> None) w2))"

definition AddOutput ::
  "'e menv_scheme \<Rightarrow> cloud_client option \<Rightarrow> job_handle \<Rightarrow> string \<Rightarrow> string \<Rightarrow> string \<Rightarrow> int \<Rightarrow>
     (string \<times> json) list option \<Rightarrow> 'm media_scheme \<Rightarrow> gerror option \<times> 'm media_scheme" where
  "AddOutput E cl h kind keySuffix content sizeBytes meta w =
     (case cl of
        None \<Rightarrow> (Some (Plain ''output upload not configured''), w)
      | Some c \<Rightarrow>
          (let tmp = path_join [jh_workDir h, ''out-'' @ keySuffix] in
           case os_Create E tmp w of
             (Some e, w1) \<Rightarrow> (Some (errorf ''create out tmp'' e), w1)
           | (None, w1) \<Rightarrow>
               (case io_Copy E tmp content None w1 of
                  (Some e, w2) \<Rightarrow> (Some (errorf ''copy out tmp'' e), w2)
                | (None, w2) \<Rightarrow>
                    (case os_Stat E tmp w2 of (st, w3) \<Rightarrow>
                       upload_output E c h kind keySuffix tmp
                         (if sizeBytes \<le> 0 then (case stat_size st of None \<Rightarrow> sizeBytes | Some n \<Rightarrow> n)
                          else sizeBytes) meta w3))))"

text \<open>\<open>None\<close> as attributes: a nil map, or one with a number JSON has no text for.\<close>

definition handle_AppendEvent ::
  "'e menv_scheme \<Rightarrow> job_handle \<Rightarrow> string \<Rightarrow> string \<Rightarrow> json option \<Rightarrow> 'm media_scheme \<Rightarrow>
     (gerror + unit) \<times> 'm media_scheme" where
  "handle_AppendEvent E h kind msg attrs w =
     on_db (AppendEvent E (jh_id h) kind msg (case attrs of None \<Rightarrow> [] | Some j \<Rightarrow> json_text E j)) w"

definition SaveResumableState ::
  "'e menv_scheme \<Rightarrow> job_handle \<Rightarrow> json \<Rightarrow> 'm media_scheme \<Rightarrow> (gerror + unit) \<times> 'm media_scheme" where
  "SaveResumableState E h state w = on_db (UpdateResumableState E (jh_id h) (json_text E state)) w"

text \<open>\<open>LoadResumableState\<close> into a zero value; a text that does not decode leaves it zero.\<close>

definition LoadResumableState ::
  "'e menv_scheme \<Rightarrow> job_handle \<Rightarrow> 'a decoder \<Rightarrow> 'a \<Rightarrow> 'm media_scheme \<Rightarrow> (gerror + 'a) \<times> 'm media_scheme" where
  "LoadResumableState E h dec zero w =
     (case on_db (GetJob E (jh_id h)) w of
        (Inl e, w1) \<Rightarrow> (Inl e, w1)
      | (Inr j, w1) \<Rightarrow>
          ((case resumable_state j of
              None \<Rightarrow> Inr zero
            | Some s \<Rightarrow>
                (if s = [] then Inr zero
                 else (case Option.bind (json_of_text E s) (dec zero) of
                     None \<Rightarrow> Inl (Plain ''json: cannot unmarshal'')
                   | Some v \<Rightarrow> Inr v))), w1))"

text \<open>The non-blocking send on the progress channel.\<close>

definition push_progress :: "'e menv_scheme \<Rightarrow> progress_event \<Rightarrow> 'm media_scheme \<Rightarrow> 'm media_scheme" where
  "push_progress E ev w =
     w\<lparr>pushes := Suc (pushes w),
       pushed := (if ch_room E (pushes w) then pushed w @ [ev] else pushed w)\<rparr>"

section \<open>The progress pump\<close>

text \<open>
  The goroutine that forwards progress: it keeps the last event received, and at each tick of
  its one-second timer sends it on, once.  \<open>None\<close> is the end of the goroutine.
\<close>

datatype pump_event = PumpDone | PumpRecv progress_event | PumpClosed | PumpThrottle

definition forward_progress ::
  "'e menv_scheme \<Rightarrow> cloud_client option \<Rightarrow> job_handle \<Rightarrow> progress_event \<Rightarrow> 'm media_scheme \<Rightarrow> 'm media_scheme" where
  "forward_progress E cl h p w =
     (let frac = (case Fraction p of Fin f \<Rightarrow> Some f | NonFin \<Rightarrow> None);
          w1 = snd (handle_AppendEvent E h ''progress'' (Stage p)
            (map_option (\<lambda>f. JObj [(''detail'', JText (Detail p)), (''fraction'', JReal f)]) frac) w)
      in (case cl of
            None \<Rightarrow> w1
          | Some c \<Rightarrow> snd (Progress E c (wl_ID (jh_wl h)) (jh_leaseToken h) frac (Stage p) (Detail p) w1)))"

definition pumpProgress ::
  "'e menv_scheme \<Rightarrow> cloud_client option \<Rightarrow> job_handle \<Rightarrow> pump_event \<Rightarrow> progress_event option \<Rightarrow>
     'm media_scheme \<Rightarrow> progress_event option option \<times> 'm media_scheme" where
  "pumpProgress E cl h ev newest w =
     (case ev of
        PumpDone \<Rightarrow> (None, w)
      | PumpClosed \<Rightarrow> (None, w)
      | PumpRecv p \<Rightarrow> (Some (Some p), w)
      | PumpThrottle \<Rightarrow>
          (case newest of
             None \<Rightarrow> (Some None, w)
           | Some p \<Rightarrow> (Some None, forward_progress E cl h p w)))"

end
