(* ===== verification/SchedTick.thy ===== *)
theory SchedTick
  imports Scheduler
begin

text \<open>
  What a tick of the scheduler does: the requests it sends, the flags it sets, the slot it takes
  and gives back, and so how many jobs can be in flight.
\<close>

section \<open>What a tick does\<close>

text \<open>
  \<open>v\<close> comes after \<open>w\<close> with at most \<open>n\<close> more requests, of which at most \<open>k\<close> are of the kind \<open>P\<close>.
  The session refreshes are not of that kind.
\<close>

definition sends_within :: "(request \<Rightarrow> bool) \<Rightarrow> nat \<Rightarrow> nat \<Rightarrow> 'w netw_scheme \<Rightarrow> 'w netw_scheme \<Rightarrow> bool" where
  "sends_within P n k w v \<longleftrightarrow>
     (\<exists>pre. sent v = sent w @ pre \<and> length pre \<le> n \<and> length (filter P pre) \<le> k)"

definition no_refresh :: "'e env_scheme \<Rightarrow> (request \<Rightarrow> bool) \<Rightarrow> bool" where
  "no_refresh E P \<longleftrightarrow> (\<forall>base b n. \<not> P (refresh_request E base b n))"

lemma sends_within_refl: "sent v = sent w \<Longrightarrow> sends_within P n k w v"
  by (simp add: sends_within_def)

lemma sends_within_trans:
  "sends_within P n k w v \<Longrightarrow> sends_within P n' k' v u \<Longrightarrow> n + n' \<le> m \<Longrightarrow> k + k' \<le> l \<Longrightarrow>
     sends_within P m l w u"
  unfolding sends_within_def by (elim exE conjE, rule_tac x = "pre @ prea" in exI) auto

lemma sends_within_mono: "sends_within P n k w v \<Longrightarrow> n \<le> m \<Longrightarrow> k \<le> l \<Longrightarrow> sends_within P m l w v"
  unfolding sends_within_def using le_trans by blast

lemma sends_within_same: "sends_within P n k w v \<Longrightarrow> sent v = sent v' \<Longrightarrow> sent w = sent w' \<Longrightarrow> sends_within P n k w' v'"
  by (simp add: sends_within_def)

lemma Refresh_sends:
  fixes b :: session_bundle
  shows "Refresh E base (RefreshToken b) (HwFingerprint b) w = (q, w') \<Longrightarrow> no_refresh E P \<Longrightarrow>
    sends_within P 1 0 w w'"
  by (auto simp: Refresh_eq sends_within_def no_refresh_def split: if_splits)

lemma rotate_session_sends:
  assumes "rotate_session E wrap saving w = (r, w')" and "no_refresh E P"
  shows "sends_within P 1 0 w w'"
proof (cases "pairing (tok w)")
  case None
  with assms show ?thesis by (simp add: rotate_session_def sends_within_refl)
next
  case (Some base)
  obtain q w1 where q: "Refresh E base (RefreshToken (cached (tok w))) (HwFingerprint (cached (tok w))) w = (q, w1)"
    by fastforce
  have "sent w' = sent w1"
    using assms Some q by (auto simp: rotate_session_def Let_def split: sum.splits prod.splits option.splits)
  with Refresh_sends [OF q assms(2)] show ?thesis by (simp add: sends_within_def)
qed

lemma load_cache_sends: "load_cache E what w = (r, w1) \<Longrightarrow> sent w1 = sent w"
  by (cases r) (auto dest: load_cache_InrD load_cache_InlD)

lemma BearerToken_sends:
  assumes "BearerToken E w = (r, w')" and "no_refresh E P"
  shows "sends_within P 1 0 w w'"
proof -
  obtain q w1 where q: "load_cache E ''token source load'' w = (q, w1)" by fastforce
  note s1 = load_cache_sends [OF q]
  obtain t w2 where t: "time_now E w1 = (t, w2)" by fastforce
  then have s2: "sent w2 = sent w" using s1 by (auto simp: time_now_def)
  show ?thesis
  proof (cases "sent w' = sent w")
    case False
    with assms q t s1 s2 obtain wr sv where "rotate_session E wr sv w2 = (r, w')"
      by (auto simp: BearerToken_def split: sum.splits if_splits)
    from rotate_session_sends [OF this assms(2)] s2 show ?thesis by (simp add: sends_within_def)
  qed (rule sends_within_refl)
qed

lemma ForceRefresh_sends:
  assumes "ForceRefresh E w = (r, w')" and "no_refresh E P"
  shows "sends_within P 1 0 w w'"
proof -
  obtain q w1 where q: "load_cache E ''force refresh load'' w = (q, w1)" by fastforce
  note s1 = load_cache_sends [OF q]
  show ?thesis
  proof (cases "sent w' = sent w")
    case False
    with assms q s1 obtain wr sv where "rotate_session E wr sv w1 = (r, w')"
      by (auto simp: ForceRefresh_def split: sum.splits)
    from rotate_session_sends [OF this assms(2)] s1 show ?thesis by (simp add: sends_within_def)
  qed (rule sends_within_refl)
qed

lemma doRaw_sends:
  assumes "doRaw E c meth path body w = (q, w')" and "no_refresh E P"
  shows "sends_within P 2 1 w w'"
proof -
  obtain t v where t: "BearerToken E w = (t, v)" by fastforce
  have "sent w' = sent v \<or> (\<exists>rq. sent w' = sent v @ [rq])"
    using assms t by (auto simp: doRaw_eq split: sum.splits if_splits)
  then have "sends_within P 1 1 v w'" by (auto simp: sends_within_def)
  with BearerToken_sends [OF t assms(2)] show ?thesis by (rule sends_within_trans) simp_all
qed

lemma Claim_sends:
  assumes "Claim E c w = (r, w')" and "no_refresh E P"
  shows "sends_within P 2 1 w w'"
proof -
  obtain q w1 where q: "doRaw E c ''GET'' ''/v1/workloads/claim'' None w = (q, w1)" by fastforce
  have "w' = w1"
    using assms q by (auto simp: Claim_def do_json_def split: sum.splits if_splits)
  with doRaw_sends [OF q assms(2)] show ?thesis by simp
qed

definition is_poll :: "request \<Rightarrow> bool" where
  "is_poll rq \<longleftrightarrow> rq_method rq \<noteq> ''POST''"

lemma no_refresh_poll: "no_refresh E is_poll"
  by (simp add: no_refresh_def is_poll_def refresh_request_def post_request_def)

lemma Claim_success_answer:
  assumes "Claim E c w = (Inr x, w')"
  shows "\<exists>b. server E (sent w') = Reply StatusOK b None"
proof -
  obtain q w1 where q: "doRaw E c ''GET'' ''/v1/workloads/claim'' None w = (q, w1)" by fastforce
  with assms show ?thesis
    by (auto simp: Claim_def do_json_def doRaw_eq split: sum.splits if_splits prod.splits
        dest: cloud_reply_InrD)
qed

lemma claimWithReauth_answer:
  assumes "claimWithReauth E D w = (Inr x, w')"
  shows "\<exists>b. server E (sent w') = Reply StatusOK b None"
proof -
  have "\<exists>v. Claim E (DepCloud D) v = (Inr x, w')"
    using assms by (auto simp: claimWithReauth_def split: if_splits sum.splits prod.splits)
  then show ?thesis using Claim_success_answer by blast
qed

text \<open>
  C33. One round of claiming with its recovery is bounded: at most three polls for work and at
  most seven requests in all, and a claim that is returned is the cloud's answer 200 to the last
  of them.
\<close>

theorem claim_requests_bounded:
  assumes run: "claimWithReauth E D w = (r, w')"
  shows "\<exists>pre. sent w' = sent w @ pre \<and> length pre \<le> 7 \<and>
    length (filter (\<lambda>rq. rq_method rq \<noteq> ''POST'') pre) \<le> 3 \<and>
    (r \<in> range Inr \<longrightarrow> (\<exists>b. server E (sent w') = Reply StatusOK b None))"
proof -
  obtain r1 w1 where c1: "Claim E (DepCloud D) w = (r1, w1)" by fastforce
  obtain r2 w2 where c2: "Claim E (DepCloud D) (Invalidate w1) = (r2, w2)" by fastforce
  obtain r3 w3 where c3: "ForceRefresh E w2 = (r3, w3)" by fastforce
  obtain r4 w4 where c4: "Claim E (DepCloud D) w3 = (r4, w4)" by fastforce
  note np = no_refresh_poll [of E]
  have s1: "sends_within is_poll 2 1 w w1" by (rule Claim_sends [OF c1 np])
  have "sends_within is_poll 2 1 w1 w2"
    using Claim_sends [OF c2 np] by (simp add: sends_within_def Invalidate_def)
  with s1 have s2: "sends_within is_poll 4 2 w w2" by (rule sends_within_trans) simp_all
  then have s3: "sends_within is_poll 5 2 w w3"
    using ForceRefresh_sends [OF c3 np] by (rule sends_within_trans) simp_all
  then have s4: "sends_within is_poll 7 3 w w4"
    using Claim_sends [OF c4 np] by (rule sends_within_trans) simp_all
  have "w' \<in> {w1, w2, w3, w4}"
    using run c1 c2 c3 c4 by (auto simp: claimWithReauth_def split: if_splits sum.splits)
  with s1 s2 s3 s4 have "sends_within is_poll 7 3 w w'" by (auto simp: sends_within_def)
  moreover have "\<exists>b. server E (sent w') = Reply StatusOK b None" if "r \<in> range Inr"
    using that run claimWithReauth_answer by auto
  ultimately show ?thesis by (auto simp: sends_within_def is_poll_def [abs_def])
qed

text \<open>A daemon for the closed examples: signed in, idle, one free slot pool.\<close>

definition sample_daemon :: "token_source \<Rightarrow> kitem \<Rightarrow> store \<Rightarrow> daemon" where
  "sample_daemon t i s = \<lparr>sent = [], clock_reads = 0, uuids = 0,
     ks = \<lparr>backend = FileBackend, item = i, ks_calls = 0\<rparr>, tok = t, db = s,
     pool = NewManager zero_limits, paused_flag = False, reauth_flag = False, ctx_done = False,
     workdirs = {}, files = (\<lambda>_. None), probe_reads = 0\<rparr>"

definition signed_in :: token_source where
  "signed_in = \<lparr>cached = fresh_bundle, cachedKnown = True, pairing = Some ''http://c''\<rparr>"

definition sample_deps :: "daemon registry \<Rightarrow> daemon sched_deps" where
  "sample_deps r = \<lparr>DepRegistry = r, DepCloud = New ''http://c'' ''fp'', DepBaseTmp = ''/tmp/engine'', HasAuth = True\<rparr>"

definition calm_denv :: "(request list \<Rightarrow> http_result) \<Rightarrow> (string \<Rightarrow> json option) \<Rightarrow> denv" where
  "calm_denv srv js = env.extend (calm_env srv js)
     \<lparr>json_text = (\<lambda>_. ''{}''), probe_at = (\<lambda>_. no_probes), mkdir_fault = (\<lambda>_. None), rm_fails = (\<lambda>_. False)\<rparr>"

lemma calm_denv_simps [simp]:
  "server (calm_denv srv js) = srv" "json_of_text (calm_denv srv js) = js"
  "clock (calm_denv srv js) n = zero_time" "url_ok (calm_denv srv js) u"
  "ks_fault (calm_denv srv js) k = None" "db_fault (calm_denv srv js) k = None"
  "db_scan_time (calm_denv srv js) t = Some t" "probe_at (calm_denv srv js) k = no_probes"
  "mkdir_fault (calm_denv srv js) d = None" "rm_fails (calm_denv srv js) d = False"
  by (simp_all add: calm_denv_def calm_env_def env.defs)

lemma sample_daemon_simps [simp]:
  "sent (sample_daemon t i s) = []" "tok (sample_daemon t i s) = t" "db (sample_daemon t i s) = s"
  "item (ks (sample_daemon t i s)) = i" "backend (ks (sample_daemon t i s)) = FileBackend"
  "pool (sample_daemon t i s) = NewManager zero_limits" "\<not> paused_flag (sample_daemon t i s)"
  "\<not> reauth_flag (sample_daemon t i s)" "\<not> ctx_done (sample_daemon t i s)"
  "workdirs (sample_daemon t i s) = {}" "files (sample_daemon t i s) = (\<lambda>_. None)"
  by (simp_all add: sample_daemon_def)

lemma signed_in_simps [simp]:
  "cached signed_in = fresh_bundle" "cachedKnown signed_in" "pairing signed_in = Some ''http://c''"
  by (simp_all add: signed_in_def)

theorem claim_requests_bounded_witness:
  "\<exists>pre w'. claimWithReauth (calm_denv (\<lambda>_. Reply 204 [] None) (\<lambda>_. None)) (sample_deps [])
      (sample_daemon signed_in NoItem empty_store) = (Inl (Sentinel ErrNoWork), w') \<and>
    sent w' = pre \<and> length pre \<le> 7"
proof -
  let ?E = "calm_denv (\<lambda>_. Reply 204 [] None) (\<lambda>_. None)" and ?w = "sample_daemon signed_in NoItem empty_store"
  obtain r w' where run: "claimWithReauth ?E (sample_deps []) ?w = (r, w')" by fastforce
  have "r = Inl (Sentinel ErrNoWork)"
    using run by (auto simp: claimWithReauth_def Claim_def do_json_def fresh_doRaw Let_def cloud_reply_def
        http_status_defs result_is_def)
  with run claim_requests_bounded [OF run] show ?thesis by (intro exI [of _ "sent w'"] exI [of _ w']) simp
qed

text \<open>
  C11. A tick never leaks a slot: when it starts no job, the slots out are those of before; when
  it starts one, exactly its slot is out in addition, and the job runs on the executor
  registered for the workload's type, which accepted the workload.
\<close>

theorem tick_slot_balance:
  assumes run: "sched_tick E D w = (f, w')"
  shows "case f of
      None \<Rightarrow> held (pool w') = held (pool w)
    | Some x \<Rightarrow> fl_slot x \<notin> held (pool w) \<and> held (pool w') = insert (fl_slot x) (held (pool w)) \<and>
        Lookup (DepRegistry D) (wl_Type (fl_wl x)) = Some (fl_exec x) \<and> ex_CanRun (fl_exec x) (fl_wl x)"
proof -
  have accepted: "Lookup (DepRegistry D) (wl_Type (fl_wl x)) = Some (fl_exec x) \<and>
      ex_CanRun (fl_exec x) (fl_wl x)" if "f = Some x" for x
    using run that by (auto simp: sched_tick_def dispatch_cases
        split: sum.splits if_splits option.splits prod.splits)
  obtain r m where res: "Reserve (probe_at E (probe_reads w)) (pool w) = (r, m)" by fastforce
  note tickp = sched_tick_pool [OF run, unfolded res, simplified]
  show ?thesis
  proof (cases r)
    case (Inl e)
    with tickp show ?thesis by simp
  next
    case (Inr i)
    note granted = pool.reserve_grants [OF res [unfolded Inr]]
    show ?thesis
    proof (cases f)
      case None
      with tickp Inr pool.reserve_release [OF res [unfolded Inr]] show ?thesis by simp
    next
      case (Some x)
      with tickp Inr granted accepted show ?thesis by auto
    qed
  qed
qed

text \<open>An executor that finishes without touching anything.\<close>

definition idle_executor :: "string \<Rightarrow> daemon executor" where
  "idle_executor name = \<lparr>ex_ID = name, ex_CanRun = (\<lambda>wl. wl_Version wl = 1),
     ex_Estimate = (\<lambda>_. \<lparr>CPUCores = 1, RAMBytes = 0, DiskBytes = 0, GPU = False, Duration = 120 * second\<rparr>),
     ex_Execute = (\<lambda>h w. (None, w))\<rparr>"

lemma idle_limits [simp]: "\<not> reserve_refused (NewManager zero_limits) no_probes"
  by (simp add: reserve_refused_def NewManager_def zero_limits_def no_probes_def Active_def default_defs)

theorem tick_slot_balance_witness:
  "\<exists>f w'. sched_tick (calm_denv (\<lambda>_. Reply 204 [] None) (\<lambda>_. None)) (sample_deps [])
      (sample_daemon signed_in NoItem empty_store) = (f, w') \<and>
    (f = None \<longrightarrow> held (pool w') = held (NewManager zero_limits))"
proof -
  let ?E = "calm_denv (\<lambda>_. Reply 204 [] None) (\<lambda>_. None)" and ?w = "sample_daemon signed_in NoItem empty_store"
  obtain f w' where run: "sched_tick ?E (sample_deps []) ?w = (f, w')" by fastforce
  with tick_slot_balance [OF run] show ?thesis by auto
qed

section \<open>A revoked device\<close>

lemma BearerToken_fresh:
  assumes "load_cache E ''token source load'' w = (Inr (), v)"
    and "time_until (clock E (clock_reads v)) (SessionExpiresAt (cached (tok v))) > refreshGracePeriod"
  shows "BearerToken E w = (Inr (SessionJWT (cached (tok v))), v\<lparr>clock_reads := Suc (clock_reads v)\<rparr>)"
  using assms by (simp add: BearerToken_def time_now_def)

lemma load_cache_known: "cachedKnown (tok w) \<Longrightarrow> load_cache E what w = (Inr (), w)"
  by (simp add: load_cache_def)

lemma load_cache_invalidated:
  assumes "fst (ks_Load E (ks w)) = Inr b"
  shows "\<exists>v. load_cache E what (Invalidate w) = (Inr (), v) \<and> cached (tok v) = b \<and>
    cachedKnown (tok v) \<and> pairing (tok v) = pairing (tok w)"
  using assms by (cases "ks_Load E (ks w)") (auto simp: load_cache_def Invalidate_def)

text \<open>The cloud answers 401 to every request.\<close>

definition rejects_all :: "'e env_scheme \<Rightarrow> bool" where
  "rejects_all E \<longleftrightarrow> (\<forall>h. \<exists>b. server E h = Reply StatusUnauthorized b None)"

lemma rejects_allD: "rejects_all E \<Longrightarrow> \<exists>b. server E h = Reply StatusUnauthorized b None"
  by (simp add: rejects_all_def)

lemma rejected_reply:
  "rejects_all E \<Longrightarrow> \<exists>e. pairing_reply E what (server E h) = Inl e \<and> errors_is e AuthErrUnauthorized"
  using rejects_allD [of E h] by (auto simp: pairing_reply_def)

lemma rejected_rotation:
  assumes "rejects_all E" "\<And>u. url_ok E u" "pairing (tok w) = Some base"
    and "\<And>e x. errors_is (wrap e) x = errors_is e x"
  shows "\<exists>e. rotate_session E wrap saving w =
      (Inl e, after_call (refresh_request E base (cached (tok w)) (uuids w)) w) \<and> errors_is e AuthErrUnauthorized"
proof -
  obtain e where e: "pairing_reply E ''refresh'' (server E (sent w @ [refresh_request E base (cached (tok w)) (uuids w)])) = Inl e"
    "errors_is e AuthErrUnauthorized"
    using rejected_reply [OF assms(1)] by blast
  with assms show ?thesis by (simp add: rotate_session_def Refresh_eq)
qed

lemma rejected_claim_fresh:
  assumes "rejects_all E" "\<And>u. url_ok E u" "load_cache E ''token source load'' w = (Inr (), v)"
    and "time_until (clock E (clock_reads v)) (SessionExpiresAt (cached (tok v))) > refreshGracePeriod"
  shows "\<exists>w'. Claim E c w = (Inl (Sentinel SyncErrUnauthorized), w') \<and> tok w' = tok v \<and> ks w' = ks v"
proof -
  let ?v = "v\<lparr>clock_reads := Suc (clock_reads v)\<rparr>"
  let ?rq = "next_request E c ''GET'' ''/v1/workloads/claim'' None ?v (SessionJWT (cached (tok v)))"
  obtain b where b: "server E (sent v @ [?rq]) = Reply StatusUnauthorized b None"
    using rejects_allD [OF assms(1)] by blast
  have "doRaw E c ''GET'' ''/v1/workloads/claim'' None w = (Inr (b, StatusUnauthorized), after_send False ?rq ?v)"
    using BearerToken_fresh [OF assms(3,4)] assms(2) b
    by (simp add: doRaw_eq cloud_reply_def changing_method_def)
  then show ?thesis by (simp add: Claim_def do_json_def http_status_defs)
qed

lemma expired_claim:
  assumes "rejects_all E" "\<And>u. url_ok E u" "cachedKnown (tok w)" "pairing (tok w) = Some base"
    and "\<not> time_until (clock E (clock_reads w)) (SessionExpiresAt (cached (tok w))) > refreshGracePeriod"
  shows "\<exists>e w'. Claim E c w = (Inl e, w') \<and> errors_is e AuthErrUnauthorized \<and> sent w' = sent w @
      [refresh_request E base (cached (tok w)) (uuids w)]"
proof -
  let ?v = "w\<lparr>clock_reads := Suc (clock_reads w)\<rparr>"
  obtain e where "rotate_session E (errorf ''refresh session'') ''token source save rotated'' ?v =
      (Inl e, after_call (refresh_request E base (cached (tok ?v)) (uuids ?v)) ?v)"
    and e: "errors_is e AuthErrUnauthorized"
    using rejected_rotation [OF assms(1,2), of ?v base "errorf ''refresh session''"] assms(4) by auto
  with assms(3,5) have "BearerToken E w = (Inl e, after_call (refresh_request E base (cached (tok w)) (uuids w)) ?v)"
    by (simp add: BearerToken_def load_cache_def time_now_def)
  with e show ?thesis by (simp add: Claim_def do_json_def doRaw_eq)
qed

lemma revoked_unexpired:
  assumes rej: "rejects_all E" and url: "\<And>u. url_ok E u" and auth: "HasAuth D"
    and known: "cachedKnown (tok w)" and base: "pairing (tok w) = Some base"
    and disk: "fst (ks_Load E (ks w)) = Inr (cached (tok w))"
    and valid: "\<And>n. time_until (clock E n) (SessionExpiresAt (cached (tok w))) > refreshGracePeriod"
  shows "\<exists>w'. claimWithReauth E D w = (Inl (Sentinel SyncErrUnauthorized), w')"
proof -
  obtain w1 where c1: "Claim E (DepCloud D) w = (Inl (Sentinel SyncErrUnauthorized), w1)"
    and w1: "tok w1 = tok w" "ks w1 = ks w"
    using rejected_claim_fresh [OF rej url load_cache_known [OF known] valid] by blast
  obtain v where v: "load_cache E ''token source load'' (Invalidate w1) = (Inr (), v)"
    "cached (tok v) = cached (tok w)" "cachedKnown (tok v)" "pairing (tok v) = Some base"
    using load_cache_invalidated [of E w1] disk w1 base by fastforce
  obtain w2 where c2: "Claim E (DepCloud D) (Invalidate w1) = (Inl (Sentinel SyncErrUnauthorized), w2)"
    and w2: "tok w2 = tok v"
    using rejected_claim_fresh [OF rej url v(1), of "DepCloud D"] valid v(2) by auto
  obtain e where "rotate_session E (\<lambda>e. e) ''force refresh save'' w2 =
      (Inl e, after_call (refresh_request E base (cached (tok w2)) (uuids w2)) w2)"
    and e: "errors_is e AuthErrUnauthorized"
    using rejected_rotation [OF rej url, of w2 base "\<lambda>e. e"] v w2 by auto
  then have "ForceRefresh E w2 = (Inl e, after_call (refresh_request E base (cached (tok w2)) (uuids w2)) w2)"
    using v w2 by (simp add: ForceRefresh_def load_cache_known)
  with c1 c2 e auth show ?thesis by (simp add: claimWithReauth_def result_is_def)
qed


definition revoked_env :: denv where
  "revoked_env = calm_denv (\<lambda>_. Reply 401 ''revoked'' None)
     (\<lambda>_. None)"

definition fresh_item :: kitem where
  "fresh_item = Stored (JObj
     [(''device_id'', JText []), (''organization_id'', JText []), (''user_id'', JText []),
      (''session_jwt'', JText ''jwt''), (''session_expires_at'', JText ''F''), (''refresh_token'', JText ''r1''),
      (''refresh_expires_at'', JText ''Z''), (''hw_fingerprint'', JText ''fp'')])"

lemma fresh_item_loads: "fst (ks_Load (calm_denv srv js) (ks (sample_daemon t fresh_item s))) = Inr fresh_bundle"
proof -
  have "time_of_text (calm_denv srv js) ''F'' = Some far_time" "time_of_text (calm_denv srv js) ''Z'' = Some zero_time"
    by (simp_all add: calm_denv_def env.defs calm_env_def)
  then show ?thesis
    by (simp add: ks_Load_def sample_daemon_def unmarshal_session_def fresh_item_def bundle_of_json_def
        bundle_fields_def dec_defs fresh_bundle_def sample_bundle_def zero_bundle_def)
qed


section \<open>Jobs in flight\<close>

definition keeps_pool :: "('d daemon_scheme) executor \<Rightarrow> bool" where
  "keeps_pool ex \<longleftrightarrow> (\<forall>h w. pool (snd (ex_Execute ex h w)) = pool w)"

lemma surrender_store_error_pool [simp]: "pool (snd (surrender_store_error E D wl lease w)) = pool w"
  by (simp add: surrender_store_error_def)

lemma take_over_pool [simp]: "pool (snd (take_over E D wl lease j w)) = pool w"
proof -
  obtain r w1 where 1: "on_db (UpdateLease E j (LeaseTok lease) (LeaseExpires lease)) w = (r, w1)" by fastforce
  obtain q w2 where 2: "on_db (AttemptCount E j) w1 = (q, w2)" by fastforce
  have "pool w1 = pool w" "pool w2 = pool w1"
    using on_db_parts(1) [of "UpdateLease E j (LeaseTok lease) (LeaseExpires lease)" w]
      on_db_parts(1) [of "AttemptCount E j" w1] 1 2 by simp_all
  with 1 2 show ?thesis by (cases r) (simp_all add: take_over_def)
qed

lemma new_uuid_pool [simp]: "pool (snd (new_uuid E w)) = pool w"
  by (simp add: new_uuid_def)

lemma upsert_pool [simp]: "pool (snd (upsertJobForWorkload E D wl lease w)) = pool w"
proof -
  obtain r w1 where 1: "on_db (GetByWorkloadID E (wl_ID wl)) w = (r, w1)" by fastforce
  obtain j w2 where 2: "new_uuid E w1 = (j, w2)" by fastforce
  obtain q w3 where 3: "on_db (CreateJob E (new_job_input E j wl lease)) w2 = (q, w3)" by fastforce
  have "pool w1 = pool w" "pool w2 = pool w1" "pool w3 = pool w2"
    using on_db_parts(1) [of "GetByWorkloadID E (wl_ID wl)" w] new_uuid_pool [of E w1]
      on_db_parts(1) [of "CreateJob E (new_job_input E j wl lease)" w2] 1 2 3 by simp_all
  with 1 2 3 show ?thesis
    by (cases r; cases q) (simp_all add: upsertJobForWorkload_def Let_def)
qed

lemma conclude_pool [simp]: "pool (conclude E j a st out m w) = pool w"
  by (simp add: conclude_def)

lemma finish_run_pool [simp]: "pool (finish_run E D ex wl lease j a res w) = pool w"
  by (simp add: finish_run_def split: option.split)

lemma Cleanup_pool [simp]: "pool (Cleanup E h w) = pool w"
  by (simp add: Cleanup_def)

lemma NewJobHandle_pool [simp]: "pool (snd (NewJobHandle E D j wl lease w)) = pool w"
  by (simp add: NewJobHandle_def Let_def split: option.split)

lemma run_job_eq:
  "run_job E D ex wl lease j a w =
     (case fst (NewJobHandle E D j wl lease w) of
        Inl e \<Rightarrow> conclude E j a StatusFailed ''failed'' (err_text e)
            (snd (Fail E (DepCloud D) (wl_ID wl) (LeaseTok lease) (''job handle: '' @ err_text e) False
              (snd (NewJobHandle E D j wl lease w))))
      | Inr h \<Rightarrow> Cleanup E h (finish_run E D ex wl lease j a
            (fst (ex_Execute ex h (snd (NewJobHandle E D j wl lease w))))
            (snd (ex_Execute ex h (snd (NewJobHandle E D j wl lease w))))))"
  by (simp add: run_job_def split_beta split: sum.split)

lemma run_job_pool: "keeps_pool ex \<Longrightarrow> pool (run_job E D ex wl lease j a w) = pool w"
  by (simp add: run_job_eq keeps_pool_def split: sum.split)

lemma runOne_pool:
  assumes "keeps_pool ex"
  shows "pool (runOne E D ex wl lease w) = pool w"
proof -
  obtain r w1 where 1: "upsertJobForWorkload E D wl lease w = (r, w1)" by fastforce
  have "pool w1 = pool w" using upsert_pool [of E D wl lease w] 1 by simp
  with assms 1 show ?thesis
    by (auto simp: runOne_def Let_def split_beta run_job_pool split: option.splits)
qed

text \<open>The slots out are those of the jobs in flight, each once.\<close>

definition sched_ok :: "('d daemon_scheme) sched_deps \<Rightarrow> limits \<Rightarrow> 'd sched \<Rightarrow> bool" where
  "sched_ok D l s \<longleftrightarrow> pool_inv \<lparr>pm = pool (sw s), passed = []\<rparr> \<and> mlimits (pool (sw s)) = l \<and>
     distinct (map fl_slot (flying s)) \<and> set (map fl_slot (flying s)) = held (pool (sw s)) \<and>
     (\<forall>x \<in> set (flying s). keeps_pool (fl_exec x))"

lemma pool_inv_reserve:
  assumes "Reserve p m = (Inr i, m')" and "pool_inv \<lparr>pm = m, passed = []\<rparr>"
  shows "pool_inv \<lparr>pm = m', passed = []\<rparr>"
proof -
  have ok: "\<not> reserve_refused m p" and m': "m' = take_slot m"
    using assms(1) by (auto simp: Reserve_def split: if_splits)
  let ?s = "\<lparr>pm = m, passed = []\<rparr>"
  have "pool_step 1 ?s (?s\<lparr>passed := [0]\<rparr>)" using pool_step.check [of 0 1 ?s p] ok by simp
  moreover have "pool_step 1 (?s\<lparr>passed := [0]\<rparr>) \<lparr>pm = m', passed = []\<rparr>"
    using pool_step.add [of 0 "?s\<lparr>passed := [0]\<rparr>" 1] m' by simp
  ultimately have "(pool_step 1)\<^sup>*\<^sup>* ?s \<lparr>pm = m', passed = []\<rparr>" by simp
  from single_reserver.run_keeps [OF this assms(2)] show ?thesis .
qed

lemma pool_inv_return: "pool_inv \<lparr>pm = m, passed = []\<rparr> \<Longrightarrow> pool_inv \<lparr>pm = Release i m, passed = []\<rparr>"
  using pool_inv_release [of "\<lparr>pm = m, passed = []\<rparr>" i] by simp

lemma Reserve_limits: "Reserve p m = (r, m') \<Longrightarrow> mlimits m' = mlimits m"
  by (auto simp: Reserve_def take_slot_def split: if_splits)

lemma poll_ok:
  assumes "sched_ok D l s" and run: "sched_tick E D (sw s) = (f, w)"
    and reg: "\<And>t ex. Lookup (DepRegistry D) t = Some ex \<Longrightarrow> keeps_pool ex"
  shows "sched_ok D l (s\<lparr>sw := w, flying := flying s @ (case f of None \<Rightarrow> [] | Some x \<Rightarrow> [x])\<rparr>)"
proof -
  obtain r m where res: "Reserve (probe_at E (probe_reads (sw s))) (pool (sw s)) = (r, m)" by fastforce
  note lim = Reserve_limits [OF res]
  have exec: "keeps_pool (fl_exec x)" if "f = Some x" for x
    using run that reg by (auto simp: sched_tick_def dispatch_cases
        split: sum.splits if_splits option.splits prod.splits)
  show ?thesis
  proof (cases r)
    case (Inl e)
    with sched_tick_pool [OF run] res have "f = None" "pool w = pool (sw s)" by simp_all
    with assms(1) show ?thesis by (simp add: sched_ok_def)
  next
    case (Inr i)
    note res = res [unfolded Inr]
    have inv: "pool_inv \<lparr>pm = m, passed = []\<rparr>"
      using assms(1) by (intro pool_inv_reserve [OF res]) (simp add: sched_ok_def)
    show ?thesis
    proof (cases f)
      case None
      with sched_tick_pool [OF run] res have w: "pool w = Release (Some i) m" by simp
      with None assms(1) inv lim pool.reserve_release [OF res] show ?thesis
        by (simp add: sched_ok_def pool_inv_return)
    next
      case (Some x)
      with sched_tick_pool [OF run] res have w: "pool w = m" "fl_slot x = i" by simp_all
      with Some assms(1) inv lim pool.reserve_grants [OF res] exec show ?thesis
        by (auto simp: sched_ok_def)
    qed
  qed
qed

lemma land_ok:
  assumes ok: "sched_ok D l s" and i: "i < length (flying s)"
  shows "sched_ok D l (s\<lparr>sw := land E D (flying s ! i) (sw s),
    flying := take i (flying s) @ drop (Suc i) (flying s)\<rparr>)"
proof -
  let ?x = "flying s ! i"
  have split: "flying s = take i (flying s) @ ?x # drop (Suc i) (flying s)"
    using i by (rule id_take_nth_drop)
  have "distinct (map fl_slot (take i (flying s) @ ?x # drop (Suc i) (flying s)))"
    and "set (map fl_slot (take i (flying s) @ ?x # drop (Suc i) (flying s))) = held (pool (sw s))"
    using ok split by (simp_all add: sched_ok_def)
  then have "distinct (map fl_slot (take i (flying s) @ drop (Suc i) (flying s)))"
    and "set (map fl_slot (take i (flying s) @ drop (Suc i) (flying s))) = held (pool (sw s)) - {fl_slot ?x}"
    by auto
  moreover have "keeps_pool (fl_exec ?x)" using ok i by (simp add: sched_ok_def)
  then have "pool (land E D ?x (sw s)) = Release (Some (fl_slot ?x)) (pool (sw s))"
    by (simp add: land_def runOne_pool)
  moreover have "\<forall>y \<in> set (take i (flying s) @ drop (Suc i) (flying s)). keeps_pool (fl_exec y)"
    using ok set_take_subset [of i "flying s"] set_drop_subset [of "Suc i" "flying s"]
    by (auto simp: sched_ok_def)
  ultimately show ?thesis
    using ok by (simp add: sched_ok_def pool_inv_return pool.release_returns)
qed

lemma sched_step_ok:
  assumes "sched_step E D s t" and "sched_ok D l s"
    and "\<And>t ex. Lookup (DepRegistry D) t = Some ex \<Longrightarrow> keeps_pool ex"
  shows "sched_ok D l t"
  using assms
  by (cases rule: sched_step.cases)
    (simp_all add: poll_ok land_ok, simp_all add: sched_ok_def Pause_def Resume_def)

lemma card_held: "card (held m) = unreleased m"
  by (simp add: held_def unreleased_def length_filter_conv_card)

lemma fail_each_pool [simp]: "pool (fail_each E js w) = pool w"
  by (induction js arbitrary: w) simp_all

lemma recoverPending_pool [simp]: "pool (recoverPending E w) = pool w"
proof -
  obtain r w1 where 1: "on_db (PendingRecovery E) w = (r, w1)" by fastforce
  with on_db_parts(1) [of "PendingRecovery E" w] show ?thesis
    by (cases r) (simp_all add: recoverPending_def)
qed

lemma sched_run_ok:
  assumes boot: "pool w = NewManager l" and small: "MaxConcurrentJobs l < 2 ^ 31"
    and reg: "\<And>t ex. Lookup (DepRegistry D) t = Some ex \<Longrightarrow> keeps_pool ex"
    and run: "(sched_step E D)\<^sup>*\<^sup>* (start_sched E w) s"
  shows "sched_ok D (mlimits (NewManager l)) s"
proof -
  have "sched_ok D (mlimits (NewManager l)) (start_sched E w)"
    using start_run_inv [OF small] boot
    by (simp add: sched_ok_def start_sched_def start_run_def) (simp add: held_def NewManager_def)
  with run show ?thesis
    by (induction rule: rtranclp_induct) (auto intro: sched_step_ok [OF _ _ reg])
qed

lemma flights_counted:
  assumes ok: "sched_ok D l s"
  shows "int (length (flying s)) = Active (pool (sw s)) \<and> int (length (flying s)) \<le> MaxConcurrentJobs l"
proof -
  have "length (flying s) = card (held (pool (sw s)))"
    using ok by (metis distinct_card length_map sched_ok_def)
  with ok show ?thesis by (auto simp: sched_ok_def pool_inv_def card_held)
qed

text \<open>
  From boot on, with any executors that leave the pool alone and in any order of ticks, job
  ends, pauses and everything else, the number of jobs in flight is what the pool's counter
  says, and never exceeds \<open>MaxConcurrentJobs\<close>.
\<close>

theorem jobs_in_flight_bounded:
  assumes boot: "pool w = NewManager l" and small: "MaxConcurrentJobs l < 2 ^ 31"
    and reg: "\<And>t ex. Lookup (DepRegistry D) t = Some ex \<Longrightarrow> keeps_pool ex"
    and run: "(sched_step E D)\<^sup>*\<^sup>* (start_sched E w) s"
  shows "int (length (flying s)) = Active (pool (sw s)) \<and>
    int (length (flying s)) \<le> MaxConcurrentJobs (mlimits (NewManager l))"
  by (rule flights_counted) (rule sched_run_ok [OF boot small reg run])

text \<open>A cloud with one workload to give, and the tick that takes it.\<close>

definition claim_json :: json where
  "claim_json = JObj [(''data'', JObj
     [(''workload'', JObj [(''id'', JText ''wl''), (''organization_id'', JText ''org''),
        (''workload_type'', JText ''video:clip''), (''workload_version'', JInt 1), (''payload'', JObj [])]),
      (''lease'', JObj [(''token'', JText ''lt''), (''expires_at'', JText ''F''), (''ttl_sec'', JInt 60),
        (''heartbeat_interval_sec'', JInt 25)])])]"

definition working_env :: denv where
  "working_env = calm_denv (\<lambda>_. Reply 200 ''c'' None) (\<lambda>_. Some claim_json)"

definition sample_workload :: workload where
  "sample_workload = \<lparr>wl_ID = ''wl'', wl_OrganizationID = ''org'', wl_Type = ''video:clip'', wl_Version = 1,
     wl_Payload = Some [], wl_RequiredCaps = None\<rparr>"

definition sample_lease :: lease_dto where
  "sample_lease = \<lparr>LeaseTok = ''lt'', LeaseExpires = far_time, TTLSec = 60, HeartbeatIntervalSec = 25\<rparr>"

lemma working_env_simps [simp]:
  "server working_env h = Reply 200 ''c'' None" "clock working_env n = zero_time" "url_ok working_env u"
  "probe_at working_env k = no_probes" "db_fault working_env k = None" "db_scan_time working_env t = Some t"
  "mkdir_fault working_env d = None" "rm_fails working_env d = False"
  by (simp_all add: working_env_def)

lemma working_decode:
  "unmarshal_data working_env (dec_claim working_env) zero_claim b =
     Inr \<lparr>ClaimWorkload = \<lparr>DtoID = ''wl'', DtoOrganizationID = ''org'', DtoType = ''video:clip'', DtoVersion = 1,
       DtoPayload = Some [], DtoRequiredCapabilities = None, DtoRequiredExecutor = []\<rparr>, ClaimLease = sample_lease\<rparr>"
proof -
  have "time_of_text working_env ''F'' = Some far_time"
    by (simp add: working_env_def calm_denv_def env.defs calm_env_def)
  moreover have "json_of_text working_env b = Some claim_json" by (simp add: working_env_def)
  ultimately show ?thesis
    by (simp add: unmarshal_data_def claim_json_def dec_claim_def dec_workload_def dec_lease_def dec_defs
        zero_claim_defs sample_lease_def)
qed

definition sample_registry :: "daemon registry" where
  "sample_registry = [(''video:clip'', idle_executor ''video:clip'')]"

lemma working_tick:
  "\<exists>w'. sched_tick working_env (sample_deps sample_registry) (sample_daemon signed_in NoItem s) =
     (Some \<lparr>fl_exec = idle_executor ''video:clip'', fl_wl = sample_workload, fl_lease = sample_lease, fl_slot = 0\<rparr>, w')"
proof -
  have "Reserve no_probes (NewManager zero_limits) = (Inr 0, take_slot (NewManager zero_limits))"
    by (simp add: Reserve_def) (simp add: NewManager_def)
  then show ?thesis
    by (simp add: sched_tick_def claimWithReauth_def Claim_def do_json_def fresh_doRaw Let_def cloud_reply_def
        http_status_defs working_decode result_is_def dispatch_cases sample_deps_def workload_of_def
        sample_registry_def Lookup_def)
      (simp add: idle_executor_def sample_workload_def)
qed

theorem jobs_in_flight_bounded_witness:
  "\<exists>s. (sched_step working_env (sample_deps sample_registry))\<^sup>*\<^sup>*
      (start_sched working_env (sample_daemon signed_in NoItem empty_store)) s \<and>
    length (flying s) = 1 \<and> Active (pool (sw s)) = 1"
proof -
  let ?w = "sample_daemon signed_in NoItem empty_store" and ?E = working_env
  let ?D = "sample_deps sample_registry"
  have boot: "pool ?w = NewManager zero_limits" by simp
  have small: "MaxConcurrentJobs zero_limits < 2 ^ 31" by (simp add: zero_limits_def)
  have reg: "keeps_pool ex" if "Lookup (DepRegistry ?D) t = Some ex" for t ex
    using that by (auto simp: sample_deps_def sample_registry_def Lookup_def keeps_pool_def idle_executor_def
        split: if_splits)
  let ?s0 = "start_sched ?E ?w"
  let ?s1 = "?s0\<lparr>sw := ?w\<rparr>"
  obtain x w' where tick: "sched_tick ?E ?D (sw ?s1) = (Some x, w')"
    using working_tick [of empty_store] by auto
  let ?s2 = "?s1\<lparr>sw := w', flying := flying ?s1 @ [x]\<rparr>"
  have "sched_step ?E ?D ?s0 ?s1" by (rule sched_step.rest) (simp add: start_sched_def)
  moreover have "sched_step ?E ?D ?s1 ?s2"
    using sched_step.poll [OF _ _ tick] by simp
  ultimately have run: "(sched_step ?E ?D)\<^sup>*\<^sup>* ?s0 ?s2" by simp
  have "length (flying ?s2) = 1" by (simp add: start_sched_def)
  with jobs_in_flight_bounded [OF boot small reg run] run show ?thesis by (intro exI [of _ ?s2]) simp
qed


end
