(* ===== verification/Outputs.thy ===== *)
theory Outputs
  imports Media SchedTick "HOL-Library.Sublist"
begin

text \<open>
  What \<open>AddOutput\<close> achieves: the frame of the operations of theory Media, the logs that only grow,
  and the relation between what is uploaded and what is recorded.
\<close>

section \<open>Frames\<close>

text \<open>A file operation changes files, and counts itself.\<close>

definition fs_only :: "'m media_scheme \<Rightarrow> 'm media_scheme \<Rightarrow> bool" where
  "fs_only w v \<longleftrightarrow> (\<exists>f n. v = w\<lparr>files := f, fs_ops := n\<rparr>)"

lemma fs_onlyI: "v = w\<lparr>files := f, fs_ops := n\<rparr> \<Longrightarrow> fs_only w v"
  by (auto simp: fs_only_def)

lemma fs_only_trans:
  assumes "fs_only w v" and "fs_only v u"
  shows "fs_only w u"
proof -
  obtain f n g m where "v = w\<lparr>files := f, fs_ops := n\<rparr>" "u = v\<lparr>files := g, fs_ops := m\<rparr>"
    using assms by (auto simp: fs_only_def)
  then show ?thesis by (intro fs_onlyI [where f = g and n = m]) simp
qed

lemma fs_only_refl [simp]: "fs_only w w"
  by (rule fs_onlyI [where f = "files w" and n = "fs_ops w"]) simp

lemma fs_only_keeps:
  assumes "fs_only w v"
  shows "sent v = sent w" "puts v = puts w" "procs v = procs w" "gets v = gets w" "db v = db w"
    "enc_once v = enc_once w" "tool_cache v = tool_cache w" "ctx_done v = ctx_done w"
  using assms by (auto simp: fs_only_def)

lemma fs_tick_only [simp]: "fs_only w (fs_tick w)"
  by (rule fs_onlyI [where f = "files w" and n = "Suc (fs_ops w)"]) (simp add: fs_tick_def)

lemma fs_tick_files: "fs_only w ((fs_tick w)\<lparr>files := f\<rparr>)"
  by (rule fs_onlyI [where f = f and n = "Suc (fs_ops w)"]) (simp add: fs_tick_def)

lemma files_fs_tick [simp]: "files (fs_tick w) = files w"
  by (simp add: fs_tick_def)

lemma os_Create_only: "os_Create E p w = (r, v) \<Longrightarrow> fs_only w v"
  by (auto simp: os_Create_def fs_tick_files split: option.splits)

lemma io_Copy_only: "io_Copy E p c e w = (r, v) \<Longrightarrow> fs_only w v"
  by (auto simp: io_Copy_def fs_tick_files split: option.splits)

lemma os_Stat_only: "os_Stat E p w = (r, v) \<Longrightarrow> fs_only w v \<and> files v = files w"
  by (auto simp: os_Stat_def)

lemma os_Open_only: "os_Open E p w = (r, v) \<Longrightarrow> fs_only w v \<and> files v = files w"
  by (auto simp: os_Open_def)

lemma fs_try_only: "fs_try E w = (r, v) \<Longrightarrow> fs_only w v \<and> files v = files w"
  by (auto simp: fs_try_def)

lemma os_Remove_only: "fs_only w (os_Remove E p w)"
  by (auto simp: os_Remove_def fs_tick_files split: option.splits)

lemma io_Copy_file: "io_Copy E p c e w = (None, v) \<Longrightarrow> files v p = Some c"
  by (auto simp: io_Copy_def split: option.splits)

lemma os_Open_Inr: "os_Open E p w = (Inr c, v) \<Longrightarrow> files w p = Some c"
  by (auto simp: os_Open_def split: option.splits)

lemma os_Stat_size: "os_Stat E p w = (st, v) \<Longrightarrow> stat_size st = Some n \<Longrightarrow> \<exists>c. files w p = Some c \<and> n = int (length c)"
  by (auto simp: os_Stat_def stat_size_def split: option.splits stat_result.splits)

text \<open>A call to the cloud changes none of the executor's part of the state.\<close>

lemma same_rest_media:
  fixes w v :: "'m media_scheme"
  assumes "same_rest w v"
  shows "puts v = puts w" "procs v = procs w" "gets v = gets w" "files v = files w" "fs_ops v = fs_ops w"
    "enc_once v = enc_once w" "tool_cache v = tool_cache w" "pushes v = pushes w" "db v = db w"
    "ctx_done v = ctx_done w" "\<exists>pre. sent v = sent w @ pre"
  using assms by (cases w; cases v; simp add: same_rest_def)+

section \<open>Logs that grow\<close>

definition grows :: "'m media_scheme \<Rightarrow> 'm media_scheme \<Rightarrow> bool" where
  "grows w v \<longleftrightarrow> prefix (sent w) (sent v) \<and> prefix (puts w) (puts v)"

lemma grows_refl [simp]: "grows w w"
  by (simp add: grows_def)

lemma grows_trans [trans]: "grows w v \<Longrightarrow> grows v u \<Longrightarrow> grows w u"
  by (auto simp: grows_def intro: prefix_order.trans)

lemma grows_length: "grows w v \<Longrightarrow> length (puts w) \<le> length (puts v)"
  by (auto simp: grows_def dest: prefix_length_le)

lemma fs_only_grows: "fs_only w v \<Longrightarrow> grows w v"
  by (simp add: grows_def fs_only_keeps)

lemma same_rest_grows: "same_rest w v \<Longrightarrow> grows w v"
  using same_rest_media(1,11) [of w v] by (auto simp: grows_def)

section \<open>Answered requests\<close>

text \<open>
  A POST that the cloud answered with a status below 400, and the body of that answer; an upload
  that was accepted.
\<close>

definition answered_post ::
  "'e env_scheme \<Rightarrow> cloud_client \<Rightarrow> string \<Rightarrow> json \<Rightarrow> string \<Rightarrow> 'w netw_scheme \<Rightarrow> bool" where
  "answered_post E c path body reply w \<longleftrightarrow> (\<exists>pre rq st. prefix (pre @ [rq]) (sent w) \<and>
     rq_method rq = ''POST'' \<and> rq_url rq = baseURL c @ path \<and> rq_body rq = Some body \<and>
     server E (pre @ [rq]) = Reply st reply None \<and> st < 400)"

definition stored_blob :: "'e menv_scheme \<Rightarrow> string \<Rightarrow> string \<Rightarrow> 'm media_scheme \<Rightarrow> bool" where
  "stored_blob E url content w \<longleftrightarrow> (\<exists>pre rq st b e. prefix (pre @ [rq]) (puts w) \<and> pt_url rq = url \<and>
     pt_body rq = content \<and> pt_length rq = int (length content) \<and>
     blob E (pre @ [rq]) = Reply st b e \<and> st < 300)"

definition outputs_body :: "string \<Rightarrow> output_entry \<Rightarrow> json" where
  "outputs_body leaseToken out = JObj [(''lease_token'', JText leaseToken), (''outputs'', JList [output_json out])]"

text \<open>
  An output of the job is delivered: a presigned location was asked for, exactly the content was
  stored there, and the manifest entry with that location, size and checksum was recorded.
\<close>

definition delivered ::
  "'e menv_scheme \<Rightarrow> cloud_client \<Rightarrow> job_handle \<Rightarrow> string \<Rightarrow> string \<Rightarrow> string \<Rightarrow> (string \<times> json) list \<Rightarrow>
     'm media_scheme \<Rightarrow> bool" where
  "delivered E c h kind keySuffix content meta w \<longleftrightarrow> (\<exists>n b p b'.
     answered_post E c (workload_path (wl_ID (jh_wl h)) ''upload-url'')
       (presign_body (jh_leaseToken h) kind keySuffix n) b w \<and>
     unmarshal_data E (dec_presign E) zero_presign b = Inr p \<and>
     stored_blob E (PsUploadURL p) content w \<and>
     answered_post E c (workload_path (wl_ID (jh_wl h)) ''outputs'')
       (outputs_body (jh_leaseToken h) \<lparr>OutKind = kind, OutStorageKey = PsStorageKey p,
          OutBytes = int (length content), OutChecksum = sha256_hex E content, OutMetadata = meta\<rparr>) b' w)"

lemma answered_post_grows: "answered_post E c path body b w \<Longrightarrow> prefix (sent w) (sent v) \<Longrightarrow> answered_post E c path body b v"
  unfolding answered_post_def by (blast intro: prefix_order.trans)

lemma stored_blob_grows: "stored_blob E url content w \<Longrightarrow> prefix (puts w) (puts v) \<Longrightarrow> stored_blob E url content v"
  unfolding stored_blob_def by (blast intro: prefix_order.trans)

lemma delivered_grows: "delivered E c h kind key content meta w \<Longrightarrow> grows w v \<Longrightarrow> delivered E c h kind key content meta v"
  unfolding delivered_def grows_def by (blast intro: answered_post_grows stored_blob_grows)

lemma do_json_post:
  assumes "do_json E c ''POST'' path (Some (Some body)) w = (Inr (b, st), v)" and "st < 400"
  shows "answered_post E c path body b v"
proof -
  from assms(1) obtain tk w1 where
    v: "v = after_send True (next_request E c ''POST'' path (Some body) w1 tk) w1"
    and reply: "cloud_reply (server E (sent w1 @ [next_request E c ''POST'' path (Some body) w1 tk])) = Inr (b, st)"
    by (auto simp: do_json_def doRaw_eq changing_method_def split: prod.splits sum.splits if_splits)
  let ?rq = "next_request E c ''POST'' path (Some body) w1 tk"
  have "server E (sent w1 @ [?rq]) = Reply st b None"
    using reply by (auto simp: cloud_reply_def split: http_result.splits option.splits)
  moreover have "sent v = sent w1 @ [?rq]" by (simp add: v)
  ultimately show ?thesis
    using assms(2) unfolding answered_post_def
    by (intro exI [of _ "sent w1"] exI [of _ ?rq] exI [of _ st]) (simp add: next_request_def cloud_request_def)
qed

lemma PresignUpload_answered:
  assumes "PresignUpload E c wid tk kind key n w = (Inr p, v)"
  shows "\<exists>b. answered_post E c (workload_path wid ''upload-url'') (presign_body tk kind key n) b v \<and>
    unmarshal_data E (dec_presign E) zero_presign b = Inr p"
proof -
  from assms obtain b where "do_json E c ''POST'' (workload_path wid ''upload-url'')
      (Some (Some (presign_body tk kind key n))) w = (Inr (b, StatusOK), v)"
    and "unmarshal_data E (dec_presign E) zero_presign b = Inr p"
    by (auto simp: PresignUpload_def split: prod.splits sum.splits if_splits)
  with do_json_post show ?thesis by (fastforce simp: StatusOK_def)
qed

lemma RecordOutputs_answered:
  assumes "RecordOutputs E c wid tk [out] w = (None, v)"
  shows "\<exists>b. answered_post E c (workload_path wid ''outputs'') (outputs_body tk out) b v"
proof -
  from assms obtain b st where "do_json E c ''POST'' (workload_path wid ''outputs'')
      (Some (Some (outputs_body tk out))) w = (Inr (b, st), v)" and "st < 400"
    by (auto simp: RecordOutputs_def checked_reply_def outputs_body_def split: prod.splits sum.splits if_splits)
  with do_json_post show ?thesis by blast
qed

section \<open>Uploading\<close>

lemma fs_tick_keeps [simp]:
  "sent (fs_tick w) = sent w" "puts (fs_tick w) = puts w" "procs (fs_tick w) = procs w"
  "gets (fs_tick w) = gets w" "db (fs_tick w) = db w" "enc_once (fs_tick w) = enc_once w"
  by (simp_all add: fs_tick_def)

lemma send_blob_result:
  assumes "send_blob E rq w = (r, v)"
  shows "sent v = sent w \<and> db v = db w \<and> enc_once v = enc_once w \<and> (puts v = puts w \<and> r \<notin> range Inr \<or> puts v = puts w @ [rq]) \<and>
    (\<forall>res. r = Inr res \<longrightarrow> ResBytes res = pt_length rq \<and> ResChecksum res = sha256_hex E (pt_body rq) \<and>
       (\<exists>st b e. blob E (puts v) = Reply st b e \<and> st < 300))"
  using assms
  by (auto simp: send_blob_def Let_def split: if_splits http_result.splits)

lemma UploadFile_result:
  assumes run: "UploadFile E p url m hs w = (r, v)" and content: "files w p = Some content"
  shows "sent v = sent w \<and> db v = db w \<and> enc_once v = enc_once w \<and>
    (puts v = puts w \<and> r \<notin> range Inr \<or> (\<exists>rq. puts v = puts w @ [rq])) \<and>
    (\<forall>res. r = Inr res \<longrightarrow> stored_blob E url content v \<and> ResBytes res = int (length content) \<and>
       ResChecksum res = sha256_hex E content)"
proof -
  obtain st w1 where st: "os_Stat E p w = (st, w1)" by fastforce
  obtain q w2 where q: "os_Open E p w1 = (q, w2)" by fastforce
  obtain a w3 where a: "fs_try E w2 = (a, w3)" by fastforce
  obtain b w4 where b: "fs_try E w3 = (b, w4)" by fastforce
  have k1: "fs_only w w1" "files w1 = files w" using os_Stat_only [OF st] by auto
  have k2: "fs_only w w2" using k1 os_Open_only [OF q] fs_only_trans by blast
  have k3: "fs_only w w3" using k2 fs_try_only [OF a] fs_only_trans by blast
  have k4: "fs_only w w4" using k3 fs_try_only [OF b] fs_only_trans by blast
  let ?meth = "if m = [] then ''PUT'' else m"
  let ?rq = "\<lambda>c. \<lparr>pt_method = ?meth, pt_url = url, pt_headers = hs, pt_body = c,
      pt_length = (case stat_size st of None \<Rightarrow> 0 | Some n \<Rightarrow> n)\<rparr>"
  show ?thesis
  proof (cases "stat_error p st = None \<and> (\<exists>c. q = Inr c) \<and> a = None \<and> b = None")
    case True
    then obtain c where c: "q = Inr c" by blast
    have "c = content" using os_Open_Inr [OF q [unfolded c]] k1(2) content by simp
    then have run': "send_blob E (?rq content) w4 = (r, v)"
      using run True st q a b c by (simp add: UploadFile_def)
    have "stat_size st = Some (int (length content))"
      using True os_Stat_size [OF st] content by (auto simp: stat_error_def stat_size_def split: stat_result.splits)
    then have len: "pt_length (?rq content) = int (length content)" by simp
    note res = send_blob_result [OF run']
    have "stored_blob E url content v" if "r = Inr x" for x
      using that res len unfolding stored_blob_def
      by (intro exI [of _ "puts w4"] exI [of _ "?rq content"]) auto
    with res len fs_only_keeps [OF k4] show ?thesis by auto
  next
    case False
    then have "r \<notin> range Inr \<and> v \<in> {w1, w2, w3, w4}"
      using run st q a b by (auto simp: UploadFile_def Let_def split: option.splits sum.splits)
    with fs_only_keeps k1 k2 k3 k4 show ?thesis by auto
  qed
qed

lemma PresignUpload_rest: "PresignUpload E c wid tk kind key n w = (r, v) \<Longrightarrow> same_rest w v"
  unfolding PresignUpload_def
  by (auto split: prod.splits sum.splits if_splits dest!: do_json_rest)

lemma record_output_result:
  assumes "record_output E c h out ok w = (r, v)"
  shows "same_rest w v \<and>
    (r = None \<longrightarrow> ok \<and> (\<exists>b. answered_post E c (workload_path (wl_ID (jh_wl h)) ''outputs'')
       (outputs_body (jh_leaseToken h) out) b v))"
proof -
  obtain q u where q: "RecordOutputs E c (wl_ID (jh_wl h)) (jh_leaseToken h) [out] w = (q, u)" by fastforce
  then have "same_rest w u" using RecordOutputs_rest [of w E c "wl_ID (jh_wl h)" "jh_leaseToken h" "[out]"] by simp
  with q assms show ?thesis
    by (auto simp: record_output_def split: if_splits option.splits dest: RecordOutputs_answered)
qed

text \<open>A delivery from its parts: the location the cloud gave, the bytes stored there, the manifest that was recorded.\<close>

lemma delivered_parts:
  assumes q: "PresignUpload E c (wl_ID (jh_wl h)) (jh_leaseToken h) kind key n w = (Inr p, w1)"
    and later: "prefix (sent w1) (sent v)" and blob: "stored_blob E (PsUploadURL p) content v"
    and rec: "\<exists>b. answered_post E c (workload_path (wl_ID (jh_wl h)) ''outputs'')
      (outputs_body (jh_leaseToken h) \<lparr>OutKind = kind, OutStorageKey = PsStorageKey p, OutBytes = int (length content),
        OutChecksum = sha256_hex E content, OutMetadata = m\<rparr>) b v"
  shows "delivered E c h kind key content m v"
proof -
  obtain b where b: "answered_post E c (workload_path (wl_ID (jh_wl h)) ''upload-url'')
      (presign_body (jh_leaseToken h) kind key n) b w1" "unmarshal_data E (dec_presign E) zero_presign b = Inr p"
    using PresignUpload_answered [OF q] by blast
  from answered_post_grows [OF b(1) later] b(2) blob rec show ?thesis unfolding delivered_def by blast
qed

lemma upload_output_result:
  assumes run: "upload_output E c h kind key tmp n meta w = (r, v)" and content: "files w tmp = Some content"
  shows "db v = db w \<and> enc_once v = enc_once w \<and> grows w v \<and> length (puts v) \<le> Suc (length (puts w)) \<and>
    (r = None \<longrightarrow> puts v \<noteq> puts w \<and> (\<exists>m. meta = Some m \<and> delivered E c h kind key content m v))"
proof -
  obtain q w1 where q: "PresignUpload E c (wl_ID (jh_wl h)) (jh_leaseToken h) kind key n w = (q, w1)" by fastforce
  note r1 = PresignUpload_rest [OF q] and k1 = same_rest_media [OF PresignUpload_rest [OF q]]
  show ?thesis
  proof (cases q)
    case (Inl e)
    with run q k1 same_rest_grows [OF r1] show ?thesis by (auto simp: upload_output_def)
  next
    case (Inr p)
    let ?hs = "case PsHeaders p of None \<Rightarrow> [] | Some hs \<Rightarrow> hs"
    obtain u w2 where u: "UploadFile E tmp (PsUploadURL p) (PsMethod p) ?hs w1 = (u, w2)" by fastforce
    have "files w1 tmp = Some content" using k1 content by simp
    note res = UploadFile_result [OF u this]
    have g2: "grows w w2" "prefix (sent w1) (sent w2)"
      using same_rest_grows [OF r1] res by (auto simp: grows_def intro: prefix_order.trans)
    show ?thesis
    proof (cases u)
      case (Inl e)
      with run q Inr u res k1 g2 show ?thesis by (auto simp: upload_output_def)
    next
      case u': (Inr x)
      let ?out = "\<lparr>OutKind = kind, OutStorageKey = PsStorageKey p, OutBytes = ResBytes x,
          OutChecksum = ResChecksum x, OutMetadata = (case meta of None \<Rightarrow> [] | Some m \<Rightarrow> m)\<rparr>"
      have last: "record_output E c h ?out (meta \<noteq> None) w2 = (r, v)"
        using run q Inr u u' by (simp add: upload_output_def)
      note rec = record_output_result [OF last] and k3 = same_rest_media [OF conjunct1 [OF record_output_result [OF last]]]
      have g3: "grows w2 v" by (rule same_rest_grows) (use rec in simp)
      have "delivered E c h kind key content m v" if none: "r = None" and m: "meta = Some m" for m
      proof (rule delivered_parts [OF q [unfolded Inr]])
        show "prefix (sent w1) (sent v)" using g2(2) g3 by (auto simp: grows_def intro: prefix_order.trans)
        show "stored_blob E (PsUploadURL p) content v"
          using res u' g3 stored_blob_grows unfolding grows_def by blast
        have "?out = \<lparr>OutKind = kind, OutStorageKey = PsStorageKey p, OutBytes = int (length content),
            OutChecksum = sha256_hex E content, OutMetadata = m\<rparr>"
          using res u' m by simp
        then show "\<exists>b. answered_post E c (workload_path (wl_ID (jh_wl h)) ''outputs'')
            (outputs_body (jh_leaseToken h) \<lparr>OutKind = kind, OutStorageKey = PsStorageKey p, OutBytes = int (length content),
              OutChecksum = sha256_hex E content, OutMetadata = m\<rparr>) b v"
          using rec none by metis
      qed
      moreover have "meta \<noteq> None" if "r = None" using rec that by simp
      moreover have "\<exists>rq. puts v = puts w @ [rq]" using res u' k1 k3 by auto
      moreover have "grows w v" by (rule grows_trans [OF g2(1) g3])
      ultimately show ?thesis using k1(6,9) k3(6,9) res by auto
    qed
  qed
qed

lemma AddOutput_result:
  assumes run: "AddOutput E cl h kind key content n meta w = (r, v)"
  shows "db v = db w \<and> enc_once v = enc_once w \<and> grows w v \<and> length (puts v) \<le> Suc (length (puts w)) \<and>
    (r = None \<longrightarrow> puts v \<noteq> puts w \<and> (\<exists>c m. cl = Some c \<and> meta = Some m \<and> delivered E c h kind key content m v))"
proof (cases cl)
  case None
  with run show ?thesis by (auto simp: AddOutput_def)
next
  case (Some c)
  let ?tmp = "path_join [jh_workDir h, ''out-'' @ key]"
  obtain a w1 where a: "os_Create E ?tmp w = (a, w1)" by fastforce
  obtain b w2 where b: "io_Copy E ?tmp content None w1 = (b, w2)" by fastforce
  obtain st w3 where st: "os_Stat E ?tmp w2 = (st, w3)" by fastforce
  have k1: "fs_only w w1" by (rule os_Create_only [OF a])
  have k2: "fs_only w w2" using k1 io_Copy_only [OF b] fs_only_trans by blast
  have k3: "fs_only w w3" using k2 os_Stat_only [OF st] fs_only_trans by blast
  show ?thesis
  proof (cases "a = None \<and> b = None")
    case True
    then have "files w3 ?tmp = Some content" using io_Copy_file b os_Stat_only [OF st] by force
    moreover obtain n' where "upload_output E c h kind key ?tmp n' meta w3 = (r, v)"
      using run Some True a b st by (auto simp: AddOutput_def Let_def)
    ultimately have "db v = db w3 \<and> enc_once v = enc_once w3 \<and> grows w3 v \<and>
        length (puts v) \<le> Suc (length (puts w3)) \<and>
        (r = None \<longrightarrow> puts v \<noteq> puts w3 \<and> (\<exists>m. meta = Some m \<and> delivered E c h kind key content m v))"
      by (intro upload_output_result)
    with fs_only_keeps [OF k3] grows_trans [OF fs_only_grows [OF k3], of v] Some show ?thesis by auto
  next
    case False
    then have "r \<noteq> None \<and> v \<in> {w1, w2}"
      using run Some a b by (auto simp: AddOutput_def Let_def split: option.splits)
    with fs_only_keeps [OF k1] fs_only_keeps [OF k2] fs_only_grows [OF k1] fs_only_grows [OF k2]
    show ?thesis by auto
  qed
qed

lemma AddOutput_count:
  assumes "AddOutput E cl h kind key content n meta w = (None, v)"
  shows "length (puts v) = Suc (length (puts w))"
proof -
  have "prefix (puts w) (puts v)" "puts v \<noteq> puts w" "length (puts v) \<le> Suc (length (puts w))"
    using AddOutput_result [OF assms] by (auto simp: grows_def)
  then show ?thesis by (auto simp: prefix_def le_Suc_eq)
qed

text \<open>
  C6. What is recorded is what was sent.  When \<open>AddOutput\<close> succeeds, the cloud was asked for a
  location, exactly the given bytes were stored there with their length declared, the store
  accepted them, and the manifest entry the cloud then accepted has that location, that length
  and the checksum of those bytes.  Whatever fails, at most one upload was sent, and no table
  of the local store changes.
\<close>

theorem output_delivered:
  assumes "AddOutput E cl h kind key content n meta w = (r, v)"
  shows "(r = None \<longrightarrow> (\<exists>c m. cl = Some c \<and> meta = Some m \<and> delivered E c h kind key content m v)) \<and>
    length (puts v) \<le> Suc (length (puts w)) \<and> db v = db w"
  using AddOutput_result [OF assms] by auto

text \<open>A calm world for the closed examples: ffmpeg writes its last argument, every server agrees.\<close>

definition presigned_json :: json where
  "presigned_json = JObj [(''data'', JObj [(''storage_key'', JText ''k''), (''upload_url'', JText ''http://s/k''),
     (''workload'', JObj [(''id'', JText ''wl''), (''organization_id'', JText ''org''),
        (''workload_type'', JText ''video:extract-audio''), (''workload_version'', JInt 1),
        (''payload'', JObj [(''video_url'', JText ''http://v/m'')])]),
     (''lease'', JObj [(''token'', JText ''lt''), (''expires_at'', JText ''F''), (''ttl_sec'', JInt 60),
        (''heartbeat_interval_sec'', JInt 25)])])]"

text \<open>A text for lists of integers, for the saved state of the examples.\<close>

fun enc_ints :: "int list \<Rightarrow> string" where
  "enc_ints [] = ''.''"
| "enc_ints (i # is) =
     (if i < 0 then CHR ''-'' else CHR ''+'') # replicate (nat \<bar>i\<bar>) (CHR ''1'') @ enc_ints is"

function dec_ints :: "string \<Rightarrow> int list" where
  "dec_ints [] = []"
| "dec_ints (c # cs) =
     (if c = CHR ''.'' then []
      else (let n = int (length (takeWhile (\<lambda>x. x = CHR ''1'') cs)) in
        (if c = CHR ''-'' then - n else n) # dec_ints (dropWhile (\<lambda>x. x = CHR ''1'') cs)))"
  by pat_completeness auto
termination
  by (relation "measure length") (auto simp: less_Suc_eq_le length_dropWhile_le)

lemma enc_ints_head: "\<exists>c cs. enc_ints is = c # cs \<and> c \<in> {CHR ''.'', CHR ''-'', CHR ''+''}"
  by (cases "is") auto

lemma dec_enc_ints [simp]: "dec_ints (enc_ints is) = is"
proof (induction "is")
  case (Cons i "is")
  obtain c cs where h: "enc_ints is = c # cs" "c \<noteq> CHR ''1''" using enc_ints_head [of "is"] by auto
  have "takeWhile (\<lambda>x. x = CHR ''1'') (replicate n (CHR ''1'') @ c # cs) = replicate n (CHR ''1'')"
    and "dropWhile (\<lambda>x. x = CHR ''1'') (replicate n (CHR ''1'') @ c # cs) = c # cs" for n
    using h(2) by (induction n) auto
  with Cons h show ?case by simp
qed simp

definition ints_of :: "json list \<Rightarrow> int list" where
  "ints_of js = map (\<lambda>j. case j of JInt i \<Rightarrow> i | _ \<Rightarrow> 0) js"

definition calm_text :: "json \<Rightarrow> string" where
  "calm_text j = (case j of JObj [(k, JList js)] \<Rightarrow> enc_ints (ints_of js) | _ \<Rightarrow> ''{}'')"

definition calm_parse :: "string \<Rightarrow> json option" where
  "calm_parse s = Some (if s = ''ok'' then presigned_json
     else JObj [(''completed_clip_indices'', JList (map JInt (dec_ints s)))])"

definition calm_menv :: menv where
  "calm_menv = denv.extend ((calm_denv (\<lambda>_. Reply 200 ''ok'' None) calm_parse)\<lparr>json_text := calm_text\<rparr>)
     \<lparr>fs_fault = (\<lambda>_. None), fs_partial = (\<lambda>_. 0),
      run_cmd = (\<lambda>n p args fs. ([], None, fs(last args := Some ''data''))),
      fetch = (\<lambda>_. Fetched 200 ''video'' None), blob = (\<lambda>_. Reply 200 [] None),
      sha256_hex = (\<lambda>s. ''00''), float64 = Fin, parse_float = (\<lambda>_. None), renumber = (\<lambda>x. if of_int \<lfloor>x\<rfloor> = x then JInt \<lfloor>x\<rfloor> else JReal x),
      quoted = (\<lambda>s. s), cancelled = (\<lambda>_. False), ch_room = (\<lambda>_. True),
      look_path = (\<lambda>_. Some ''/usr/bin/ffmpeg''), goos = ''linux''\<rparr>"

lemma calm_menv_simps [simp]:
  "server calm_menv h = Reply 200 ''ok'' None" "json_of_text calm_menv = calm_parse" "json_text calm_menv = calm_text"
  "clock calm_menv k = zero_time" "url_ok calm_menv u" "db_fault calm_menv k = None"
  "fs_fault calm_menv k = None" "run_cmd calm_menv k p args fs = ([], None, fs(last args := Some ''data''))"
  "fetch calm_menv us = Fetched 200 ''video'' None" "blob calm_menv rqs = Reply 200 [] None"
  "float64 calm_menv x = Fin x" "renumber calm_menv x = (if of_int \<lfloor>x\<rfloor> = x then JInt \<lfloor>x\<rfloor> else JReal x)" "\<not> cancelled calm_menv k" "look_path calm_menv k = Some ''/usr/bin/ffmpeg''"
  "goos calm_menv = ''linux''" "mkdir_fault calm_menv d = None" "rm_fails calm_menv d = False"
  "db_scan_time calm_menv t = Some t"
  by (simp_all add: calm_menv_def denv.defs calm_denv_def env.defs calm_env_def)

definition sample_media :: "store \<Rightarrow> media" where
  "sample_media s = daemon.extend (sample_daemon signed_in NoItem s)
     \<lparr>fs_ops = 0, procs = [], puts = [], gets = [], lookups = 0, pushed = [], pushes = 0, tool_cache = [],
      enc_once = None\<rparr>"

lemma sample_media_simps [simp]:
  "tok (sample_media s) = signed_in" "sent (sample_media s) = []" "puts (sample_media s) = []"
  "files (sample_media s) = (\<lambda>_. None)" "db (sample_media s) = s" "\<not> ctx_done (sample_media s)"
  "tool_cache (sample_media s) = []" "enc_once (sample_media s) = None" "procs (sample_media s) = []"
  "gets (sample_media s) = []" "workdirs (sample_media s) = {}"
  by (simp_all add: sample_media_def daemon.defs sample_daemon_def)

definition calm_world :: "'e menv_scheme \<Rightarrow> bool" where
  "calm_world E \<longleftrightarrow> (\<forall>h. server E h = Reply 200 ''ok'' None) \<and> json_of_text E = calm_parse \<and>
     (\<forall>k. clock E k = zero_time) \<and> (\<forall>u. url_ok E u) \<and> (\<forall>k. fs_fault E k = None) \<and>
     (\<forall>rqs. blob E rqs = Reply 200 [] None)"

lemma calm_menv_world [simp]: "calm_world calm_menv"
  by (simp add: calm_world_def)

lemma calm_presigned:
  assumes "json_of_text E = calm_parse"
  shows "unmarshal_data E (dec_presign E) zero_presign ''ok'' =
     Inr \<lparr>PsStorageKey = ''k'', PsUploadURL = ''http://s/k'', PsExpiresAt = zero_time, PsMethod = [], PsHeaders = None\<rparr>"
  using assms
  by (simp add: unmarshal_data_def calm_parse_def presigned_json_def dec_presign_def dec_defs zero_presign_def)

lemma calm_AddOutput:
  assumes "calm_world E" "cachedKnown (tok w)" "cached (tok w) = fresh_bundle"
  shows "fst (AddOutput E (Some c) h kind key content n (Some m) w) = None \<and>
    tok (snd (AddOutput E (Some c) h kind key content n (Some m) w)) = tok w \<and>
    ctx_done (snd (AddOutput E (Some c) h kind key content n (Some m) w)) = ctx_done w"
  using assms
  by (simp add: calm_world_def AddOutput_def Let_def os_Create_def io_Copy_def os_Stat_def fs_tick_def upload_output_def
      PresignUpload_def do_json_def fresh_doRaw cloud_reply_def StatusOK_def calm_presigned UploadFile_def
      after_send_def stat_error_def os_Open_def fs_try_def send_blob_def valid_method_def token_char_def
      record_output_def RecordOutputs_def checked_reply_def stat_size_def changing_method_def)

definition sample_handle :: job_handle where
  "sample_handle = \<lparr>jh_id = ''j1'', jh_wl = sample_workload, jh_leaseToken = ''lt'', jh_workDir = ''/tmp/engine/job-j1''\<rparr>"

theorem output_delivered_witness:
  "\<exists>v. AddOutput calm_menv (Some (New ''http://c'' ''fp'')) sample_handle ''audio'' ''audio.wav'' ''data'' 0 (Some [])
      (sample_media empty_store) = (None, v) \<and>
    delivered calm_menv (New ''http://c'' ''fp'') sample_handle ''audio'' ''audio.wav'' ''data'' [] v"
proof -
  let ?w = "sample_media empty_store" and ?c = "New ''http://c'' ''fp''"
  have "fst (AddOutput calm_menv (Some ?c) sample_handle ''audio'' ''audio.wav'' ''data'' 0 (Some []) ?w) = None"
    by (simp add: calm_AddOutput)
  then obtain v where run: "AddOutput calm_menv (Some ?c) sample_handle ''audio'' ''audio.wav'' ''data'' 0 (Some []) ?w = (None, v)"
    by (cases "AddOutput calm_menv (Some ?c) sample_handle ''audio'' ''audio.wav'' ''data'' 0 (Some []) ?w") auto
  with output_delivered [OF run] show ?thesis by auto
qed

end
