(* ===== verification/NetGuard.thy ===== *)
theory NetGuard
  imports Outputs
begin

unbundle bit_operations_syntax

text \<open>
  The download guard of the audio executor, \<open>internal/executors/extractaudio/executor.go\<close>: the
  address classes of package net it asks about, \<open>validateDownloadURL\<close>, and the download behind it.

  A \<open>net.IP\<close> is its bytes, 4 or 16 of them.  Parsing a URL or an address literal and asking the
  resolver are parameters; the \<open>n\<close>th question to the resolver has its own answer.
\<close>

section \<open>Addresses\<close>

type_synonym ip = "byte list"

record genv = menv +
  url_parts :: "string \<Rightarrow> (string \<times> string) option"
  parse_ip :: "string \<Rightarrow> ip option"
  lookup_ip :: "nat \<Rightarrow> string \<Rightarrow> string + ip list"
  ip_text :: "ip \<Rightarrow> string"

definition v4_prefix :: ip where
  "v4_prefix = replicate 10 0 @ [0xFF, 0xFF]"

definition To4 :: "ip \<Rightarrow> ip option" where
  "To4 p =
     (if length p = 4 then Some p
      else if length p = 16 \<and> take 12 p = v4_prefix then Some (drop 12 p)
      else None)"

definition ip_Equal :: "ip \<Rightarrow> ip \<Rightarrow> bool" where
  "ip_Equal p x =
     (if length p = length x then p = x
      else if length p = 4 \<and> length x = 16 then take 12 x = v4_prefix \<and> p = drop 12 x
      else if length p = 16 \<and> length x = 4 then take 12 p = v4_prefix \<and> drop 12 p = x
      else False)"

definition IPv6unspecified :: ip where
  "IPv6unspecified = replicate 16 0"

definition IPv6loopback :: ip where
  "IPv6loopback = replicate 15 0 @ [1]"

definition IsUnspecified :: "ip \<Rightarrow> bool" where
  "IsUnspecified p \<longleftrightarrow> ip_Equal p (v4_prefix @ [0, 0, 0, 0]) \<or> ip_Equal p IPv6unspecified"

definition IsLoopback :: "ip \<Rightarrow> bool" where
  "IsLoopback p = (case To4 p of Some q \<Rightarrow> q ! 0 = 127 | None \<Rightarrow> ip_Equal p IPv6loopback)"

definition IsPrivate :: "ip \<Rightarrow> bool" where
  "IsPrivate p =
     (case To4 p of
        Some q \<Rightarrow> q ! 0 = 10 \<or> q ! 0 = 172 \<and> q ! 1 AND 0xF0 = 16 \<or> q ! 0 = 192 \<and> q ! 1 = 168
      | None \<Rightarrow> length p = 16 \<and> p ! 0 AND 0xFE = 0xFC)"

definition IsMulticast :: "ip \<Rightarrow> bool" where
  "IsMulticast p =
     (case To4 p of
        Some q \<Rightarrow> q ! 0 AND 0xF0 = 0xE0
      | None \<Rightarrow> length p = 16 \<and> p ! 0 = 0xFF)"

definition IsInterfaceLocalMulticast :: "ip \<Rightarrow> bool" where
  "IsInterfaceLocalMulticast p \<longleftrightarrow> length p = 16 \<and> p ! 0 = 0xFF \<and> p ! 1 AND 0x0F = 0x01"

definition IsLinkLocalMulticast :: "ip \<Rightarrow> bool" where
  "IsLinkLocalMulticast p =
     (case To4 p of
        Some q \<Rightarrow> q ! 0 = 224 \<and> q ! 1 = 0 \<and> q ! 2 = 0
      | None \<Rightarrow> length p = 16 \<and> p ! 0 = 0xFF \<and> p ! 1 AND 0x0F = 0x02)"

definition IsLinkLocalUnicast :: "ip \<Rightarrow> bool" where
  "IsLinkLocalUnicast p =
     (case To4 p of
        Some q \<Rightarrow> q ! 0 = 169 \<and> q ! 1 = 254
      | None \<Rightarrow> length p = 16 \<and> p ! 0 = 0xFE \<and> p ! 1 AND 0xC0 = 0x80)"

definition isPrivateOrSpecialIP :: "ip \<Rightarrow> bool" where
  "isPrivateOrSpecialIP p \<longleftrightarrow>
     IsLoopback p \<or> IsLinkLocalUnicast p \<or> IsLinkLocalMulticast p \<or>
     IsInterfaceLocalMulticast p \<or> IsMulticast p \<or> IsUnspecified p \<or> IsPrivate p"

lemmas ip_class_defs = IsUnspecified_def IsLoopback_def IsPrivate_def IsMulticast_def
  IsInterfaceLocalMulticast_def IsLinkLocalMulticast_def IsLinkLocalUnicast_def

section \<open>The address blocks\<close>

text \<open>The number an address is, and the blocks, each a base and the length of its prefix.\<close>

definition ip_value :: "ip \<Rightarrow> nat" where
  "ip_value p = foldl (\<lambda>n b. n * 256 + unat b) 0 p"

definition in_block :: "nat \<Rightarrow> nat \<Rightarrow> nat \<times> nat \<Rightarrow> bool" where
  "in_block width v blk \<longleftrightarrow> v div 2 ^ (width - snd blk) = fst blk div 2 ^ (width - snd blk)"

definition blocks4 :: "(nat \<times> nat) list" where
  "blocks4 =
     [(127 * 2 ^ 24, 8), (10 * 2 ^ 24, 8), (172 * 2 ^ 24 + 16 * 2 ^ 16, 12), (192 * 2 ^ 24 + 168 * 2 ^ 16, 16),
      (169 * 2 ^ 24 + 254 * 2 ^ 16, 16), (224 * 2 ^ 24, 4), (0, 32)]"

definition blocks6 :: "(nat \<times> nat) list" where
  "blocks6 = [(0, 128), (1, 128), (0xFC * 2 ^ 120, 7), (0xFE80 * 2 ^ 112, 10), (0xFF * 2 ^ 120, 8)]"

lemma high_part:
  fixes b m :: byte
  assumes "m = push_bit k (mask (8 - k))" "k < 8"
  shows "unat (b AND m) = (unat b div 2 ^ k) * 2 ^ k"
proof -
  have e: "b AND m = push_bit k (drop_bit k b)"
    by (rule bit_word_eqI) (auto simp: assms(1) bit_and_iff bit_push_bit_iff bit_drop_bit_eq bit_mask_iff)
  have "unat b div 2 ^ k * 2 ^ k < 256"
    using unsigned_less [of b, where ?'a = nat] by (simp add: le_less_trans [OF div_times_less_eq_dividend])
  moreover have "unat (b AND m) = take_bit 8 (push_bit k (drop_bit k (unat b)))"
    unfolding e using unsigned_less [of b, where ?'a = nat]
    by (simp only: unsigned_push_bit_eq unsigned_drop_bit_eq) (simp add: take_bit_nat_eq_self)
  ultimately show ?thesis
    by (simp add: push_bit_eq_mult drop_bit_eq_div take_bit_nat_eq_self)
qed

lemma high_bits:
  fixes b :: byte
  shows "b AND 0xF0 = 16 \<longleftrightarrow> unat b div 16 = 1" "b AND 0xF0 = 0xE0 \<longleftrightarrow> unat b div 16 = 14"
    "b AND 0xFE = 0xFC \<longleftrightarrow> unat b div 2 = 126" "b AND 0xC0 = 0x80 \<longleftrightarrow> unat b div 64 = 2"
proof -
  have m: "(0xF0 :: byte) = push_bit 4 (mask (8 - 4))" "(0xFE :: byte) = push_bit 1 (mask (8 - 1))"
    "(0xC0 :: byte) = push_bit 6 (mask (8 - 6))"
    by (simp_all add: mask_eq_exp_minus_1)
  show "b AND 0xF0 = 16 \<longleftrightarrow> unat b div 16 = 1" "b AND 0xF0 = 0xE0 \<longleftrightarrow> unat b div 16 = 14"
    "b AND 0xFE = 0xFC \<longleftrightarrow> unat b div 2 = 126" "b AND 0xC0 = 0x80 \<longleftrightarrow> unat b div 64 = 2"
    using high_part [OF m(1), of b] high_part [OF m(2), of b] high_part [OF m(3), of b]
    by (auto simp: word_unat_eq_iff)
qed

lemma ip_value_append: "ip_value (p @ q) = ip_value p * 256 ^ length q + ip_value q"
proof -
  have fold: "foldl (\<lambda>n b. n * 256 + unat b) k q = k * 256 ^ length q + ip_value q" for k
  proof (induction q rule: rev_induct)
    case (snoc b q)
    have "ip_value (q @ [b]) = ip_value q * 256 + unat b" by (simp add: ip_value_def)
    moreover have "(k * 256 ^ length q + ip_value q) * 256 + unat b =
        k * 256 ^ length (q @ [b]) + (ip_value q * 256 + unat b)"
      by (simp add: add_mult_distrib)
    ultimately show ?case using snoc by simp
  qed (simp add: ip_value_def)
  have "ip_value (p @ q) = foldl (\<lambda>n b. n * 256 + unat b) (ip_value p) q" by (simp add: ip_value_def)
  then show ?thesis by (simp only: fold)
qed

lemma ip_value_Cons: "ip_value (b # p) = unat b * 256 ^ length p + ip_value p"
  using ip_value_append [of "[b]" p] by (simp add: ip_value_def)

lemma unat_byte_bound: "unat (b :: byte) < 256"
  using unsigned_less [of b, where ?'a = nat] by simp

lemma ip_value_bound: "ip_value p < 256 ^ length p"
proof (induction p)
  case (Cons b p)
  have "(unat b + 1) * 256 ^ length p \<le> 256 * 256 ^ length p"
    using unat_byte_bound [of b] by (intro mult_le_mono1) simp
  moreover have "(unat b + 1) * 256 ^ length p = unat b * 256 ^ length p + 256 ^ length p" by (rule add_mult_distrib [of _ 1, simplified mult_1])
  ultimately have "unat b * 256 ^ length p + ip_value p < 256 * 256 ^ length p" using Cons by linarith
  then show ?case by (simp add: ip_value_Cons)
qed (simp add: ip_value_def)

lemma ip_value_eq: "length p = length q \<Longrightarrow> ip_value p = ip_value q \<longleftrightarrow> p = q"
proof (induction p q rule: list_induct2)
  case (Cons b p c q)
  have "ip_value (b # p) div 256 ^ length p = unat b" "ip_value (b # p) mod 256 ^ length p = ip_value p"
    using ip_value_bound [of p] by (simp_all add: ip_value_Cons)
  moreover have "ip_value (c # q) div 256 ^ length p = unat c" "ip_value (c # q) mod 256 ^ length p = ip_value q"
    using ip_value_bound [of q] Cons.hyps by (simp_all add: ip_value_Cons)
  ultimately have "ip_value (b # p) = ip_value (c # q) \<longleftrightarrow> unat b = unat c \<and> ip_value p = ip_value q"
    using Cons.hyps by (metis ip_value_Cons)
  with Cons show ?case by (simp add: word_unat_eq_iff)
qed simp

lemma two_digits:
  fixes m :: nat
  assumes "y < m" and "z < m"
  shows "x * m + y = u * m + z \<longleftrightarrow> x = u \<and> y = z"
proof
  assume eq: "x * m + y = u * m + z"
  have "(x * m + y) div m = x" "(u * m + z) div m = u" using assms by simp_all
  with eq show "x = u \<and> y = z" by simp
qed simp

lemma length4: "length p = 4 \<longleftrightarrow> (\<exists>a b c d. p = [a, b, c, d])"
  by (auto simp: length_Suc_conv eval_nat_numeral)

lemma four_blocks:
  fixes a b c d :: byte
  defines "v \<equiv> ip_value [a, b, c, d]"
  shows "v div 2 ^ 24 = unat a" "v div 2 ^ 20 = unat a * 16 + unat b div 16"
    "v div 2 ^ 16 = unat a * 256 + unat b" "v div 2 ^ 28 = unat a div 16" "v = 0 \<longleftrightarrow> a = 0 \<and> b = 0 \<and> c = 0 \<and> d = 0"
    "v div 2 ^ 8 = unat a * 65536 + unat b * 256 + unat c"
proof -
  have v: "v = unat a * 16777216 + unat b * 65536 + unat c * 256 + unat d"
    by (simp add: v_def ip_value_def)
  note bounds = unat_byte_bound [of a] unat_byte_bound [of b] unat_byte_bound [of c] unat_byte_bound [of d]
  show "v div 2 ^ 24 = unat a" "v div 2 ^ 16 = unat a * 256 + unat b"
   "v div 2 ^ 8 = unat a * 65536 + unat b * 256 + unat c"
    using bounds unfolding v by simp_all
  show "v = 0 \<longleftrightarrow> a = 0 \<and> b = 0 \<and> c = 0 \<and> d = 0"
    unfolding v by (auto simp: word_unat_eq_iff)
  have "v div 2 ^ 28 = v div 2 ^ 24 div 16" "v div 2 ^ 20 = v div 2 ^ 16 div 16"
    by (simp_all add: div_mult2_eq [symmetric])
  then show "v div 2 ^ 28 = unat a div 16" "v div 2 ^ 20 = unat a * 16 + unat b div 16"
    using \<open>v div 2 ^ 24 = unat a\<close> \<open>v div 2 ^ 16 = unat a * 256 + unat b\<close> by simp_all
qed

lemma sixteen_blocks:
  assumes "length p = 16"
  defines "v \<equiv> ip_value p"
  shows "v div 2 ^ 120 = unat (p ! 0)" "v div 2 ^ 121 = unat (p ! 0) div 2"
    "v div 2 ^ 118 = unat (p ! 0) * 4 + unat (p ! 1) div 64"
proof -
  obtain a b q where p: "p = a # b # q" "length q = 14"
    using assms(1) by (auto simp: length_Suc_conv eval_nat_numeral)
  have v: "v = (unat a * 256 + unat b) * 2 ^ 112 + ip_value q"
    by (simp add: v_def p ip_value_Cons)
  have "ip_value q < 2 ^ 112" using ip_value_bound [of q] p(2) by simp
  then have d: "v div 2 ^ 112 = unat a * 256 + unat b" unfolding v by simp
  have "v div 2 ^ 120 = v div 2 ^ 112 div 2 ^ 8" "v div 2 ^ 121 = v div 2 ^ 112 div 2 ^ 9" "v div 2 ^ 118 = v div 2 ^ 112 div 2 ^ 6"
    by (simp_all add: div_mult2_eq [symmetric])
  moreover have "(unat a * 256 + unat b) div 2 ^ 9 = (unat a * 256 + unat b) div 2 ^ 8 div 2"
    by (simp add: div_mult2_eq [symmetric])
  moreover have "(unat a * 256 + unat b) div 2 ^ 6 = unat a * 4 + unat b div 64"
    using div_mult_self2 [of 64 "unat b" "unat a * 4"] by (simp add: add.commute)
  ultimately show "v div 2 ^ 120 = unat (p ! 0)" "v div 2 ^ 121 = unat (p ! 0) div 2"
    "v div 2 ^ 118 = unat (p ! 0) * 4 + unat (p ! 1) div 64"
    using d unat_byte_bound [of b] by (simp_all add: p)
qed

lemma class4:
  assumes "To4 p = Some [a, b, c, d]"
  shows "isPrivateOrSpecialIP p \<longleftrightarrow>
    a = 127 \<or> a = 169 \<and> b = 254 \<or> a = 224 \<and> b = 0 \<and> c = 0 \<or> a AND 0xF0 = 0xE0 \<or>
    a = 0 \<and> b = 0 \<and> c = 0 \<and> d = 0 \<or> a = 10 \<or> a = 172 \<and> b AND 0xF0 = 16 \<or> a = 192 \<and> b = 168"
proof -
  have shape: "p = [a, b, c, d] \<or> p = v4_prefix @ [a, b, c, d]"
  proof (cases "length p = 4")
    case False
    with assms have "take 12 p = v4_prefix" "drop 12 p = [a, b, c, d]" by (auto simp: To4_def split: if_splits)
    with append_take_drop_id [of 12 p] show ?thesis by simp
  qed (use assms in \<open>simp add: To4_def\<close>)
  have un: "IsUnspecified p \<longleftrightarrow> a = 0 \<and> b = 0 \<and> c = 0 \<and> d = 0"
    using shape by (auto simp: IsUnspecified_def ip_Equal_def IPv6unspecified_def v4_prefix_def eval_nat_numeral)
  have il: "\<not> IsInterfaceLocalMulticast p"
    using shape by (auto simp: IsInterfaceLocalMulticast_def v4_prefix_def eval_nat_numeral)
  show ?thesis
    unfolding isPrivateOrSpecialIP_def un
    using il assms by (simp add: IsLoopback_def IsLinkLocalUnicast_def IsLinkLocalMulticast_def IsMulticast_def IsPrivate_def)
qed

lemma class6:
  assumes "To4 p = None" and "length p = 16"
  shows "isPrivateOrSpecialIP p \<longleftrightarrow> p = IPv6unspecified \<or> p = IPv6loopback \<or> p ! 0 AND 0xFE = 0xFC \<or>
    p ! 0 = 0xFE \<and> p ! 1 AND 0xC0 = 0x80 \<or> p ! 0 = 0xFF"
proof -
  have "p \<noteq> v4_prefix @ [0, 0, 0, 0]" using assms by (auto simp: To4_def v4_prefix_def)
  then have "IsUnspecified p \<longleftrightarrow> p = IPv6unspecified"
    using assms(2) by (auto simp: IsUnspecified_def ip_Equal_def IPv6unspecified_def v4_prefix_def)
  then show ?thesis
    using assms by (auto simp: isPrivateOrSpecialIP_def IsLoopback_def IsLinkLocalUnicast_def IsLinkLocalMulticast_def
        IsInterfaceLocalMulticast_def IsMulticast_def IsPrivate_def ip_Equal_def IPv6loopback_def)
qed

lemma guard_blocks4:
  assumes Some: "To4 p = Some q"
  shows "isPrivateOrSpecialIP p \<longleftrightarrow> (\<exists>blk \<in> set blocks4. in_block 32 (ip_value q) blk)"
proof -
  from Some have "length q = 4" by (auto simp: To4_def split: if_splits)
  then obtain a b c d where q: "q = [a, b, c, d]" unfolding length4 by blast
  let ?v = "ip_value q"
  note blocks = four_blocks [of a b c d, folded q]
  have "(\<exists>blk \<in> set blocks4. in_block 32 ?v blk) \<longleftrightarrow>
      ?v div 2 ^ 24 = 127 \<or> ?v div 2 ^ 24 = 10 \<or> ?v div 2 ^ 20 = 172 * 16 + 1 \<or> ?v div 2 ^ 16 = 192 * 256 + 168 \<or>
      ?v div 2 ^ 16 = 169 * 256 + 254 \<or> ?v div 2 ^ 28 = 14 \<or> ?v = 0"
    by (simp add: blocks4_def in_block_def)
  moreover have "unat a * 16 + unat b div 16 = 172 * 16 + 1 \<longleftrightarrow> unat a = 172 \<and> unat b div 16 = 1"
    "unat a * 256 + unat b = 192 * 256 + 168 \<longleftrightarrow> unat a = 192 \<and> unat b = 168"
    "unat a * 256 + unat b = 169 * 256 + 254 \<longleftrightarrow> unat a = 169 \<and> unat b = 254"
    using unat_byte_bound [of b] by (intro two_digits; simp)+
  ultimately have rhs: "(\<exists>blk \<in> set blocks4. in_block 32 ?v blk) \<longleftrightarrow>
      unat a = 127 \<or> unat a = 10 \<or> unat a = 172 \<and> unat b div 16 = 1 \<or> unat a = 192 \<and> unat b = 168 \<or>
      unat a = 169 \<and> unat b = 254 \<or> unat a div 16 = 14 \<or> a = 0 \<and> b = 0 \<and> c = 0 \<and> d = 0"
    by (simp only: blocks)
  have eqs: "a = 127 \<longleftrightarrow> unat a = 127" "a = 10 \<longleftrightarrow> unat a = 10" "a = 172 \<longleftrightarrow> unat a = 172"
    "a = 192 \<longleftrightarrow> unat a = 192" "b = 168 \<longleftrightarrow> unat b = 168" "a = 169 \<longleftrightarrow> unat a = 169" "b = 254 \<longleftrightarrow> unat b = 254"
    "a = 224 \<longleftrightarrow> unat a = 224"
    by (simp_all add: word_unat_eq_iff)
  have m: "unat a div 16 = 14" if "unat a = 224" using that by simp
  have "isPrivateOrSpecialIP p \<longleftrightarrow>
      unat a = 127 \<or> unat a = 169 \<and> unat b = 254 \<or> unat a = 224 \<and> b = 0 \<and> c = 0 \<or> unat a div 16 = 14 \<or>
      a = 0 \<and> b = 0 \<and> c = 0 \<and> d = 0 \<or> unat a = 10 \<or> unat a = 172 \<and> unat b div 16 = 1 \<or> unat a = 192 \<and> unat b = 168"
    by (simp only: class4 [OF Some [unfolded q]] high_bits eqs)
  with m show "isPrivateOrSpecialIP p \<longleftrightarrow> (\<exists>blk \<in> set blocks4. in_block 32 ?v blk)"
    unfolding rhs by argo
qed

lemma guard_blocks6:
  assumes None: "To4 p = None" and True: "length p = 16"
  shows "isPrivateOrSpecialIP p \<longleftrightarrow> (\<exists>blk \<in> set blocks6. in_block 128 (ip_value p) blk)"
proof -
  let ?v = "ip_value p"
  have vals: "ip_value IPv6unspecified = 0" "ip_value IPv6loopback = 1"
    by (simp_all add: IPv6unspecified_def IPv6loopback_def ip_value_def eval_nat_numeral)
  have ends: "p = IPv6unspecified \<longleftrightarrow> ?v = 0" "p = IPv6loopback \<longleftrightarrow> ?v = 1"
    using ip_value_eq [of p IPv6unspecified] ip_value_eq [of p IPv6loopback] True
    by (simp_all add: vals) (simp_all add: IPv6unspecified_def IPv6loopback_def)
  have "(\<exists>blk \<in> set blocks6. in_block 128 ?v blk) \<longleftrightarrow>
      ?v = 0 \<or> ?v = 1 \<or> ?v div 2 ^ 121 = 126 \<or> ?v div 2 ^ 118 = 254 * 4 + 2 \<or> ?v div 2 ^ 120 = 255"
    by (simp add: blocks6_def in_block_def)
  moreover have "unat (p ! 0) * 4 + unat (p ! 1) div 64 = 254 * 4 + 2 \<longleftrightarrow>
      unat (p ! 0) = 254 \<and> unat (p ! 1) div 64 = 2"
    using unat_byte_bound [of "p ! 1"] by (intro two_digits) simp_all
  ultimately have rhs: "(\<exists>blk \<in> set blocks6. in_block 128 ?v blk) \<longleftrightarrow>
      ?v = 0 \<or> ?v = 1 \<or> unat (p ! 0) div 2 = 126 \<or> unat (p ! 0) = 254 \<and> unat (p ! 1) div 64 = 2 \<or>
      unat (p ! 0) = 255"
    by (simp only: sixteen_blocks [OF True])
  have eqs: "p ! 0 = 0xFE \<longleftrightarrow> unat (p ! 0) = 254" "p ! 0 = 0xFF \<longleftrightarrow> unat (p ! 0) = 255"
    by (simp_all add: word_unat_eq_iff)
  show ?thesis by (simp only: class6 [OF None True] rhs ends high_bits eqs)
qed

text \<open>
  C17. The bit tests of the guard are exactly a list of address blocks: an IPv4 address, in either
  of its two forms, is refused when it lies in 127/8, 10/8, 172.16/12, 192.168/16, 169.254/16 or
  224/4 or is 0.0.0.0; another address when it is \<open>::\<close> or \<open>::1\<close> or lies in fc00::/7, fe80::/10 or
  ff00::/8.  Every other address passes, among them the shared space 100.64/10, the rest of 0/8,
  and IPv4 addresses embedded in NAT64 or 6to4 ones.
\<close>

theorem guard_is_blocks:
  "isPrivateOrSpecialIP p \<longleftrightarrow>
    (case To4 p of
       Some q \<Rightarrow> (\<exists>blk \<in> set blocks4. in_block 32 (ip_value q) blk)
     | None \<Rightarrow> length p = 16 \<and> (\<exists>blk \<in> set blocks6. in_block 128 (ip_value p) blk))"
proof (cases "To4 p")
  case (Some q)
  show ?thesis unfolding guard_blocks4 [OF Some] by (simp only: Some option.case)
next
  case None
  show ?thesis
  proof (cases "length p = 16")
    case True
    show ?thesis unfolding guard_blocks6 [OF None True] by (simp only: None option.case True simp_thms)
  next
    case False
    with None have "length p \<noteq> 4" by (auto simp: To4_def split: if_splits)
    with None False show ?thesis
      by (auto simp: isPrivateOrSpecialIP_def ip_class_defs ip_Equal_def v4_prefix_def IPv6unspecified_def IPv6loopback_def)
  qed
qed

end
