(* ===== verification/Tools.thy ===== *)
theory Tools
  imports Media
begin

text \<open>
  The tool manager, \<open>internal/tools/manager.go\<close>: discovery of ffmpeg on the PATH, with a cache.
\<close>

section \<open>Version text\<close>

text \<open>The first line with the prefix and a word after it gives the version.\<close>

fun version_in :: "string list \<Rightarrow> string" where
  "version_in [] = []"
| "version_in (l # ls) =
     (if HasPrefix l ''ffmpeg version '' then
        (case strings_Fields (TrimPrefix l ''ffmpeg version '') of
           [] \<Rightarrow> version_in ls
         | f # fs \<Rightarrow> f)
      else version_in ls)"

definition parseFFmpegVersion :: "string \<Rightarrow> string" where
  "parseFFmpegVersion out = version_in (text_lines out)"

section \<open>Discovery\<close>

definition discoverFFmpeg :: "'e menv_scheme \<Rightarrow> 'm media_scheme \<Rightarrow> (gerror + tool) \<times> 'm media_scheme" where
  "discoverFFmpeg E w =
     (case look_path E (length (procs w)) of
        None \<Rightarrow> (Inl (errorf ''ffmpeg not on PATH'' (Sentinel ToolsErrNotFound)), w)
      | Some path \<Rightarrow>
          (case run_command E path [''-version''] w of
             ((out, Some e), w1) \<Rightarrow> (Inl (errorf ''ffmpeg version probe'' e), w1)
           | ((out, None), w1) \<Rightarrow>
               (Inr \<lparr>ToolID = ''ffmpeg'', ToolPath = path, ToolVersion = parseFFmpegVersion out\<rparr>, w1)))"

definition Locate ::
  "'e menv_scheme \<Rightarrow> string \<Rightarrow> 'm media_scheme \<Rightarrow> (gerror + tool) \<times> 'm media_scheme" where
  "Locate E toolID w =
     (case map_of (tool_cache w) toolID of
        Some t \<Rightarrow> (Inr t, w)
      | None \<Rightarrow>
          (if toolID = ''ffmpeg'' then
             (case discoverFFmpeg E w of
                (Inl e, w1) \<Rightarrow> (Inl e, w1)
              | (Inr t, w1) \<Rightarrow> (Inr t, w1\<lparr>tool_cache := (toolID, t) # tool_cache w1\<rparr>))
           else (Inl (errorf (''locate '' @ toolID) (Sentinel ErrUnknownTool)), w)))"

text \<open>
  A located tool stays: another call gives the same tool, starts no process and changes nothing,
  whatever happened to the PATH.  A failure is not cached.
\<close>

lemma Locate_cached:
  assumes "Locate E toolID w = (Inr t, w1)"
  shows "Locate E' toolID w1 = (Inr t, w1)"
  using assms
  by (auto simp: Locate_def discoverFFmpeg_def run_command_def
      split: option.splits if_splits prod.splits sum.splits)

lemma Locate_error: "Locate E toolID w = (Inl e, w1) \<Longrightarrow> tool_cache w1 = tool_cache w"
  by (auto simp: Locate_def discoverFFmpeg_def run_command_def
      split: option.splits if_splits prod.splits sum.splits)

end
