(* ===== verification/ClipVideo.thy ===== *)
theory ClipVideo
  imports Tools
begin

text \<open>
  The clip executor, \<open>internal/executors/clipvideo\<close>: the choice of an encoder (\<open>encoder.go\<close>), the
  ffmpeg command line (\<open>ffmpeg_args.go\<close>), the payload, and \<open>Execute\<close> (\<open>executor.go\<close>).
\<close>

section \<open>Encoders\<close>

definition FallbackEncoder :: encoder where
  "FallbackEncoder = \<lparr>Codec = ''libx264'', HW = False,
     EncArgs = [''-preset'', ''veryfast'', ''-crf'', ''20'', ''-tune'', ''fastdecode'']\<rparr>"

record candidate =
  cand_codec :: string
  cand_hw :: bool
  cand_args :: "string list"
  cand_platform :: string

definition priorityOrder :: "candidate list" where
  "priorityOrder =
     [\<lparr>cand_codec = ''h264_nvenc'', cand_hw = True,
       cand_args = [''-preset'', ''p4'', ''-tune'', ''hq'', ''-rc'', ''vbr'', ''-cq'', ''23'', ''-b:v'', ''0''],
       cand_platform = []\<rparr>,
      \<lparr>cand_codec = ''h264_amf'', cand_hw = True,
       cand_args = [''-quality'', ''balanced'', ''-rc'', ''cqp'', ''-qp_i'', ''22'', ''-qp_p'', ''24'', ''-qp_b'', ''26''],
       cand_platform = ''windows''\<rparr>,
      \<lparr>cand_codec = ''h264_qsv'', cand_hw = True,
       cand_args = [''-preset'', ''medium'', ''-global_quality'', ''22'', ''-look_ahead'', ''0''],
       cand_platform = []\<rparr>,
      \<lparr>cand_codec = ''h264_videotoolbox'', cand_hw = True,
       cand_args = [''-q:v'', ''60'', ''-allow_sw'', ''1''],
       cand_platform = ''darwin''\<rparr>]"

text \<open>The wanted names among the words of the encoder list.\<close>

definition listed_in :: "string \<Rightarrow> string set" where
  "listed_in out = {f. f \<in> set (concat (map strings_Fields (text_lines out))) \<and> f \<in> cand_codec ` set priorityOrder}"

definition listEncoders ::
  "'e menv_scheme \<Rightarrow> string \<Rightarrow> 'm media_scheme \<Rightarrow> (gerror + string set) \<times> 'm media_scheme" where
  "listEncoders E ffmpegPath w =
     (case run_command E ffmpegPath [''-hide_banner'', ''-encoders''] w of
        ((out, Some e), w1) \<Rightarrow>
          (Inl (Wrap (''ffmpeg -encoders: '' @ err_text e @ '' (output: '' @ tail out 256 @ '')'') e), w1)
      | ((out, None), w1) \<Rightarrow> (Inr (listed_in out), w1))"

definition probe_args :: "candidate \<Rightarrow> string list" where
  "probe_args c =
     [''-hide_banner'', ''-loglevel'', ''error'', ''-f'', ''lavfi'',
      ''-i'', ''color=size=64x64:rate=1:duration=0.1'', ''-c:v'', cand_codec c] @
     cand_args c @ [''-f'', ''null'', ''-'']"

definition probeEncoder ::
  "'e menv_scheme \<Rightarrow> string \<Rightarrow> candidate \<Rightarrow> 'm media_scheme \<Rightarrow> bool \<times> 'm media_scheme" where
  "probeEncoder E ffmpegPath c w =
     (case run_command E ffmpegPath (probe_args c) w of ((out, err), w1) \<Rightarrow> (err = None, w1))"

definition encoder_of :: "candidate \<Rightarrow> encoder" where
  "encoder_of c = \<lparr>Codec = cand_codec c, HW = cand_hw c, EncArgs = cand_args c\<rparr>"

fun probe_candidates ::
  "'e menv_scheme \<Rightarrow> string \<Rightarrow> string set \<Rightarrow> candidate list \<Rightarrow> 'm media_scheme \<Rightarrow> encoder \<times> 'm media_scheme" where
  "probe_candidates E ffmpegPath listed [] w = (FallbackEncoder, w)"
| "probe_candidates E ffmpegPath listed (c # cs) w =
     (if cand_platform c \<noteq> [] \<and> cand_platform c \<noteq> goos E then probe_candidates E ffmpegPath listed cs w
      else if cand_codec c \<notin> listed then probe_candidates E ffmpegPath listed cs w
      else (case probeEncoder E ffmpegPath c w of (ok, w1) \<Rightarrow>
        if ok then (encoder_of c, w1) else probe_candidates E ffmpegPath listed cs w1))"

definition SelectEncoder ::
  "'e menv_scheme \<Rightarrow> string \<Rightarrow> 'm media_scheme \<Rightarrow> (encoder \<times> gerror option) \<times> 'm media_scheme" where
  "SelectEncoder E ffmpegPath w =
     (case listEncoders E ffmpegPath w of
        (Inl e, w1) \<Rightarrow> ((FallbackEncoder, Some (errorf ''list encoders'' e)), w1)
      | (Inr listed, w1) \<Rightarrow>
          (case probe_candidates E ffmpegPath listed priorityOrder w1 of (enc, w2) \<Rightarrow> ((enc, None), w2)))"

section \<open>The payload\<close>

record ClipSpec =
  Index :: int
  StartSeconds :: rat
  EndSeconds :: rat
  Title :: string

record clip_payload =
  MasterVideoURL :: string
  TargetAspect :: string
  ClipSpecs :: "ClipSpec list"

text \<open>
  \<open>json.Marshal\<close> of a decoded map: keys sorted, the last of equal keys, numbers as the \<open>float64\<close> they
  became.
\<close>

definition sort_keys :: "(string \<times> json) list \<Rightarrow> (string \<times> json) list" where
  "sort_keys kvs = map (\<lambda>k. (k, the (map_of (rev kvs) k))) (sort (remdups (map fst kvs)))"

primrec remarshal :: "(rat \<Rightarrow> json) \<Rightarrow> json \<Rightarrow> json" where
  "remarshal f JNull = JNull"
| "remarshal f (JBool b) = JBool b"
| "remarshal f (JInt n) = f (of_int n)"
| "remarshal f (JReal x) = f x"
| "remarshal f (JText s) = JText s"
| "remarshal f (JList js) = JList (map (remarshal f) js)"
| "remarshal f (JObj kvs) = JObj (sort_keys (map (map_prod (\<lambda>k. k) (remarshal f)) kvs))"

definition dec_float :: "'e menv_scheme \<Rightarrow> rat decoder" where
  "dec_float E v j =
     (let fin = (\<lambda>x. case float64 E x of Fin y \<Rightarrow> Some y | NonFin \<Rightarrow> None) in
      case j of JNull \<Rightarrow> Some v | JInt n \<Rightarrow> fin (of_int n) | JReal x \<Rightarrow> fin x | _ \<Rightarrow> None)"

fun dec_each :: "'a decoder \<Rightarrow> 'a \<Rightarrow> json list \<Rightarrow> 'a list option" where
  "dec_each dec zero [] = Some []"
| "dec_each dec zero (j # js) =
     (case dec zero j of None \<Rightarrow> None | Some v \<Rightarrow> map_option ((#) v) (dec_each dec zero js))"

definition dec_slice :: "'a decoder \<Rightarrow> 'a \<Rightarrow> 'a list decoder" where
  "dec_slice dec zero v j =
     (case j of JNull \<Rightarrow> Some [] | JList js \<Rightarrow> dec_each dec zero js | _ \<Rightarrow> None)"

definition zero_spec :: ClipSpec where
  "zero_spec = \<lparr>Index = 0, StartSeconds = 0, EndSeconds = 0, Title = []\<rparr>"

definition zero_payload :: clip_payload where
  "zero_payload = \<lparr>MasterVideoURL = [], TargetAspect = [], ClipSpecs = []\<rparr>"

definition dec_spec :: "'e menv_scheme \<Rightarrow> ClipSpec decoder" where
  "dec_spec E = dec_struct (\<lambda>v kvs.
     case (dec_field ''index'' dec_int (Index v) kvs,
           dec_field ''start_seconds'' (dec_float E) (StartSeconds v) kvs,
           dec_field ''end_seconds'' (dec_float E) (EndSeconds v) kvs,
           dec_field ''title'' dec_string (Title v) kvs) of
       (Some i, Some a, Some b, Some t) \<Rightarrow> Some \<lparr>Index = i, StartSeconds = a, EndSeconds = b, Title = t\<rparr>
     | _ \<Rightarrow> None)"

definition dec_payload :: "'e menv_scheme \<Rightarrow> clip_payload decoder" where
  "dec_payload E = dec_struct (\<lambda>v kvs.
     case (dec_field ''master_video_url'' dec_string (MasterVideoURL v) kvs,
           dec_field ''target_aspect'' dec_string (TargetAspect v) kvs,
           dec_field ''clip_specs'' (dec_slice (dec_spec E) zero_spec) (ClipSpecs v) kvs) of
       (Some u, Some a, Some cs) \<Rightarrow> Some \<lparr>MasterVideoURL = u, TargetAspect = a, ClipSpecs = cs\<rparr>
     | _ \<Rightarrow> None)"

definition decodePayload ::
  "'e menv_scheme \<Rightarrow> 'a decoder \<Rightarrow> 'a \<Rightarrow> (string \<times> json) list option \<Rightarrow> gerror + 'a" where
  "decodePayload E dec zero payload =
     (case dec zero (case payload of None \<Rightarrow> JNull | Some kvs \<Rightarrow> remarshal (renumber E) (JObj kvs)) of
        None \<Rightarrow> Inl (Plain ''json: cannot unmarshal'')
      | Some p \<Rightarrow> Inr p)"

text \<open>The checks before anything is done, and the default aspect.\<close>

definition check_payload :: "'e menv_scheme \<Rightarrow> workload \<Rightarrow> gerror + clip_payload" where
  "check_payload E wl =
     (case decodePayload E (dec_payload E) zero_payload (wl_Payload wl) of
        Inl e \<Rightarrow> Inl (errorf ''decode payload'' e)
      | Inr p \<Rightarrow>
          (if ClipSpecs p = [] then Inl (Plain ''clip-video: no clip specs in payload'')
           else if MasterVideoURL p = [] then Inl (Plain ''clip-video: master_video_url required'')
           else
             (let aspect = (if TargetAspect p = [] then ''16:9'' else TargetAspect p) in
              if aspect \<noteq> ''16:9'' \<and> aspect \<noteq> ''9:16''
              then Inl (Plain (''clip-video: unsupported target_aspect '' @ quoted E aspect))
              else Inr (p\<lparr>TargetAspect := aspect\<rparr>))))"

section \<open>The command line\<close>

definition blur_graph :: string where
  "blur_graph = ''split[v1][v2];'' @
     ''[v1]scale=1080:1920:force_original_aspect_ratio=increase,'' @
     ''crop=1080:1920,boxblur=10:1[bg];'' @
     ''[v2]scale=1080:1920:force_original_aspect_ratio=decrease[fg];'' @
     ''[bg][fg]overlay=(W-w)/2:(H-h)/2''"

definition cut_args :: "string \<Rightarrow> ClipSpec \<Rightarrow> string list" where
  "cut_args master spec =
     [''-y'', ''-ss'', fmt3f (StartSeconds spec), ''-to'', fmt3f (EndSeconds spec), ''-i'', master]"

definition buildFFmpegArgs :: "string \<Rightarrow> string \<Rightarrow> ClipSpec \<Rightarrow> string \<Rightarrow> encoder \<Rightarrow> string list" where
  "buildFFmpegArgs master dst spec aspect enc =
     (if aspect = ''9:16'' then
        cut_args master spec @ [''-vf'', blur_graph, ''-c:v'', Codec enc] @ EncArgs enc @
        [''-pix_fmt'', ''yuv420p'', ''-c:a'', ''aac'', ''-b:a'', ''128k'', ''-movflags'', ''+faststart'', dst]
      else cut_args master spec @ [''-c'', ''copy'', ''-movflags'', ''+faststart'', dst])"

section \<open>Execute\<close>

definition dec_resumable :: "int list decoder" where
  "dec_resumable = dec_struct (dec_field ''completed_clip_indices'' (dec_slice dec_int 0))"

definition resumable_json :: "int list \<Rightarrow> json" where
  "resumable_json rs = JObj [(''completed_clip_indices'', JList (map JInt rs))]"

text \<open>
  The state as read at the start; a failure to load it counts as no state.  (Of JSON of another shape,
  which no version of the program writes, \<open>encoding/json\<close> could have filled in a part before it failed.)
\<close>

definition load_completed ::
  "'e menv_scheme \<Rightarrow> job_handle \<Rightarrow> 'm media_scheme \<Rightarrow> int list \<times> 'm media_scheme" where
  "load_completed E h w =
     (case LoadResumableState E h dec_resumable [] w of
        (Inl e, w1) \<Rightarrow> ([], w1)
      | (Inr rs, w1) \<Rightarrow> (rs, w1))"

text \<open>\<open>encOnce.Do\<close>: the first call chooses, for the life of the executor.\<close>

definition choose_encoder ::
  "'e menv_scheme \<Rightarrow> job_handle \<Rightarrow> string \<Rightarrow> 'm media_scheme \<Rightarrow> encoder \<times> 'm media_scheme" where
  "choose_encoder E h ffmpegPath w =
     (case enc_once w of
        Some enc \<Rightarrow> (enc, w)
      | None \<Rightarrow>
          (case SelectEncoder E ffmpegPath w of
             ((enc, Some e), w1) \<Rightarrow>
               (FallbackEncoder, (snd (handle_AppendEvent E h ''log'' ''encoder probe failed, using libx264''
                  (Some (JObj [(''error'', JText (err_text e))])) w1))\<lparr>enc_once := Some FallbackEncoder\<rparr>)
           | ((enc, None), w1) \<Rightarrow>
               (enc, (snd (handle_AppendEvent E h ''log'' ''encoder selected''
                  (Some (JObj [(''codec'', JText (Codec enc)), (''hw'', JBool (HW enc))])) w1))\<lparr>enc_once := Some enc\<rparr>)))"

definition downloadFile ::
  "'e menv_scheme \<Rightarrow> string \<Rightarrow> string \<Rightarrow> 'm media_scheme \<Rightarrow> gerror option \<times> 'm media_scheme" where
  "downloadFile E u dst w = stream_to_file E ''new req'' u dst w"

definition master_path :: "job_handle \<Rightarrow> string" where
  "master_path h = path_join [jh_workDir h, ''master.mp4'']"

definition fetch_master ::
  "'e menv_scheme \<Rightarrow> job_handle \<Rightarrow> string \<Rightarrow> 'm media_scheme \<Rightarrow> gerror option \<times> 'm media_scheme" where
  "fetch_master E h u w =
     (case os_Stat E (master_path h) w of (st, w1) \<Rightarrow>
        if st \<noteq> NotExist then (None, w1)
        else (case downloadFile E u (master_path h) w1 of
            (Some e, w2) \<Rightarrow> (Some (errorf ''clip-video: download master'' e), w2)
          | (None, w2) \<Rightarrow> (None, snd (handle_AppendEvent E h ''log'' ''master downloaded'' None w2))))"

definition clip_name :: "int \<Rightarrow> string" where
  "clip_name i = ''clip-'' @ itoa i @ ''.mp4''"

text \<open>The metadata of a clip; the difference of two \<open>float64\<close> may overflow.\<close>

definition clip_meta :: "'e menv_scheme \<Rightarrow> string \<Rightarrow> ClipSpec \<Rightarrow> (string \<times> json) list option" where
  "clip_meta E aspect spec =
     (case float64 E (EndSeconds spec - StartSeconds spec) of
        NonFin \<Rightarrow> None
      | Fin d \<Rightarrow> Some [(''aspect'', JText aspect), (''duration_sec'', JReal d),
                   (''hook_index'', JInt (Index spec)), (''title'', JText (Title spec))])"

definition make_clip ::
  "'e menv_scheme \<Rightarrow> cloud_client option \<Rightarrow> job_handle \<Rightarrow> string \<Rightarrow> string \<Rightarrow> encoder \<Rightarrow> ClipSpec \<Rightarrow>
     'm media_scheme \<Rightarrow> gerror option \<times> 'm media_scheme" where
  "make_clip E cl h ffmpegPath aspect enc spec w =
     (let clipPath = path_join [jh_workDir h, clip_name (Index spec)] in
      case run_command E ffmpegPath (buildFFmpegArgs (master_path h) clipPath spec aspect enc) w of
        ((out, Some e), w1) \<Rightarrow>
          (Some (errorf (''clip-video: ffmpeg index '' @ itoa (Index spec)) e),
           snd (handle_AppendEvent E h ''error'' ''ffmpeg failed''
             (Some (JObj [(''index'', JInt (Index spec)), (''stderr_tail'', JText (tail out 1024))])) w1))
      | ((out, None), w1) \<Rightarrow>
          (case os_Stat E clipPath w1 of (st, w2) \<Rightarrow>
          (case os_Open E clipPath w2 of
             (Inl e, w3) \<Rightarrow> (Some (errorf (''clip-video: open output '' @ itoa (Index spec)) e), w3)
           | (Inr content, w3) \<Rightarrow>
               (case AddOutput E cl h ''video_clip'' (clip_name (Index spec)) content
                       (case stat_size st of None \<Rightarrow> 0 | Some n \<Rightarrow> n) (clip_meta E aspect spec) w3 of
                  (Some e, w4) \<Rightarrow> (Some (errorf (''clip-video: upload output '' @ itoa (Index spec)) e), w4)
                | (None, w4) \<Rightarrow> (None, w4)))))"

definition clip_progress :: "'e menv_scheme \<Rightarrow> nat \<Rightarrow> nat \<Rightarrow> progress_event" where
  "clip_progress E i clips =
     \<lparr>Fraction = float64 E (of_nat (i + 1) / of_nat clips), Stage = ''encoded'',
      Detail = ''clip '' @ itoa (int i + 1) @ '' of '' @ itoa (int clips)\<rparr>"

text \<open>
  The loop, \<open>rs\<close> the completed indices: the code's \<open>done\<close> map is their set throughout.
\<close>

fun clip_loop ::
  "'e menv_scheme \<Rightarrow> cloud_client option \<Rightarrow> job_handle \<Rightarrow> string \<Rightarrow> string \<Rightarrow> encoder \<Rightarrow> nat \<Rightarrow> nat \<Rightarrow> int list \<Rightarrow>
     ClipSpec list \<Rightarrow> 'm media_scheme \<Rightarrow> gerror option \<times> 'm media_scheme" where
  "clip_loop E cl h ffmpegPath aspect enc clips i rs [] w = (None, w)"
| "clip_loop E cl h ffmpegPath aspect enc clips i rs (spec # specs) w =
     (case ctx_err E w of
        Some e \<Rightarrow> (Some e, w)
      | None \<Rightarrow>
          (if Index spec \<in> set rs then clip_loop E cl h ffmpegPath aspect enc clips (Suc i) rs specs w
           else (case make_clip E cl h ffmpegPath aspect enc spec w of
               (Some e, w1) \<Rightarrow> (Some e, w1)
             | (None, w1) \<Rightarrow>
                 (let rs' = rs @ [Index spec];
                      w2 = snd (SaveResumableState E h (resumable_json rs') w1)
                  in clip_loop E cl h ffmpegPath aspect enc clips (Suc i) rs' specs
                       (push_progress E (clip_progress E i clips) w2)))))"

definition clip_Execute ::
  "'e menv_scheme \<Rightarrow> cloud_client option \<Rightarrow> job_handle \<Rightarrow> 'm media_scheme \<Rightarrow> gerror option \<times> 'm media_scheme" where
  "clip_Execute E cl h w =
     (case check_payload E (jh_wl h) of
        Inl e \<Rightarrow> (Some e, w)
      | Inr p \<Rightarrow>
          (case load_completed E h w of (rs, w1) \<Rightarrow>
          (case Locate E ''ffmpeg'' w1 of
             (Inl e, w2) \<Rightarrow> (Some (errorf ''clip-video: locate ffmpeg'' e), w2)
           | (Inr ff, w2) \<Rightarrow>
               (let w3 = snd (handle_AppendEvent E h ''log'' ''ffmpeg located''
                      (Some (JObj [(''path'', JText (ToolPath ff)), (''version'', JText (ToolVersion ff))])) w2)
                in case choose_encoder E h (ToolPath ff) w3 of (enc, w4) \<Rightarrow>
                  (case fetch_master E h (MasterVideoURL p) w4 of
                     (Some e, w5) \<Rightarrow> (Some e, w5)
                   | (None, w5) \<Rightarrow>
                       clip_loop E cl h (ToolPath ff) (TargetAspect p) enc (length (ClipSpecs p)) 0 rs
                         (ClipSpecs p) w5)))))"

definition clip_executor :: "'e menv_scheme \<Rightarrow> cloud_client option \<Rightarrow> ('m media_scheme) executor" where
  "clip_executor E cl =
     \<lparr>ex_ID = ''video:clip'',
      ex_CanRun = (\<lambda>wl. wl_Type wl = ''video:clip'' \<and> wl_Version wl \<le> 1),
      ex_Estimate = (\<lambda>wl. \<lparr>CPUCores = 3 / 2, RAMBytes = 1024 * 1024 * 1024,
        DiskBytes = 2 * 1024 * 1024 * 1024, GPU = False, Duration = 90 * second\<rparr>),
      ex_Execute = clip_Execute E cl\<rparr>"

end
