(* ===== verification/SchedRun.thy ===== *)
theory SchedRun
  imports SchedTick
begin

text \<open>
  What the scheduler does with a claimed workload: the reconciliation with the local table, the
  run with its terminal report and local status, and what a restart leaves of it.
\<close>

section \<open>Finding or making the job\<close>

lemma upsert_lookup:
  "upsertJobForWorkload E D wl lease w =
     (case GetByWorkloadID E (wl_ID wl) (db w) of
        (Inl e, s) \<Rightarrow>
          (if \<not> errors_is e ErrNotFound then surrender_store_error E D wl lease (w\<lparr>db := s\<rparr>)
           else
             (case CreateJob E (new_job_input E (uuid E (uuids w)) wl lease) s of
                (Inl e', s') \<Rightarrow> surrender_store_error E D wl lease (w\<lparr>uuids := Suc (uuids w), db := s'\<rparr>)
              | (Inr u, s') \<Rightarrow> (Some (uuid E (uuids w), 1), w\<lparr>uuids := Suc (uuids w), db := s'\<rparr>)))
      | (Inr existing, s) \<Rightarrow>
          (if job_status existing = StatusQueued \<or> job_status existing = StatusRunning
           then take_over E D wl lease (jid existing) (w\<lparr>db := s\<rparr>)
           else if job_status existing = StatusSucceeded
           then (None, snd (Complete E (DepCloud D) (wl_ID wl) (LeaseTok lease)
             [(''executor_id'', JText []), (''local_status'', JText ''already_succeeded'')] (w\<lparr>db := s\<rparr>)))
           else (None, snd (Fail E (DepCloud D) (wl_ID wl) (LeaseTok lease)
             (''local_already_attempted: '' @ job_status existing) False (w\<lparr>db := s\<rparr>)))))"
  by (auto simp: upsertJobForWorkload_def on_db_def new_uuid_def split: prod.splits sum.splits)

lemma GetByWorkloadID_InrD:
  assumes "GetByWorkloadID E i s = (Inr j, t)"
  shows "t = tick s \<and> (\<exists>r \<in> set (jobs s). workload_id r = i \<and> jid j = jid r \<and> job_status j = job_status r)"
proof -
  have calm: "db_fault E (stmts s) = None"
    using assms by (cases "db_fault E (stmts s)")
      (auto simp: GetByWorkloadID_def query_job_def exec_stmt_fault)
  from assms obtain r where r: "find (\<lambda>r. workload_id r = i) (jobs s) = Some r"
    and j: "scan_job E r = Inr j" and t: "t = tick s"
    by (auto simp: GetByWorkloadID_ok [OF calm] split: option.splits sum.splits)
  from find_Some_set [OF r] scan_job_cols [OF j] t show ?thesis by auto
qed

lemma tables_db [simp]: "tables (tick s) = tables s" by simp

lemma surrender_store_error_db [simp]:
  "fst (surrender_store_error E D wl lease w) = None" "db (snd (surrender_store_error E D wl lease w)) = db w"
  by (simp_all add: surrender_store_error_def)

lemma surrender_store_errorD:
  "surrender_store_error E D wl lease w = (r, w') \<Longrightarrow> r = None \<and> db w' = db w"
  using surrender_store_error_db [of E D wl lease w] by simp

lemma scan_job_total:
  assumes "\<And>t. db_scan_time E t \<noteq> None"
  shows "\<exists>j. scan_job E r = Inr j"
proof (cases "lease_expires_at r")
  case (Some t)
  obtain t' where "db_scan_time E t = Some t'" using assms by blast
  with Some show ?thesis by (simp add: scan_job_def Let_def)
qed (simp add: scan_job_def Let_def)

text \<open>The prepared row.\<close>

definition prepared :: "string \<Rightarrow> workload \<Rightarrow> lease_dto \<Rightarrow> row \<Rightarrow> bool" where
  "prepared j wl lease x \<longleftrightarrow> jid x = j \<and> workload_id x = wl_ID wl \<and>
     (job_status x = StatusQueued \<or> job_status x = StatusRunning) \<and>
     lease_token x = nullStr (LeaseTok lease) \<and> lease_expires_at x = nullTime (LeaseExpires lease)"

lemma take_over_result:
  assumes run: "take_over E D wl lease j w = (r, w')" and x: "x \<in> set (jobs (db w))" "jid x = j"
    and wid: "workload_id x = wl_ID wl" and st: "job_status x = StatusQueued \<or> job_status x = StatusRunning"
  shows "case r of None \<Rightarrow> tables (db w') = tables (db w)
    | Some (i, n) \<Rightarrow> i = j \<and> sent w' = sent w \<and> (\<exists>y \<in> set (jobs (db w')). prepared j wl lease y) \<and>
        (\<exists>f. jobs (db w') = set_row j f (jobs (db w))) \<and> events (db w') = events (db w) \<and>
        attempts (db w') = attempts (db w) \<and> safe (db w) (db w')"
proof -
  obtain q s where q: "UpdateLease E j (LeaseTok lease) (LeaseExpires lease) (db w) = (q, s)" by fastforce
  note res = update_job_result [OF q [unfolded UpdateLease_def]]
  have safe1: "safe (db w) s" using UpdateLease_safe [of "db w" E j] q by (metis snd_conv)
  obtain p s' where p: "AttemptCount E j s = (p, s')" by fastforce
  with AttemptCount_tables [of E j s] have s': "s' = tick s" by simp
  show ?thesis
  proof (cases q)
    case (Inl e)
    with res have s: "s = tick (db w)" by auto
    have "r = None" "db w' = s"
      using run q Inl surrender_store_error_db [of E D wl lease "w\<lparr>db := s\<rparr>"]
      by (simp_all add: take_over_def on_db_def prod_eq_iff [symmetric])
    with s show ?thesis by simp
  next
    case (Inr u)
    let ?f = "\<lambda>r. r\<lparr>lease_token := nullStr (LeaseTok lease), lease_expires_at := nullTime (LeaseExpires lease),
        updated_at := db_now E (stmts (db w))\<rparr>"
    from res Inr have jobs: "jobs s = set_row j ?f (jobs (db w))"
      and rest: "events s = events (db w)" "attempts s = attempts (db w)" by auto
    have w': "w' = w\<lparr>db := tick s\<rparr>" and r: "\<exists>n. r = Some (j, n)"
      using run q Inr p s' by (auto simp: take_over_def on_db_def)
    have "?f x \<in> set (jobs (db w'))"
      using x jobs w' by (force simp: set_row_def)
    moreover have "prepared j wl lease (?f x)" using x wid st by (simp add: prepared_def)
    moreover have "safe (db w) (tick s)" using safe1 by (rule safe_trans) simp
    ultimately show ?thesis using r w' jobs rest by auto
  qed
qed

lemma filter_key_single:
  "distinct (map f xs) \<Longrightarrow> x \<in> set xs \<Longrightarrow> filter (\<lambda>y. f y = f x) xs = [x]"
proof (induction xs)
  case (Cons a xs)
  then show ?case
    by (cases "x = a") (auto simp: filter_empty_conv, (metis image_eqI)+)
qed simp

lemma CreateJob_result:
  "CreateJob E i s = (r, t) \<Longrightarrow> (\<exists>e. r = Inl e \<and> t = tick s) \<or>
     (r = Inr () \<and> t = (tick s)\<lparr>jobs := jobs s @ [row_of_input i (db_now E (stmts s))]\<rparr>)"
proof (cases r)
  case (Inl e)
  assume "CreateJob E i s = (r, t)"
  with Inl show ?thesis
    by (auto simp: CreateJob_def split: prod.splits sum.splits dest!: exec_stmt_InlD)
next
  case (Inr u)
  assume "CreateJob E i s = (r, t)"
  with Inr CreateJob_InrD show ?thesis by auto
qed

text \<open>What the reconciliation has done between \<open>w\<close> and \<open>w'\<close> when it gives \<open>r\<close>.\<close>

definition upsert_outcome ::
  "workload \<Rightarrow> lease_dto \<Rightarrow> 'd daemon_scheme \<Rightarrow> (string \<times> int) option \<Rightarrow> 'd daemon_scheme \<Rightarrow> bool" where
  "upsert_outcome wl lease w r w' \<longleftrightarrow> (case r of None \<Rightarrow> tables (db w') = tables (db w)
    | Some (j, n) \<Rightarrow> sent w' = sent w \<and> safe (db w) (db w') \<and>
        (\<exists>y \<in> set (jobs (db w')). prepared j wl lease y) \<and>
        ((\<exists>f. jobs (db w') = set_row j f (jobs (db w))) \<or> (\<exists>y. jobs (db w') = jobs (db w) @ [y] \<and> jid y = j \<and> n = 1)) \<and>
        events (db w') = events (db w) \<and> attempts (db w') = attempts (db w))"

lemma upsert_existing:
  assumes run: "upsertJobForWorkload E D wl lease w = (r, w')" and q: "GetByWorkloadID E (wl_ID wl) (db w) = (Inr existing, s)"
  shows "upsert_outcome wl lease w r w'"
proof -
  from GetByWorkloadID_InrD [OF q] obtain x where s: "s = tick (db w)" and x: "x \<in> set (jobs (db w))"
    "workload_id x = wl_ID wl" "jid existing = jid x" "job_status existing = job_status x" by auto
  show ?thesis
  proof (cases "job_status existing = StatusQueued \<or> job_status existing = StatusRunning")
    case True
    with run q have tk: "take_over E D wl lease (jid existing) (w\<lparr>db := s\<rparr>) = (r, w')"
      by (simp add: upsert_lookup)
    have "safe (db w) s" using s by simp
    with take_over_result [OF tk, of x] x True s show ?thesis
      unfolding upsert_outcome_def by (auto split: option.splits intro: safe_trans [OF safe_tick])
  next
    case False
    with run q s show ?thesis by (auto simp: upsert_lookup upsert_outcome_def split: if_splits)
  qed
qed

lemma upsert_created:
  assumes run: "upsertJobForWorkload E D wl lease w = (r, w')" and q: "GetByWorkloadID E (wl_ID wl) (db w) = (Inl e, s)"
    and True: "errors_is e ErrNotFound" and s: "s = tick (db w)"
  shows "upsert_outcome wl lease w r w'"
proof -
  let ?i = "new_job_input E (uuid E (uuids w)) wl lease"
  obtain p t where p: "CreateJob E ?i s = (p, t)" by fastforce
  have safe1: "safe s t" using CreateJob_safe [of s E ?i] p by simp
  from CreateJob_result [OF p] show ?thesis
  proof (elim disjE exE conjE)
    fix e' assume e': "p = Inl e'" "t = tick s"
    with run q True p have "surrender_store_error E D wl lease (w\<lparr>uuids := Suc (uuids w), db := t\<rparr>) = (r, w')"
      by (simp add: upsert_lookup)
    with s e' show ?thesis by (auto simp: upsert_outcome_def dest!: surrender_store_errorD)
  next
    assume ok: "p = Inr ()" "t = (tick s)\<lparr>jobs := jobs s @ [row_of_input ?i (db_now E (stmts s))]\<rparr>"
    let ?y = "row_of_input ?i (db_now E (stmts s))"
    from ok run q True p have r: "r = Some (uuid E (uuids w), 1)" and w': "w' = w\<lparr>uuids := Suc (uuids w), db := t\<rparr>"
      by (auto simp: upsert_lookup)
    have "prepared (uuid E (uuids w)) wl lease ?y"
      by (simp add: prepared_def row_of_input_def new_job_input_def)
    moreover have "safe (db w) t" using s safe1 by (simp add: safe_trans [OF safe_tick])
    moreover have "jid ?y = uuid E (uuids w)" by (simp add: row_of_input_def new_job_input_def)
    ultimately show ?thesis using r w' ok s by (auto simp: upsert_outcome_def)
  qed
qed

lemma upsert_result:
  assumes run: "upsertJobForWorkload E D wl lease w = (r, w')"
  shows "upsert_outcome wl lease w r w'"
proof -
  obtain q s where q: "GetByWorkloadID E (wl_ID wl) (db w) = (q, s)" by fastforce
  with GetByWorkloadID_tables [of E "wl_ID wl" "db w"] have s: "s = tick (db w)" by simp
  show ?thesis
  proof (cases q)
    case (Inr x)
    with run q show ?thesis using upsert_existing by blast
  next
    case (Inl e)
    show ?thesis
    proof (cases "errors_is e ErrNotFound")
      case True
      then show ?thesis using upsert_created [OF run q [unfolded Inl] _ s] by blast
    next
      case False
      with run q Inl have "surrender_store_error E D wl lease (w\<lparr>db := s\<rparr>) = (r, w')"
        by (simp add: upsert_lookup)
      with s show ?thesis by (auto simp: upsert_outcome_def dest!: surrender_store_errorD)
    qed
  qed
qed

text \<open>
  C9. Reconciling a claimed workload with the local table, whatever the database and the cloud
  answer: either nothing is to be run, and then no table has changed; or the job to run is a
  row for this workload, queued or running, holding the new lease, and either that row was
  added as the first attempt or it is the only one that was rewritten.  The tables stay
  well-formed, and the cloud is told nothing in that case.
\<close>

theorem upsert_prepares_job:
  assumes wf: "store_wf (db w)" and run: "upsertJobForWorkload E D wl lease w = (r, w')"
  shows "case r of None \<Rightarrow> tables (db w') = tables (db w)
    | Some (j, n) \<Rightarrow> store_wf (db w') \<and> sent w' = sent w \<and>
        (\<exists>y. filter (\<lambda>x. workload_id x = wl_ID wl) (jobs (db w')) = [y] \<and> jid y = j \<and>
           job_status y \<in> {StatusQueued, StatusRunning} \<and> lease_token y = nullStr (LeaseTok lease) \<and>
           lease_expires_at y = nullTime (LeaseExpires lease)) \<and>
        ((\<exists>f. jobs (db w') = set_row j f (jobs (db w))) \<or> (\<exists>y. jobs (db w') = jobs (db w) @ [y] \<and> jid y = j \<and> n = 1)) \<and>
        events (db w') = events (db w) \<and> attempts (db w') = attempts (db w)"
proof (cases r)
  case None
  with upsert_result [OF run, unfolded upsert_outcome_def] show ?thesis by simp
next
  case (Some p)
  obtain j n where p: "p = (j, n)" by fastforce
  note res = upsert_result [OF run, unfolded upsert_outcome_def Some p, simplified]
  then have wf': "store_wf (db w')" using wf by (auto simp: safe_def)
  from res obtain y where y: "y \<in> set (jobs (db w'))" "prepared j wl lease y" by auto
  have "distinct (map workload_id (jobs (db w')))" using wf' by (simp add: store_wf_def)
  from filter_key_single [OF this y(1)] y(2)
  have "filter (\<lambda>x. workload_id x = wl_ID wl) (jobs (db w')) = [y]" by (simp add: prepared_def)
  with res wf' y(2) Some p show ?thesis by (auto simp: prepared_def)
qed

text \<open>The table with the job of the sample workload, made under an earlier lease.\<close>

definition claimed_row :: "string \<Rightarrow> row" where
  "claimed_row st = \<lparr>jid = ''j1'', workload_id = ''wl'', organization_id = ''org'', workload_type = ''video:clip'',
     workload_version = 1, payload_json = ''{}'', job_status = st, lease_token = Some ''old'',
     lease_expires_at = Some far_time, resumable_state = None, created_at = ''t0'', updated_at = ''t0''\<rparr>"

definition claimed_store :: "string \<Rightarrow> store" where
  "claimed_store st = \<lparr>jobs = [claimed_row st], events = [], attempts = [], ev_seq = 0, at_seq = 0, stmts = 0\<rparr>"

lemma claimed_store_wf: "st \<in> set all_statuses \<Longrightarrow> store_wf (claimed_store st)"
  by (simp add: claimed_store_def claimed_row_def store_wf_def)

theorem upsert_prepares_job_witness:
  "\<exists>w' j n y. upsertJobForWorkload working_env (sample_deps sample_registry) sample_workload sample_lease
      (sample_daemon signed_in NoItem (claimed_store StatusQueued)) = (Some (j, n), w') \<and>
    jobs (db w') = [y] \<and> lease_token y = Some ''lt''"
proof -
  let ?w = "sample_daemon signed_in NoItem (claimed_store StatusQueued)"
  obtain r w' where run: "upsertJobForWorkload working_env (sample_deps sample_registry) sample_workload sample_lease ?w
      = (r, w')" by fastforce
  have wf: "store_wf (db ?w)" by (simp add: claimed_store_wf all_statuses_def)
  have "r \<noteq> None"
    using run by (auto simp: upsert_lookup GetByWorkloadID_ok claimed_store_def claimed_row_def
        sample_workload_def scan_job_def take_over_def on_db_def UpdateLease_def update_job_def exec_stmt_ok
        sql_defs split: prod.splits)
  then obtain j n where r: "r = Some (j, n)" by auto
  have jobs0: "jobs (db ?w) = [claimed_row StatusQueued]" by (simp add: claimed_store_def)
  from upsert_prepares_job [OF wf run] r obtain y where
    y: "filter (\<lambda>x. workload_id x = wl_ID sample_workload) (jobs (db w')) = [y]"
      "lease_token y = nullStr (LeaseTok sample_lease)"
    and shape: "(\<exists>f. jobs (db w') = set_row j f (jobs (db ?w))) \<or>
      (\<exists>y. jobs (db w') = jobs (db ?w) @ [y] \<and> jid y = j \<and> n = 1)"
    and y_id: "jid y = j" by auto
  have keys: "distinct (map jid (jobs (db w')))"
    using upsert_prepares_job [OF wf run] r by (simp add: store_wf_def)
  have "\<exists>x. jobs (db w') = [x]"
    using shape
  proof
    assume "\<exists>y. jobs (db w') = jobs (db ?w) @ [y] \<and> jid y = j \<and> n = 1"
    with y(1) y_id keys jobs0 show ?thesis
      by (auto simp: claimed_row_def sample_workload_def split: if_splits)
  qed (use jobs0 in \<open>auto simp: set_row_def\<close>)
  with y have "jobs (db w') = [y]" by (auto split: if_splits)
  with run r y(2) show ?thesis by (auto simp: sample_lease_def nullStr_def)
qed

section \<open>After a crash\<close>

text \<open>A row that the driver can scan: its lease expiry is empty, or the driver has a time for it.\<close>

definition readable :: "'e db_env_scheme \<Rightarrow> row \<Rightarrow> bool" where
  "readable E r \<longleftrightarrow> (\<forall>t. lease_expires_at r = Some t \<longrightarrow> db_scan_time E t \<noteq> None)"

lemma scan_readable: "readable E r \<Longrightarrow> \<exists>j. scan_job E r = Inr j"
  by (auto simp: readable_def scan_job_def Let_def split: option.split)

lemma scan_unreadable: "\<not> readable E r \<Longrightarrow> \<exists>m. scan_job E r = Inl (Plain m)"
  by (auto simp: readable_def scan_job_def Let_def)

lemma leased_unreadable: "lease_unscannable E \<Longrightarrow> readable E r \<longleftrightarrow> lease_expires_at r = None"
  by (auto simp: readable_def lease_unscannable_def)

text \<open>A workload whose row cannot be read is surrendered, whatever the row says.\<close>

lemma upsert_unreadable:
  assumes wf: "store_wf (db w)" and calm: "db_fault E (stmts (db w)) = None" and r: "r \<in> set (jobs (db w))"
    and bad: "\<not> readable E r" and same: "wl_ID wl = workload_id r"
  shows "upsertJobForWorkload E D wl lease w = (None, snd (Surrender E (DepCloud D) (wl_ID wl) (LeaseTok lease)
    ''store_error'' (w\<lparr>db := tick (db w)\<rparr>)))"
proof -
  have "distinct (map workload_id (jobs (db w)))" using wf by (simp add: store_wf_def)
  from find_unique [OF this r] same
  have "find (\<lambda>x. workload_id x = wl_ID wl) (jobs (db w)) = Some r" by simp
  moreover obtain m where "scan_job E r = Inl (Plain m)" using scan_unreadable [OF bad] by blast
  ultimately show ?thesis
    by (simp add: upsert_lookup GetByWorkloadID_ok [OF calm] surrender_store_error_def)
qed

text \<open>
  C35. A daemon that restarts gives its running jobs up for good.  Once the boot-time recovery has
  succeeded, a workload that was running at the crash and that the cloud hands out again is not
  taken over, and nothing is run.  If its row can be read (it carries no lease expiry, or the driver
  scans one) the scheduler reports it failed and not retryable; if it cannot, which is every
  row with a lease expiry under the driver of this repository, it surrenders the workload with
  \<open>store_error\<close>, and the row is as before, so the next time is the same.
\<close>

theorem restart_then_reissue:
  assumes wf: "store_wf s" and r: "r \<in> set (jobs s)" "job_status r = StatusRunning"
    and boot: "RecoverOrphaned E reason s = (Inr n, db w)"
    and calm: "db_fault E (stmts (db w)) = None" and same: "wl_ID wl = workload_id r"
  shows "upsertJobForWorkload E D wl lease w =
    (None, snd (if readable E r
       then Fail E (DepCloud D) (wl_ID wl) (LeaseTok lease) ''local_already_attempted: failed'' False (w\<lparr>db := tick (db w)\<rparr>)
       else Surrender E (DepCloud D) (wl_ID wl) (LeaseTok lease) ''store_error'' (w\<lparr>db := tick (db w)\<rparr>))) \<and>
    tables (db (snd (upsertJobForWorkload E D wl lease w))) = tables (db w) \<and>
    (lease_unscannable E \<longrightarrow> readable E r = (lease_expires_at r = None))"
proof -
  obtain kind msg where f: "failActive E [StatusRunning] kind msg s = (Inr n, db w)"
    using boot by (auto simp: RecoverOrphaned_def Let_def)
  then obtain now where jobs: "jobs (db w) = map (fail_row [StatusRunning] now) (jobs s)"
    using failActive_jobs by blast
  let ?r = "r\<lparr>job_status := StatusFailed, updated_at := now\<rparr>"
  have mem: "?r \<in> set (jobs (db w))" using r jobs by (force simp: fail_row_def)
  have wfw: "store_wf (db w)" using RecoverOrphaned_safe [of s E reason] boot wf by (simp add: safe_def)
  have same': "wl_ID wl = workload_id ?r" and read: "readable E ?r = readable E r"
    using same by (simp_all add: readable_def)
  have drv: "lease_unscannable E \<longrightarrow> readable E r = (lease_expires_at r = None)"
    using leased_unreadable by blast
  have run: "upsertJobForWorkload E D wl lease w =
    (None, snd (if readable E r
       then Fail E (DepCloud D) (wl_ID wl) (LeaseTok lease) ''local_already_attempted: failed'' False (w\<lparr>db := tick (db w)\<rparr>)
       else Surrender E (DepCloud D) (wl_ID wl) (LeaseTok lease) ''store_error'' (w\<lparr>db := tick (db w)\<rparr>)))"
  proof (cases "readable E r")
    case True
    have "distinct (map workload_id (jobs (db w)))" using wfw by (simp add: store_wf_def)
    from find_unique [OF this mem] same
    have "find (\<lambda>x. workload_id x = wl_ID wl) (jobs (db w)) = Some ?r" by simp
    moreover obtain j where j: "scan_job E ?r = Inr j" using True read scan_readable by blast
    ultimately show ?thesis
      using scan_job_cols [OF j] True
      by (simp add: upsert_lookup GetByWorkloadID_ok [OF calm] status_defs)
  next
    case False
    with upsert_unreadable [OF wfw calm mem _ same'] read show ?thesis by simp
  qed
  then have "tables (db (snd (upsertJobForWorkload E D wl lease w))) = tables (db w)"
    by (simp split: if_splits)
  with run drv show ?thesis by blast
qed

theorem restart_then_reissue_witness:
  "\<exists>t. RecoverOrphaned (working_env\<lparr>db_scan_time := \<lambda>_. None\<rparr>) [] (claimed_store StatusRunning) = (Inr 1, t) \<and>
     snd (upsertJobForWorkload (working_env\<lparr>db_scan_time := \<lambda>_. None\<rparr>) (sample_deps sample_registry) sample_workload
       sample_lease (sample_daemon signed_in NoItem t)) =
     snd (Surrender (working_env\<lparr>db_scan_time := \<lambda>_. None\<rparr>) (DepCloud (sample_deps sample_registry)) (wl_ID sample_workload)
       (LeaseTok sample_lease)
       ''store_error'' (sample_daemon signed_in NoItem (tick t)))"
proof -
  let ?E = "working_env\<lparr>db_scan_time := \<lambda>_. None\<rparr>"
  obtain t where t: "RecoverOrphaned ?E [] (claimed_store StatusRunning) = (Inr 1, t)"
    by (simp add: RecoverOrphaned_def failActive_def fail_active_tx_def claimed_store_def claimed_row_def
        select_ids_def order_by_def status_defs exec_stmt_ok sql_defs)
  have wf: "store_wf (claimed_store StatusRunning)" by (simp add: claimed_store_wf all_statuses_def)
  have r: "claimed_row StatusRunning \<in> set (jobs (claimed_store StatusRunning))"
    by (simp add: claimed_store_def)
  have st: "job_status (claimed_row StatusRunning) = StatusRunning" by (simp add: claimed_row_def)
  have boot: "RecoverOrphaned ?E [] (claimed_store StatusRunning) =
      (Inr 1, db (sample_daemon signed_in NoItem t))" using t by simp
  have same: "wl_ID sample_workload = workload_id (claimed_row StatusRunning)"
    by (simp add: sample_workload_def claimed_row_def)
  have "\<not> readable ?E (claimed_row StatusRunning)" by (simp add: readable_def claimed_row_def)
  with t restart_then_reissue [OF wf r st boot _ same, of "sample_deps sample_registry" sample_lease] show ?thesis
    by (simp add: sample_daemon_def)
qed

text \<open>
  With the driver that cannot scan \<open>lease_expires_at\<close> (theory Store) the loop that \<open>upsertJobForWorkload\<close> means to break is still
  there: a workload whose row carries a lease expiry, in whatever status, is surrendered with
  \<open>store_error\<close> each time the cloud hands it out, and no table changes, so the next time is the
  same.
\<close>

theorem reissued_workload_surrendered:
  assumes wf: "store_wf (db w)" and drv: "lease_unscannable E" and calm: "db_fault E (stmts (db w)) = None"
    and r: "r \<in> set (jobs (db w))" "lease_expires_at r \<noteq> None" and same: "wl_ID wl = workload_id r"
    and run: "upsertJobForWorkload E D wl lease w = (res, w')"
  shows "res = None \<and> tables (db w') = tables (db w) \<and>
    w' = snd (Surrender E (DepCloud D) (wl_ID wl) (LeaseTok lease) ''store_error'' (w\<lparr>db := tick (db w)\<rparr>))"
proof -
  have "\<not> readable E r" using leased_unreadable [OF drv] r(2) by simp
  note upsert_unreadable [OF wf calm r(1) this same, of D lease]
  with run show ?thesis by auto
qed

theorem reissued_workload_surrendered_witness:
  "fst (upsertJobForWorkload (working_env\<lparr>db_scan_time := \<lambda>_. None\<rparr>) (sample_deps sample_registry) sample_workload
     sample_lease (sample_daemon signed_in NoItem (claimed_store StatusSucceeded))) = None"
proof -
  let ?E = "working_env\<lparr>db_scan_time := \<lambda>_. None\<rparr>" and ?w = "sample_daemon signed_in NoItem (claimed_store StatusSucceeded)"
  obtain res w' where run: "upsertJobForWorkload ?E (sample_deps sample_registry) sample_workload sample_lease ?w = (res, w')"
    by fastforce
  have wf: "store_wf (db ?w)" by (simp add: claimed_store_wf all_statuses_def)
  have drv: "lease_unscannable ?E" by (simp add: lease_unscannable_def)
  have calm: "db_fault ?E (stmts (db ?w)) = None" by simp
  have r: "claimed_row StatusSucceeded \<in> set (jobs (db ?w))" by (simp add: claimed_store_def)
  have l: "lease_expires_at (claimed_row StatusSucceeded) \<noteq> None" by (simp add: claimed_row_def)
  have same: "wl_ID sample_workload = workload_id (claimed_row StatusSucceeded)"
    by (simp add: sample_workload_def claimed_row_def)
  from reissued_workload_surrendered [OF wf drv calm r l same run] run show ?thesis by simp
qed


section \<open>One terminal report\<close>

definition is_report :: "cloud_client \<Rightarrow> string \<Rightarrow> request \<Rightarrow> bool" where
  "is_report c wid rq \<longleftrightarrow>
     rq_url rq \<in> {baseURL c @ workload_path wid ''complete'', baseURL c @ workload_path wid ''fail'',
       baseURL c @ workload_path wid ''surrender''}"

lemma no_refresh_report: "no_refresh E (is_report c wid)"
proof -
  have "last (rq_url (refresh_request E base b n)) = CHR ''h''" for base b n
    by (simp add: refresh_request_def post_request_def)
  moreover have "last (rq_url rq) \<noteq> CHR ''h''" if "is_report c wid rq" for rq
    using that by (auto simp: is_report_def workload_path_def)
  ultimately show ?thesis unfolding no_refresh_def by blast
qed

definition reports_within :: "cloud_client \<Rightarrow> string \<Rightarrow> nat \<Rightarrow> 'w netw_scheme \<Rightarrow> 'w netw_scheme \<Rightarrow> bool" where
  "reports_within c wid k w v \<longleftrightarrow>
     (\<exists>pre. sent v = sent w @ pre \<and> length (filter (is_report c wid) pre) \<le> k)"

lemma reports_within_refl: "sent v = sent w \<Longrightarrow> reports_within c wid k w v"
  by (simp add: reports_within_def)

lemma reports_within_trans:
  "reports_within c wid k w v \<Longrightarrow> reports_within c wid k' v u \<Longrightarrow> reports_within c wid (k + k') w u"
  unfolding reports_within_def by (elim exE conjE, rule_tac x = "pre @ prea" in exI) auto

lemma reports_within_mono: "reports_within c wid k w v \<Longrightarrow> k \<le> l \<Longrightarrow> reports_within c wid l w v"
  unfolding reports_within_def using le_trans by blast

lemma doRaw_reports: "reports_within c wid 1 w (snd (doRaw E c meth path body w))"
proof -
  obtain q v where q: "doRaw E c meth path body w = (q, v)" by fastforce
  from doRaw_sends [OF q no_refresh_report [of E c wid]] q show ?thesis
    by (auto simp: sends_within_def reports_within_def)
qed

lemma checked_reply_snd [simp]: "snd (checked_reply what r) = snd r"
  by (cases r) (auto simp: checked_reply_def split: sum.split)

lemma do_json_snd: "snd (do_json E c meth path (Some (Some j)) w) = snd (doRaw E c meth path (Some j) w)"
  by (simp add: do_json_def)

lemma report_reports:
  "reports_within c wid 1 w (snd (Complete E c i tk sm w))"
  "reports_within c wid 1 w (snd (Fail E c i tk m b w))"
  "reports_within c wid 1 w (snd (Surrender E c i tk m w))"
  unfolding Complete_def Fail_def Surrender_def checked_reply_snd do_json_snd
  by (rule doRaw_reports)+

lemma reports_within_from: "sent w = sent v \<Longrightarrow> reports_within c wid k w u \<Longrightarrow> reports_within c wid k v u"
  by (simp add: reports_within_def)

lemma reports_within_to: "reports_within c wid k w u \<Longrightarrow> sent u' = sent u \<Longrightarrow> reports_within c wid k w u'"
  by (simp add: reports_within_def)

lemma surrender_reports:
  "sent v = sent w \<Longrightarrow> reports_within (DepCloud D) wid 1 w (snd (surrender_store_error E D wl lease v))"
  unfolding surrender_store_error_def snd_conv by (rule reports_within_from [OF _ report_reports(3)])

lemma take_over_reports:
  assumes tk: "take_over E D wl lease j v = (None, w')" and same: "sent v = sent w"
  shows "reports_within (DepCloud D) wid 1 w w'"
proof -
  have "w' = snd (surrender_store_error E D wl lease (snd (on_db (UpdateLease E j (LeaseTok lease) (LeaseExpires lease)) v)))"
    using tk by (auto simp: take_over_def split: prod.splits sum.splits)
  then show ?thesis using surrender_reports [of "snd (on_db (UpdateLease E j (LeaseTok lease) (LeaseExpires lease)) v)" w] same by simp
qed

lemma upsert_refused_reports:
  assumes run: "upsertJobForWorkload E D wl lease w = (None, w')"
  shows "reports_within (DepCloud D) wid 1 w w'"
proof -
  obtain q s where q: "GetByWorkloadID E (wl_ID wl) (db w) = (q, s)" by fastforce
  show ?thesis
  proof (cases q)
    case (Inr x)
    have fin: "reports_within (DepCloud D) wid 1 w (snd (Complete E (DepCloud D) i t sm (w\<lparr>db := s\<rparr>)))"
      "reports_within (DepCloud D) wid 1 w (snd (Fail E (DepCloud D) i t m b (w\<lparr>db := s\<rparr>)))" for i t sm m b
      by (rule reports_within_from [OF _ report_reports(1)], simp)
        (rule reports_within_from [OF _ report_reports(2)], simp)
    show ?thesis
    proof (cases "job_status x = StatusQueued \<or> job_status x = StatusRunning")
      case True
      with run q Inr have "take_over E D wl lease (jid x) (w\<lparr>db := s\<rparr>) = (None, w')" by (simp add: upsert_lookup)
      then show ?thesis by (rule take_over_reports) simp
    next
      case False
      with run q Inr fin show ?thesis by (auto simp: upsert_lookup simp del: One_nat_def split: if_splits)
    qed
  next
    case (Inl e)
    obtain v where "surrender_store_error E D wl lease v = (None, w')" "sent v = sent w"
    proof (cases "errors_is e ErrNotFound")
      case False
      with run q Inl that [of "w\<lparr>db := s\<rparr>"] show thesis by (simp add: upsert_lookup)
    next
      case True
      with run q Inl obtain s' where
        "surrender_store_error E D wl lease (w\<lparr>uuids := Suc (uuids w), db := s'\<rparr>) = (None, w')"
        by (auto simp: upsert_lookup split: prod.splits sum.splits)
      with that [of "w\<lparr>uuids := Suc (uuids w), db := s'\<rparr>"] show thesis by simp
    qed
    with surrender_reports [of v w D wid E wl lease] show ?thesis by simp
  qed
qed

lemma upsert_reports:
  assumes run: "upsertJobForWorkload E D wl lease w = (r, w')"
  shows "reports_within (DepCloud D) wid (if r = None then 1 else 0) w w'"
proof (cases r)
  case (Some p)
  with upsert_result [OF run, unfolded upsert_outcome_def] show ?thesis by (auto intro: reports_within_refl split: prod.splits)
next
  case None
  with run upsert_refused_reports show ?thesis by simp
qed

lemma conclude_sent [simp]: "sent (conclude E j a st out m w) = sent w"
  by (simp add: conclude_def)

lemma finish_run_reports: "reports_within (DepCloud D) wid 1 w (finish_run E D ex wl lease j a res w)"
proof (cases res)
  case None
  then show ?thesis
    unfolding finish_run_def option.case
    by (rule_tac reports_within_to [OF report_reports(1)]) simp
next
  case (Some e)
  then show ?thesis
    unfolding finish_run_def option.case
    by (rule_tac reports_within_to [OF report_reports(2)]) simp
qed

lemma Cleanup_sent [simp]: "sent (Cleanup E h w) = sent w"
  by (simp add: Cleanup_def)

lemma NewJobHandle_sent [simp]: "sent (snd (NewJobHandle E D j wl lease w)) = sent w"
  by (simp add: NewJobHandle_def Let_def split: option.split)

text \<open>An executor whose own requests (uploads, progress, heartbeats) are no terminal reports.\<close>

definition reports_nothing :: "cloud_client \<Rightarrow> string \<Rightarrow> ('d daemon_scheme) executor \<Rightarrow> bool" where
  "reports_nothing c wid ex \<longleftrightarrow> (\<forall>h w. reports_within c wid 0 w (snd (ex_Execute ex h w)))"

lemma run_job_reports:
  assumes "reports_nothing (DepCloud D) wid ex"
  shows "reports_within (DepCloud D) wid 1 w (run_job E D ex wl lease j a w)"
proof (cases "fst (NewJobHandle E D j wl lease w)")
  case (Inl e)
  have "run_job E D ex wl lease j a w = conclude E j a StatusFailed ''failed'' (err_text e)
      (snd (Fail E (DepCloud D) (wl_ID wl) (LeaseTok lease) (''job handle: '' @ err_text e) False
        (snd (NewJobHandle E D j wl lease w))))"
    using Inl by (simp only: run_job_eq sum.case)
  then show ?thesis
    using reports_within_from [OF NewJobHandle_sent report_reports(2)]
    by (simp only: reports_within_def conclude_sent)
next
  case (Inr h)
  let ?v = "snd (NewJobHandle E D j wl lease w)" and ?x = "ex_Execute ex h (snd (NewJobHandle E D j wl lease w))"
  have "reports_within (DepCloud D) wid 0 w (snd ?x)"
    using assms by (intro reports_within_from [OF NewJobHandle_sent [of E D j wl lease w]]) (simp add: reports_nothing_def)
  from reports_within_trans [OF this finish_run_reports]
  have "reports_within (DepCloud D) wid 1 w (finish_run E D ex wl lease j a (fst ?x) (snd ?x))"
    by (simp only: add_0)
  moreover have "run_job E D ex wl lease j a w = Cleanup E h (finish_run E D ex wl lease j a (fst ?x) (snd ?x))"
    using Inr by (simp only: run_job_eq sum.case)
  ultimately show ?thesis by (simp only: reports_within_def Cleanup_sent)
qed

definition begin_attempt :: "'e denv_scheme \<Rightarrow> string \<Rightarrow> int \<Rightarrow> 'd daemon_scheme \<Rightarrow> nat \<times> 'd daemon_scheme" where
  "begin_attempt E j n w =
     (case on_db (StartAttempt E j n) (snd (on_db (UpdateStatus E j StatusRunning) w)) of
        (r, v) \<Rightarrow> ((case r of Inl _ \<Rightarrow> 0 | Inr i \<Rightarrow> i), v))"

lemma begin_attempt_sent [simp]: "sent (snd (begin_attempt E j n w)) = sent w"
  by (simp add: begin_attempt_def split_beta)

lemma runOne_eq:
  assumes "upsertJobForWorkload E D wl lease w = (r, w1)"
  shows "runOne E D ex wl lease w =
     (case r of None \<Rightarrow> w1
      | Some (j, n) \<Rightarrow> run_job E D ex wl lease j (fst (begin_attempt E j n w1)) (snd (begin_attempt E j n w1)))"
  using assms by (simp add: runOne_def begin_attempt_def Let_def split_beta split: option.split)

lemma runOne_reports:
  assumes quiet: "reports_nothing (DepCloud D) (wl_ID wl) ex"
  shows "reports_within (DepCloud D) (wl_ID wl) 1 w (runOne E D ex wl lease w)"
proof -
  obtain r w1 where r: "upsertJobForWorkload E D wl lease w = (r, w1)" by fastforce
  note up = upsert_reports [OF r, of "wl_ID wl"]
  show ?thesis
  proof (cases r)
    case None
    with up runOne_eq [OF r] show ?thesis by simp
  next
    case (Some p)
    obtain j n where p: "p = (j, n)" by fastforce
    let ?v = "snd (begin_attempt E j n w1)" and ?a = "fst (begin_attempt E j n w1)"
    have "reports_within (DepCloud D) (wl_ID wl) 0 w w1" using up Some by simp
    then have "reports_within (DepCloud D) (wl_ID wl) 0 w ?v"
      by (rule reports_within_to) (rule begin_attempt_sent)
    from reports_within_trans [OF this run_job_reports [OF quiet, where a = ?a and w = ?v and j = j and E = E and lease = lease and wl = wl]]
    show ?thesis unfolding runOne_eq [OF r] Some p option.case prod.case add_0 .
  qed
qed

text \<open>
  Running a claimed workload sends the cloud at most one terminal report (complete, fail or
  surrender) for it, on every path: the reconciliation, the failures of the database, of the
  token and of the work directory, and both ends of the execution.
\<close>

theorem at_most_one_report:
  assumes quiet: "reports_nothing (DepCloud D) (wl_ID wl) ex"
  shows "\<exists>pre. sent (runOne E D ex wl lease w) = sent w @ pre \<and>
    length (filter (is_report (DepCloud D) (wl_ID wl)) pre) \<le> 1"
  using runOne_reports [OF quiet, of w E lease] by (simp add: reports_within_def)

theorem at_most_one_report_witness:
  "length (filter (is_report (New ''http://c'' ''fp'') ''wl'')
     (sent (runOne working_env (sample_deps sample_registry) (idle_executor ''video:clip'') sample_workload
        sample_lease (sample_daemon signed_in NoItem empty_store)))) \<le> 1"
proof -
  have "reports_nothing (DepCloud (sample_deps sample_registry)) (wl_ID sample_workload) (idle_executor ''video:clip'')"
    by (simp add: reports_nothing_def idle_executor_def reports_within_refl)
  from at_most_one_report [OF this, of working_env sample_lease "sample_daemon signed_in NoItem empty_store"]
  show ?thesis by (simp add: sample_deps_def sample_workload_def)
qed


section \<open>The outcome of a run\<close>

definition calm_statements :: "'e db_env_scheme \<Rightarrow> bool" where
  "calm_statements E \<longleftrightarrow> (\<forall>k. db_fault E k = None)"

lemma calm_statementsD [simp]: "calm_statements E \<Longrightarrow> db_fault E k = None"
  by (simp add: calm_statements_def)

lemma UpdateStatus_calm:
  "calm_statements E \<Longrightarrow> snd (UpdateStatus E j st s) = (tick s)\<lparr>jobs :=
     set_row j (\<lambda>r. r\<lparr>job_status := st, updated_at := db_now E (stmts s)\<rparr>) (jobs s)\<rparr>"
  by (simp add: UpdateStatus_def update_job_def exec_stmt_ok sql_defs set_row_def)

lemma FinishAttempt_calm:
  "calm_statements E \<Longrightarrow> snd (FinishAttempt E i out m s) = (tick s)\<lparr>attempts :=
     map (\<lambda>a. if at_id a = i then a\<lparr>finished_at := Some (db_now E (stmts s)), outcome := Some out,
       at_error := nullStr m\<rparr> else a) (attempts s)\<rparr>"
  by (simp add: FinishAttempt_def exec_stmt_ok sql_defs)

text \<open>What is known of the store while the job runs: its row, and its open attempt.\<close>

definition has_row :: "string \<Rightarrow> string \<Rightarrow> store \<Rightarrow> bool" where
  "has_row j st s \<longleftrightarrow> (\<exists>x \<in> set (jobs s). jid x = j \<and> job_status x = st)"

definition has_attempt :: "string \<Rightarrow> nat \<Rightarrow> int \<Rightarrow> store \<Rightarrow> bool" where
  "has_attempt j i n s \<longleftrightarrow> (\<exists>a \<in> set (attempts s). at_id a = i \<and> at_job_id a = j \<and> attempt_num a = n)"

lemma prefix_map_member: "prefix (map f xs) (map f ys) \<Longrightarrow> x \<in> set xs \<Longrightarrow> \<exists>y \<in> set ys. f y = f x"
  using set_mono_prefix [of "map f xs" "map f ys"] by fastforce

lemma has_attempt_later:
  assumes "has_attempt j i n s" and "safe s t"
  shows "has_attempt j i n t"
proof -
  obtain a where a: "a \<in> set (attempts s)" "at_id a = i" "at_job_id a = j" "attempt_num a = n"
    using assms(1) by (auto simp: has_attempt_def)
  have "prefix (map attempt_key (attempts s)) (map attempt_key (attempts t))"
    using assms(2) by (simp add: safe_def store_before_def)
  from prefix_map_member [OF this a(1)] a show ?thesis by (auto simp: has_attempt_def attempt_key_def)
qed

lemma has_row_later:
  assumes "has_row j st s" and "safe s t"
  shows "\<exists>st'. has_row j st' t"
proof -
  obtain x where x: "x \<in> set (jobs s)" "jid x = j" using assms(1) by (auto simp: has_row_def)
  have "prefix (map job_key (jobs s)) (map job_key (jobs t))"
    using assms(2) by (simp add: safe_def store_before_def)
  from prefix_map_member [OF this x(1)] x show ?thesis by (auto simp: has_row_def job_key_def)
qed

lemma set_row_member: "x \<in> set rs \<Longrightarrow> jid x = j \<Longrightarrow> f x \<in> set (set_row j f rs)"
  unfolding set_row_def by (auto simp: image_iff intro: bexI [of _ x])

lemma UpdateStatus_row:
  assumes "calm_statements E" and "has_row j st' s"
  shows "has_row j st (snd (UpdateStatus E j st s))" "attempts (snd (UpdateStatus E j st s)) = attempts s"
proof -
  let ?f = "\<lambda>r. r\<lparr>job_status := st, updated_at := db_now E (stmts s)\<rparr>"
  obtain x where x: "x \<in> set (jobs s)" "jid x = j" using assms(2) by (auto simp: has_row_def)
  have "?f x \<in> set (jobs (snd (UpdateStatus E j st s)))"
    using set_row_member [OF x, of ?f] by (simp add: UpdateStatus_calm [OF assms(1)])
  with x show "has_row j st (snd (UpdateStatus E j st s))"
    unfolding has_row_def by (intro bexI [of _ "?f x"]) simp_all
  show "attempts (snd (UpdateStatus E j st s)) = attempts s"
    by (simp add: UpdateStatus_calm [OF assms(1)])
qed

lemma StartAttempt_calm:
  assumes "calm_statements E" and "has_row j st s"
  shows "\<exists>i t. StartAttempt E j n s = (Inr i, t) \<and> jobs t = jobs s \<and> has_attempt j i n t"
proof -
  have "j \<in> jid ` set (jobs s)" using assms(2) by (auto simp: has_row_def)
  then show ?thesis
    by (simp add: StartAttempt_def exec_stmt_ok [OF calm_statementsD [OF assms(1)]] sql_defs has_attempt_def)
qed

lemma begin_attempt_result:
  assumes "calm_statements E" and "has_row j st (db w)"
  shows "has_row j StatusRunning (db (snd (begin_attempt E j n w))) \<and>
    has_attempt j (fst (begin_attempt E j n w)) n (db (snd (begin_attempt E j n w))) \<and>
    workdirs (snd (begin_attempt E j n w)) = workdirs w"
proof -
  let ?s = "snd (UpdateStatus E j StatusRunning (db w))"
  note row = UpdateStatus_row(1) [OF assms, of StatusRunning]
  obtain i t where t: "StartAttempt E j n ?s = (Inr i, t)" "jobs t = jobs ?s" "has_attempt j i n t"
    using StartAttempt_calm [OF assms(1) row] by blast
  then have "begin_attempt E j n w = (i, w\<lparr>db := t\<rparr>)"
    by (simp add: begin_attempt_def on_db_eq)
  with t row show ?thesis by (simp add: has_row_def)
qed

lemma conclude_db:
  "db (conclude E j i st out m w) = snd (FinishAttempt E i out m (snd (UpdateStatus E j st (db w))))"
  "workdirs (conclude E j i st out m w) = workdirs w"
  by (simp_all add: conclude_def)

lemma conclude_result:
  assumes "calm_statements E" and "has_row j st' (db w)" and "has_attempt j i n (db w)"
  shows "has_row j st (db (conclude E j i st out m w)) \<and>
    (\<exists>a \<in> set (attempts (db (conclude E j i st out m w))). at_job_id a = j \<and> attempt_num a = n \<and>
       finished_at a \<noteq> None \<and> outcome a = Some out \<and> at_error a = nullStr m)"
proof -
  let ?s = "snd (UpdateStatus E j st (db w))"
  have row: "has_row j st ?s" by (rule UpdateStatus_row(1) [OF assms(1,2)])
  obtain a where a: "a \<in> set (attempts ?s)" "at_id a = i" "at_job_id a = j" "attempt_num a = n"
    using assms(3) UpdateStatus_row(2) [OF assms(1,2)] by (auto simp: has_attempt_def)
  let ?f = "\<lambda>a. if at_id a = i then a\<lparr>finished_at := Some (db_now E (stmts ?s)), outcome := Some out,
       at_error := nullStr m\<rparr> else a"
  have "?f a \<in> set (attempts (snd (FinishAttempt E i out m ?s)))"
    using a(1) unfolding FinishAttempt_calm [OF assms(1)] by simp
  with a row show ?thesis
    unfolding conclude_db FinishAttempt_calm [OF assms(1)]
    by (intro conjI bexI [of _ "?f a"]) (simp_all add: has_row_def)
qed

text \<open>The job's directory, while it runs, and the handle the executor gets.\<close>

definition handle_of :: "'x sched_deps \<Rightarrow> string \<Rightarrow> workload \<Rightarrow> lease_dto \<Rightarrow> job_handle" where
  "handle_of D j wl lease = \<lparr>jh_id = j, jh_wl = wl, jh_leaseToken = LeaseTok lease,
     jh_workDir = path_join [DepBaseTmp D, ''job-'' @ j]\<rparr>"

definition run_outcome :: "string \<Rightarrow> int \<Rightarrow> gerror option \<Rightarrow> store \<Rightarrow> bool" where
  "run_outcome j n res s \<longleftrightarrow>
     has_row j (if res = None then StatusSucceeded else StatusFailed) s \<and>
     (\<exists>a \<in> set (attempts s). at_job_id a = j \<and> attempt_num a = n \<and> finished_at a \<noteq> None \<and>
        outcome a = Some (if res = None then ''succeeded'' else ''failed'') \<and>
        at_error a = (case res of None \<Rightarrow> None | Some e \<Rightarrow> nullStr (err_text e)))"

lemma finish_run_result:
  assumes "calm_statements E" and "has_row j st' (db w)" and "has_attempt j i n (db w)"
  shows "run_outcome j n res (db (finish_run E D ex wl lease j i res w))"
proof (cases res)
  case None
  with conclude_result [OF assms(1), of j st' "snd (Complete E (DepCloud D) (wl_ID wl) (LeaseTok lease)
      [(''executor_id'', JText (ex_ID ex)),
       (''executor_version'', JText (duration_text (Duration (ex_Estimate ex wl))))] w)" i n StatusSucceeded "''succeeded''" "[]"] assms
  show ?thesis by (simp add: finish_run_def run_outcome_def nullStr_def)
next
  case (Some e)
  with conclude_result [OF assms(1), of j st' "snd (Fail E (DepCloud D) (wl_ID wl) (LeaseTok lease)
      (err_text e) (\<not> ctx_done w) w)" i n StatusFailed "''failed''" "err_text e"] assms
  show ?thesis by (simp add: finish_run_def run_outcome_def)
qed

lemma Cleanup_db [simp]: "db (Cleanup E h w) = db w"
  by (simp add: Cleanup_def)

lemma NewJobHandle_ok:
  "mkdir_fault E (jh_workDir (handle_of D j wl lease)) = None \<Longrightarrow>
   NewJobHandle E D j wl lease w =
     (Inr (handle_of D j wl lease), w\<lparr>workdirs := insert (jh_workDir (handle_of D j wl lease)) (workdirs w)\<rparr>)"
  by (simp add: NewJobHandle_def handle_of_def Let_def)

lemma UpdateStatus_row_at:
  assumes "db_fault E (stmts s) = None" and "has_row j st' s"
  shows "has_row j st (snd (UpdateStatus E j st s))"
proof -
  let ?f = "\<lambda>r. r\<lparr>job_status := st, updated_at := db_now E (stmts s)\<rparr>"
  have run: "snd (UpdateStatus E j st s) = (tick s)\<lparr>jobs := set_row j ?f (jobs s)\<rparr>"
    using assms(1) by (simp add: UpdateStatus_def update_job_def exec_stmt_ok sql_defs set_row_def)
  obtain x where x: "x \<in> set (jobs s)" "jid x = j" using assms(2) by (auto simp: has_row_def)
  from set_row_member [OF this, of ?f] x show ?thesis
    unfolding run has_row_def by (intro bexI [of _ "?f x"]) simp_all
qed

lemma UpdateStatus_other:
  "attempts (snd (UpdateStatus E j st s)) = attempts s" "stmts (snd (UpdateStatus E j st s)) = Suc (stmts s)"
  by (cases "db_fault E (stmts s)"; simp add: UpdateStatus_def update_job_def exec_stmt_ok exec_stmt_fault sql_defs set_row_def)+

text \<open>The two statements with which an attempt begins, each on its own: a row keeps its place whatever fails.\<close>

lemma UpdateStatus_keeps_row: "has_row j st' s \<Longrightarrow> \<exists>st2. has_row j st2 (snd (UpdateStatus E j st s))"
proof (cases "db_fault E (stmts s)")
  case None
  then show "has_row j st' s \<Longrightarrow> \<exists>st2. has_row j st2 (snd (UpdateStatus E j st s))"
    using UpdateStatus_row_at by blast
next
  case (Some m)
  then have "jobs (snd (UpdateStatus E j st s)) = jobs s"
    by (simp add: UpdateStatus_def update_job_def exec_stmt_fault)
  then show "has_row j st' s \<Longrightarrow> \<exists>st2. has_row j st2 (snd (UpdateStatus E j st s))"
    by (auto simp: has_row_def)
qed

lemma StartAttempt_at:
  assumes "db_fault E (stmts s) = None" and "has_row j st s"
  shows "\<exists>i t. StartAttempt E j n s = (Inr i, t) \<and> has_attempt j i n t"
proof -
  have "j \<in> jid ` set (jobs s)" using assms(2) by (auto simp: has_row_def)
  then show ?thesis by (simp add: StartAttempt_def exec_stmt_ok [OF assms(1)] sql_defs has_attempt_def)
qed

lemma StartAttempt_jobs: "jobs (snd (StartAttempt E j n s)) = jobs s"
  by (cases "db_fault E (stmts s)")
    (auto simp: StartAttempt_def exec_stmt_ok exec_stmt_fault sql_defs split: sum.splits if_splits)

lemma FinishAttempt_jobs: "jobs (snd (FinishAttempt E i out m s)) = jobs s"
  by (cases "db_fault E (stmts s)") (simp_all add: FinishAttempt_def exec_stmt_ok exec_stmt_fault sql_defs)

lemma begin_attempt_parts:
  assumes row: "has_row j st (db w)"
  shows "\<exists>st'. has_row j st' (db (snd (begin_attempt E j n w)))"
    and "db_fault E (stmts (db w)) = None \<Longrightarrow> has_row j StatusRunning (db (snd (begin_attempt E j n w)))"
    and "db_fault E (Suc (stmts (db w))) = None \<Longrightarrow>
      has_attempt j (fst (begin_attempt E j n w)) n (db (snd (begin_attempt E j n w)))"
    and "workdirs (snd (begin_attempt E j n w)) = workdirs w"
proof -
  let ?s = "snd (UpdateStatus E j StatusRunning (db w))"
  obtain r t where t: "StartAttempt E j n ?s = (r, t)" by fastforce
  then have b: "begin_attempt E j n w = ((case r of Inl _ \<Rightarrow> 0 | Inr i \<Rightarrow> i), w\<lparr>db := t\<rparr>)"
    by (simp add: begin_attempt_def on_db_eq)
  have jobs: "jobs t = jobs ?s" using StartAttempt_jobs [of E j n ?s] t by simp
  obtain st2 where two: "has_row j st2 ?s" using UpdateStatus_keeps_row [OF row] by blast
  then show "\<exists>st'. has_row j st' (db (snd (begin_attempt E j n w)))" using jobs b by (auto simp: has_row_def)
  show "has_row j StatusRunning (db (snd (begin_attempt E j n w)))" if "db_fault E (stmts (db w)) = None"
    using UpdateStatus_row_at [OF that row, of StatusRunning] jobs b by (simp add: has_row_def)
  show "has_attempt j (fst (begin_attempt E j n w)) n (db (snd (begin_attempt E j n w)))"
    if "db_fault E (Suc (stmts (db w))) = None"
    using StartAttempt_at [of E ?s j st2 n] that two t b by (auto simp: UpdateStatus_other)
  show "workdirs (snd (begin_attempt E j n w)) = workdirs w" using b by simp
qed

text \<open>What an executor's result makes of the row and of the attempt.\<close>

definition attempt_outcome :: "string \<Rightarrow> int \<Rightarrow> gerror option \<Rightarrow> store \<Rightarrow> bool" where
  "attempt_outcome j n res s \<longleftrightarrow>
     (\<exists>a \<in> set (attempts s). at_job_id a = j \<and> attempt_num a = n \<and> finished_at a \<noteq> None \<and>
        outcome a = Some (if res = None then ''succeeded'' else ''failed'') \<and>
        at_error a = (case res of None \<Rightarrow> None | Some e \<Rightarrow> nullStr (err_text e)))"

definition closed_status :: "gerror option \<Rightarrow> string" where
  "closed_status res = (if res = None then StatusSucceeded else StatusFailed)"

lemma conclude_parts:
  assumes row: "has_row j st' (db w)"
  shows "db_fault E (stmts (db w)) = None \<Longrightarrow> has_row j st (db (conclude E j i st out m w))"
    and "db_fault E (Suc (stmts (db w))) = None \<Longrightarrow> has_attempt j i n (db w) \<Longrightarrow>
      \<exists>a \<in> set (attempts (db (conclude E j i st out m w))). at_job_id a = j \<and> attempt_num a = n \<and>
        finished_at a \<noteq> None \<and> outcome a = Some out \<and> at_error a = nullStr m"
proof -
  let ?s = "snd (UpdateStatus E j st (db w))"
  show "has_row j st (db (conclude E j i st out m w))" if "db_fault E (stmts (db w)) = None"
    using UpdateStatus_row_at [OF that row, of st] by (simp add: conclude_db FinishAttempt_jobs has_row_def)
  assume calm: "db_fault E (Suc (stmts (db w))) = None" and "has_attempt j i n (db w)"
  then obtain a where a: "a \<in> set (attempts ?s)" "at_id a = i" "at_job_id a = j" "attempt_num a = n"
    by (auto simp: has_attempt_def UpdateStatus_other)
  let ?f = "\<lambda>a. if at_id a = i then a\<lparr>finished_at := Some (db_now E (stmts ?s)), outcome := Some out,
       at_error := nullStr m\<rparr> else a"
  have "attempts (db (conclude E j i st out m w)) = map ?f (attempts ?s)"
    using calm by (simp add: conclude_db FinishAttempt_def exec_stmt_ok sql_defs UpdateStatus_other)
  with a show "\<exists>a \<in> set (attempts (db (conclude E j i st out m w))). at_job_id a = j \<and> attempt_num a = n \<and>
        finished_at a \<noteq> None \<and> outcome a = Some out \<and> at_error a = nullStr m"
    by (auto intro!: bexI [of _ "?f a"])
qed

lemma finish_run_parts:
  assumes row: "has_row j st' (db w)"
  shows "db_fault E (stmts (db w)) = None \<Longrightarrow> has_row j (closed_status res) (db (finish_run E D ex wl lease j i res w))"
    and "db_fault E (Suc (stmts (db w))) = None \<Longrightarrow> has_attempt j i n (db w) \<Longrightarrow>
      attempt_outcome j n res (db (finish_run E D ex wl lease j i res w))"
proof -
  obtain v out m where v: "finish_run E D ex wl lease j i res w = conclude E j i (closed_status res) out m v"
    "db v = db w" "out = (if res = None then ''succeeded'' else ''failed'')"
    "nullStr m = (case res of None \<Rightarrow> None | Some e \<Rightarrow> nullStr (err_text e))"
    by (cases res) (simp_all add: finish_run_def closed_status_def nullStr_def)
  have "has_row j st' (db v)" using row v(2) by simp
  note parts = conclude_parts [OF this, unfolded v(2)]
  show "has_row j (closed_status res) (db (finish_run E D ex wl lease j i res w))" if "db_fault E (stmts (db w)) = None"
    using parts(1) [OF that] by (simp add: v(1))
  show "attempt_outcome j n res (db (finish_run E D ex wl lease j i res w))"
    if "db_fault E (Suc (stmts (db w))) = None" "has_attempt j i n (db w)"
    using parts(2) [OF that, of "closed_status res" out m] unfolding v(1) attempt_outcome_def v(3,4) .
qed

text \<open>
  C10. A run that got its job row, whatever the cloud answers to its reports and whatever statement
  or directory operation fails; \<open>runOne\<close> drops those errors, so each effect is stated with the one
  operation it hangs on.  The executor is called, on a handle for that job, exactly when the work
  directory could be made, and otherwise the run counts as failed.  While it runs the row is
  running, if that statement worked.  Afterwards the directory is gone if it could be removed; the
  row has the status that the executor's result says, whatever status it was given meanwhile, if
  that statement worked; and the attempt that the run opened, if both its statements worked, is
  closed with that outcome and error.
\<close>

theorem runOne_outcome:
  assumes honest: "\<And>h v. safe (db v) (db (snd (ex_Execute ex h v)))"
    and up: "upsertJobForWorkload E D wl lease w = (Some (j, n), w1)"
    and dir: "dir = jh_workDir (handle_of D j wl lease)" and fin: "fin = runOne E D ex wl lease w"
  shows "\<exists>v res u.
    (if mkdir_fault E dir = None
     then dir \<in> workdirs v \<and> ex_Execute ex (handle_of D j wl lease) v = (res, u) \<and> (rm_fails E dir \<or> dir \<notin> workdirs fin)
     else res \<noteq> None \<and> u = v \<and> workdirs fin = workdirs w1) \<and>
    (db_fault E (stmts (db w1)) = None \<longrightarrow> has_row j StatusRunning (db v)) \<and>
    (db_fault E (stmts (db u)) = None \<longrightarrow> has_row j (closed_status res) (db fin)) \<and>
    (db_fault E (Suc (stmts (db w1))) = None \<and> db_fault E (Suc (stmts (db u))) = None \<longrightarrow>
       attempt_outcome j n res (db fin))"
proof -
  let ?h = "handle_of D j wl lease" and ?i = "fst (begin_attempt E j n w1)" and ?b = "snd (begin_attempt E j n w1)"
  obtain st where "has_row j st (db w1)"
    using upsert_result [OF up, unfolded upsert_outcome_def] by (auto simp: has_row_def prepared_def)
  note b = begin_attempt_parts [OF this, of E n]
  show ?thesis
  proof (cases "mkdir_fault E dir")
    case None
    let ?v = "?b\<lparr>workdirs := insert dir (workdirs ?b)\<rparr>"
    obtain res u where x: "ex_Execute ex ?h ?v = (res, u)" by fastforce
    have run: "fin = Cleanup E ?h (finish_run E D ex wl lease j ?i res u)"
      using None x by (simp add: fin dir runOne_eq [OF up] run_job_eq NewJobHandle_ok)
    have safe: "safe (db ?b) (db u)" using honest [of ?v ?h] x by simp
    obtain st' where row: "has_row j st' (db u)" using has_row_later [OF _ safe] b(1) by blast
    note fp = finish_run_parts [OF row]
    have att: "has_attempt j ?i n (db u)" if "db_fault E (Suc (stmts (db w1))) = None"
      using has_attempt_later [OF b(3) [OF that] safe] .
    have "rm_fails E dir \<or> dir \<notin> workdirs fin" using dir by (simp add: run Cleanup_def)
    then show ?thesis using None x b(2) att
      by (intro exI [of _ ?v], intro exI [of _ res], intro exI [of _ u]) (simp add: run fp)
  next
    case (Some m)
    let ?e = "errorf ''workdir'' (Plain m)"
    let ?c = "snd (Fail E (DepCloud D) (wl_ID wl) (LeaseTok lease) (''job handle: '' @ err_text ?e) False ?b)"
    have new: "NewJobHandle E D j wl lease ?b = (Inl ?e, ?b)"
      using Some dir by (simp add: NewJobHandle_def handle_of_def)
    have run: "fin = conclude E j ?i StatusFailed ''failed'' (err_text ?e) ?c"
      unfolding fin runOne_eq [OF up] by (simp add: run_job_def new)
    obtain st' where row: "has_row j st' (db ?c)" using b(1) by auto
    note cp = conclude_parts [OF row]
    have "workdirs fin = workdirs w1" using b(4) by (simp add: run conclude_db)
    moreover have "has_row j StatusFailed (db fin)" if "db_fault E (stmts (db ?b)) = None"
      unfolding run by (rule cp(1)) (use that in simp)
    moreover have "attempt_outcome j n (Some ?e) (db fin)"
      if "db_fault E (Suc (stmts (db w1))) = None" "db_fault E (Suc (stmts (db ?b))) = None"
      using cp(2) [of E ?i n StatusFailed "''failed''" "err_text ?e"] b(3) that by (simp add: run attempt_outcome_def)
    ultimately show ?thesis
      using Some b(2)
      by (intro exI [of _ ?b], intro exI [of _ "Some ?e"], intro exI [of _ ?b]) (simp add: closed_status_def)
  qed
qed

theorem runOne_outcome_witness:
  "\<exists>j n. has_row j StatusSucceeded (db (runOne working_env (sample_deps sample_registry) (idle_executor ''video:clip'')
     sample_workload sample_lease (sample_daemon signed_in NoItem (claimed_store StatusQueued)))) \<and>
     attempt_outcome j n None (db (runOne working_env (sample_deps sample_registry) (idle_executor ''video:clip'')
     sample_workload sample_lease (sample_daemon signed_in NoItem (claimed_store StatusQueued))))"
proof -
  let ?w = "sample_daemon signed_in NoItem (claimed_store StatusQueued)" and ?ex = "idle_executor ''video:clip''"
  obtain r w1 where up: "upsertJobForWorkload working_env (sample_deps sample_registry) sample_workload sample_lease ?w
      = (r, w1)" by fastforce
  have "r \<noteq> None"
    using up by (auto simp: upsert_lookup GetByWorkloadID_ok claimed_store_def claimed_row_def
        sample_workload_def scan_job_def take_over_def on_db_def UpdateLease_def update_job_def exec_stmt_ok
        sql_defs split: prod.splits)
  then obtain j n where r: "r = Some (j, n)" by auto
  have honest: "safe (db v) (db (snd (ex_Execute ?ex h v)))" for h v by (simp add: idle_executor_def)
  have res: "fst (ex_Execute ?ex h v) = None" for h v by (simp add: idle_executor_def)
  from runOne_outcome [OF honest up [unfolded r] refl refl] res
  show ?thesis by (fastforce simp: closed_status_def dest: arg_cong [of _ _ fst])
qed

section \<open>A cancelled job that succeeds\<close>

lemma begin_attempt_safe: "safe (db w) (db (snd (begin_attempt E j n w)))"
  using safe_trans [OF UpdateStatus_safe [of StatusRunning "db w" E j]
      StartAttempt_safe [of "snd (UpdateStatus E j StatusRunning (db w))" E j n]]
  by (simp add: begin_attempt_def split_beta all_statuses_def)

lemma Cancel_running:
  assumes "calm_statements E" and "store_wf s" and "has_row j StatusRunning s"
  shows "\<exists>t. Cancel E j s = (Inr (), t) \<and> has_row j StatusCancelled t"
proof -
  obtain x where x: "x \<in> set (jobs s)" "jid x = j" "job_status x = StatusRunning"
    using assms(3) by (auto simp: has_row_def)
  have "find (\<lambda>r. jid r = j) (jobs s) = Some x"
    using find_unique [of jid "jobs s" x] assms(2) x by (simp add: store_wf_def)
  then have run: "Cancel E j s = (Inr (), (tick (tick s))\<lparr>jobs := set_row j
      (\<lambda>r. r\<lparr>job_status := StatusCancelled, updated_at := db_now E (Suc (stmts s))\<rparr>) (jobs s)\<rparr>)"
    using x by (simp add: Cancel_def exec_stmt_ok [OF calm_statementsD [OF assms(1)]] sql_defs set_row_def)
  let ?f = "\<lambda>r. r\<lparr>job_status := StatusCancelled, updated_at := db_now E (Suc (stmts s))\<rparr>"
  have "?f x \<in> set (set_row j ?f (jobs s))" by (rule set_row_member [OF x(1,2)])
  then have "has_row j StatusCancelled ((tick (tick s))\<lparr>jobs := set_row j ?f (jobs s)\<rparr>)"
    using x by (auto simp: has_row_def intro!: bexI [of _ "?f x"])
  with run show ?thesis by blast
qed

text \<open>
  C36. A user's cancel that was accepted can be lost.  \<open>runOne\<close> writes its final status without
  looking at the row, so when the job is cancelled while its executor runs and the executor
  then returns normally, the row goes from cancelled, a status no transition should leave, to
  succeeded, and the cloud is told the workload is complete.
\<close>

theorem accepted_cancel_overwritten:
  assumes wf: "store_wf (db w)" and calm: "calm_statements E"
    and dirs: "\<And>d. mkdir_fault E d = None" "\<And>d. \<not> rm_fails E d"
    and cancelled: "\<And>h v. ex_Execute ex h v = (None, snd (on_db (Cancel E (jh_id h)) v))"
    and up: "upsertJobForWorkload E D wl lease w = (Some (j, n), w1)"
  shows "\<exists>v t. Cancel E j (db v) = (Inr (), t) \<and> has_row j StatusCancelled t \<and>
    ex_Execute ex (handle_of D j wl lease) v = (None, v\<lparr>db := t\<rparr>) \<and>
    runOne E D ex wl lease w = Cleanup E (handle_of D j wl lease)
      (finish_run E D ex wl lease j (fst (begin_attempt E j n w1)) None (v\<lparr>db := t\<rparr>)) \<and>
    has_row j StatusSucceeded (db (runOne E D ex wl lease w))"
proof -
  let ?h = "handle_of D j wl lease" and ?i = "fst (begin_attempt E j n w1)" and ?b = "snd (begin_attempt E j n w1)"
  let ?v = "?b\<lparr>workdirs := insert (jh_workDir ?h) (workdirs ?b)\<rparr>"
  note res = upsert_result [OF up, unfolded upsert_outcome_def, simplified]
  obtain st where "has_row j st (db w1)" using res by (auto simp: has_row_def prepared_def)
  note b = begin_attempt_result [OF calm this, of n]
  have "safe (db w) (db ?b)" using res safe_trans [OF _ begin_attempt_safe] by blast
  with wf have "store_wf (db ?v)" by (simp add: safe_def)
  then obtain t where t: "Cancel E j (db ?v) = (Inr (), t)" "has_row j StatusCancelled t"
    using Cancel_running [OF calm, of "db ?v" j] b by auto
  have ex: "ex_Execute ex ?h ?v = (None, ?v\<lparr>db := t\<rparr>)"
    using cancelled [of ?h ?v] t(1) by (simp add: on_db_eq handle_of_def)
  have run: "runOne E D ex wl lease w = Cleanup E ?h (finish_run E D ex wl lease j ?i None (?v\<lparr>db := t\<rparr>))"
    using ex by (simp add: runOne_eq [OF up] run_job_eq NewJobHandle_ok dirs)
  have "safe (db ?v) t" using Cancel_safe [of "db ?v" E j] t(1) by simp
  then have "has_attempt j ?i n (db (?v\<lparr>db := t\<rparr>))" using has_attempt_later [of j ?i n "db ?b" t] b by simp
  moreover have "has_row j StatusCancelled (db (?v\<lparr>db := t\<rparr>))" using t(2) by simp
  ultimately have "run_outcome j n None (db (runOne E D ex wl lease w))"
    unfolding run Cleanup_db using finish_run_result [OF calm] by blast
  then have "has_row j StatusSucceeded (db (runOne E D ex wl lease w))" by (simp add: run_outcome_def)
  with t ex run show ?thesis by blast
qed

theorem accepted_cancel_overwritten_witness:
  "\<exists>j ex. has_row j StatusSucceeded (db (runOne working_env (sample_deps []) ex
     sample_workload sample_lease (sample_daemon signed_in NoItem (claimed_store StatusQueued))))"
proof -
  let ?w = "sample_daemon signed_in NoItem (claimed_store StatusQueued)"
  let ?ex = "(idle_executor ''video:clip'')\<lparr>ex_Execute := \<lambda>h v. (None, snd (on_db (Cancel working_env (jh_id h)) v))\<rparr>"
  obtain r w1 where up: "upsertJobForWorkload working_env (sample_deps []) sample_workload sample_lease ?w = (r, w1)"
    by fastforce
  have "r \<noteq> None"
    using up by (auto simp: upsert_lookup GetByWorkloadID_ok claimed_store_def claimed_row_def
        sample_workload_def scan_job_def take_over_def on_db_def UpdateLease_def update_job_def exec_stmt_ok
        sql_defs split: prod.splits)
  then obtain j n where r: "r = Some (j, n)" by auto
  have wf: "store_wf (db ?w)" by (simp add: claimed_store_wf all_statuses_def)
  have calm: "calm_statements working_env" by (simp add: calm_statements_def)
  have c: "ex_Execute ?ex h v = (None, snd (on_db (Cancel working_env (jh_id h)) v))" for h v by simp
  from accepted_cancel_overwritten [OF wf calm _ _ c up [unfolded r]] show ?thesis by auto
qed


end
