(* ===== verification/ClipProps.thy ===== *)
theory ClipProps
  imports ClipVideo Outputs SchedRun
begin

text \<open>
  What the clip executor guarantees: the encoder it chooses, the outputs of a run, and what a
  later attempt finds.
\<close>

section \<open>Events and the saved state\<close>

lemma AppendEvent_jobs: "jobs (snd (AppendEvent E i k m a s)) = jobs s"
  by (auto simp: AppendEvent_def exec_stmt_def sql_insert_event_def tick_def
      split: prod.splits sum.splits option.splits if_splits)

lemma handle_AppendEvent_keeps [simp]:
  "sent (snd (handle_AppendEvent E h k m a w)) = sent w" "puts (snd (handle_AppendEvent E h k m a w)) = puts w"
  "tok (snd (handle_AppendEvent E h k m a w)) = tok w" "ctx_done (snd (handle_AppendEvent E h k m a w)) = ctx_done w"
  "enc_once (snd (handle_AppendEvent E h k m a w)) = enc_once w"
  "files (snd (handle_AppendEvent E h k m a w)) = files w"
  "jobs (db (snd (handle_AppendEvent E h k m a w))) = jobs (db w)"
  by (simp_all add: handle_AppendEvent_def on_db_eq AppendEvent_jobs)

lemma run_command_keeps:
  assumes "run_command E p args w = (q, v)"
  shows "sent v = sent w" "puts v = puts w" "db v = db w" "tok v = tok w" "ctx_done v = ctx_done w"
    "procs v = procs w @ [(p, args)]" "enc_once v = enc_once w"
  using assms by (auto simp: run_command_def split: prod.splits)

text \<open>The recovery hint of the job's row, and what loading it gives.\<close>

definition hint :: "job_handle \<Rightarrow> 'm media_scheme \<Rightarrow> string option option" where
  "hint h w = map_option resumable_state (find (\<lambda>r. jid r = jh_id h) (jobs (db w)))"

lemma hint_jobs: "jobs (db v) = jobs (db w) \<Longrightarrow> hint h v = hint h w"
  by (simp add: hint_def)

lemma hint_saved:
  assumes "calm_statements E"
  shows "hint h (snd (SaveResumableState E h j w)) =
    map_option (\<lambda>_. nullStr (json_text E j)) (hint h w)"
proof -
  have "find (\<lambda>r. jid r = i) (set_row i f rs) = map_option f (find (\<lambda>r. jid r = i) rs)"
    if "\<And>r. jid (f r) = jid r" for i f and rs :: "row list"
    using that by (induction rs) (auto simp: set_row_def)
  then show ?thesis
    using update_job_result [of E "''update resumable state''" "jh_id h"
        "\<lambda>r. r\<lparr>resumable_state := nullStr (json_text E j)\<rparr>" "db w"] assms
    by (cases "find (\<lambda>r. jid r = jh_id h) (jobs (db w))")
      (auto simp: hint_def SaveResumableState_def UpdateResumableState_def on_db_eq update_job_def
        exec_stmt_ok sql_defs set_row_def find_map_if comp_def dest: find_Some_set split: prod.splits sum.splits)
qed

lemma Save_keeps [simp]:
  "sent (snd (SaveResumableState E h j w)) = sent w" "puts (snd (SaveResumableState E h j w)) = puts w"
  "tok (snd (SaveResumableState E h j w)) = tok w" "ctx_done (snd (SaveResumableState E h j w)) = ctx_done w"
  by (simp_all add: SaveResumableState_def on_db_eq)

lemma push_keeps [simp]:
  "sent (push_progress E ev w) = sent w" "puts (push_progress E ev w) = puts w" "db (push_progress E ev w) = db w"
  "tok (push_progress E ev w) = tok w" "ctx_done (push_progress E ev w) = ctx_done w"
  by (simp_all add: push_progress_def)

section \<open>One clip\<close>

definition clip_delivered ::
  "'e menv_scheme \<Rightarrow> cloud_client option \<Rightarrow> job_handle \<Rightarrow> string \<Rightarrow> ClipSpec \<Rightarrow> 'm media_scheme \<Rightarrow> bool" where
  "clip_delivered E cl h aspect spec w \<longleftrightarrow> (\<exists>c content meta. cl = Some c \<and>
     clip_meta E aspect spec = Some meta \<and>
     delivered E c h ''video_clip'' (clip_name (Index spec)) content meta w)"

lemma clip_delivered_grows: "clip_delivered E cl h aspect spec w \<Longrightarrow> grows w v \<Longrightarrow> clip_delivered E cl h aspect spec v"
  unfolding clip_delivered_def using delivered_grows by blast

lemma make_clip_result:
  assumes run: "make_clip E cl h ff aspect enc spec w = (r, v)"
  shows "grows w v \<and> jobs (db v) = jobs (db w) \<and> length (puts v) \<le> Suc (length (puts w)) \<and>
    (r = None \<longrightarrow> length (puts v) = Suc (length (puts w)) \<and> clip_delivered E cl h aspect spec v)"
proof -
  let ?dst = "path_join [jh_workDir h, clip_name (Index spec)]"
  obtain out err w1 where c: "run_command E ff (buildFFmpegArgs (master_path h) ?dst spec aspect enc) w = ((out, err), w1)"
    by (metis prod.collapse)
  note k1 = run_command_keeps [OF c]
  obtain st w2 where st: "os_Stat E ?dst w1 = (st, w2)" by fastforce
  obtain q w3 where q: "os_Open E ?dst w2 = (q, w3)" by fastforce
  have "fs_only w1 w3" using os_Stat_only [OF st] os_Open_only [OF q] fs_only_trans by blast
  note k3 = fs_only_keeps [OF this]
  have g3: "grows w w3" using k1 k3 by (simp add: grows_def)
  show ?thesis
  proof (cases "err = None \<and> (\<exists>content. q = Inr content)")
    case True
    then obtain content where content: "q = Inr content" by blast
    let ?n = "case stat_size st of None \<Rightarrow> 0 | Some n \<Rightarrow> n"
    obtain a w4 where a: "AddOutput E cl h ''video_clip'' (clip_name (Index spec)) content ?n (clip_meta E aspect spec) w3 = (a, w4)"
      by fastforce
    have "v = w4 \<and> (r = None \<longleftrightarrow> a = None)"
      using run c True st q content a by (auto simp: make_clip_def Let_def split: option.splits)
    moreover have "length (puts w4) = Suc (length (puts w3))" if "a = None"
      using a that by (auto intro: AddOutput_count)
    ultimately show ?thesis
      using AddOutput_result [OF a] grows_trans [OF g3, of w4] k1 k3
      by (auto simp: clip_delivered_def)
  next
    case False
    then have "r \<noteq> None \<and> (v = w3 \<or> (\<exists>m. v = snd (handle_AppendEvent E h ''error'' ''ffmpeg failed'' m w1)))"
      using run c st q by (auto simp: make_clip_def Let_def split: option.splits sum.splits)
    with k1 k3 g3 show ?thesis by (auto simp: grows_def)
  qed
qed

section \<open>The loop\<close>

text \<open>What the loop over \<open>specs\<close> has done between \<open>w\<close> and \<open>v\<close>: the clips \<open>new\<close>, delivered and remembered.\<close>

definition loop_outcome ::
  "'e menv_scheme \<Rightarrow> cloud_client option \<Rightarrow> job_handle \<Rightarrow> string \<Rightarrow> ClipSpec list \<Rightarrow> int list \<Rightarrow> gerror option \<Rightarrow>
     'm media_scheme \<Rightarrow> 'm media_scheme \<Rightarrow> int list \<Rightarrow> bool" where
  "loop_outcome E cl h aspect specs rs r w v new \<longleftrightarrow> grows w v \<and> distinct new \<and> set new \<inter> set rs = {} \<and>
     (\<forall>k \<in> set new. \<exists>spec \<in> set specs. Index spec = k \<and> clip_delivered E cl h aspect spec v) \<and>
     length (puts w) + length new \<le> length (puts v) \<and>
     length (puts v) \<le> length (puts w) + length new + (if r = None then 0 else 1) \<and>
     (r = None \<longrightarrow> set new = Index ` set specs - set rs) \<and>
     (calm_statements E \<longrightarrow> hint h v = (if new = [] then hint h w
        else map_option (\<lambda>_. nullStr (json_text E (resumable_json (rs @ new)))) (hint h w)))"

lemma loop_outcome_skip:
  "Index spec \<in> set rs \<Longrightarrow> loop_outcome E cl h aspect specs rs r w v new \<Longrightarrow> loop_outcome E cl h aspect (spec # specs) rs r w v new"
  by (auto simp: loop_outcome_def)

lemma loop_outcome_more:
  fixes w1 :: "'m media_scheme"
  assumes a: "make_clip E cl h ff aspect enc spec w = (None, w1)" and fresh: "Index spec \<notin> set rs"
    and u: "u = push_progress E ev (snd (SaveResumableState E h (resumable_json (rs @ [Index spec])) w1))"
    and rest: "loop_outcome E cl h aspect specs (rs @ [Index spec]) r u v new"
  shows "loop_outcome E cl h aspect (spec # specs) rs r w v (Index spec # new)"
proof -
  note one = make_clip_result [OF a]
  have g1: "grows w1 v" using rest u by (simp add: loop_outcome_def grows_def)
  have "clip_delivered E cl h aspect spec v" using one g1 clip_delivered_grows by blast
  moreover have "grows w v" using one g1 grows_trans by blast
  moreover have "hint h u = map_option (\<lambda>_. nullStr (json_text E (resumable_json (rs @ [Index spec])))) (hint h w)"
    if "calm_statements E"
    using hint_saved [OF that, of h "resumable_json (rs @ [Index spec])" w1] hint_jobs [of w1 w h] one u
    by (simp add: hint_def)
  moreover have "length (puts u) = Suc (length (puts w))" using one u by simp
  ultimately show ?thesis using rest fresh
    unfolding loop_outcome_def by (auto simp: option.map_comp comp_def)
qed

lemma clip_loop_result:
  "clip_loop E cl h ff aspect enc n i rs specs w = (r, v) \<Longrightarrow> \<exists>new. loop_outcome E cl h aspect specs rs r w v new"
proof (induction specs arbitrary: i rs w)
  case Nil
  then show ?case by (intro exI [of _ "[]"]) (auto simp: loop_outcome_def)
next
  case (Cons spec specs)
  show ?case
  proof (cases "ctx_err E w")
    case (Some e)
    with Cons.prems show ?thesis by (intro exI [of _ "[]"]) (auto simp: loop_outcome_def)
  next
    case None
    show ?thesis
    proof (cases "Index spec \<in> set rs")
      case True
      then have "clip_loop E cl h ff aspect enc n (Suc i) rs specs w = (r, v)" using Cons.prems None by simp
      from Cons.IH [OF this] True loop_outcome_skip show ?thesis by blast
    next
      case False
      obtain a w1 where a: "make_clip E cl h ff aspect enc spec w = (a, w1)" by fastforce
      show ?thesis
      proof (cases a)
        case (Some e)
        with Cons.prems None False a have "r = Some e \<and> v = w1" by simp
        with make_clip_result [OF a] hint_jobs [of w1 w h] grows_length [of w w1] show ?thesis
          by (intro exI [of _ "[]"]) (auto simp: loop_outcome_def)
      next
        case ok: None
        let ?u = "push_progress E (clip_progress E i n)
            (snd (SaveResumableState E h (resumable_json (rs @ [Index spec])) w1))"
        have "clip_loop E cl h ff aspect enc n (Suc i) (rs @ [Index spec]) specs ?u = (r, v)"
          using Cons.prems None False a ok by (simp add: Let_def)
        from Cons.IH [OF this] loop_outcome_more [OF a [unfolded ok] False refl] show ?thesis by blast
      qed
    qed
  qed
qed

text \<open>No more uploads are attempted than there are clips to make.\<close>

lemma clip_loop_uploads:
  "clip_loop E cl h ff aspect enc n i rs specs w = (r, v) \<Longrightarrow>
   length (puts v) \<le> length (puts w) + card (Index ` set specs - set rs)"
proof (induction specs arbitrary: i rs w)
  case (Cons spec specs)
  have more: "card (Index ` set specs - set rs) \<le> card (Index ` set (spec # specs) - set rs)"
    by (rule card_mono) auto
  obtain a w1 where a: "make_clip E cl h ff aspect enc spec w = (a, w1)" by fastforce
  note one = make_clip_result [OF a]
  have split: "card (Index ` set (spec # specs) - set rs) = Suc (card (Index ` set specs - set (rs @ [Index spec])))"
    if "Index spec \<notin> set rs"
  proof -
    have "Index ` set (spec # specs) - set rs = insert (Index spec) (Index ` set specs - set (rs @ [Index spec]))"
      using that by auto
    then show ?thesis by simp
  qed
  consider "v = w" | "Index spec \<in> set rs" "clip_loop E cl h ff aspect enc n (Suc i) rs specs w = (r, v)"
    | "Index spec \<notin> set rs" "v = w1"
    | "Index spec \<notin> set rs" "clip_loop E cl h ff aspect enc n (Suc i) (rs @ [Index spec]) specs
        (push_progress E (clip_progress E i n) (snd (SaveResumableState E h (resumable_json (rs @ [Index spec])) w1))) = (r, v)"
    using Cons.prems a by (auto simp: Let_def split: option.splits if_splits)
  then show ?case
  proof cases
    case 2
    from Cons.IH [OF this(2)] more show ?thesis by simp
  next
    case 3
    with one split show ?thesis by simp
  next
    case 4
    from Cons.IH [OF this(2)] split [OF this(1)] one show ?thesis by simp
  qed simp
qed simp

section \<open>A whole run\<close>

definition quiet :: "'m media_scheme \<Rightarrow> 'm media_scheme \<Rightarrow> bool" where
  "quiet w v \<longleftrightarrow> sent v = sent w \<and> puts v = puts w \<and> jobs (db v) = jobs (db w) \<and> tok v = tok w \<and>
     ctx_done v = ctx_done w"

lemma quiet_refl [simp]: "quiet w w"
  by (simp add: quiet_def)

lemma quiet_trans: "quiet w v \<Longrightarrow> quiet v u \<Longrightarrow> quiet w u"
  by (simp add: quiet_def)

lemma event_quiet [simp]: "quiet w (snd (handle_AppendEvent E h k m a w))"
  by (simp add: quiet_def)

lemma command_quiet: "run_command E p args w = (q, v) \<Longrightarrow> quiet w v"
  by (simp add: quiet_def run_command_keeps [of E p args w q v])

lemma fs_only_quiet: "fs_only w v \<Longrightarrow> quiet w v"
  by (auto simp: quiet_def fs_only_def)

lemma load_completed_quiet: "load_completed E h w = (rs, v) \<Longrightarrow> quiet w v"
  using GetJob_tables [of E "jh_id h" "db w"]
  by (auto simp: load_completed_def LoadResumableState_def on_db_eq quiet_def tick_def split: sum.splits prod.splits)

lemma Locate_quiet: "Locate E t w = (r, v) \<Longrightarrow> quiet w v"
  by (auto simp: Locate_def discoverFFmpeg_def split: option.splits prod.splits sum.splits if_splits
      dest!: command_quiet) (auto simp: quiet_def)

lemma probe_quiet: "probe_candidates E ff listed cs w = (e, v) \<Longrightarrow> quiet w v"
proof (induction cs arbitrary: w)
  case (Cons c cs)
  obtain ok w1 where p: "probeEncoder E ff c w = (ok, w1)" by fastforce
  then have "quiet w w1" by (auto simp: probeEncoder_def split: prod.splits dest: command_quiet)
  with Cons p quiet_trans show ?case by (auto split: if_splits)
qed simp

lemma SelectEncoder_quiet: "SelectEncoder E ff w = (r, v) \<Longrightarrow> quiet w v"
  by (auto simp: SelectEncoder_def listEncoders_def split: prod.splits sum.splits option.splits
      dest!: command_quiet probe_quiet intro: quiet_trans)

lemma choose_encoder_quiet: "choose_encoder E h ff w = (e, v) \<Longrightarrow> quiet w v"
  by (auto simp: choose_encoder_def split: option.splits prod.splits dest!: SelectEncoder_quiet)
    (auto simp: quiet_def)

lemma http_follow_keeps:
  "http_follow n E u w = (r, v) \<Longrightarrow> sent v = sent w \<and> puts v = puts w \<and> db v = db w \<and> tok v = tok w \<and>
     ctx_done v = ctx_done w \<and> files v = files w \<and> procs v = procs w"
proof (induction n arbitrary: u w)
  case (Suc n)
  show ?case
  proof (cases "fetch E (gets w @ [u])")
    case (MovedTo x)
    with Suc.prems Suc.IH [of x "w\<lparr>gets := gets w @ [u]\<rparr>"] show ?thesis by (simp add: Let_def)
  qed (use Suc.prems in \<open>auto simp: Let_def\<close>)
qed simp

lemma stream_quiet: "stream_to_file E what u dst w = (r, v) \<Longrightarrow> quiet w v"
  by (auto simp: stream_to_file_def split: if_splits prod.splits sum.splits option.splits
      dest!: http_follow_keeps os_Create_only io_Copy_only fs_only_quiet) (auto simp: quiet_def)

lemma fetch_master_quiet:
  assumes "fetch_master E h u w = (r, v)"
  shows "quiet w v"
proof -
  obtain st w1 where st: "os_Stat E (master_path h) w = (st, w1)" by fastforce
  obtain a w2 where a: "downloadFile E u (master_path h) w1 = (a, w2)" by fastforce
  have q1: "quiet w w1" using os_Stat_only [OF st] fs_only_quiet by blast
  have q2: "quiet w w2" using q1 a stream_quiet quiet_trans unfolding downloadFile_def by blast
  from assms st a have "v \<in> {w1, w2, snd (handle_AppendEvent E h ''log'' ''master downloaded'' None w2)}"
    by (auto simp: fetch_master_def split: if_splits option.splits)
  with q1 q2 quiet_trans [OF q2 event_quiet] show ?thesis by auto
qed

text \<open>Either the run stops before the loop, with an error, or it is the loop after quiet steps.\<close>

lemma clip_Execute_cases:
  assumes run: "clip_Execute E cl h w = (r, v)" and pay: "check_payload E (jh_wl h) = Inr p"
    and start: "load_completed E h w = (rs, w0)"
  shows "r \<noteq> None \<and> quiet w v \<or>
    (\<exists>u ff enc. quiet w u \<and>
       clip_loop E cl h ff (TargetAspect p) enc (length (ClipSpecs p)) 0 rs (ClipSpecs p) u = (r, v))"
proof -
  obtain l w2 where l: "Locate E ''ffmpeg'' w0 = (l, w2)" by fastforce
  have q2: "quiet w w2" using load_completed_quiet [OF start] Locate_quiet [OF l] quiet_trans by blast
  show ?thesis
  proof (cases l)
    case (Inl e)
    with run pay start l q2 show ?thesis by (auto simp: clip_Execute_def)
  next
    case (Inr ff)
    let ?w3 = "snd (handle_AppendEvent E h ''log'' ''ffmpeg located''
                (Some (JObj [(''path'', JText (ToolPath ff)), (''version'', JText (ToolVersion ff))])) w2)"
    obtain enc w4 where enc: "choose_encoder E h (ToolPath ff) ?w3 = (enc, w4)" by fastforce
    obtain a w5 where a: "fetch_master E h (MasterVideoURL p) w4 = (a, w5)" by fastforce
    have "quiet w ?w3" using q2 event_quiet by (rule quiet_trans)
    then have "quiet w w4" using choose_encoder_quiet [OF enc] by (rule quiet_trans)
    then have q5: "quiet w w5" using fetch_master_quiet [OF a] by (rule quiet_trans)
    show ?thesis
    proof (cases a)
      case None
      then have "clip_loop E cl h (ToolPath ff) (TargetAspect p) enc (length (ClipSpecs p)) 0 rs (ClipSpecs p) w5 = (r, v)"
        using run pay start l Inr enc a by (simp add: clip_Execute_def Let_def)
      with q5 show ?thesis by blast
    next
      case (Some e)
      with run pay start l Inr enc a q5 show ?thesis by (auto simp: clip_Execute_def Let_def)
    qed
  qed
qed

lemma clip_Execute_result:
  assumes run: "clip_Execute E cl h w = (r, v)" and pay: "check_payload E (jh_wl h) = Inr p"
    and start: "load_completed E h w = (rs, w0)"
  shows "\<exists>new. distinct new \<and> set new \<inter> set rs = {} \<and> grows w v \<and>
     (\<forall>k \<in> set new. \<exists>spec \<in> set (ClipSpecs p). Index spec = k \<and> clip_delivered E cl h (TargetAspect p) spec v) \<and>
     length (puts w) + length new \<le> length (puts v) \<and>
     length (puts v) \<le> length (puts w) + length new + (if r = None then 0 else 1) \<and>
     length (puts v) \<le> length (puts w) + card (Index ` set (ClipSpecs p) - set rs) \<and>
     (r = None \<longrightarrow> set new = Index ` set (ClipSpecs p) - set rs) \<and>
     (calm_statements E \<longrightarrow> hint h v = (if new = [] then hint h w
        else map_option (\<lambda>_. nullStr (json_text E (resumable_json (rs @ new)))) (hint h w)))"
proof (cases "r \<noteq> None \<and> quiet w v")
  case True
  then show ?thesis using hint_jobs [of v w h] by (intro exI [of _ "[]"]) (auto simp: quiet_def grows_def)
next
  case False
  then obtain u ff enc where q: "quiet w u"
    and loop: "clip_loop E cl h ff (TargetAspect p) enc (length (ClipSpecs p)) 0 rs (ClipSpecs p) u = (r, v)"
    using clip_Execute_cases [OF run pay start] by blast
  have same: "grows u v = grows w v" "hint h u = hint h w" "puts u = puts w"
    using q hint_jobs [of u w h] by (auto simp: quiet_def grows_def)
  from clip_loop_result [OF loop] clip_loop_uploads [OF loop] show ?thesis
    unfolding same loop_outcome_def by (elim exE) (rule exI, blast)
qed

text \<open>
  C4. The clip executor returns success only when every clip of the workload is in the cloud: each
  index that the saved state did not name was cut, uploaded and recorded once, in this run,
  under its own key and with its own metadata.  On every path no more uploads are attempted
  than there are clips left to make, so no clip is sent twice, not even when two specs carry
  the same index.
\<close>

theorem clips_delivered:
  assumes run: "clip_Execute E cl h w = (r, v)" and pay: "check_payload E (jh_wl h) = Inr p"
    and start: "load_completed E h w = (rs, w0)"
  shows "(r = None \<longrightarrow>
      (\<forall>spec \<in> set (ClipSpecs p). Index spec \<in> set rs \<or>
         (\<exists>s \<in> set (ClipSpecs p). Index s = Index spec \<and> clip_delivered E cl h (TargetAspect p) s v)) \<and>
      length (puts v) = length (puts w) + card (Index ` set (ClipSpecs p) - set rs)) \<and>
    length (puts v) \<le> length (puts w) + card (Index ` set (ClipSpecs p) - set rs)"
proof -
  from clip_Execute_result [OF run pay start] obtain new where
    d: "distinct new" and new: "\<forall>k \<in> set new. \<exists>spec \<in> set (ClipSpecs p). Index spec = k \<and>
        clip_delivered E cl h (TargetAspect p) spec v"
    and low: "length (puts w) + length new \<le> length (puts v)"
    and high: "length (puts v) \<le> length (puts w) + card (Index ` set (ClipSpecs p) - set rs)"
    and all: "r = None \<longrightarrow> set new = Index ` set (ClipSpecs p) - set rs"
    by (elim exE conjE) (rule that)
  have "length new = card (Index ` set (ClipSpecs p) - set rs)" if "r = None"
    using d all that distinct_card by fastforce
  moreover have "Index spec \<in> set rs \<or>
      (\<exists>s \<in> set (ClipSpecs p). Index s = Index spec \<and> clip_delivered E cl h (TargetAspect p) s v)"
    if "r = None" "spec \<in> set (ClipSpecs p)" for spec
    using all new that by (cases "Index spec \<in> set rs") auto
  ultimately show ?thesis using low high by auto
qed

section \<open>The calm world\<close>

lemma last_args: "last (buildFFmpegArgs master dst spec aspect enc) = dst"
  by (simp add: buildFFmpegArgs_def)

definition signed_on :: "'m media_scheme \<Rightarrow> bool" where
  "signed_on w \<longleftrightarrow> cachedKnown (tok w) \<and> cached (tok w) = fresh_bundle \<and> \<not> ctx_done w"

lemma calm_make_clip:
  assumes "signed_on w"
  shows "fst (make_clip calm_menv (Some c) h ff aspect enc spec w) = None \<and>
    signed_on (snd (make_clip calm_menv (Some c) h ff aspect enc spec w))"
proof -
  let ?dst = "path_join [jh_workDir h, clip_name (Index spec)]"
  let ?args = "buildFFmpegArgs (master_path h) ?dst spec aspect enc"
  let ?w1 = "w\<lparr>procs := procs w @ [(ff, ?args)], files := (files w)(?dst := Some ''data'')\<rparr>"
  let ?w3 = "fs_tick (fs_tick ?w1)"
  have c: "run_command calm_menv ff ?args w = (([], None), ?w1)"
    by (simp add: run_command_def last_args)
  have st: "os_Stat calm_menv ?dst ?w1 = (StatSize 4, fs_tick ?w1)" by (simp add: os_Stat_def)
  have q: "os_Open calm_menv ?dst (fs_tick ?w1) = (Inr ''data'', ?w3)" by (simp add: os_Open_def)
  obtain m where m: "clip_meta calm_menv aspect spec = Some m" by (simp add: clip_meta_def)
  have "cachedKnown (tok ?w3)" "cached (tok ?w3) = fresh_bundle" "\<not> ctx_done ?w3"
    using assms by (simp_all add: signed_on_def fs_tick_def)
  then show ?thesis
    using calm_AddOutput [of calm_menv ?w3 c h "''video_clip''" "clip_name (Index spec)" "''data''" 4 m] c st q m
    by (auto simp: make_clip_def Let_def stat_size_def signed_on_def split_beta split: option.splits)
qed

lemma calm_loop:
  "signed_on w \<Longrightarrow> fst (clip_loop calm_menv (Some c) h ff aspect enc n i rs specs w) = None"
proof (induction specs arbitrary: i rs w)
  case (Cons spec specs)
  obtain a w1 where a: "make_clip calm_menv (Some c) h ff aspect enc spec w = (a, w1)" by fastforce
  have "a = None" "signed_on w1" using calm_make_clip [OF Cons.prems, of c h ff aspect enc spec] a by simp_all
  moreover have "ctx_err calm_menv w = None" using Cons.prems by (simp add: ctx_err_def signed_on_def)
  ultimately show ?case using a Cons.IH Cons.prems by (simp add: Let_def signed_on_def)
qed simp

lemma calm_Locate:
  "fst (Locate calm_menv ''ffmpeg'' w) \<in> range Inr"
  by (auto simp: Locate_def discoverFFmpeg_def run_command_def split: option.splits)

lemma calm_fetch_master: "fst (fetch_master calm_menv h u w) = None"
  by (simp add: fetch_master_def downloadFile_def stream_to_file_def eval_nat_numeral os_Create_def io_Copy_def split_beta)

lemma calm_Execute:
  assumes "check_payload calm_menv (jh_wl h) = Inr p" and "signed_on w"
  shows "fst (clip_Execute calm_menv (Some c) h w) = None"
proof -
  obtain rs w0 where start: "load_completed calm_menv h w = (rs, w0)" by fastforce
  obtain r v where run: "clip_Execute calm_menv (Some c) h w = (r, v)" by fastforce
  obtain l w2 where l: "Locate calm_menv ''ffmpeg'' w0 = (Inr l, w2)"
    using calm_Locate [of w0] by (cases "Locate calm_menv ''ffmpeg'' w0") auto
  have "r = None"
  proof (cases "\<exists>u ff enc. quiet w u \<and> clip_loop calm_menv (Some c) h ff (TargetAspect p) enc
      (length (ClipSpecs p)) 0 rs (ClipSpecs p) u = (r, v)")
    case True
    then obtain u ff enc where "quiet w u" and loop: "clip_loop calm_menv (Some c) h ff (TargetAspect p) enc
      (length (ClipSpecs p)) 0 rs (ClipSpecs p) u = (r, v)" by blast
    then have "signed_on u" using assms(2) by (simp add: quiet_def signed_on_def)
    from calm_loop [OF this, of c h ff "TargetAspect p" enc "length (ClipSpecs p)" 0 rs "ClipSpecs p"] loop
    show ?thesis by simp
  next
    case False
    let ?w3 = "snd (handle_AppendEvent calm_menv h ''log'' ''ffmpeg located''
                (Some (JObj [(''path'', JText (ToolPath l)), (''version'', JText (ToolVersion l))])) w2)"
    obtain enc w4 where enc: "choose_encoder calm_menv h (ToolPath l) ?w3 = (enc, w4)" by fastforce
    obtain w5 where a: "fetch_master calm_menv h (MasterVideoURL p) w4 = (None, w5)"
      using calm_fetch_master [of h "MasterVideoURL p" w4] by (cases "fetch_master calm_menv h (MasterVideoURL p) w4") auto
    have "clip_loop calm_menv (Some c) h (ToolPath l) (TargetAspect p) enc (length (ClipSpecs p)) 0 rs (ClipSpecs p) w5 = (r, v)"
      using run assms(1) start l enc a by (simp add: clip_Execute_def Let_def)
    moreover have "quiet w w5"
      using load_completed_quiet [OF start] Locate_quiet [OF l] event_quiet choose_encoder_quiet [OF enc]
        fetch_master_quiet [OF a] by (meson quiet_trans)
    ultimately show ?thesis using False by blast
  qed
  with run show ?thesis by simp
qed

text \<open>A workload of two clips, the second without a title.\<close>

definition two_clips :: workload where
  "two_clips = sample_workload\<lparr>wl_Payload := Some
     [(''master_video_url'', JText ''http://v/m''), (''target_aspect'', JText ''9:16''),
      (''clip_specs'', JList [
         JObj [(''index'', JInt 0), (''start_seconds'', JReal (3 / 2)), (''end_seconds'', JInt 4), (''title'', JText ''a'')],
         JObj [(''index'', JInt 7), (''start_seconds'', JInt 5), (''end_seconds'', JInt 6)]])]\<rparr>"

definition two_payload :: clip_payload where
  "two_payload = \<lparr>MasterVideoURL = ''http://v/m'', TargetAspect = ''9:16'',
     ClipSpecs = [\<lparr>Index = 0, StartSeconds = 3 / 2, EndSeconds = 4, Title = ''a''\<rparr>,
                  \<lparr>Index = 7, StartSeconds = 5, EndSeconds = 6, Title = []\<rparr>]\<rparr>"

lemma two_clips_payload: "check_payload calm_menv two_clips = Inr two_payload"
  by (simp add: check_payload_def decodePayload_def two_clips_def two_payload_def sort_keys_def
      dec_payload_def dec_spec_def dec_slice_def dec_float_def dec_defs zero_payload_def zero_spec_def)

theorem clips_delivered_witness:
  "\<exists>v. clip_Execute calm_menv (Some (New ''http://c'' ''fp'')) (sample_handle\<lparr>jh_wl := two_clips\<rparr>) (sample_media sample_store)
      = (None, v) \<and> length (puts v) = 2 \<and>
    clip_delivered calm_menv (Some (New ''http://c'' ''fp'')) (sample_handle\<lparr>jh_wl := two_clips\<rparr>) ''9:16''
      \<lparr>Index = 7, StartSeconds = 5, EndSeconds = 6, Title = []\<rparr> v"
proof -
  let ?c = "Some (New ''http://c'' ''fp'')" and ?h = "sample_handle\<lparr>jh_wl := two_clips\<rparr>" and ?w = "sample_media sample_store"
  have pay: "check_payload calm_menv (jh_wl ?h) = Inr two_payload" by (simp add: two_clips_payload)
  have "signed_on ?w" by (simp add: signed_on_def)
  then have "fst (clip_Execute calm_menv ?c ?h ?w) = None" using calm_Execute [OF pay] by blast
  then obtain v where run: "clip_Execute calm_menv ?c ?h ?w = (None, v)"
    by (cases "clip_Execute calm_menv ?c ?h ?w") auto
  obtain rs w0 where start: "load_completed calm_menv ?h ?w = (rs, w0)" by fastforce
  then have rs: "rs = []"
    by (simp add: load_completed_def LoadResumableState_def on_db_eq GetJob_def query_job_ok sample_handle_def
        sample_store_eq scan_job_def sample_simps)
  from clips_delivered [OF run pay start] run show ?thesis
    by (auto simp: rs two_payload_def clip_delivered_def clip_meta_def)
qed

end
