(* ===== verification/ExtractAudio.thy ===== *)
theory ExtractAudio
  imports NetGuard ClipProps
begin

text \<open>
  The audio executor, \<open>internal/executors/extractaudio\<close>: the guarded download, the ffmpeg command
  line, the duration it reads off ffmpeg's output, and \<open>Execute\<close>.
\<close>

section \<open>The guarded download\<close>

definition check_addresses :: "'e genv_scheme \<Rightarrow> string \<Rightarrow> ip list \<Rightarrow> gerror option" where
  "check_addresses E host ips =
     (case find isPrivateOrSpecialIP ips of
        None \<Rightarrow> None
      | Some p \<Rightarrow> Some (Plain (''destination '' @ host @ '' resolves to non-public address '' @ ip_text E p)))"

definition validateDownloadURL ::
  "'e genv_scheme \<Rightarrow> string \<Rightarrow> 'm media_scheme \<Rightarrow> gerror option \<times> 'm media_scheme" where
  "validateDownloadURL E rawURL w =
     (case url_parts E rawURL of
        None \<Rightarrow> (Some (errorf ''parse'' bad_url), w)
      | Some (scheme, host) \<Rightarrow>
          (if scheme \<noteq> ''http'' \<and> scheme \<noteq> ''https'' then
             (Some (Plain (''scheme '' @ quoted E scheme @ '' not allowed; use http or https'')), w)
           else if host = [] then (Some (Plain ''missing host''), w)
           else (case parse_ip E host of
               Some p \<Rightarrow> (check_addresses E host [p], w)
             | None \<Rightarrow>
                 (let w1 = w\<lparr>lookups := Suc (lookups w)\<rparr> in
                  case lookup_ip E (lookups w) host of
                    Inl m \<Rightarrow> (Some (errorf (''resolve '' @ quoted E host) (Plain m)), w1)
                  | Inr ips \<Rightarrow> (check_addresses E host ips, w1)))))"

definition Download ::
  "'e genv_scheme \<Rightarrow> string \<Rightarrow> string \<Rightarrow> 'm media_scheme \<Rightarrow> gerror option \<times> 'm media_scheme" where
  "Download E rawURL dst w =
     (case validateDownloadURL E rawURL w of
        (Some e, w1) \<Rightarrow> (Some (errorf ''validate url'' e), w1)
      | (None, w1) \<Rightarrow> stream_to_file E ''new request'' rawURL dst w1)"

section \<open>ffmpeg\<close>

definition BuildExtractArgs :: "string \<Rightarrow> string \<Rightarrow> string list" where
  "BuildExtractArgs input output =
     [''-y'', ''-i'', input, ''-vn'', ''-acodec'', ''pcm_s16le'', ''-ar'', ''16000'', ''-ac'', ''1'', output]"

text \<open>\<open>float64\<close> arithmetic, each operation rounded.\<close>

definition fl_mult :: "'e menv_scheme \<Rightarrow> gofloat \<Rightarrow> rat \<Rightarrow> gofloat" where
  "fl_mult E a k = (case a of Fin x \<Rightarrow> float64 E (x * k) | NonFin \<Rightarrow> NonFin)"

definition fl_add :: "'e menv_scheme \<Rightarrow> gofloat \<Rightarrow> gofloat \<Rightarrow> gofloat" where
  "fl_add E a b = (case (a, b) of (Fin x, Fin y) \<Rightarrow> float64 E (x + y) | _ \<Rightarrow> NonFin)"

definition parse_hms :: "'e menv_scheme \<Rightarrow> string list \<Rightarrow> gofloat" where
  "parse_hms E parts =
     (case parts of
        [hh, mm, ss] \<Rightarrow>
          (case (parse_float E hh, parse_float E mm, parse_float E ss) of
             (Some h, Some m, Some s) \<Rightarrow> fl_add E (fl_add E (fl_mult E h 3600) (fl_mult E m 60)) s
           | _ \<Rightarrow> Fin 0)
      | _ \<Rightarrow> Fin 0)"

definition parseDurationSeconds :: "'e menv_scheme \<Rightarrow> string \<Rightarrow> gofloat" where
  "parseDurationSeconds E stderr =
     (case strings_Cut stderr ''Duration: '' of
        None \<Rightarrow> Fin 0
      | Some (a, rest) \<Rightarrow>
          (case before_any [CHR '','', CHR 0x0A, CHR 0x0D] rest of
             None \<Rightarrow> Fin 0
           | Some hms \<Rightarrow> parse_hms E (split_char (CHR '':'') (TrimSpace hms))))"

section \<open>Execute\<close>

definition dec_video :: "string decoder" where
  "dec_video = dec_struct (dec_field ''video_url'' dec_string)"

definition audio_meta :: "gofloat \<Rightarrow> (string \<times> json) list option" where
  "audio_meta dur =
     (case dur of
        NonFin \<Rightarrow> None
      | Fin d \<Rightarrow> Some [(''channels'', JInt 1), (''duration_s'', JReal d), (''format'', JText ''pcm_s16le''),
                   (''sample_rate'', JInt 16000)])"

text \<open>From the ffmpeg run to the upload.\<close>

definition extract_and_upload ::
  "'e menv_scheme \<Rightarrow> cloud_client option \<Rightarrow> job_handle \<Rightarrow> string \<Rightarrow> string \<Rightarrow> string \<Rightarrow> 'm media_scheme \<Rightarrow>
     gerror option \<times> 'm media_scheme" where
  "extract_and_upload E cl h ffmpegPath inputPath outputPath w =
     (case run_command E ffmpegPath (BuildExtractArgs inputPath outputPath) w of
        ((out, Some e), w1) \<Rightarrow>
          (Some (errorf ''extract-audio: ffmpeg'' e),
           snd (handle_AppendEvent E h ''error'' ''ffmpeg failed''
             (Some (JObj [(''stderr_tail'', JText (tail out 1024))])) w1))
      | ((out, None), w1) \<Rightarrow>
          (case os_Stat E outputPath w1 of (st, w2) \<Rightarrow>
          (case stat_error outputPath st of
             Some e \<Rightarrow> (Some (errorf ''extract-audio: stat output'' e), w2)
           | None \<Rightarrow>
          (case os_Open E outputPath w2 of
             (Inl e, w3) \<Rightarrow> (Some (errorf ''extract-audio: open output'' e), w3)
           | (Inr content, w3) \<Rightarrow>
          (case AddOutput E cl h ''audio'' ''audio.wav'' content
                  (case stat_size st of None \<Rightarrow> 0 | Some n \<Rightarrow> n) (audio_meta (parseDurationSeconds E out)) w3 of
             (Some e, w4) \<Rightarrow> (Some (errorf ''extract-audio: upload output'' e), w4)
           | (None, w4) \<Rightarrow>
               (None, push_progress E \<lparr>Fraction = Fin 1, Stage = ''uploaded'', Detail = ''audio extracted''\<rparr> w4))))))"

definition download_and_extract ::
  "'e genv_scheme \<Rightarrow> cloud_client option \<Rightarrow> job_handle \<Rightarrow> string \<Rightarrow> string \<Rightarrow> string \<Rightarrow> string \<Rightarrow> 'm media_scheme \<Rightarrow>
     gerror option \<times> 'm media_scheme" where
  "download_and_extract E cl h ffmpegPath url inputPath outputPath w =
     (case Download E url inputPath w of
        (Some e, w1) \<Rightarrow> (Some (errorf ''extract-audio: download master'' e), w1)
      | (None, w1) \<Rightarrow>
          extract_and_upload E cl h ffmpegPath inputPath outputPath
            (snd (handle_AppendEvent E h ''log'' ''master downloaded'' None w1)))"

text \<open>The deferred removal of the two files runs on every path after ffmpeg was located.\<close>

definition input_path :: "job_handle \<Rightarrow> string" where
  "input_path h = path_join [jh_workDir h, ''input.mp4'']"

definition output_path :: "job_handle \<Rightarrow> string" where
  "output_path h = path_join [jh_workDir h, ''audio.wav'']"

definition extract_Execute ::
  "'e genv_scheme \<Rightarrow> cloud_client option \<Rightarrow> job_handle \<Rightarrow> 'm media_scheme \<Rightarrow> gerror option \<times> 'm media_scheme" where
  "extract_Execute E cl h w =
     (case decodePayload E dec_video [] (wl_Payload (jh_wl h)) of
        Inl e \<Rightarrow> (Some (errorf ''extract-audio: decode payload'' e), w)
      | Inr url \<Rightarrow>
          (if url = [] then (Some (Plain ''extract-audio: video_url required''), w)
           else (case Locate E ''ffmpeg'' w of
               (Inl e, w1) \<Rightarrow> (Some (errorf ''extract-audio: locate ffmpeg'' e), w1)
             | (Inr ff, w1) \<Rightarrow>
                 (let w2 = snd (handle_AppendEvent E h ''log'' ''ffmpeg located''
                        (Some (JObj [(''path'', JText (ToolPath ff)), (''version'', JText (ToolVersion ff))])) w1)
                  in case download_and_extract E cl h (ToolPath ff) url (input_path h) (output_path h) w2 of
                       (r, w3) \<Rightarrow> (r, os_Remove E (output_path h) (os_Remove E (input_path h) w3))))))"

definition extract_executor :: "'e genv_scheme \<Rightarrow> cloud_client option \<Rightarrow> ('m media_scheme) executor" where
  "extract_executor E cl =
     \<lparr>ex_ID = ''video:extract-audio'',
      ex_CanRun = (\<lambda>wl. wl_Type wl = ''video:extract-audio'' \<and> wl_Version wl \<le> 1),
      ex_Estimate = (\<lambda>wl. \<lparr>CPUCores = 1, RAMBytes = 512 * 1024 * 1024,
        DiskBytes = 2 * 1024 * 1024 * 1024, GPU = False, Duration = 60 * second\<rparr>),
      ex_Execute = extract_Execute E cl\<rparr>"

section \<open>What the guard gives\<close>

text \<open>The addresses the guard looks at: of a literal, or the resolver's answer to its own question.\<close>

definition guard_addresses :: "'e genv_scheme \<Rightarrow> nat \<Rightarrow> string \<Rightarrow> ip list" where
  "guard_addresses E n host =
     (case parse_ip E host of
        Some p \<Rightarrow> [p]
      | None \<Rightarrow> (case lookup_ip E n host of Inl m \<Rightarrow> [] | Inr ips \<Rightarrow> ips))"

definition guarded :: "'e genv_scheme \<Rightarrow> nat \<Rightarrow> string \<Rightarrow> bool" where
  "guarded E n u =
     (case url_parts E u of
        None \<Rightarrow> False
      | Some (scheme, host) \<Rightarrow> scheme \<in> {''http'', ''https''} \<and> host \<noteq> [] \<and>
          (\<forall>p \<in> set (guard_addresses E n host). \<not> isPrivateOrSpecialIP p))"

lemma check_addresses_None: "check_addresses E host ips = None \<longleftrightarrow> (\<forall>p \<in> set ips. \<not> isPrivateOrSpecialIP p)"
  by (auto simp: check_addresses_def find_None_iff split: option.splits dest: find_Some_set)

lemma validate_state: "snd (validateDownloadURL E u w) \<in> {w, w\<lparr>lookups := Suc (lookups w)\<rparr>}"
proof (cases "url_parts E u")
  case (Some q)
  obtain s h where q: "q = (s, h)" by fastforce
  show ?thesis
  proof (cases "parse_ip E h")
    case None
    show ?thesis
    proof (cases "lookup_ip E (lookups w) h")
      case (Inl m)
      then show ?thesis using Some q None by (simp add: validateDownloadURL_def)
    next
      case (Inr ips)
      then show ?thesis using Some q None by (simp add: validateDownloadURL_def)
    qed
  next
    case (Some p)
    then show ?thesis using \<open>url_parts E u = Some q\<close> q by (simp add: validateDownloadURL_def)
  qed
qed (simp add: validateDownloadURL_def)

lemma lookups_only: "v \<in> {w, w\<lparr>lookups := Suc (lookups w)\<rparr>} \<Longrightarrow> \<exists>n. v = w\<lparr>lookups := n\<rparr>"
  for w :: "'m media_scheme"
proof -
  have "w = w\<lparr>lookups := lookups w\<rparr>" by simp
  then show "v \<in> {w, w\<lparr>lookups := Suc (lookups w)\<rparr>} \<Longrightarrow> \<exists>n. v = w\<lparr>lookups := n\<rparr>" by blast
qed
lemma validate_None:
  assumes "fst (validateDownloadURL E u w) = None"
  shows "guarded E (lookups w) u"
proof -
  obtain scheme host where u: "url_parts E u = Some (scheme, host)"
    using assms by (cases "url_parts E u") (auto simp: validateDownloadURL_def)
  with assms have ok: "scheme \<in> {''http'', ''https''}" "host \<noteq> []"
    by (auto simp: validateDownloadURL_def split: if_splits)
  have "check_addresses E host (guard_addresses E (lookups w) host) = None"
    using assms u ok
    by (cases "parse_ip E host"; cases "lookup_ip E (lookups w) host")
      (simp_all add: validateDownloadURL_def guard_addresses_def Let_def split: if_splits)
  with u ok show ?thesis by (simp add: guarded_def check_addresses_None)
qed

lemma validate_result:
  assumes "validateDownloadURL E u w = (r, v)"
  shows "(\<exists>n. v = w\<lparr>lookups := n\<rparr>) \<and> (r = None \<longrightarrow> guarded E (lookups w) u)"
  using assms lookups_only [OF validate_state [of E u w]] validate_None [of E u w] by auto

lemma http_follow_gets:
  "http_follow n E u w = (r, v) \<Longrightarrow>
     gets v = gets w \<and> n = 0 \<or> (\<exists>rest. gets v = gets w @ u # rest \<and> length rest < n)"
proof (induction n arbitrary: u w)
  case (Suc n)
  show ?case
  proof (cases "fetch E (gets w @ [u])")
    case (MovedTo x)
    with Suc.prems Suc.IH [of x "w\<lparr>gets := gets w @ [u]\<rparr>"] show ?thesis by (auto simp: Let_def)
  qed (use Suc.prems in \<open>auto simp: Let_def\<close>)
qed simp

lemma stream_gets:
  assumes "stream_to_file E what u dst w = (r, v)"
  shows "gets v = gets w \<or> (\<exists>rest. gets v = gets w @ u # rest \<and> length rest < 10)"
proof (cases "url_ok E u")
  case True
  obtain q w1 where q: "http_follow 10 E u w = (q, w1)" by fastforce
  have "gets v = gets w1"
    using assms True q
    by (auto simp: stream_to_file_def split: sum.splits if_splits option.splits prod.splits
        dest!: os_Create_only io_Copy_only fs_only_keeps(4))
  with http_follow_gets [OF q] show ?thesis by auto
next
  case False
  with assms show ?thesis by (auto simp: stream_to_file_def)
qed

text \<open>
  The world of the closed examples: \<open>v\<close> resolves to a public address; what it serves at \<open>/m\<close> redirects
  to the loopback interface.
\<close>

definition calm_genv :: genv where
  "calm_genv = menv.extend (calm_menv\<lparr>fetch := (\<lambda>us. if us = [''http://v/m''] then MovedTo ''http://127.0.0.1/x''
       else Fetched 200 ''secret'' None)\<rparr>)
     \<lparr>url_parts = (\<lambda>u. Some (''http'', if u = ''http://v/m'' then ''v'' else ''127.0.0.1'')),
      parse_ip = (\<lambda>h. if h = ''v'' then None else Some [127, 0, 0, 1]),
      lookup_ip = (\<lambda>n h. Inr [[93, 184, 216, 34]]),
      ip_text = (\<lambda>p. ''ip'')\<rparr>"

lemma calm_genv_simps [simp]:
  "fetch calm_genv us = (if us = [''http://v/m''] then MovedTo ''http://127.0.0.1/x'' else Fetched 200 ''secret'' None)"
  "fs_fault calm_genv k = None" "url_ok calm_genv u"
  "url_parts calm_genv u = Some (''http'', if u = ''http://v/m'' then ''v'' else ''127.0.0.1'')"
  "parse_ip calm_genv h = (if h = ''v'' then None else Some [127, 0, 0, 1])"
  "lookup_ip calm_genv n h = Inr [[93, 184, 216, 34]]"
  by (simp_all add: calm_genv_def menv.defs calm_menv_def denv.defs calm_denv_def env.defs calm_env_def)

lemma replicate_four: "replicate 4 x = [x, x, x, x]"
  by (simp add: numeral_eq_Suc)

lemma public_example: "\<not> isPrivateOrSpecialIP [93, 184, 216, 34]"
  by (simp add: replicate_four isPrivateOrSpecialIP_def ip_class_defs ip_Equal_def To4_def v4_prefix_def IPv6unspecified_def IPv6loopback_def)

lemma loopback_example: "isPrivateOrSpecialIP [127, 0, 0, 1]"
  by (simp add: isPrivateOrSpecialIP_def ip_class_defs ip_Equal_def To4_def v4_prefix_def IPv6unspecified_def IPv6loopback_def)

text \<open>Any environment with these servers, names and programs.\<close>

definition calm_audio :: "'e genv_scheme \<Rightarrow> bool" where
  "calm_audio E \<longleftrightarrow> calm_world E \<and> fetch E = fetch calm_genv \<and> url_parts E = url_parts calm_genv \<and>
     parse_ip E = parse_ip calm_genv \<and> lookup_ip E = lookup_ip calm_genv \<and> run_cmd E = run_cmd calm_genv \<and>
     look_path E = look_path calm_genv \<and> float64 E = float64 calm_genv \<and> renumber E = renumber calm_genv \<and>
     parse_float E = parse_float calm_genv \<and> (\<forall>k. db_fault E k = None) \<and> (\<forall>d. mkdir_fault E d = None)"

lemma calm_genv_world: "calm_world calm_genv"
  by (simp add: calm_world_def calm_genv_def menv.defs calm_menv_def denv.defs calm_denv_def env.defs calm_env_def)

lemma calm_genv_run [simp]:
  "run_cmd calm_genv k p args fs = ([], None, fs(last args := Some ''data''))" "look_path calm_genv k = Some ''/usr/bin/ffmpeg''"
  "float64 calm_genv x = Fin x" "renumber calm_genv x = (if of_int \<lfloor>x\<rfloor> = x then JInt \<lfloor>x\<rfloor> else JReal x)"
  "parse_float calm_genv s = None"
  by (simp_all add: calm_genv_def menv.defs calm_menv_def denv.defs)

lemma calm_genv_audio [simp]: "calm_audio calm_genv"
  by (simp add: calm_audio_def calm_genv_world)
    (simp add: calm_genv_def menv.defs calm_menv_def denv.defs calm_denv_def env.defs calm_env_def)

lemma calm_validate:
  assumes "calm_audio E"
  shows "validateDownloadURL E ''http://v/m'' w = (None, w\<lparr>lookups := Suc (lookups w)\<rparr>)"
    "fst (validateDownloadURL E ''http://127.0.0.1/x'' w) \<noteq> None"
  using assms
  by (simp_all add: calm_audio_def validateDownloadURL_def check_addresses_def public_example loopback_example)

text \<open>
  The guard protects the first hop: a download contacts no server at all, or first the URL it
  was given, and then that URL is http or https, has a host, and every address the guard was
  given for it is public.  It makes at most ten requests.
\<close>

lemma Download_first_hop:
  assumes "Download E u dst w = (r, v)"
  shows "gets v = gets w \<or> (\<exists>rest. gets v = gets w @ u # rest \<and> length rest < 10 \<and> guarded E (lookups w) u)"
proof -
  obtain q w1 where q: "validateDownloadURL E u w = (q, w1)" by fastforce
  note val = validate_result [OF q]
  show ?thesis
  proof (cases q)
    case None
    then have "stream_to_file E ''new request'' u dst w1 = (r, v)" using assms q by (simp add: Download_def)
    with stream_gets [OF this] val None show ?thesis by auto
  next
    case (Some e)
    with assms q val show ?thesis by (auto simp: Download_def)
  qed
qed

lemma Download_quiet:
  assumes "Download E u dst w = (r, v)"
  shows "quiet w v"
proof -
  obtain q w1 where q: "validateDownloadURL E u w = (q, w1)" by fastforce
  then have "quiet w w1" using validate_result [OF q] by (auto simp: quiet_def)
  moreover have "v = w1 \<or> (\<exists>what. stream_to_file E what u dst w1 = (r, v))"
    using assms q by (auto simp: Download_def split: option.splits)
  ultimately show ?thesis using stream_quiet quiet_trans by blast
qed

text \<open>What no process, event, upload or call to the cloud adds to: the log of downloads.\<close>

lemma run_command_gets: "run_command E p args w = (q, v) \<Longrightarrow> gets v = gets w"
  by (auto simp: run_command_def split: prod.splits)

lemma event_gets [simp]: "gets (snd (handle_AppendEvent E h k m a w)) = gets w"
  by (simp add: handle_AppendEvent_def on_db_eq)

lemma Locate_gets: "Locate E t w = (r, v) \<Longrightarrow> gets v = gets w"
  by (auto simp: Locate_def discoverFFmpeg_def split: option.splits prod.splits sum.splits if_splits
      dest!: run_command_gets)

lemma UploadFile_gets: "UploadFile E p url m hs w = (r, v) \<Longrightarrow> gets v = gets w"
  by (auto simp: UploadFile_def send_blob_def Let_def split: prod.splits option.splits sum.splits if_splits http_result.splits
      dest!: os_Stat_only os_Open_only fs_try_only fs_only_keeps(4))

lemma fs_gets:
  "os_Create E p w = (r, v) \<Longrightarrow> gets v = gets w"
  "io_Copy E p c e w = (r, v) \<Longrightarrow> gets v = gets w"
  "os_Stat E p w = (st, v) \<Longrightarrow> gets v = gets w"
  using os_Create_only [of E p w r v] io_Copy_only [of E p c e w r v] os_Stat_only [of E p w st v] fs_only_keeps(4)
  by blast+

lemma cloud_gets:
  "PresignUpload E c wid tk kind key n w = (q, v) \<Longrightarrow> gets v = gets w"
  "record_output E c h out ok w = (r, v) \<Longrightarrow> gets v = gets w"
  using PresignUpload_rest [of E c wid tk kind key n w q v] record_output_result [of E c h out ok w r v]
    same_rest_media(3) by blast+

lemma upload_output_gets:
  assumes "upload_output E c h kind key tmp n meta w = (r, v)"
  shows "gets v = gets w"
  using assms
  by (auto simp: upload_output_def split: prod.splits sum.splits dest!: UploadFile_gets cloud_gets)

lemma AddOutput_gets:
  assumes "AddOutput E cl h kind key content n meta w = (r, v)"
  shows "gets v = gets w"
  using assms
  by (auto simp: AddOutput_def Let_def split: prod.splits option.splits dest!: upload_output_gets fs_gets)

lemma extract_and_upload_result:
  assumes run: "extract_and_upload E cl h ff inp outp w = (r, v)"
  shows "gets v = gets w \<and> grows w v \<and> length (puts v) \<le> Suc (length (puts w)) \<and>
    (r = None \<longrightarrow> (\<exists>c content meta. cl = Some c \<and> delivered E c h ''audio'' ''audio.wav'' content meta v))"
proof -
  obtain out err w1 where c: "run_command E ff (BuildExtractArgs inp outp) w = ((out, err), w1)"
    by (metis prod.collapse)
  note k1 = run_command_keeps [OF c] run_command_gets [OF c]
  obtain st w2 where st: "os_Stat E outp w1 = (st, w2)" by fastforce
  obtain q w3 where q: "os_Open E outp w2 = (q, w3)" by fastforce
  have o2: "fs_only w1 w2" and o3: "fs_only w1 w3"
    using os_Stat_only [OF st] os_Open_only [OF q] fs_only_trans by blast+
  note k2 = fs_only_keeps [OF o2] and k3 = fs_only_keeps [OF o3]
  have g3: "grows w w3" using k1 k3 by (simp add: grows_def)
  show ?thesis
  proof (cases "err = None \<and> stat_error outp st = None \<and> (\<exists>content. q = Inr content)")
    case True
    then obtain content where content: "q = Inr content" by blast
    let ?n = "case stat_size st of None \<Rightarrow> 0 | Some n \<Rightarrow> n"
    obtain a w4 where a: "AddOutput E cl h ''audio'' ''audio.wav'' content ?n (audio_meta (parseDurationSeconds E out)) w3 = (a, w4)"
      by fastforce
    have v: "(r = None \<longleftrightarrow> a = None) \<and> (v = w4 \<or> (\<exists>ev. v = push_progress E ev w4))"
      using run c True st q content a by (auto simp: extract_and_upload_def split: option.splits)
    then have same: "gets v = gets w4" "sent v = sent w4" "puts v = puts w4" "grows w4 v"
      by (auto simp: push_progress_def grows_def)
    have "grows w v" using g3 AddOutput_result [OF a] same(4) grows_trans by blast
    moreover have "\<exists>c content meta. cl = Some c \<and> delivered E c h ''audio'' ''audio.wav'' content meta v" if "r = None"
      using AddOutput_result [OF a] v that same(4) delivered_grows by blast
    ultimately show ?thesis
      using AddOutput_result [OF a] AddOutput_gets [OF a] same k1 k3 by simp
  next
    case False
    then have "r \<noteq> None \<and> (v \<in> {w2, w3} \<or> (\<exists>m. v = snd (handle_AppendEvent E h ''error'' ''ffmpeg failed'' m w1)))"
      using run c st q by (auto simp: extract_and_upload_def split: option.splits sum.splits)
    with k1 k2 k3 g3 show ?thesis by (auto simp: grows_def)
  qed
qed

lemma download_and_extract_result:
  assumes run: "download_and_extract E cl h ff u inp outp w = (r, v)"
  shows "grows w v \<and> length (puts v) \<le> Suc (length (puts w)) \<and>
    (gets v = gets w \<or> (\<exists>rest n. gets v = gets w @ u # rest \<and> length rest < 10 \<and> guarded E n u)) \<and>
    (r = None \<longrightarrow> (\<exists>c content meta. cl = Some c \<and> delivered E c h ''audio'' ''audio.wav'' content meta v))"
proof -
  obtain a w1 where a: "Download E u inp w = (a, w1)" by fastforce
  note hop = Download_first_hop [OF a]
  have q: "puts w1 = puts w" "grows w w1" using Download_quiet [OF a] by (simp_all add: quiet_def grows_def)
  show ?thesis
  proof (cases a)
    case (Some e)
    with run a hop q show ?thesis by (auto simp: download_and_extract_def)
  next
    case None
    let ?w2 = "snd (handle_AppendEvent E h ''log'' ''master downloaded'' None w1)"
    have "extract_and_upload E cl h ff inp outp ?w2 = (r, v)"
      using run a None by (simp add: download_and_extract_def)
    note res = extract_and_upload_result [OF this]
    have "grows w ?w2" using q by (simp add: grows_def)
    with res grows_trans have "grows w v" by blast
    with res hop q show ?thesis by auto
  qed
qed

lemma extract_Execute_result:
  assumes run: "extract_Execute E cl h w = (r, v)" and pay: "decodePayload E dec_video [] (wl_Payload (jh_wl h)) = Inr u"
  shows "(gets v = gets w \<or> (\<exists>rest n. gets v = gets w @ u # rest \<and> length rest < 10 \<and> guarded E n u)) \<and>
    length (puts v) \<le> Suc (length (puts w)) \<and>
    (r = None \<longrightarrow> (\<exists>c content meta. cl = Some c \<and> delivered E c h ''audio'' ''audio.wav'' content meta v))"
proof -
  obtain l w1 where l: "Locate E ''ffmpeg'' w = (l, w1)" by fastforce
  have q1: "puts w1 = puts w" "sent w1 = sent w" "gets w1 = gets w"
    using Locate_quiet [OF l] Locate_gets [OF l] by (simp_all add: quiet_def)
  show ?thesis
  proof (cases "u \<noteq> [] \<and> (\<exists>ff. l = Inr ff)")
    case True
    then obtain ff where ff: "l = Inr ff" by blast
    let ?w2 = "snd (handle_AppendEvent E h ''log'' ''ffmpeg located''
                (Some (JObj [(''path'', JText (ToolPath ff)), (''version'', JText (ToolVersion ff))])) w1)"
    obtain a w3 where a: "download_and_extract E cl h (ToolPath ff) u (input_path h) (output_path h) ?w2 = (a, w3)"
      by fastforce
    have v: "r = a" "v = os_Remove E (output_path h) (os_Remove E (input_path h) w3)"
      using run pay True l ff a by (auto simp: extract_Execute_def Let_def)
    then have "fs_only w3 v" using os_Remove_only fs_only_trans by blast
    note k = fs_only_keeps [OF this] fs_only_grows [OF this]
    note res = download_and_extract_result [OF a]
    have "\<exists>c content meta. cl = Some c \<and> delivered E c h ''audio'' ''audio.wav'' content meta v" if "r = None"
      using res v(1) that k(9) delivered_grows by blast
    with res k q1 show ?thesis by auto
  next
    case False
    then have "r \<noteq> None \<and> v \<in> {w, w1}"
      using run pay l by (cases l; cases "u = []") (auto simp: extract_Execute_def)
    with q1 show ?thesis by auto
  qed
qed

text \<open>
  C15. The audio executor contacts no download server, or first the URL of its payload, and then
  that URL is http or https, has a host, and every address the guard was given for it is public.
  It sends at most one upload, and returns success only when the audio is in the cloud: a
  location asked for, some content stored there, and its manifest entry recorded.
\<close>

theorem audio_delivered:
  assumes run: "extract_Execute E cl h w = (r, v)" and pay: "decodePayload E dec_video [] (wl_Payload (jh_wl h)) = Inr u"
  shows "(gets v = gets w \<or> (\<exists>rest n. gets v = gets w @ u # rest \<and> length rest < 10 \<and> guarded E n u)) \<and>
    length (puts v) \<le> Suc (length (puts w)) \<and>
    (r = None \<longrightarrow> (\<exists>c content meta. cl = Some c \<and> delivered E c h ''audio'' ''audio.wav'' content meta v))"
  by (rule extract_Execute_result [OF run pay])

definition has_session :: "'w authw_scheme \<Rightarrow> bool" where
  "has_session w \<longleftrightarrow> cachedKnown (tok w) \<and> cached (tok w) = fresh_bundle"

lemma calm_extract:
  assumes E: "calm_audio E" and on: "has_session w"
  shows "fst (extract_and_upload E (Some c) h ff inp outp w) = None"
proof -
  let ?args = "BuildExtractArgs inp outp"
  let ?w1 = "w\<lparr>procs := procs w @ [(ff, ?args)], files := (files w)(outp := Some ''data'')\<rparr>"
  let ?w3 = "fs_tick (fs_tick ?w1)"
  have disk: "fs_fault E k = None" for k using E by (simp add: calm_audio_def calm_world_def)
  have c: "run_command E ff ?args w = (([], None), ?w1)"
    using E by (simp add: calm_audio_def run_command_def BuildExtractArgs_def)
  have st: "os_Stat E outp ?w1 = (StatSize 4, fs_tick ?w1)" by (simp add: os_Stat_def disk)
  have q: "os_Open E outp (fs_tick ?w1) = (Inr ''data'', ?w3)" by (simp add: os_Open_def disk)
  have m: "audio_meta (parseDurationSeconds E []) =
      Some [(''channels'', JInt 1), (''duration_s'', JReal 0), (''format'', JText ''pcm_s16le''), (''sample_rate'', JInt 16000)]"
    by (simp add: parseDurationSeconds_def audio_meta_def)
  have "cachedKnown (tok ?w3)" "cached (tok ?w3) = fresh_bundle"
    using on by (simp_all add: has_session_def fs_tick_def)
  moreover have "calm_world E" using E by (simp add: calm_audio_def)
  ultimately show ?thesis
    using calm_AddOutput [of E ?w3 c h "''audio''" "''audio.wav''" "''data''" 4]
    by (simp add: extract_and_upload_def c st q m stat_error_def stat_size_def split_beta split: option.split)
qed

lemma calm_Download:
  assumes "calm_audio E"
  shows "fst (Download E ''http://v/m'' dst w) = None"
proof -
  have "fs_fault E k = None" "url_ok E u" "fetch E us = fetch calm_genv us" for k u us
    using assms by (simp_all add: calm_audio_def calm_world_def)
  then show ?thesis
    by (simp add: Download_def calm_validate [OF assms] stream_to_file_def eval_nat_numeral Let_def os_Create_def
        io_Copy_def fs_tick_def)
qed

lemma calm_extract_Execute:
  assumes E: "calm_audio E" and pay: "decodePayload E dec_video [] (wl_Payload (jh_wl h)) = Inr ''http://v/m''"
    and on: "has_session w"
  shows "fst (extract_Execute E (Some c) h w) = None"
proof -
  obtain l w1 where l: "Locate E ''ffmpeg'' w = (l, w1)" by fastforce
  have "l \<in> range Inr"
    using l E by (auto simp: calm_audio_def Locate_def discoverFFmpeg_def run_command_def split: option.splits)
  then obtain ff where ff: "l = Inr ff" by blast
  let ?w2 = "snd (handle_AppendEvent E h ''log'' ''ffmpeg located''
                (Some (JObj [(''path'', JText (ToolPath ff)), (''version'', JText (ToolVersion ff))])) w1)"
  obtain a w3 where a: "Download E ''http://v/m'' (input_path h) ?w2 = (a, w3)" by fastforce
  then have none: "a = None" using calm_Download [OF E, of "input_path h" ?w2] by simp
  let ?w4 = "snd (handle_AppendEvent E h ''log'' ''master downloaded'' None w3)"
  have "quiet w ?w4"
    using Locate_quiet [OF l] event_quiet Download_quiet [OF a] by (meson quiet_trans)
  then have "has_session ?w4" using on by (simp add: quiet_def has_session_def)
  with calm_extract [OF E this, of c h "ToolPath ff" "input_path h" "output_path h"] show ?thesis
    using pay l ff a none
    by (simp add: extract_Execute_def download_and_extract_def Let_def split_beta)
qed

theorem audio_delivered_witness:
  "\<exists>v. extract_Execute calm_genv (Some (New ''http://c'' ''fp''))
      (sample_handle\<lparr>jh_wl := sample_workload\<lparr>wl_Payload := Some [(''video_url'', JText ''http://v/m'')]\<rparr>\<rparr>)
      (sample_media empty_store) = (None, v) \<and> length (puts v) = 1"
proof -
  let ?h = "sample_handle\<lparr>jh_wl := sample_workload\<lparr>wl_Payload := Some [(''video_url'', JText ''http://v/m'')]\<rparr>\<rparr>"
  let ?c = "New ''http://c'' ''fp''" and ?w = "sample_media empty_store"
  have pay: "decodePayload calm_genv dec_video [] (wl_Payload (jh_wl ?h)) = Inr ''http://v/m''"
    by (simp add: decodePayload_def dec_video_def dec_defs sort_keys_def)
  have "has_session ?w" by (simp add: has_session_def)
  from calm_extract_Execute [OF calm_genv_audio pay this] obtain v where run: "extract_Execute calm_genv (Some ?c) ?h ?w = (None, v)"
    by (metis prod.collapse)
  from audio_delivered [OF run pay] obtain c content meta where
    "length (puts v) \<le> 1" "delivered calm_genv c ?h ''audio'' ''audio.wav'' content meta v"
    by auto
  then have "length (puts v) = 1" by (cases "puts v") (auto simp: delivered_def stored_blob_def)
  with run show ?thesis by blast
qed

text \<open>
  C40. It protects nothing beyond: when the guarded server redirects, the client goes where it is
  told, and the body it finds there becomes the input file.  The target \<open>t\<close> is any URL, also one
  the guard refuses.
\<close>

theorem redirect_escapes_guard:
  assumes ok: "validateDownloadURL E u w = (None, w1)" and url: "url_ok E u"
    and moved: "fetch E (gets w @ [u]) = MovedTo t"
    and there: "fetch E (gets w @ [u, t]) = Fetched 200 secret None"
    and disk: "\<And>k. fs_fault E k = None"
  shows "\<exists>v. Download E u dst w = (None, v) \<and> gets v = gets w @ [u, t] \<and> files v dst = Some secret"
proof -
  obtain n where w1: "w1 = w\<lparr>lookups := n\<rparr>" using validate_result [OF ok] by blast
  then have "http_follow 10 E u w1 = (Inr (200, secret, None), w1\<lparr>gets := gets w @ [u, t]\<rparr>)"
    using moved there by (simp add: eval_nat_numeral Let_def)
  then show ?thesis
    using ok url disk w1 by (simp add: Download_def stream_to_file_def os_Create_def io_Copy_def fs_tick_def)
qed

theorem redirect_escapes_guard_witness:
  "\<exists>v. Download calm_genv ''http://v/m'' ''/d'' (sample_media empty_store) = (None, v) \<and>
    files v ''/d'' = Some ''secret'' \<and>
    (\<forall>u. fst (validateDownloadURL calm_genv ''http://127.0.0.1/x'' u) \<noteq> None)"
proof -
  let ?w = "sample_media empty_store"
  have "\<exists>v. Download calm_genv ''http://v/m'' ''/d'' ?w = (None, v) \<and>
      gets v = gets ?w @ [''http://v/m'', ''http://127.0.0.1/x''] \<and> files v ''/d'' = Some ''secret''"
    by (rule redirect_escapes_guard [OF calm_validate(1) [OF calm_genv_audio]]) simp_all
  then show ?thesis using calm_validate(2) [OF calm_genv_audio] by blast
qed

end
