(* ===== verification/ClipResume.thy ===== *)
theory ClipResume
  imports ClipProps
begin

text \<open>
  The recovery hint of the clip executor: what an attempt leaves behind for the next one; and the
  choice of the encoder.
\<close>

section \<open>Integers in range\<close>

definition int64 :: "int \<Rightarrow> bool" where
  "int64 n \<longleftrightarrow> - (2 ^ 63) \<le> n \<and> n < 2 ^ 63"

lemma dec_int_range: "dec_int v j = Some n \<Longrightarrow> int64 v \<Longrightarrow> int64 n"
  by (auto simp: dec_int_def int64_def split: json.splits if_splits)

lemma dec_int_JInt: "int64 n \<Longrightarrow> dec_int v (JInt n) = Some n"
  by (simp add: dec_int_def int64_def)

lemma foldl_None: "foldl (\<lambda>r (k, j). case r of None \<Rightarrow> None | Some v \<Rightarrow> f k j v) None kvs = None"
  by (induction kvs) auto

lemma dec_field_keeps:
  assumes "\<And>v j u. dec v j = Some u \<Longrightarrow> P v \<Longrightarrow> P u"
  shows "dec_field name dec v kvs = Some u \<Longrightarrow> P v \<Longrightarrow> P u"
proof (induction kvs arbitrary: v)
  case (Cons kv kvs)
  obtain k j where kv: "kv = (k, j)" by fastforce
  let ?r = "if fold_key k = fold_key name then dec v j else Some v"
  have "\<exists>x. ?r = Some x \<and> dec_field name dec x kvs = Some u"
    using Cons.prems(1) foldl_None [of "\<lambda>k j v. if fold_key k = fold_key name then dec v j else Some v" kvs]
    by (cases ?r) (auto simp: kv dec_field_def)
  with Cons.IH assms Cons.prems(2) show ?case by (auto split: if_splits)
qed (simp add: dec_field_def)

lemma dec_each_all:
  assumes "\<And>j u. dec zero j = Some u \<Longrightarrow> P u"
  shows "dec_each dec zero js = Some us \<Longrightarrow> \<forall>u \<in> set us. P u"
proof (induction js arbitrary: us)
  case (Cons j js)
  then show ?case using assms by (auto split: option.splits)
qed simp

lemma dec_slice_all:
  assumes "\<And>j u. dec zero j = Some u \<Longrightarrow> P u"
  shows "dec_slice dec zero vs j = Some us \<Longrightarrow> \<forall>v \<in> set vs. P v \<Longrightarrow> \<forall>u \<in> set us. P u"
  using dec_each_all [of dec zero P, OF assms]
  by (auto simp: dec_slice_def split: json.splits)

lemma dec_spec_index:
  assumes "dec_spec E v j = Some s" and "int64 (Index v)"
  shows "int64 (Index s)"
  using assms dec_field_keeps [where P = int64 and dec = dec_int, OF dec_int_range]
  by (auto simp: dec_spec_def dec_struct_def split: json.splits option.splits)

lemma dec_payload_indices:
  assumes "dec_payload E zero_payload j = Some p" and "s \<in> set (ClipSpecs p)"
  shows "int64 (Index s)"
proof -
  let ?P = "\<lambda>cs. \<forall>s \<in> set cs. int64 (Index s)"
  have "\<And>v j u. dec_slice (dec_spec E) zero_spec v j = Some u \<Longrightarrow> ?P v \<Longrightarrow> ?P u"
    by (rule dec_slice_all [where P = "\<lambda>s. int64 (Index s)"])
      (auto dest: dec_spec_index simp: zero_spec_def int64_def)
  note keeps = dec_field_keeps [where P = ?P and dec = "dec_slice (dec_spec E) zero_spec", OF this]
  show ?thesis
    using assms keeps [where name = "''clip_specs''" and v = "[]"]
    by (auto simp: dec_payload_def dec_struct_def zero_payload_def split: json.splits option.splits)
qed

lemma check_payload_indices:
  "check_payload E wl = Inr p \<Longrightarrow> s \<in> set (ClipSpecs p) \<Longrightarrow> int64 (Index s)"
  by (auto simp: check_payload_def decodePayload_def Let_def split: sum.splits option.splits if_splits
      dest: dec_payload_indices)

lemma dec_resumable_range: "dec_resumable [] j = Some rs \<Longrightarrow> i \<in> set rs \<Longrightarrow> int64 i"
proof -
  let ?P = "\<lambda>rs. \<forall>i \<in> set rs. int64 i"
  have "\<And>v j u. dec_slice dec_int 0 v j = Some u \<Longrightarrow> ?P v \<Longrightarrow> ?P u"
    by (rule dec_slice_all [where P = int64]) (auto dest: dec_int_range simp: int64_def)
  note keeps = dec_field_keeps [where P = ?P and dec = "dec_slice dec_int 0", OF this]
  show "dec_resumable [] j = Some rs \<Longrightarrow> i \<in> set rs \<Longrightarrow> int64 i"
    using keeps [where name = "''completed_clip_indices''" and v = "[]"]
    by (auto simp: dec_resumable_def dec_struct_def split: json.splits)
qed

lemma dec_resumable_json: "\<forall>i \<in> set rs. int64 i \<Longrightarrow> dec_resumable [] (resumable_json rs) = Some rs"
proof -
  have "dec_each dec_int 0 (map JInt rs) = Some rs" if "\<forall>i \<in> set rs. int64 i"
    using that by (induction rs) (auto simp: dec_int_JInt)
  then show "\<forall>i \<in> set rs. int64 i \<Longrightarrow> dec_resumable [] (resumable_json rs) = Some rs"
    by (simp add: dec_resumable_def resumable_json_def dec_struct_def dec_field_def dec_slice_def)
qed

section \<open>What a later attempt finds\<close>

text \<open>A database that answers, and JSON text that reads back, for the states the executor saves.\<close>

definition hint_codec :: "'e menv_scheme \<Rightarrow> bool" where
  "hint_codec E \<longleftrightarrow> (\<forall>rs. (\<forall>i \<in> set rs. int64 i) \<longrightarrow>
     json_text E (resumable_json rs) \<noteq> [] \<and>
     json_of_text E (json_text E (resumable_json rs)) = Some (resumable_json rs))"

definition reads_back :: "'e menv_scheme \<Rightarrow> bool" where
  "reads_back E \<longleftrightarrow> calm_statements E \<and> (\<forall>t. db_scan_time E t = Some t) \<and> hint_codec E"

definition hint_list :: "'e menv_scheme \<Rightarrow> string option \<Rightarrow> int list" where
  "hint_list E s =
     (case s of None \<Rightarrow> []
      | Some t \<Rightarrow> (if t = [] then []
          else (case Option.bind (json_of_text E t) (dec_resumable []) of None \<Rightarrow> [] | Some rs \<Rightarrow> rs)))"

definition remembered :: "'e menv_scheme \<Rightarrow> job_handle \<Rightarrow> 'm media_scheme \<Rightarrow> int list" where
  "remembered E h w = fst (load_completed E h w)"

lemma remembered_range: "i \<in> set (remembered E h w) \<Longrightarrow> int64 i"
  by (auto simp: remembered_def load_completed_def LoadResumableState_def on_db_def
      split: sum.splits prod.splits option.splits if_splits bind_splits dest: dec_resumable_range)

text \<open>What the row says is done, whether or not it can be read back.\<close>

definition saved_indices :: "'e menv_scheme \<Rightarrow> job_handle \<Rightarrow> 'm media_scheme \<Rightarrow> int list" where
  "saved_indices E h w = (case hint h w of None \<Rightarrow> [] | Some s \<Rightarrow> hint_list E s)"

text \<open>An attempt reads all of it, or nothing when the driver cannot scan the lease expiry of the row.\<close>

lemma remembered_row:
  assumes calm: "calm_statements E" and row: "find (\<lambda>r. jid r = jh_id h) (jobs (db w)) = Some x"
  shows "remembered E h w = (if readable E x then saved_indices E h w else [])"
proof -
  have f: "db_fault E k = None" for k using calm by simp
  have same: "scan_job E x = Inr j \<Longrightarrow> resumable_state j = resumable_state x" for j
    by (auto simp: scan_job_def Let_def split: option.splits)
  note defs = remembered_def load_completed_def LoadResumableState_def on_db_eq GetJob_def query_job_ok [OF f] row
  show ?thesis
  proof (cases "readable E x")
    case True
    then obtain j where "scan_job E x = Inr j" using scan_readable by blast
    with same True row show ?thesis
      by (auto simp: defs saved_indices_def hint_def hint_list_def split: option.splits)
  next
    case False
    then obtain m where "scan_job E x = Inl (Plain m)" using scan_unreadable by blast
    with False show ?thesis by (simp add: defs)
  qed
qed

lemma remembered_hint:
  assumes "reads_back E"
  shows "remembered E h w = (case hint h w of None \<Rightarrow> [] | Some s \<Rightarrow> hint_list E s)"
proof -
  have calm: "calm_statements E" and read: "readable E x" for x
    using assms by (simp_all add: reads_back_def readable_def)
  show ?thesis
  proof (cases "find (\<lambda>r. jid r = jh_id h) (jobs (db w))")
    case None
    then show ?thesis
      by (simp add: remembered_def load_completed_def LoadResumableState_def on_db_eq GetJob_def
          query_job_ok [OF calm_statementsD [OF calm]] hint_def)
  next
    case (Some x)
    from remembered_row [OF calm this] read show ?thesis by (simp add: saved_indices_def)
  qed
qed

lemma hint_list_back:
  assumes "hint_codec E" and "\<forall>i \<in> set rs. int64 i"
  shows "hint_list E (nullStr (json_text E (resumable_json rs))) = rs"
  using assms dec_resumable_json [OF assms(2)] by (auto simp: hint_list_def nullStr_def hint_codec_def)

text \<open>
  C16. What an attempt leaves in its row is the truth.  On a database whose statements work, whatever
  else made the attempt stop: there are clips, each uploaded and recorded by this attempt, such that
  the saved state afterwards names what the attempt had read at its start and those clips, or is
  unchanged if there are none; and at most one upload of the attempt is not among them.  What an
  attempt reads at its start is the whole saved state if its row can be read; if it cannot,
  which is every row with a lease expiry under the driver of this repository, it is nothing,
  and the first clip it delivers overwrites what earlier attempts had saved.
\<close>

theorem clip_state_truthful:
  assumes db: "calm_statements E" "hint_codec E"
    and row: "find (\<lambda>r. jid r = jh_id h) (jobs (db w)) = Some x"
    and run: "clip_Execute E cl h w = (r, v)" and pay: "check_payload E (jh_wl h) = Inr p"
  shows "\<exists>new. distinct new \<and> set new \<inter> set (remembered E h w) = {} \<and>
    (\<forall>i \<in> set new. \<exists>spec \<in> set (ClipSpecs p). Index spec = i \<and> clip_delivered E cl h (TargetAspect p) spec v) \<and>
    saved_indices E h v = (if new = [] then saved_indices E h w else remembered E h w @ new) \<and>
    length (puts v) \<le> length (puts w) + length new + (if r = None then 0 else 1) \<and>
    remembered E h w = (if readable E x then saved_indices E h w else []) \<and>
    (lease_unscannable E \<longrightarrow> readable E x = (lease_expires_at x = None))"
proof -
  let ?rs = "remembered E h w"
  obtain w0 where start: "load_completed E h w = (?rs, w0)"
    by (cases "load_completed E h w") (simp add: remembered_def)
  from clip_Execute_result [OF run pay start] obtain new where
    d: "distinct new" "set new \<inter> set ?rs = {}"
    and new: "\<forall>k \<in> set new. \<exists>spec \<in> set (ClipSpecs p). Index spec = k \<and> clip_delivered E cl h (TargetAspect p) spec v"
    and up: "length (puts v) \<le> length (puts w) + length new + (if r = None then 0 else 1)"
    and hint: "calm_statements E \<longrightarrow> hint h v = (if new = [] then hint h w
        else map_option (\<lambda>_. nullStr (json_text E (resumable_json (?rs @ new)))) (hint h w))"
    by (elim exE conjE) (rule that)
  have range: "\<forall>i \<in> set (?rs @ new). int64 i"
    using new check_payload_indices [OF pay] remembered_range by fastforce
  have "hint h w \<noteq> None" using row by (simp add: hint_def)
  with hint db(1) have sv: "saved_indices E h v = (if new = [] then saved_indices E h w else ?rs @ new)"
    using hint_list_back [OF db(2) range] by (auto simp: saved_indices_def)
  have drv: "lease_unscannable E \<longrightarrow> readable E x = (lease_expires_at x = None)"
    using leased_unreadable by blast
  show ?thesis by (rule exI [of _ new], intro conjI d new sv up remembered_row [OF db(1) row] drv)
qed

text \<open>The two clips of the example, delivered and remembered.\<close>

lemma calm_reads_back: "reads_back calm_menv"
proof -
  have "ints_of (map JInt rs) = rs" for rs by (induction rs) (simp_all add: ints_of_def)
  then have "calm_text (resumable_json rs) = enc_ints rs" for rs
    by (simp add: calm_text_def resumable_json_def)
  moreover have "enc_ints rs \<noteq> ''ok''" "enc_ints rs \<noteq> []" for rs using enc_ints_head [of rs] by auto
  ultimately show ?thesis
    by (simp add: reads_back_def hint_codec_def calm_statements_def calm_parse_def resumable_json_def)
qed

theorem clip_state_truthful_witness:
  "\<exists>v. clip_Execute calm_menv (Some (New ''http://c'' ''fp'')) (sample_handle\<lparr>jh_wl := two_clips\<rparr>) (sample_media sample_store)
      = (None, v) \<and> saved_indices calm_menv (sample_handle\<lparr>jh_wl := two_clips\<rparr>) v \<noteq> []"
proof -
  let ?c = "Some (New ''http://c'' ''fp'')" and ?h = "sample_handle\<lparr>jh_wl := two_clips\<rparr>" and ?w = "sample_media sample_store"
  have pay: "check_payload calm_menv (jh_wl ?h) = Inr two_payload" by (simp add: two_clips_payload)
  have "signed_on ?w" by (simp add: signed_on_def)
  then have "fst (clip_Execute calm_menv ?c ?h ?w) = None" using calm_Execute [OF pay] by blast
  then obtain v where run: "clip_Execute calm_menv ?c ?h ?w = (None, v)"
    by (cases "clip_Execute calm_menv ?c ?h ?w") auto
  obtain x where row: "find (\<lambda>r. jid r = jh_id ?h) (jobs (db ?w)) = Some x"
    by (simp add: sample_handle_def sample_store_eq row_of_input_def sample_input_def)
  obtain rs w0 where start: "load_completed calm_menv ?h ?w = (rs, w0)" by fastforce
  then have "rs = []" "remembered calm_menv ?h ?w = []"
    by (simp_all add: remembered_def load_completed_def LoadResumableState_def on_db_eq GetJob_def query_job_ok
        sample_handle_def sample_store_eq scan_job_def sample_simps)
  moreover obtain more where "length (puts ?w) + length more \<le> length (puts v)" "set more = Index ` set (ClipSpecs two_payload) - set rs"
    "distinct more"
    using clip_Execute_result [OF run pay start] by auto
  ultimately have up: "length (puts v) \<ge> length (puts ?w) + 2"
    using distinct_card [of more] by (auto simp: two_payload_def)
  have "calm_statements calm_menv" "hint_codec calm_menv" using calm_reads_back by (simp_all add: reads_back_def)
  from clip_state_truthful [OF this row run pay] obtain new where
    "saved_indices calm_menv ?h v = (if new = [] then saved_indices calm_menv ?h ?w else remembered calm_menv ?h ?w @ new)"
    "length (puts v) \<le> length (puts ?w) + length new" by auto
  with up have "saved_indices calm_menv ?h v \<noteq> []" by auto
  with run show ?thesis by blast
qed

text \<open>
  With the driver that cannot scan \<open>lease_expires_at\<close> (theory Store) the saved state is never seen
  again: the row of a claimed workload carries a lease, so loading it fails, the executor drops
  the error and starts from nothing.
\<close>

lemma resume_state_unreadable:
  assumes "db_fault E (stmts (db w)) = None" and "lease_unscannable E"
    and "find (\<lambda>r. jid r = jh_id h) (jobs (db w)) = Some x" and "lease_expires_at x \<noteq> None"
  shows "remembered E h w = []"
proof -
  obtain m where "scan_job E x = Inl (Plain m)"
    using assms(2,4) by (auto simp: scan_job_def lease_unscannable_def Let_def)
  with assms show ?thesis
    by (simp add: remembered_def load_completed_def LoadResumableState_def on_db_eq GetJob_def query_job_ok)
qed

section \<open>The encoder\<close>

text \<open>A candidate whose probe always passes, and one whose probe always fails.\<close>

definition works :: "'e menv_scheme \<Rightarrow> string \<Rightarrow> candidate \<Rightarrow> bool" where
  "works E ff c \<longleftrightarrow> (\<forall>n fs. fst (snd (run_cmd E n ff (probe_args c) fs)) = None)"

definition broken :: "'e menv_scheme \<Rightarrow> string \<Rightarrow> candidate \<Rightarrow> bool" where
  "broken E ff c \<longleftrightarrow> (\<forall>n fs. fst (snd (run_cmd E n ff (probe_args c) fs)) \<noteq> None)"

lemma probe_finds:
  assumes "\<And>c. c \<in> set cs \<Longrightarrow> works E ff c \<or> broken E ff c"
  shows "fst (probe_candidates E ff listed cs w) =
    (case find (\<lambda>c. (cand_platform c = [] \<or> cand_platform c = goos E) \<and> cand_codec c \<in> listed \<and> works E ff c) cs of
       None \<Rightarrow> FallbackEncoder | Some c \<Rightarrow> encoder_of c)"
  using assms
proof (induction cs arbitrary: w)
  case (Cons c cs)
  note IH = Cons.IH [OF Cons.prems]
  show ?case
  proof (cases "works E ff c")
    case True
    with IH show ?thesis by (auto simp: probeEncoder_def run_command_def works_def split_beta)
  next
    case False
    then have "broken E ff c" using Cons.prems by auto
    then obtain m where "fst (snd (run_cmd E (length (procs w)) ff (probe_args c) (files w))) = Some m"
      unfolding broken_def by blast
    with False IH show ?thesis by (auto simp: probeEncoder_def run_command_def split_beta)
  qed
qed simp

text \<open>
  The encoder chosen is the first of the priority order that ffmpeg lists, that belongs on this
  platform and whose probe passes; without one, and whenever the list cannot be read, it is the
  software encoder.
\<close>

lemma SelectEncoder_choice:
  assumes "\<And>c. c \<in> set priorityOrder \<Longrightarrow> works E ff c \<or> broken E ff c"
  shows "fst (SelectEncoder E ff w) =
    (case run_cmd E (length (procs w)) ff [''-hide_banner'', ''-encoders''] (files w) of
       (out, None, fs) \<Rightarrow>
         ((case find (\<lambda>c. (cand_platform c = [] \<or> cand_platform c = goos E) \<and> cand_codec c \<in> listed_in out \<and> works E ff c)
                 priorityOrder of None \<Rightarrow> FallbackEncoder | Some c \<Rightarrow> encoder_of c), None)
     | (out, Some m, fs) \<Rightarrow> (FallbackEncoder, Some (errorf ''list encoders''
         (Wrap (''ffmpeg -encoders: '' @ m @ '' (output: '' @ tail out 256 @ '')'') (Plain m)))))"
proof -
  obtain out err fs where c: "run_cmd E (length (procs w)) ff [''-hide_banner'', ''-encoders''] (files w) = (out, err, fs)"
    by (metis prod.collapse)
  show ?thesis
  proof (cases err)
    case None
    with c probe_finds [where cs = priorityOrder and E = E and ff = ff and listed = "listed_in out", OF assms]
    show ?thesis by (simp add: SelectEncoder_def listEncoders_def run_command_def split_beta)
  next
    case (Some m)
    with c show ?thesis by (simp add: SelectEncoder_def listEncoders_def run_command_def)
  qed
qed

end
