(* ===== verification/Daemon.thy ===== *)
theory Daemon
  imports ExtractAudio ClipResume
begin

text \<open>
  The daemon put together: the executors that \<open>cmd/engine-toold/main.go\<close> registers, run by the
  scheduler on its store, and what a job that ended well has achieved in the cloud.
\<close>

section \<open>The wiring\<close>

definition boot_executors :: "'e genv_scheme \<Rightarrow> cloud_client option \<Rightarrow> ('m media_scheme) executor list" where
  "boot_executors E cl = [clip_executor E cl, extract_executor E cl]"

definition boot_registry :: "'e genv_scheme \<Rightarrow> cloud_client option \<Rightarrow> ('m media_scheme) registry option" where
  "boot_registry E cl = register_all (boot_executors E cl) NewRegistry"

lemma boot_lookup:
  assumes "boot_registry E cl = Some r" and "Lookup r t = Some ex"
  shows "t = ''video:clip'' \<and> ex = clip_executor E cl \<or> t = ''video:extract-audio'' \<and> ex = extract_executor E cl"
proof -
  have "r = map (\<lambda>e. (ex_ID e, e)) (boot_executors E cl)"
    using assms(1) by (auto simp: boot_registry_def register_all_result NewRegistry_def split: if_splits)
  with assms(2) show ?thesis
    by (auto simp: Lookup_def boot_executors_def clip_executor_def extract_executor_def split: if_splits)
qed

lemma boot_registry_made: "\<exists>r. boot_registry E cl = Some r"
  by (simp add: boot_registry_def register_all_result NewRegistry_def Lookup_def boot_executors_def
      clip_executor_def extract_executor_def)

section \<open>A job that ended well\<close>

lemma grows_daemon:
  "grows w (snd (on_db f w))" "grows w (Cleanup E h w)" "grows w (snd (Complete E c i tk sm w))"
  by (simp add: grows_def on_db_eq, simp add: grows_def Cleanup_def, rule same_rest_grows [OF Complete_rest])

lemma conclude_grows: "grows w (conclude E j i st out m w)"
  unfolding conclude_def by (rule grows_trans [OF grows_daemon(1) grows_daemon(1)])

lemma finish_run_grows: "grows w (finish_run E D ex wl lease j i None w)"
  unfolding finish_run_def option.case by (rule grows_trans [OF grows_daemon(3) conclude_grows])

lemma set_row_status:
  "\<forall>r. job_status (f r) = st \<Longrightarrow> \<forall>r. jid (f r) = jid r \<Longrightarrow> x \<in> set (set_row j f rs) \<Longrightarrow> jid x = j \<Longrightarrow> job_status x = st"
  by (auto simp: set_row_def split: if_splits)

lemma conclude_only:
  assumes calm: "calm_statements E" and diff: "st' \<noteq> st"
  shows "\<not> has_row j st' (db (conclude E j i st out m w))"
proof
  assume "has_row j st' (db (conclude E j i st out m w))"
  then obtain x where x: "jid x = j" "job_status x = st'"
    "x \<in> set (set_row j (\<lambda>r. r\<lparr>job_status := st, updated_at := db_now E (stmts (db w))\<rparr>) (jobs (db w)))"
    by (auto simp: has_row_def conclude_db FinishAttempt_calm [OF calm] UpdateStatus_calm [OF calm])
  from set_row_status [OF _ _ x(3,1)] x(2) diff show False by simp
qed

lemma begin_attempt_hint:
  assumes "calm_statements E"
  shows "hint h (snd (begin_attempt E j n w)) = hint h w"
proof -
  let ?f = "\<lambda>r. r\<lparr>job_status := StatusRunning, updated_at := db_now E (stmts (db w))\<rparr>"
  have "map_option resumable_state (find (\<lambda>r. jid r = i) (set_row j ?f rs)) =
      map_option resumable_state (find (\<lambda>r. jid r = i) rs)" for i rs
    by (induction rs) (auto simp: set_row_def)
  moreover have "jobs (db (snd (begin_attempt E j n w))) = jobs (snd (UpdateStatus E j StatusRunning (db w)))"
    by (auto simp: begin_attempt_def on_db_eq StartAttempt_def exec_stmt_ok [OF calm_statementsD [OF assms]]
        sql_defs split: sum.splits)
  ultimately show ?thesis by (simp add: hint_def UpdateStatus_calm [OF assms])
qed

lemma runOne_succeeded:
  assumes calm: "calm_statements E" and up: "upsertJobForWorkload E D wl lease w = (Some (j, n), w1)"
    and ended: "has_row j StatusSucceeded (db (runOne E D ex wl lease w))"
  shows "\<exists>u v. ex_Execute ex (handle_of D j wl lease) u = (None, v) \<and>
    hint (handle_of D j wl lease) u = hint (handle_of D j wl lease) w1 \<and>
    grows v (runOne E D ex wl lease w)"
proof -
  let ?i = "fst (begin_attempt E j n w1)" and ?b = "snd (begin_attempt E j n w1)" and ?h = "handle_of D j wl lease"
  note run = runOne_eq [OF up, of ex, simplified]
  show ?thesis
  proof (cases "mkdir_fault E (jh_workDir ?h)")
    case None
    let ?u = "?b\<lparr>workdirs := insert (jh_workDir ?h) (workdirs ?b)\<rparr>"
    obtain r v where x: "ex_Execute ex ?h ?u = (r, v)" by fastforce
    have fin: "runOne E D ex wl lease w = Cleanup E ?h (finish_run E D ex wl lease j ?i r v)"
      using x by (simp add: run run_job_eq NewJobHandle_ok [OF None])
    have "r = None"
    proof (rule ccontr)
      assume "r \<noteq> None"
      then obtain e where "r = Some e" by blast
      with ended fin show False using conclude_only [OF calm, of StatusSucceeded StatusFailed j ?i "''failed''" "err_text e"
          "snd (Fail E (DepCloud D) (wl_ID wl) (LeaseTok lease) (err_text e) (\<not> ctx_done v) v)"]
        by (simp add: finish_run_def status_defs)
    qed
    moreover have "grows v (runOne E D ex wl lease w)"
      using fin \<open>r = None\<close> grows_trans [OF finish_run_grows grows_daemon(2)] by simp
    moreover have "hint ?h ?u = hint ?h w1"
      using begin_attempt_hint [OF calm, of ?h j n w1] by (simp add: hint_def)
    ultimately show ?thesis using x by blast
  next
    case (Some m)
    then obtain e u where "NewJobHandle E D j wl lease ?b = (Inl e, u)"
      by (auto simp: NewJobHandle_def handle_of_def Let_def)
    then have "db (runOne E D ex wl lease w) = db (conclude E j ?i StatusFailed ''failed'' (err_text e)
        (snd (Fail E (DepCloud D) (wl_ID wl) (LeaseTok lease) (''job handle: '' @ err_text e) False u)))"
      by (simp add: run run_job_def)
    with ended show ?thesis using conclude_only [OF calm, of StatusSucceeded StatusFailed j ?i "''failed''" "err_text e"
        "snd (Fail E (DepCloud D) (wl_ID wl) (LeaseTok lease) (''job handle: '' @ err_text e) False u)"]
      by (simp add: status_defs)
  qed
qed

text \<open>What a workload that its executor completed has in the cloud.\<close>

definition clips_in_cloud ::
  "'e menv_scheme \<Rightarrow> cloud_client \<Rightarrow> job_handle \<Rightarrow> int list \<Rightarrow> 'm media_scheme \<Rightarrow> bool" where
  "clips_in_cloud E c h earlier w \<longleftrightarrow> (\<exists>p. check_payload E (jh_wl h) = Inr p \<and>
     (\<forall>spec \<in> set (ClipSpecs p). Index spec \<in> set earlier \<or>
        (\<exists>s \<in> set (ClipSpecs p). Index s = Index spec \<and> clip_delivered E (Some c) h (TargetAspect p) s w)))"

definition audio_in_cloud :: "'e genv_scheme \<Rightarrow> cloud_client \<Rightarrow> job_handle \<Rightarrow> 'm media_scheme \<Rightarrow> bool" where
  "audio_in_cloud E c h w \<longleftrightarrow>
     (\<exists>u content meta. decodePayload E dec_video [] (wl_Payload (jh_wl h)) = Inr u \<and>
        delivered E c h ''audio'' ''audio.wav'' content meta w)"

lemma clip_run_in_cloud:
  assumes run: "clip_Execute E (Some c) h u = (None, v)" and mem: "remembered E h u = rs"
  shows "clips_in_cloud E c h rs v"
proof -
  obtain p where pay: "check_payload E (jh_wl h) = Inr p"
    using run by (auto simp: clip_Execute_def split: sum.splits)
  obtain w0 where start: "load_completed E h u = (rs, w0)"
    using mem by (cases "load_completed E h u") (simp add: remembered_def)
  obtain new where new: "\<forall>k \<in> set new. \<exists>spec \<in> set (ClipSpecs p). Index spec = k \<and>
      clip_delivered E (Some c) h (TargetAspect p) spec v"
    and all: "set new = Index ` set (ClipSpecs p) - set rs"
    using clip_Execute_result [OF run pay start] by auto
  have "Index spec \<in> set rs \<or> (\<exists>s \<in> set (ClipSpecs p). Index s = Index spec \<and>
      clip_delivered E (Some c) h (TargetAspect p) s v)" if "spec \<in> set (ClipSpecs p)" for spec
    using new all that by (cases "Index spec \<in> set rs") auto
  with pay show ?thesis by (auto simp: clips_in_cloud_def)
qed

lemma extract_decodes:
  "extract_Execute E cl h w = (None, v) \<Longrightarrow> \<exists>u. decodePayload E dec_video [] (wl_Payload (jh_wl h)) = Inr u"
  by (auto simp: extract_Execute_def split: sum.splits)

text \<open>
  A job that ended well is done.  When the daemon runs a claimed workload on the executor its
  wiring finds for the type, and the row ends as succeeded, then the outputs are in the cloud:
  for a clip workload every clip, by this run or an earlier one that remembered it; for an audio
  workload the audio file.
\<close>

theorem succeeded_job_delivered:
  assumes wired: "boot_registry E (Some c) = Some (DepRegistry D)" and found: "Lookup (DepRegistry D) (wl_Type wl) = Some ex"
    and db: "reads_back E" and up: "upsertJobForWorkload E D wl lease w = (Some (j, n), w1)"
    and ended: "has_row j StatusSucceeded (db (runOne E D ex wl lease w))"
  shows "wl_Type wl = ''video:clip'' \<and>
      clips_in_cloud E c (handle_of D j wl lease) (remembered E (handle_of D j wl lease) w1) (runOne E D ex wl lease w) \<or>
    wl_Type wl = ''video:extract-audio'' \<and> audio_in_cloud E c (handle_of D j wl lease) (runOne E D ex wl lease w)"
proof -
  let ?h = "handle_of D j wl lease" and ?fin = "runOne E D ex wl lease w"
  have calm: "calm_statements E" using db by (simp add: reads_back_def)
  obtain u v where run: "ex_Execute ex ?h u = (None, v)" and hint: "hint ?h u = hint ?h w1" and g: "grows v ?fin"
    using runOne_succeeded [OF calm up ended] by blast
  have mem: "remembered E ?h u = remembered E ?h w1" using hint by (simp add: remembered_hint [OF db])
  from boot_lookup [OF wired found] show ?thesis
  proof (elim disjE conjE)
    assume t: "wl_Type wl = ''video:clip''" and ex: "ex = clip_executor E (Some c)"
    then have "clip_Execute E (Some c) ?h u = (None, v)" using run by (simp add: clip_executor_def)
    from clip_run_in_cloud [OF this mem] have "clips_in_cloud E c ?h (remembered E ?h w1) ?fin"
      unfolding clips_in_cloud_def using clip_delivered_grows [OF _ g] by blast
    with t show ?thesis by blast
  next
    assume t: "wl_Type wl = ''video:extract-audio''" and ex: "ex = extract_executor E (Some c)"
    then have run': "extract_Execute E (Some c) ?h u = (None, v)" using run by (simp add: extract_executor_def)
    obtain x where x: "decodePayload E dec_video [] (wl_Payload (jh_wl ?h)) = Inr x" using extract_decodes [OF run'] by blast
    from extract_Execute_result [OF run' x] obtain content meta where
      "delivered E c ?h ''audio'' ''audio.wav'' content meta v" by auto
    from delivered_grows [OF this g] x have "audio_in_cloud E c ?h ?fin" unfolding audio_in_cloud_def by blast
    with t show ?thesis by blast
  qed
qed

text \<open>An audio workload, from the claimed row to the end.\<close>

lemma extract_and_upload_jobs:
  assumes "extract_and_upload E cl h ff inp outp w = (r, v)"
  shows "jobs (db v) = jobs (db w)"
proof -
  obtain out err w1 where c: "run_command E ff (BuildExtractArgs inp outp) w = ((out, err), w1)"
    by (metis prod.collapse)
  obtain st w2 where st: "os_Stat E outp w1 = (st, w2)" by fastforce
  obtain q w3 where q: "os_Open E outp w2 = (q, w3)" by fastforce
  have k: "db w1 = db w" "db w2 = db w1" "db w3 = db w2"
    using run_command_keeps(3) [OF c] fs_only_keeps(5) os_Stat_only [OF st] os_Open_only [OF q] by blast+
  show ?thesis
    using assms c st q k
    by (auto simp: extract_and_upload_def split: option.splits sum.splits prod.splits dest: AddOutput_result)
qed

lemma os_Remove_db [simp]: "db (os_Remove E p w) = db w"
  using fs_only_keeps(5) [OF os_Remove_only] .

lemma download_and_extract_jobs:
  assumes "download_and_extract E cl h ff u inp outp w = (r, v)"
  shows "jobs (db v) = jobs (db w)"
  using assms Download_quiet [where v = "snd (Download E u inp w)" and w = w and E = E and u = u and dst = inp]
  by (auto simp: download_and_extract_def quiet_def split: prod.splits option.splits dest!: extract_and_upload_jobs)

lemma extract_Execute_jobs:
  assumes "extract_Execute E cl h w = (r, v)"
  shows "jobs (db v) = jobs (db w)"
proof -
  show ?thesis
  proof (cases "decodePayload E dec_video [] (wl_Payload (jh_wl h))")
    case (Inr u)
    obtain l w1 where l: "Locate E ''ffmpeg'' w = (l, w1)" by fastforce
    have q: "jobs (db w1) = jobs (db w)" using Locate_quiet [OF l] by (simp add: quiet_def)
    show ?thesis
    proof (cases l)
      case (Inl e)
      with assms Inr l q show ?thesis by (auto simp: extract_Execute_def split: if_splits)
    next
      case ff: (Inr ff)
      let ?w2 = "snd (handle_AppendEvent E h ''log'' ''ffmpeg located''
                  (Some (JObj [(''path'', JText (ToolPath ff)), (''version'', JText (ToolVersion ff))])) w1)"
      obtain a w3 where a: "download_and_extract E cl h (ToolPath ff) u (input_path h) (output_path h) ?w2 = (a, w3)"
        by fastforce
      with assms Inr l ff q download_and_extract_jobs [OF a] show ?thesis by (auto simp: extract_Execute_def split: if_splits)
    qed
  qed (use assms in \<open>simp add: extract_Execute_def\<close>)
qed

lemma calm_genv_reads_back: "reads_back calm_genv"
proof -
  have "json_text calm_genv = json_text calm_menv" "json_of_text calm_genv = json_of_text calm_menv"
    "db_scan_time calm_genv = db_scan_time calm_menv" "db_fault calm_genv = db_fault calm_menv"
    by (simp_all add: calm_genv_def menv.defs calm_menv_def denv.defs calm_denv_def env.defs calm_env_def)
  then show ?thesis
    using calm_reads_back by (simp add: reads_back_def hint_codec_def calm_statements_def)
qed

definition audio_workload :: workload where
  "audio_workload = sample_workload\<lparr>wl_Type := ''video:extract-audio'',
     wl_Payload := Some [(''video_url'', JText ''http://v/m'')]\<rparr>"

text \<open>Such a workload, once it has its row, is run to the end and its row ends as succeeded.\<close>

lemma calm_audio_run:
  assumes E: "calm_audio E" and up: "upsertJobForWorkload E D audio_workload lease w = (Some (j, n), w1)"
    and on: "has_session w1"
  shows "has_row j StatusSucceeded (db (runOne E D (extract_executor E (Some c)) audio_workload lease w))"
proof -
  let ?h = "handle_of D j audio_workload lease" and ?i = "fst (begin_attempt E j n w1)"
  let ?b = "snd (begin_attempt E j n w1)"
  let ?u = "?b\<lparr>workdirs := insert (jh_workDir ?h) (workdirs ?b)\<rparr>"
  have calm: "calm_statements E" and dirs: "mkdir_fault E d = None" for d
    using E by (simp_all add: calm_audio_def calm_statements_def)
  obtain st where "has_row j st (db w1)" using upsert_result [OF up, unfolded upsert_outcome_def] by (auto simp: has_row_def prepared_def)
  from begin_attempt_result [OF calm this, of n] have row: "has_row j StatusRunning (db ?u)" by simp
  have "has_session ?u" using on by (simp add: has_session_def begin_attempt_def on_db_eq)
  moreover have "decodePayload E dec_video [] (wl_Payload (jh_wl ?h)) = Inr ''http://v/m''"
    by (simp add: handle_of_def audio_workload_def decodePayload_def dec_video_def dec_defs sort_keys_def)
  ultimately obtain v where x: "extract_Execute E (Some c) ?h ?u = (None, v)"
    using calm_extract_Execute [OF E] by (metis prod.collapse)
  have "has_row j StatusRunning (db v)" using row extract_Execute_jobs [OF x] by (simp add: has_row_def)
  then have "has_row j StatusSucceeded (snd (UpdateStatus E j StatusSucceeded (db v)))"
    by (rule UpdateStatus_row(1) [OF calm])
  then have "has_row j StatusSucceeded (db (finish_run E D ex audio_workload lease j ?i None v))" for ex
    by (simp add: finish_run_def conclude_db FinishAttempt_calm [OF calm] has_row_def)
  then show ?thesis
    by (simp add: runOne_eq [OF up] run_job_eq NewJobHandle_ok dirs extract_executor_def x)
qed

theorem succeeded_job_delivered_witness:
  "\<exists>D v j. v = runOne calm_genv D (extract_executor calm_genv (Some (New ''http://c'' ''fp''))) audio_workload sample_lease
      (sample_media (claimed_store StatusQueued)) \<and>
    audio_in_cloud calm_genv (New ''http://c'' ''fp'') (handle_of D j audio_workload sample_lease) v"
proof -
  let ?c = "New ''http://c'' ''fp''" and ?w = "sample_media (claimed_store StatusQueued)"
  let ?ex = "extract_executor calm_genv (Some ?c) :: media executor"
  obtain r :: "media registry" where r: "boot_registry calm_genv (Some ?c) = Some r" using boot_registry_made by blast
  let ?D = "\<lparr>DepRegistry = r, DepCloud = ?c, DepBaseTmp = ''/tmp/engine'', HasAuth = True\<rparr>"
  have wired: "boot_registry calm_genv (Some ?c) = Some (DepRegistry ?D)" using r by simp
  have found: "Lookup (DepRegistry ?D) (wl_Type audio_workload) = Some ?ex"
    using r by (auto simp: boot_registry_def register_all_result NewRegistry_def Lookup_def boot_executors_def
        clip_executor_def extract_executor_def audio_workload_def split: if_splits)
  obtain q w1 where q: "upsertJobForWorkload calm_genv ?D audio_workload sample_lease ?w = (q, w1)" by fastforce
  have calm: "db_fault calm_genv k = None" "db_scan_time calm_genv t = Some t" for k t
    using calm_genv_reads_back by (simp_all add: reads_back_def)
  have "q \<noteq> None \<and> has_session w1"
    using q calm by (auto simp: upsert_lookup GetByWorkloadID_ok claimed_store_def claimed_row_def
        audio_workload_def sample_workload_def scan_job_def take_over_def on_db_def UpdateLease_def update_job_def
        exec_stmt_ok sql_defs has_session_def split: prod.splits)
  then obtain j n where up: "upsertJobForWorkload calm_genv ?D audio_workload sample_lease ?w = (Some (j, n), w1)"
    and on: "has_session w1" using q by (cases q) auto
  from succeeded_job_delivered [OF wired found calm_genv_reads_back up calm_audio_run [OF calm_genv_audio up on]]
  show ?thesis by (auto simp: audio_workload_def)
qed

end
