(* ===== verification/Statuses.thy ===== *)
theory Statuses
  imports Recovery
begin

text \<open>
  Which operations of \<open>internal/jobqueue\<close> can end a job well, and which can save a state for a
  later attempt.  Only \<open>UpdateStatus\<close> with \<open>succeeded\<close> gives a row that status, and only
  \<open>UpdateResumableState\<close> gives a row a state it did not have.
\<close>

section \<open>The succeeded jobs\<close>

definition succeeded_ids :: "store \<Rightarrow> string set" where
  "succeeded_ids s = jid ` {r \<in> set (jobs s). job_status r = StatusSucceeded}"

text \<open>The states saved for a later attempt, by job.\<close>

definition saves :: "store \<Rightarrow> (string \<times> string) set" where
  "saves s = {(i, x). \<exists>r \<in> set (jobs s). jid r = i \<and> resumable_state r = Some x}"

text \<open>What may be done to the tables while no job is ended well: safe, and no new succeeded row.\<close>

definition mild :: "store \<Rightarrow> store \<Rightarrow> bool" where
  "mild s t \<longleftrightarrow> safe s t \<and> succeeded_ids t \<subseteq> succeeded_ids s"

lemma mild_refl [simp]: "mild s s"
  by (simp add: mild_def)

lemma mild_trans [trans]: "mild s t \<Longrightarrow> mild t u \<Longrightarrow> mild s u"
  by (auto simp: mild_def intro: safe_trans)

lemma mild_safe: "mild s t \<Longrightarrow> safe s t"
  by (simp add: mild_def)

lemma mild_ids: "mild s t \<Longrightarrow> succeeded_ids t \<subseteq> succeeded_ids s"
  by (simp add: mild_def)

text \<open>And while no state is saved either.\<close>

definition still :: "store \<Rightarrow> store \<Rightarrow> bool" where
  "still s t \<longleftrightarrow> mild s t \<and> saves t \<subseteq> saves s"

lemma still_refl [simp]: "still s s"
  by (simp add: still_def)

lemma still_trans [trans]: "still s t \<Longrightarrow> still t u \<Longrightarrow> still s u"
  by (auto simp: still_def intro: mild_trans)

lemma still_mild: "still s t \<Longrightarrow> mild s t"
  by (simp add: still_def)

lemma still_saves: "still s t \<Longrightarrow> saves t \<subseteq> saves s"
  by (simp add: still_def)

lemma still_same_jobs: "safe s t \<Longrightarrow> jobs t = jobs s \<Longrightarrow> still s t"
  by (simp add: still_def mild_def succeeded_ids_def saves_def)

lemma still_tick [simp]: "still s (tick s)"
  by (rule still_same_jobs) simp_all

section \<open>The statements\<close>

definition stmt_still :: "(string \<Rightarrow> store \<Rightarrow> gerror + 'a \<times> store) \<Rightarrow> bool" where
  "stmt_still f \<longleftrightarrow> (\<forall>now s x t. f now s = Inr (x, t) \<longrightarrow> still s t)"

lemma exec_stmt_still:
  assumes "stmt_still f"
  shows "still s (snd (exec_stmt E f s))"
proof -
  have "still s t" if "f now (tick s) = Inr (x, t)" for now x t
    using that assms still_trans [OF still_tick] by (auto simp: stmt_still_def)
  then show ?thesis by (auto simp: exec_stmt_def split: option.splits sum.splits)
qed

lemma exec_stmt_still_eq: "exec_stmt E f s = (r, t) \<Longrightarrow> stmt_still f \<Longrightarrow> still s t"
  using exec_stmt_still by (metis snd_conv)

lemma stmt_still_same:
  "stmt_ok f \<Longrightarrow> (\<And>now s x t. f now s = Inr (x, t) \<Longrightarrow> jobs t = jobs s) \<Longrightarrow> stmt_still f"
  unfolding stmt_still_def stmt_ok_def using still_same_jobs by blast

lemma stmt_still_select: "stmt_still (sql_select q)"
  by (simp add: stmt_still_def sql_select_def)

lemma stmt_still_event: "stmt_still (sql_insert_event i k m a)"
  by (rule stmt_still_same [OF stmt_ok_insert_event]) (auto simp: sql_insert_event_def split: if_splits)

lemma stmt_still_attempt: "stmt_still (sql_insert_attempt i n)"
  by (rule stmt_still_same [OF stmt_ok_insert_attempt]) (auto simp: sql_insert_attempt_def split: if_splits)

lemma stmt_still_finish:
  assumes "\<And>now a. attempt_key (f now a) = attempt_key a"
  shows "stmt_still (sql_update_attempts p f)"
  by (rule stmt_still_same [OF stmt_ok_update_attempts [OF assms]]) (auto simp: sql_update_attempts_def)

lemma stmt_still_insert:
  assumes "\<And>now. job_status (mk now) \<in> set all_statuses" and "\<And>now. job_status (mk now) \<noteq> StatusSucceeded"
    and "\<And>now. resumable_state (mk now) = None"
  shows "stmt_still (sql_insert_job mk)"
proof -
  have "stmt_ok (sql_insert_job mk)" by (rule stmt_ok_insert_job [OF assms(1)])
  moreover have "succeeded_ids t \<subseteq> succeeded_ids s \<and> saves t \<subseteq> saves s"
    if "sql_insert_job mk now s = Inr (x, t)" for now s x t
    using that assms(2,3) by (auto simp: sql_insert_job_def succeeded_ids_def saves_def Let_def split: if_splits)
  ultimately show ?thesis unfolding stmt_still_def stmt_ok_def still_def mild_def by blast
qed

text \<open>An update that makes no row succeeded and saves no state.\<close>

lemma updated_jobs:
  assumes t: "jobs t = map (\<lambda>r. if p r then f r else r) (jobs s)" and j: "\<And>r. jid (f r) = jid r"
  shows "(\<forall>r. job_status (f r) = StatusSucceeded \<longrightarrow> job_status r = StatusSucceeded) \<longrightarrow>
      succeeded_ids t \<subseteq> succeeded_ids s" (is "?a \<longrightarrow> _")
    and "(\<forall>r. resumable_state (f r) = resumable_state r) \<longrightarrow> saves t \<subseteq> saves s" (is "?b \<longrightarrow> _")
proof -
  have "succeeded_ids t \<subseteq> succeeded_ids s" if low: ?a
  proof
    fix i assume "i \<in> succeeded_ids t"
    then obtain r where "r \<in> set (jobs s)" "i = jid r" "job_status r = StatusSucceeded"
      using j low t by (auto simp: succeeded_ids_def split: if_splits)
    then show "i \<in> succeeded_ids s" by (auto simp: succeeded_ids_def)
  qed
  then show "?a \<longrightarrow> succeeded_ids t \<subseteq> succeeded_ids s" ..
  have "saves t \<subseteq> saves s" if same: ?b
  proof
    fix i assume "i \<in> saves t"
    then obtain r x where "r \<in> set (jobs s)" "i = (jid r, x)" "resumable_state r = Some x"
      using j same t by (auto simp: saves_def split: if_splits)
    then show "i \<in> saves s" by (auto simp: saves_def)
  qed
  then show "?b \<longrightarrow> saves t \<subseteq> saves s" ..
qed

lemma stmt_still_jobs:
  assumes key: "\<And>now r. job_key (f now r) = job_key r"
    and st: "\<And>now r. job_status r \<in> set all_statuses \<Longrightarrow> job_status (f now r) \<in> set all_statuses"
    and low: "\<And>now r. job_status (f now r) = StatusSucceeded \<Longrightarrow> job_status r = StatusSucceeded"
    and same: "\<And>now r. resumable_state (f now r) = resumable_state r"
  shows "stmt_still (sql_update_jobs p f)"
proof -
  have j: "jid (f now r) = jid r" for now r using key [of now r] by (simp add: job_key_def)
  have "succeeded_ids t \<subseteq> succeeded_ids s \<and> saves t \<subseteq> saves s"
    if "sql_update_jobs p f now s = Inr (x, t)" for now s x t
  proof -
    from that have "jobs t = map (\<lambda>r. if p r then f now r else r) (jobs s)" by (auto simp: sql_update_jobs_def)
    from updated_jobs [OF this j] low same show ?thesis by blast
  qed
  moreover have "stmt_ok (sql_update_jobs p f)" by (rule stmt_ok_update_jobs [OF key st])
  ultimately show ?thesis unfolding stmt_still_def stmt_ok_def still_def mild_def by blast
qed

section \<open>The operations\<close>

lemma status_not_succeeded [simp]:
  "StatusQueued \<noteq> StatusSucceeded" "StatusRunning \<noteq> StatusSucceeded" "StatusFailed \<noteq> StatusSucceeded"
  "StatusCancelled \<noteq> StatusSucceeded"
  by (simp_all add: status_defs)

lemma CreateJob_still: "still s (snd (CreateJob E i s))"
proof -
  have "stmt_still (sql_insert_job (row_of_input i))"
    by (rule stmt_still_insert) (simp_all add: row_of_input_def all_statuses_def)
  then show ?thesis by (auto simp: CreateJob_def split: prod.splits sum.splits dest!: exec_stmt_still_eq)
qed

lemma query_job_still: "still s (snd (query_job E p s))"
  by (auto simp: query_job_def split: prod.splits sum.splits option.splits
      dest!: exec_stmt_still_eq intro!: stmt_still_select)

lemma GetJob_still: "still s (snd (GetJob E i s))"
  using query_job_still [of s E "\<lambda>r. jid r = i"] by (auto simp: GetJob_def split: prod.splits sum.splits)

lemma GetByWorkloadID_still: "still s (snd (GetByWorkloadID E i s))"
  using query_job_still [of s E "\<lambda>r. workload_id r = i"]
  by (auto simp: GetByWorkloadID_def split: prod.splits sum.splits)

lemma update_job_jobs:
  assumes "update_job E what i f s = (q, t)"
  shows "jobs t = jobs s \<or> (\<exists>now. jobs t = map (\<lambda>r. if jid r = i then (f r)\<lparr>updated_at := now\<rparr> else r) (jobs s))"
  using assms by (auto simp: update_job_def sql_update_jobs_def split: prod.splits sum.splits dest!: stmtD
      simp del: map_eq_conv) blast

lemma update_job_ids:
  assumes "\<And>r. jid (f r) = jid r" and "\<And>r. job_status (f r) = job_status r"
  shows "succeeded_ids (snd (update_job E what i f s)) \<subseteq> succeeded_ids s"
proof -
  obtain q t where u: "update_job E what i f s = (q, t)" by fastforce
  from update_job_jobs [OF u] have "succeeded_ids t \<subseteq> succeeded_ids s"
  proof (elim disjE exE)
    fix now assume t: "jobs t = map (\<lambda>r. if jid r = i then (f r)\<lparr>updated_at := now\<rparr> else r) (jobs s)"
    show ?thesis using updated_jobs(1) [OF t] assms by simp
  qed (simp add: succeeded_ids_def)
  with u show ?thesis by simp
qed

lemma update_job_saves:
  assumes "\<And>r. jid (f r) = jid r" and "\<And>r. resumable_state (f r) = resumable_state r"
  shows "saves (snd (update_job E what i f s)) \<subseteq> saves s"
proof -
  obtain q t where u: "update_job E what i f s = (q, t)" by fastforce
  from update_job_jobs [OF u] have "saves t \<subseteq> saves s"
  proof (elim disjE exE)
    fix now assume t: "jobs t = map (\<lambda>r. if jid r = i then (f r)\<lparr>updated_at := now\<rparr> else r) (jobs s)"
    show ?thesis using updated_jobs(2) [OF t] assms by simp
  qed (simp add: saves_def)
  with u show ?thesis by simp
qed

text \<open>The two that are not still: what they add is about the job they name.\<close>

lemma UpdateStatus_ids: "succeeded_ids (snd (UpdateStatus E i st s)) \<subseteq> insert i (succeeded_ids s)"
  by (auto simp: UpdateStatus_def update_job_def succeeded_ids_def sql_update_jobs_def
      split: prod.splits sum.splits if_splits dest!: stmtD)

lemma UpdateStatus_saves: "saves (snd (UpdateStatus E i st s)) \<subseteq> saves s"
  unfolding UpdateStatus_def by (rule update_job_saves) simp_all

lemma UpdateResumableState_mild: "mild s (snd (UpdateResumableState E i st s))"
  using update_job_ids [of "\<lambda>r. r\<lparr>resumable_state := nullStr st\<rparr>" E "''update resumable state''" i s]
    UpdateResumableState_safe [of s E i st]
  by (simp add: mild_def UpdateResumableState_def)

lemma UpdateResumableState_saves: "saves (snd (UpdateResumableState E i st s)) \<subseteq> insert (i, st) (saves s)"
  by (auto simp: UpdateResumableState_def update_job_def saves_def sql_update_jobs_def nullStr_def
      split: prod.splits sum.splits if_splits dest!: stmtD)

lemma UpdateStatus_still:
  assumes "st \<in> set all_statuses" and "st \<noteq> StatusSucceeded"
  shows "still s (snd (UpdateStatus E i st s))"
proof -
  have "stmt_still (sql_update_jobs (\<lambda>r. jid r = i) (\<lambda>now r. (r\<lparr>job_status := st\<rparr>)\<lparr>updated_at := now\<rparr> :: row))"
    using assms by (intro stmt_still_jobs) (auto simp: job_key_def)
  then show ?thesis
    by (auto simp: UpdateStatus_def update_job_def split: prod.splits sum.splits dest!: exec_stmt_still_eq)
qed

lemma UpdateLease_still: "still s (snd (UpdateLease E i tk ex s))"
proof -
  have "stmt_still (sql_update_jobs (\<lambda>r. jid r = i)
      (\<lambda>now r. (r\<lparr>lease_token := nullStr tk, lease_expires_at := nullTime ex\<rparr>)\<lparr>updated_at := now\<rparr> :: row))"
    by (intro stmt_still_jobs) (auto simp: job_key_def)
  then show ?thesis
    by (auto simp: UpdateLease_def update_job_def split: prod.splits sum.splits dest!: exec_stmt_still_eq)
qed

lemma Cancel_still: "still s (snd (Cancel E i s))"
proof -
  have "stmt_still (sql_update_jobs (\<lambda>r. jid r = i)
      (\<lambda>now r. r\<lparr>job_status := StatusCancelled, updated_at := now\<rparr> :: row))"
    by (rule stmt_still_jobs) (simp_all add: job_key_def all_statuses_def)
  then show ?thesis
    by (auto simp: Cancel_def split: prod.splits sum.splits option.splits
        dest!: exec_stmt_still_eq intro: still_trans stmt_still_select)
qed

lemma ListJobs_still: "still s (snd (ListJobs E st l off s))"
  by (auto simp: ListJobs_def Let_def split: prod.splits sum.splits
      dest!: exec_stmt_still_eq intro!: stmt_still_select)

lemma PendingRecovery_still: "still s (snd (PendingRecovery E s))"
  by (simp add: PendingRecovery_def ListJobs_still)

lemma AppendEvent_still: "still s (snd (AppendEvent E i k m a s))"
  by (auto simp: AppendEvent_def split: prod.splits sum.splits dest!: exec_stmt_still_eq intro!: stmt_still_event)

lemma StartAttempt_still: "still s (snd (StartAttempt E i n s))"
  by (auto simp: StartAttempt_def split: prod.splits sum.splits dest!: exec_stmt_still_eq intro!: stmt_still_attempt)

lemma FinishAttempt_still: "still s (snd (FinishAttempt E a out m s))"
  by (auto simp: FinishAttempt_def attempt_key_def split: prod.splits sum.splits
      dest!: exec_stmt_still_eq intro!: stmt_still_finish)

lemma AttemptCount_still: "still s (snd (AttemptCount E i s))"
  by (auto simp: AttemptCount_def split: prod.splits sum.splits dest!: exec_stmt_still_eq intro!: stmt_still_select)

section \<open>Bulk failure\<close>

lemma failActive_still: "still s (snd (failActive E sts kind msg s))"
proof -
  obtain r t where f: "failActive E sts kind msg s = (r, t)" by fastforce
  have "succeeded_ids t \<subseteq> succeeded_ids s \<and> saves t \<subseteq> saves s"
  proof (cases r)
    case (Inl e)
    with f failActive_InlD have "jobs t = jobs s" by (fastforce simp: tables_def)
    then show ?thesis by (simp add: succeeded_ids_def saves_def)
  next
    case (Inr n)
    then obtain now where "jobs t = map (fail_row sts now) (jobs s)" using f failActive_jobs by blast
    then have t: "jobs t = map (\<lambda>r. if job_status r \<in> set sts then fail_row sts now r else r) (jobs s)"
      by (simp add: fail_row_def)
    from updated_jobs [OF t] show ?thesis by (simp add: fail_row_def split: if_splits)
  qed
  with failActive_safe [of s E sts kind msg] f show ?thesis by (simp add: still_def mild_def)
qed

lemma RecoverOrphaned_still: "still s (snd (RecoverOrphaned E reason s))"
  by (simp add: RecoverOrphaned_def Let_def failActive_still)

lemma SweepActiveToFailed_still: "still s (snd (SweepActiveToFailed E reason s))"
  by (simp add: SweepActiveToFailed_def Let_def failActive_still)

end
