(* ===== verification/ExecContract.thy ===== *)
theory ExecContract
  imports ExtractAudio Statuses
begin

text \<open>
  The contract of \<open>registry.Executor\<close> that the scheduler relies on, as an interface, and its proof
  for both executors of the repository: an executor leaves the slot pool alone, keeps the tables
  of the store well-formed, ends no job well by itself, and sends the cloud no terminal report of
  its own.
\<close>

section \<open>The interface\<close>

definition runs_within :: "'d daemon_scheme \<Rightarrow> 'd daemon_scheme \<Rightarrow> bool" where
  "runs_within w v \<longleftrightarrow> pool v = pool w \<and> mild (db w) (db v) \<and> (\<forall>c wid. reports_within c wid 0 w v)"

locale executor_contract =
  fixes ex :: "('d daemon_scheme) executor"
  assumes execute_within: "runs_within w (snd (ex_Execute ex h w))"
begin

lemma keeps: "keeps_pool ex"
  using execute_within by (simp add: keeps_pool_def runs_within_def)

lemma honest: "safe (db w) (db (snd (ex_Execute ex h w)))"
  using execute_within by (simp add: runs_within_def mild_def)

lemma ends_no_job: "succeeded_ids (db (snd (ex_Execute ex h w))) \<subseteq> succeeded_ids (db w)"
  using execute_within by (simp add: runs_within_def mild_def)

lemma silent: "reports_nothing c wid ex"
  using execute_within by (simp add: reports_nothing_def runs_within_def)

text \<open>What the scheduler gives in return.\<close>

lemma one_report: "reports_within (DepCloud D) (wl_ID wl) 1 w (runOne E D ex wl lease w)"
  by (rule runOne_reports [OF silent])

lemma run_keeps_pool: "pool (runOne E D ex wl lease w) = pool w"
  by (rule runOne_pool [OF keeps])

end

section \<open>Frames of what an executor does\<close>

lemma runs_within_refl [simp]: "runs_within w w"
  by (simp add: runs_within_def reports_within_refl)

lemma runs_within_trans: "runs_within w v \<Longrightarrow> runs_within v u \<Longrightarrow> runs_within w u"
  unfolding runs_within_def using mild_trans reports_within_trans [where k = 0 and k' = 0] by fastforce

lemma runs_withinI:
  "pool v = pool w \<Longrightarrow> db v = db w \<Longrightarrow> sent v = sent w \<Longrightarrow> runs_within w v"
  by (simp add: runs_within_def reports_within_refl)

lemma fs_only_within: "fs_only w v \<Longrightarrow> runs_within w v"
  by (auto simp: fs_only_def intro: runs_withinI)

lemma on_db_within: "(\<And>s. mild s (snd (f s))) \<Longrightarrow> runs_within w (snd (on_db f w))"
  by (simp add: runs_within_def reports_within_refl)

lemma event_within: "runs_within w (snd (handle_AppendEvent E h k m a w))"
  unfolding handle_AppendEvent_def by (rule on_db_within) (rule still_mild [OF AppendEvent_still])

lemma save_within: "runs_within w (snd (SaveResumableState E h j w))"
  unfolding SaveResumableState_def by (rule on_db_within) (rule UpdateResumableState_mild)

lemma push_within: "runs_within w (push_progress E ev w)"
  by (rule runs_withinI) (simp_all add: push_progress_def)

lemma command_within: "run_command E p args w = (q, v) \<Longrightarrow> runs_within w v"
  by (rule runs_withinI) (auto simp: run_command_def split: prod.splits)

text \<open>A request for an upload location, or of an output manifest, is no terminal report.\<close>

lemma doRaw_no_report:
  assumes path: "\<And>rq. rq_url rq = baseURL c @ path \<Longrightarrow> \<not> is_report c' wid rq"
  shows "reports_within c' wid 0 w (snd (doRaw E c meth path body w))"
proof -
  obtain t v where t: "BearerToken E w = (t, v)" by fastforce
  have "sends_within (is_report c' wid) 1 0 w v" by (rule BearerToken_sends [OF t no_refresh_report])
  moreover have "sent (snd (doRaw E c meth path body w)) = sent v \<or>
      (\<exists>rq. sent (snd (doRaw E c meth path body w)) = sent v @ [rq] \<and> rq_url rq = baseURL c @ path)"
    using t by (auto simp: doRaw_eq next_request_def cloud_request_def split: sum.splits)
  ultimately show ?thesis using path by (auto simp: sends_within_def reports_within_def)
qed

lemma path_end: "2 \<le> length what \<Longrightarrow> take 2 (rev (b @ workload_path wid what)) = take 2 (rev what)"
  by (simp add: workload_path_def)

lemma output_paths:
  assumes "rq_url rq = baseURL c @ workload_path wid' what" and "what = ''upload-url'' \<or> what = ''outputs''"
  shows "\<not> is_report c' wid rq"
proof
  assume "is_report c' wid rq"
  then obtain x where x: "x = ''complete'' \<or> x = ''fail'' \<or> x = ''surrender''"
    and url: "rq_url rq = baseURL c' @ workload_path wid x"
    unfolding is_report_def by blast
  have "take 2 (rev what) = take 2 (rev x)"
    using arg_cong [OF trans [OF assms(1) [symmetric] url], of "\<lambda>u. take 2 (rev u)"] assms(2) x path_end by auto
  with x assms(2) show False by auto
qed

lemma output_call_silent:
  assumes "what = ''upload-url'' \<or> what = ''outputs''"
  shows "reports_within c' wid' 0 w (snd (doRaw E c meth (workload_path wid what) body w))"
  by (rule doRaw_no_report) (rule output_paths [OF _ assms])

lemma PresignUpload_within:
  assumes "PresignUpload E c wid tk kind key n w = (r, v)"
  shows "runs_within w v"
proof -
  note rest = PresignUpload_rest [OF assms]
  have v: "v = snd (doRaw E c ''POST'' (workload_path wid ''upload-url'') (Some (presign_body tk kind key n)) w)"
    using assms by (auto simp: PresignUpload_def do_json_def split: prod.splits sum.splits if_splits)
  have "reports_within c' wid' 0 w v" for c' wid'
    unfolding v by (rule output_call_silent) simp
  with same_rest_daemon(1,2) [OF rest] show ?thesis by (simp add: runs_within_def)
qed

lemma RecordOutputs_silent: "reports_within c' wid' 0 w (snd (RecordOutputs E c wid tk outs w))"
  unfolding RecordOutputs_def checked_reply_snd do_json_snd by (rule output_call_silent) simp

lemma record_output_within:
  assumes "record_output E c h out ok w = (r, v)"
  shows "runs_within w v"
proof -
  note rest = conjunct1 [OF record_output_result [OF assms]]
  have "v \<in> {w, snd (RecordOutputs E c (wl_ID (jh_wl h)) (jh_leaseToken h) [out] w)}"
    using assms by (auto simp: record_output_def split: prod.splits if_splits option.splits)
  then have "reports_within c' wid' 0 w v" for c' wid'
    using RecordOutputs_silent [of c' wid' w E c "wl_ID (jh_wl h)" "jh_leaseToken h" "[out]"]
    by (auto intro: reports_within_refl)
  with same_rest_daemon(1,2) [OF rest] show ?thesis by (simp add: runs_within_def)
qed

lemma send_blob_within: "send_blob E rq w = (r, v) \<Longrightarrow> runs_within w v"
  by (rule runs_withinI) (auto simp: send_blob_def Let_def split: if_splits http_result.splits)

lemmas fs_within = fs_only_within [OF os_Create_only] fs_only_within [OF io_Copy_only]
  fs_only_within [OF conjunct1 [OF os_Stat_only]] fs_only_within [OF conjunct1 [OF os_Open_only]]
  fs_only_within [OF conjunct1 [OF fs_try_only]]

lemma UploadFile_within: "UploadFile E p url m hs w = (r, v) \<Longrightarrow> runs_within w v"
  unfolding UploadFile_def Let_def
  by (auto split: prod.splits option.splits sum.splits dest!: fs_within send_blob_within)
    (meson runs_within_trans)+

lemma upload_output_within:
  "upload_output E c h kind key tmp n meta w = (r, v) \<Longrightarrow> runs_within w v"
  unfolding upload_output_def
  by (auto split: prod.splits sum.splits dest!: PresignUpload_within UploadFile_within record_output_within)
    (meson runs_within_trans)+

lemma AddOutput_within:
  "AddOutput E cl h kind key content n meta w = (r, v) \<Longrightarrow> runs_within w v"
  unfolding AddOutput_def Let_def
  by (auto split: prod.splits option.splits dest!: upload_output_within fs_within)
    (meson runs_within_trans)+

section \<open>The clip executor\<close>

lemma Locate_within: "Locate E t w = (r, v) \<Longrightarrow> runs_within w v"
  by (auto simp: Locate_def discoverFFmpeg_def split: option.splits prod.splits sum.splits if_splits
      dest!: command_within intro: runs_within_trans [OF _ runs_withinI])

lemma probe_within: "probe_candidates E ff listed cs w = (e, v) \<Longrightarrow> runs_within w v"
proof (induction cs arbitrary: w)
  case (Cons c cs)
  obtain ok w1 where p: "probeEncoder E ff c w = (ok, w1)" by fastforce
  then have "runs_within w w1" by (auto simp: probeEncoder_def split: prod.splits dest: command_within)
  with Cons p runs_within_trans show ?case by (auto split: if_splits)
qed simp

lemma SelectEncoder_within: "SelectEncoder E ff w = (r, v) \<Longrightarrow> runs_within w v"
  by (auto simp: SelectEncoder_def listEncoders_def split: prod.splits sum.splits option.splits
      dest!: command_within probe_within intro: runs_within_trans)

lemma choose_encoder_within:
  assumes "choose_encoder E h ff w = (e, v)"
  shows "runs_within w v"
proof -
  have set: "runs_within u (u\<lparr>enc_once := x\<rparr>)" for u :: "'a media_scheme" and x by (rule runs_withinI) simp_all
  have step: "runs_within w u \<Longrightarrow> runs_within w ((snd (handle_AppendEvent E h k m a u))\<lparr>enc_once := x\<rparr>)" for u k m a x
    using runs_within_trans [OF runs_within_trans [OF _ event_within] set] .
  show ?thesis
    using assms step
    by (auto simp: choose_encoder_def split: option.splits prod.splits dest!: SelectEncoder_within)
qed

lemma http_follow_within: "http_follow n E u w = (r, v) \<Longrightarrow> runs_within w v"
proof (induction n arbitrary: u w)
  case (Suc n)
  have get: "runs_within w (w\<lparr>gets := gets w @ [u]\<rparr>)" by (rule runs_withinI) simp_all
  show ?case
  proof (cases "fetch E (gets w @ [u])")
    case (MovedTo x)
    with Suc.prems Suc.IH [of x "w\<lparr>gets := gets w @ [u]\<rparr>"] runs_within_trans [OF get] show ?thesis by (simp add: Let_def)
  qed (use Suc.prems get in \<open>auto simp: Let_def\<close>)
qed simp

lemma stream_within: "stream_to_file E what u dst w = (r, v) \<Longrightarrow> runs_within w v"
  by (auto simp: stream_to_file_def split: if_splits prod.splits sum.splits option.splits
      dest!: http_follow_within fs_within) (meson runs_within_trans)+

lemma load_completed_within: "load_completed E h w = (rs, v) \<Longrightarrow> runs_within w v"
  using on_db_within [of "GetJob E (jh_id h)" w, OF still_mild [OF GetJob_still]]
  by (auto simp: load_completed_def LoadResumableState_def split: sum.splits prod.splits)

lemma fetch_master_within:
  assumes "fetch_master E h u w = (r, v)"
  shows "runs_within w v"
proof -
  obtain st w1 where st: "os_Stat E (master_path h) w = (st, w1)" by fastforce
  obtain a w2 where a: "downloadFile E u (master_path h) w1 = (a, w2)" by fastforce
  have q1: "runs_within w w1" by (rule fs_within(3) [OF st])
  have q2: "runs_within w w2" using q1 a stream_within runs_within_trans unfolding downloadFile_def by blast
  from assms st a have "v \<in> {w1, w2, snd (handle_AppendEvent E h ''log'' ''master downloaded'' None w2)}"
    by (auto simp: fetch_master_def split: if_splits option.splits)
  with q1 q2 runs_within_trans [OF q2 event_within] show ?thesis by auto
qed

lemma make_clip_within:
  assumes run: "make_clip E cl h ff aspect enc spec w = (r, v)"
  shows "runs_within w v"
proof -
  let ?dst = "path_join [jh_workDir h, clip_name (Index spec)]"
  obtain out err w1 where c: "run_command E ff (buildFFmpegArgs (master_path h) ?dst spec aspect enc) w = ((out, err), w1)"
    by (metis prod.collapse)
  obtain st w2 where st: "os_Stat E ?dst w1 = (st, w2)" by fastforce
  obtain q w3 where q: "os_Open E ?dst w2 = (q, w3)" by fastforce
  have k1: "runs_within w w1" by (rule command_within [OF c])
  have k3: "runs_within w w3" using k1 fs_within(3) [OF st] fs_within(4) [OF q] by (meson runs_within_trans)
  have "v = w3 \<or> (\<exists>m. v = snd (handle_AppendEvent E h ''error'' ''ffmpeg failed'' m w1)) \<or>
      (\<exists>content n m a. AddOutput E cl h ''video_clip'' (clip_name (Index spec)) content n m w3 = (a, v))"
    using run c st q by (auto simp: make_clip_def Let_def split: option.splits sum.splits prod.splits)
  with k3 runs_within_trans [OF k1 event_within] runs_within_trans [OF k3 AddOutput_within] show ?thesis by blast
qed

lemma clip_loop_within: "clip_loop E cl h ff aspect enc n i rs specs w = (r, v) \<Longrightarrow> runs_within w v"
proof (induction specs arbitrary: i rs w)
  case (Cons spec specs)
  obtain a w1 where a: "make_clip E cl h ff aspect enc spec w = (a, w1)" by fastforce
  note one = make_clip_within [OF a]
  let ?u = "push_progress E (clip_progress E i n) (snd (SaveResumableState E h (resumable_json (rs @ [Index spec])) w1))"
  have u: "runs_within w ?u" using one save_within push_within by (meson runs_within_trans)
  consider "v = w" | "clip_loop E cl h ff aspect enc n (Suc i) rs specs w = (r, v)" | "v = w1"
    | "clip_loop E cl h ff aspect enc n (Suc i) (rs @ [Index spec]) specs ?u = (r, v)"
    using Cons.prems a by (auto simp: Let_def split: option.splits if_splits)
  then show ?case
  proof cases
    case 2
    then show ?thesis by (rule Cons.IH)
  next
    case 3
    with one show ?thesis by simp
  next
    case 4
    from runs_within_trans [OF u Cons.IH [OF this]] show ?thesis .
  qed simp
qed simp

lemma clip_Execute_within:
  assumes run: "clip_Execute E cl h w = (r, v)"
  shows "runs_within w v"
proof (cases "check_payload E (jh_wl h)")
  case (Inl e)
  with run show ?thesis by (simp add: clip_Execute_def)
next
  case pay: (Inr p)
  obtain rs w0 where start: "load_completed E h w = (rs, w0)" by fastforce
  obtain l w2 where l: "Locate E ''ffmpeg'' w0 = (l, w2)" by fastforce
  have k2: "runs_within w w2" using load_completed_within [OF start] Locate_within [OF l] by (rule runs_within_trans)
  show ?thesis
  proof (cases l)
    case (Inl e)
    with run pay start l k2 show ?thesis by (auto simp: clip_Execute_def)
  next
    case (Inr ff)
    let ?w3 = "snd (handle_AppendEvent E h ''log'' ''ffmpeg located''
                (Some (JObj [(''path'', JText (ToolPath ff)), (''version'', JText (ToolVersion ff))])) w2)"
    obtain enc w4 where enc: "choose_encoder E h (ToolPath ff) ?w3 = (enc, w4)" by fastforce
    obtain a w5 where a: "fetch_master E h (MasterVideoURL p) w4 = (a, w5)" by fastforce
    have k5: "runs_within w w5"
      using k2 event_within choose_encoder_within [OF enc] fetch_master_within [OF a] by (meson runs_within_trans)
    have "v = w5 \<or> clip_loop E cl h (ToolPath ff) (TargetAspect p) enc (length (ClipSpecs p)) 0 rs (ClipSpecs p) w5 = (r, v)"
      using run pay start l Inr enc a by (auto simp: clip_Execute_def Let_def split: option.splits)
    with k5 runs_within_trans [OF k5 clip_loop_within] show ?thesis by blast
  qed
qed

section \<open>The audio executor\<close>

lemma Download_within:
  assumes "Download E u dst w = (r, v)"
  shows "runs_within w v"
proof -
  obtain q w1 where q: "validateDownloadURL E u w = (q, w1)" by fastforce
  then have "runs_within w w1" using validate_result [OF q] by (auto intro: runs_withinI)
  moreover have "v = w1 \<or> (\<exists>what. stream_to_file E what u dst w1 = (r, v))"
    using assms q by (auto simp: Download_def split: option.splits)
  ultimately show ?thesis using stream_within runs_within_trans by blast
qed

lemma extract_and_upload_within:
  assumes run: "extract_and_upload E cl h ff inp outp w = (r, v)"
  shows "runs_within w v"
proof -
  obtain out err w1 where c: "run_command E ff (BuildExtractArgs inp outp) w = ((out, err), w1)"
    by (metis prod.collapse)
  obtain st w2 where st: "os_Stat E outp w1 = (st, w2)" by fastforce
  obtain q w3 where q: "os_Open E outp w2 = (q, w3)" by fastforce
  have k1: "runs_within w w1" by (rule command_within [OF c])
  have k2: "runs_within w w2" using k1 fs_within(3) [OF st] by (rule runs_within_trans)
  have k3: "runs_within w w3" using k2 fs_within(4) [OF q] by (rule runs_within_trans)
  show ?thesis
  proof (cases "err = None \<and> stat_error outp st = None \<and> (\<exists>content. q = Inr content)")
    case True
    then obtain content where content: "q = Inr content" by blast
    let ?n = "case stat_size st of None \<Rightarrow> 0 | Some n \<Rightarrow> n"
    obtain a u where a: "AddOutput E cl h ''audio'' ''audio.wav'' content ?n (audio_meta (parseDurationSeconds E out)) w3 = (a, u)"
      by fastforce
    have ku: "runs_within w u" using k3 AddOutput_within [OF a] by (rule runs_within_trans)
    have "v = u \<or> (\<exists>ev. v = push_progress E ev u)"
      using run c True st q content a by (auto simp: extract_and_upload_def split: option.splits)
    with ku runs_within_trans [OF ku push_within] show ?thesis by auto
  next
    case False
    then have "v \<in> {w2, w3} \<or> (\<exists>m. v = snd (handle_AppendEvent E h ''error'' ''ffmpeg failed'' m w1))"
      using run c st q by (auto simp: extract_and_upload_def split: option.splits sum.splits)
    with k2 k3 runs_within_trans [OF k1 event_within] show ?thesis by auto
  qed
qed

lemma extract_Execute_within:
  assumes run: "extract_Execute E cl h w = (r, v)"
  shows "runs_within w v"
proof (cases "decodePayload E dec_video [] (wl_Payload (jh_wl h))")
  case (Inl e)
  with run show ?thesis by (simp add: extract_Execute_def)
next
  case pay: (Inr u)
  obtain l w1 where l: "Locate E ''ffmpeg'' w = (l, w1)" by fastforce
  note k1 = Locate_within [OF l]
  show ?thesis
  proof (cases "u \<noteq> [] \<and> (\<exists>ff. l = Inr ff)")
    case True
    then obtain ff where ff: "l = Inr ff" by blast
    let ?w2 = "snd (handle_AppendEvent E h ''log'' ''ffmpeg located''
                (Some (JObj [(''path'', JText (ToolPath ff)), (''version'', JText (ToolVersion ff))])) w1)"
    obtain a w3 where a: "Download E u (input_path h) ?w2 = (a, w3)" by fastforce
    obtain b w4 where b: "download_and_extract E cl h (ToolPath ff) u (input_path h) (output_path h) ?w2 = (b, w4)" by fastforce
    have k2: "runs_within w ?w2" using k1 event_within by (rule runs_within_trans)
    have k3: "runs_within w w3" using k2 Download_within [OF a] by (rule runs_within_trans)
    let ?w5 = "snd (handle_AppendEvent E h ''log'' ''master downloaded'' None w3)"
    have k5: "runs_within w ?w5" using k3 event_within by (rule runs_within_trans)
    have "w4 = w3 \<or> extract_and_upload E cl h (ToolPath ff) (input_path h) (output_path h) ?w5 = (b, w4)"
      using b a by (auto simp: download_and_extract_def split: option.splits)
    then have k4: "runs_within w w4" using k3 runs_within_trans [OF k5 extract_and_upload_within] by blast
    have "v = os_Remove E (output_path h) (os_Remove E (input_path h) w4)"
      using run pay True l ff b by (auto simp: extract_Execute_def Let_def)
    then have "fs_only w4 v" using os_Remove_only fs_only_trans by blast
    from runs_within_trans [OF k4 fs_only_within [OF this]] show ?thesis .
  next
    case False
    then have "v \<in> {w, w1}"
      using run pay l by (cases l; cases "u = []") (auto simp: extract_Execute_def)
    with k1 show ?thesis by auto
  qed
qed

section \<open>The contract holds\<close>

interpretation clip: executor_contract "clip_executor E cl" for E cl
proof unfold_locales
  fix w h show "runs_within w (snd (ex_Execute (clip_executor E cl) h w))"
    by (cases "clip_Execute E cl h w") (simp add: clip_executor_def clip_Execute_within)
qed

interpretation audio: executor_contract "extract_executor E cl" for E cl
proof unfold_locales
  fix w h show "runs_within w (snd (ex_Execute (extract_executor E cl) h w))"
    by (cases "extract_Execute E cl h w") (simp add: extract_executor_def extract_Execute_within)
qed

end
