(* ===== verification/Wired.thy ===== *)
theory Wired
  imports Daemon ExecContract
begin

text \<open>
  The scheduler with the executors the daemon really registers: the contract of theory
  ExecContract discharges every assumption the scheduler makes about its executors.
\<close>

lemma wired_contract:
  assumes "boot_registry E cl = Some r" and "Lookup r t = Some ex"
  shows "executor_contract ex"
  using boot_lookup [OF assms] clip.executor_contract_axioms audio.executor_contract_axioms by blast

section \<open>One run\<close>

lemma take_over_safe: "safe (db w) (db (snd (take_over E D wl lease j w)))"
proof -
  obtain q s where q: "UpdateLease E j (LeaseTok lease) (LeaseExpires lease) (db w) = (q, s)" by fastforce
  with UpdateLease_safe [of "db w" E j] have one: "safe (db w) s" by (metis snd_conv)
  obtain p s' where p: "AttemptCount E j s = (p, s')" by fastforce
  with AttemptCount_safe [of s E j] have "safe s s'" by simp
  with one q p show ?thesis
    by (cases q) (auto simp: take_over_def on_db_eq split_beta intro: safe_trans)
qed

lemma upsert_safe:
  assumes "upsertJobForWorkload E D wl lease w = (r, w1)"
  shows "safe (db w) (db w1)"
proof -
  obtain q s where q: "GetByWorkloadID E (wl_ID wl) (db w) = (q, s)" by fastforce
  with GetByWorkloadID_safe [of "db w" E "wl_ID wl"] have one: "safe (db w) s" by simp
  have w1: "w1 = snd (upsertJobForWorkload E D wl lease w)" using assms by simp
  show ?thesis
  proof (cases q)
    case (Inl e)
    obtain p t where p: "CreateJob E (new_job_input E (uuid E (uuids w)) wl lease) s = (p, t)" by fastforce
    with CreateJob_safe [of s E] have "safe s t" by (metis snd_conv)
    with one q Inl p show ?thesis
      unfolding w1 upsert_lookup by (cases p) (auto intro: safe_trans)
  next
    case (Inr x)
    have "safe (db w) (db (snd (take_over E D wl lease (jid x) (w\<lparr>db := s\<rparr>))))"
      using safe_trans [OF one take_over_safe [where w = "w\<lparr>db := s\<rparr>", simplified]] .
    with one q Inr show ?thesis unfolding w1 upsert_lookup by simp
  qed
qed

lemma conclude_safe:
  assumes "st \<in> set all_statuses"
  shows "safe (db w) (db (conclude E j i st out m w))"
  unfolding conclude_db by (rule safe_trans [OF UpdateStatus_safe [OF assms] FinishAttempt_safe])

lemma finish_run_safe: "safe (db w) (db (finish_run E D ex wl lease j i res w))"
proof (cases res)
  case None
  then show ?thesis
    using conclude_safe [of StatusSucceeded "snd (Complete E (DepCloud D) (wl_ID wl) (LeaseTok lease)
       [(''executor_id'', JText (ex_ID ex)),
        (''executor_version'', JText (duration_text (Duration (ex_Estimate ex wl))))] w)" E j i "''succeeded''" "[]"]
    by (simp add: finish_run_def all_statuses_def)
next
  case (Some e)
  then show ?thesis
    using conclude_safe [of StatusFailed "snd (Fail E (DepCloud D) (wl_ID wl) (LeaseTok lease) (err_text e)
       (\<not> ctx_done w) w)" E j i "''failed''" "err_text e"]
    by (simp add: finish_run_def all_statuses_def)
qed

lemma run_job_safe:
  assumes honest: "\<And>h v. safe (db v) (db (snd (ex_Execute ex h v)))"
  shows "safe (db w) (db (run_job E D ex wl lease j i w))"
proof (cases "NewJobHandle E D j wl lease w")
  case (Pair r v)
  have v: "db v = db w" using Pair by (auto simp: NewJobHandle_def Let_def split: option.splits)
  show ?thesis
  proof (cases r)
    case (Inl e)
    with Pair v show ?thesis
      using conclude_safe [of StatusFailed "snd (Fail E (DepCloud D) (wl_ID wl) (LeaseTok lease)
          (''job handle: '' @ err_text e) False v)" E j i "''failed''" "err_text e"]
      by (simp add: run_job_def all_statuses_def)
  next
    case (Inr h)
    obtain res u where u: "ex_Execute ex h v = (res, u)" by fastforce
    with honest [of v h] v finish_run_safe [of u E D ex wl lease j i res] have
      "safe (db w) (db (finish_run E D ex wl lease j i res u))" by (simp add: safe_trans)
    with Pair Inr u show ?thesis by (simp add: run_job_def)
  qed
qed

lemma runOne_safe:
  assumes honest: "\<And>h v. safe (db v) (db (snd (ex_Execute ex h v)))"
  shows "safe (db w) (db (runOne E D ex wl lease w))"
proof -
  obtain r w1 where r: "upsertJobForWorkload E D wl lease w = (r, w1)" by fastforce
  note up = upsert_safe [OF r]
  show ?thesis
  proof (cases r)
    case None
    with up runOne_eq [OF r] show ?thesis by simp
  next
    case (Some p)
    obtain j n where p: "p = (j, n)" by fastforce
    have "safe (db w) (db (snd (begin_attempt E j n w1)))" using up begin_attempt_safe by (rule safe_trans)
    from safe_trans [OF this run_job_safe [OF honest]] show ?thesis
      unfolding runOne_eq [OF r] Some p option.case prod.case .
  qed
qed

text \<open>
  Running a claimed workload on the executor the daemon has for it sends the cloud at most one
  terminal report (complete, fail or surrender) for the workload, on every path: the
  reconciliation, the failures of the database, of the token, of the work directory and of
  every step of the executor.  It gives no slot back and takes none; the tables stay
  well-formed and lose no row, event or attempt.
\<close>

theorem daemon_run_safe:
  assumes wired: "boot_registry E cl = Some (DepRegistry D)" and found: "Lookup (DepRegistry D) t = Some ex"
  shows "(\<exists>pre. sent (runOne E D ex wl lease w) = sent w @ pre \<and>
      length (filter (is_report (DepCloud D) (wl_ID wl)) pre) \<le> 1) \<and>
    pool (runOne E D ex wl lease w) = pool w \<and> safe (db w) (db (runOne E D ex wl lease w))"
proof -
  note contract = wired_contract [OF wired found]
  have "reports_within (DepCloud D) (wl_ID wl) 1 w (runOne E D ex wl lease w)"
    by (rule executor_contract.one_report [OF contract])
  moreover have "pool (runOne E D ex wl lease w) = pool w"
    by (rule executor_contract.run_keeps_pool [OF contract])
  moreover have "safe (db w) (db (runOne E D ex wl lease w))"
    by (rule runOne_safe) (rule executor_contract.honest [OF contract])
  ultimately show ?thesis by (simp add: reports_within_def)
qed

theorem daemon_run_safe_witness:
  "\<exists>(D :: media sched_deps) ex. Lookup (DepRegistry D) ''video:clip'' = Some ex \<and>
     length (filter (is_report (DepCloud D) ''wl'') (sent (runOne calm_genv D ex sample_workload sample_lease
       (sample_media empty_store)))) \<le> 1"
proof -
  let ?c = "New ''http://c'' ''fp''"
  obtain r :: "media registry" where r: "boot_registry calm_genv (Some ?c) = Some r" using boot_registry_made by blast
  let ?D = "\<lparr>DepRegistry = r, DepCloud = ?c, DepBaseTmp = ''/tmp/engine'', HasAuth = True\<rparr>"
  have wired: "boot_registry calm_genv (Some ?c) = Some (DepRegistry ?D)" using r by simp
  have found: "Lookup (DepRegistry ?D) ''video:clip'' = Some (clip_executor calm_genv (Some ?c))"
    using r by (auto simp: boot_registry_def register_all_result NewRegistry_def Lookup_def boot_executors_def
        clip_executor_def split: if_splits)
  from daemon_run_safe [OF wired found, of sample_workload sample_lease "sample_media empty_store"] found
  show ?thesis by (intro exI [of _ ?D] exI [of _ "clip_executor calm_genv (Some ?c)"]) (simp add: sample_workload_def)
qed

section \<open>The jobs in flight come to an end\<close>

text \<open>The end of one of the jobs in flight.\<close>

definition landing ::
  "'e denv_scheme \<Rightarrow> ('d daemon_scheme) sched_deps \<Rightarrow> 'd sched \<Rightarrow> 'd sched \<Rightarrow> bool" where
  "landing E D s t \<longleftrightarrow> (\<exists>i < length (flying s). t = s\<lparr>sw := land E D (flying s ! i) (sw s),
     flying := take i (flying s) @ drop (Suc i) (flying s)\<rparr>)"

lemma landing_step: "landing E D s t \<Longrightarrow> sched_step E D s t"
  by (auto simp: landing_def intro: sched_step.land)

lemma landing_length: "landing E D s t \<Longrightarrow> length (flying s) = Suc (length (flying t))"
  by (auto simp: landing_def)

lemma landing_ok: "landing E D s t \<Longrightarrow> sched_ok D l s \<Longrightarrow> sched_ok D l t"
  by (auto simp: landing_def land_ok)

lemma landings_ok:
  "(landing E D ^^ n) s t \<Longrightarrow> sched_ok D l s \<Longrightarrow> sched_ok D l t \<and> length (flying s) = length (flying t) + n"
proof (induction n arbitrary: t)
  case (Suc n)
  then obtain u where "(landing E D ^^ n) s u" "landing E D u t" by auto
  with Suc landing_ok landing_length show ?case by fastforce
qed simp

lemma landings_exist: "\<exists>t. (landing E D ^^ length (flying s)) s t"
proof (induction "length (flying s)" arbitrary: s)
  case (Suc n)
  then have "0 < length (flying s)" by linarith
  then obtain u where u: "landing E D s u" unfolding landing_def by blast
  with Suc.hyps(2) landing_length have "n = length (flying u)" by fastforce
  with Suc.hyps(1) obtain t where "(landing E D ^^ n) u t" by blast
  with u have "(landing E D ^^ Suc n) s t" by (rule relpowp_Suc_I2)
  with Suc.hyps(2) show ?case by metis
qed auto

text \<open>
  The daemon drains.  From boot, with the limits the daemon sets and its own executors, in any
  order of ticks, job ends, pauses and everything else, at most two jobs are in flight; and
  when they end, in whatever order, then after exactly as many ends as there were jobs none is
  left, every slot is back, and no further end can happen.
\<close>

theorem daemon_drains:
  assumes wired: "boot_registry E cl = Some (DepRegistry D)" and boot: "pool w = NewManager zero_limits"
    and run: "(sched_step E D)\<^sup>*\<^sup>* (start_sched E w) s"
  shows "length (flying s) \<le> 2 \<and> (\<exists>t. (landing E D ^^ length (flying s)) s t) \<and>
    (\<forall>t. (landing E D ^^ length (flying s)) s t \<longrightarrow>
       flying t = [] \<and> Active (pool (sw t)) = 0 \<and> held (pool (sw t)) = {} \<and> \<not> (\<exists>u. landing E D t u))"
proof -
  have reg: "keeps_pool ex" if "Lookup (DepRegistry D) t = Some ex" for t ex
    by (rule executor_contract.keeps [OF wired_contract [OF wired that]])
  let ?l = "mlimits (NewManager zero_limits)"
  have small: "MaxConcurrentJobs zero_limits < 2 ^ 31" by (simp add: zero_limits_def)
  have ok: "sched_ok D ?l s" by (rule sched_run_ok [OF boot small reg run])
  have two: "MaxConcurrentJobs ?l = 2" by (simp add: NewManager_def zero_limits_def default_defs)
  have idle: "flying t = [] \<and> Active (pool (sw t)) = 0 \<and> held (pool (sw t)) = {} \<and> \<not> (\<exists>u. landing E D t u)"
    if "(landing E D ^^ length (flying s)) s t" for t
  proof -
    from landings_ok [OF that ok] have t: "sched_ok D ?l t" "flying t = []" by auto
    with flights_counted [OF t(1)] show ?thesis by (simp add: sched_ok_def landing_def)
  qed
  show ?thesis using flights_counted [OF ok] two landings_exist idle by auto
qed

text \<open>A cloud that hands out a clip workload: the tick that takes it, with the daemon's own registry.\<close>

definition working_genv :: genv where
  "working_genv = calm_genv\<lparr>json_of_text := (\<lambda>_. Some claim_json), server := (\<lambda>_. Reply 200 ''c'' None)\<rparr>"

lemma working_genv_simps [simp]:
  "server working_genv h = Reply 200 ''c'' None" "json_of_text working_genv t = Some claim_json"
  "clock working_genv k = zero_time" "url_ok working_genv u" "probe_at working_genv k = no_probes"
  "time_of_text working_genv ''F'' = Some far_time"
  by (simp_all add: working_genv_def calm_genv_def menv.defs calm_menv_def denv.defs calm_denv_def env.defs calm_env_def)

definition sample_claim :: claim_response where
  "sample_claim = \<lparr>ClaimWorkload = \<lparr>DtoID = ''wl'', DtoOrganizationID = ''org'', DtoType = ''video:clip'', DtoVersion = 1,
     DtoPayload = Some [], DtoRequiredCapabilities = None, DtoRequiredExecutor = []\<rparr>, ClaimLease = sample_lease\<rparr>"

text \<open>A cloud that answers everything with the sample clip workload.\<close>

definition grants_clips :: "'e denv_scheme \<Rightarrow> bool" where
  "grants_clips E \<longleftrightarrow> (\<forall>h. server E h = Reply 200 ''c'' None) \<and> (\<forall>t. json_of_text E t = Some claim_json) \<and>
     (\<forall>k. clock E k = zero_time) \<and> (\<forall>u. url_ok E u) \<and> (\<forall>k. probe_at E k = no_probes) \<and>
     time_of_text E ''F'' = Some far_time"

lemma granted_claim:
  assumes E: "grants_clips E" and on: "cachedKnown (tok w)" "cached (tok w) = fresh_bundle"
  shows "\<exists>v. Claim E c w = (Inr sample_claim, v) \<and> tok v = tok w"
proof -
  have "unmarshal_data E (dec_claim E) zero_claim b = Inr sample_claim" for b
    using E by (simp add: grants_clips_def unmarshal_data_def claim_json_def dec_claim_def dec_workload_def dec_lease_def
        dec_defs zero_claim_defs sample_lease_def sample_claim_def)
  with assms show ?thesis
    by (simp add: grants_clips_def Claim_def do_json_def fresh_doRaw Let_def cloud_reply_def http_status_defs
        after_send_def)
qed

text \<open>With a slot free, a tick that is granted a workload starts its job; and then its token source is as it was.\<close>

lemma claimed_tick:
  assumes probes: "probe_at E (probe_reads w) = no_probes" and free: "\<not> reserve_refused (pool w) no_probes"
    and claim: "Claim E (DepCloud D) (w\<lparr>pool := take_slot (pool w), probe_reads := Suc (probe_reads w)\<rparr>) = (Inr resp, v)"
    and found: "Lookup (DepRegistry D) (wl_Type (workload_of (ClaimWorkload resp))) = Some ex"
    and accepts: "ex_CanRun ex (workload_of (ClaimWorkload resp))"
  shows "\<exists>x. sched_tick E D w = (Some x, v) \<and> paused_flag v = paused_flag w \<and>
     fl_wl x = workload_of (ClaimWorkload resp) \<and> fl_exec x = ex"
proof -
  have res: "Reserve no_probes (pool w) = (Inr (length (slots (pool w))), take_slot (pool w))"
    using free by (simp add: Reserve_def)
  have flag: "paused_flag v = paused_flag w" using same_rest_daemon(3) [OF Claim_rest [OF claim]] by simp
  have "claimWithReauth E D (w\<lparr>pool := take_slot (pool w), probe_reads := Suc (probe_reads w)\<rparr>) = (Inr resp, v)"
    using claim by (simp add: claimWithReauth_def result_is_def)
  with found accepts flag show ?thesis by (simp add: sched_tick_def probes res dispatch_cases)
qed

lemma granted_tick:
  assumes E: "grants_clips E" and found: "Lookup (DepRegistry D) ''video:clip'' = Some ex"
    and accepts: "ex_CanRun ex sample_workload" and free: "\<not> reserve_refused (pool w) no_probes"
    and on: "cachedKnown (tok w)" "cached (tok w) = fresh_bundle"
  shows "\<exists>x v. sched_tick E D w = (Some x, v) \<and> tok v = tok w \<and> paused_flag v = paused_flag w \<and>
     fl_wl x = sample_workload"
proof -
  let ?w = "w\<lparr>pool := take_slot (pool w), probe_reads := Suc (probe_reads w)\<rparr>"
  obtain v where claim: "Claim E (DepCloud D) ?w = (Inr sample_claim, v)" and same: "tok v = tok ?w"
    using granted_claim [OF E, of ?w "DepCloud D"] on by auto
  have probes: "probe_at E (probe_reads w) = no_probes" using E by (simp add: grants_clips_def)
  have "workload_of (ClaimWorkload sample_claim) = sample_workload"
    by (simp add: sample_claim_def workload_of_def sample_workload_def)
  moreover have "wl_Type sample_workload = ''video:clip''" by (simp add: sample_workload_def)
  ultimately show ?thesis
    using claimed_tick [OF probes free claim] found accepts same by auto
qed

theorem daemon_drains_witness:
  "\<exists>(D :: media sched_deps) s. (sched_step working_genv D)\<^sup>*\<^sup>* (start_sched working_genv (sample_media empty_store)) s \<and>
     length (flying s) = 1 \<and> (\<exists>t. landing working_genv D s t \<and> flying t = [] \<and> Active (pool (sw t)) = 0)"
proof -
  let ?c = "New ''http://c'' ''fp''" and ?w = "sample_media empty_store"
  obtain r :: "media registry" where r: "boot_registry working_genv (Some ?c) = Some r" using boot_registry_made by blast
  let ?D = "\<lparr>DepRegistry = r, DepCloud = ?c, DepBaseTmp = ''/tmp/engine'', HasAuth = True\<rparr>"
  have wired: "boot_registry working_genv (Some ?c) = Some (DepRegistry ?D)" using r by simp
  have found: "Lookup (DepRegistry ?D) ''video:clip'' = Some (clip_executor working_genv (Some ?c))"
    using r by (auto simp: boot_registry_def register_all_result NewRegistry_def Lookup_def boot_executors_def
        clip_executor_def split: if_splits)
  have accepts: "ex_CanRun (clip_executor working_genv (Some ?c)) sample_workload"
    by (simp add: clip_executor_def sample_workload_def)
  have boot: "pool ?w = NewManager zero_limits" by (simp add: sample_media_def sample_daemon_def daemon.defs)
  let ?s0 = "start_sched working_genv ?w"
  let ?s1 = "?s0\<lparr>sw := ?w\<rparr>"
  have grants: "grants_clips working_genv" by (simp add: grants_clips_def)
  have free: "\<not> reserve_refused (pool (sw ?s1)) no_probes" by (simp add: boot)
  obtain x v where tick: "sched_tick working_genv ?D (sw ?s1) = (Some x, v)"
    using granted_tick [OF grants found accepts free] by auto
  define s2 where "s2 = ?s1\<lparr>sw := v, flying := flying ?s1 @ [x]\<rparr>"
  have one: "sched_step working_genv ?D ?s0 ?s1" by (rule sched_step.rest) (simp add: start_sched_def)
  have "\<not> paused_flag ?w" by (simp add: sample_media_def sample_daemon_def daemon.defs)
  then have "sched_step working_genv ?D ?s1 s2" unfolding s2_def using sched_step.poll [OF _ _ tick] by simp
  with one have run: "(sched_step working_genv ?D)\<^sup>*\<^sup>* ?s0 s2" by (meson converse_rtranclp_into_rtranclp r_into_rtranclp)
  have len: "length (flying s2) = 1" by (simp add: s2_def start_sched_def)
  note drains = daemon_drains [OF wired boot run, unfolded len]
  from drains obtain t where t: "(landing working_genv ?D ^^ 1) s2 t" by blast
  with drains have "flying t = []" "Active (pool (sw t)) = 0" by blast+
  moreover have "landing working_genv ?D s2 t" using t by (simp only: relpowp_1)
  ultimately show ?thesis using run len by blast
qed

end
