(* ===== verification/GoPath.thy ===== *)
theory GoPath
  imports GoLib "HOL-Library.Char_ord"
begin

text \<open>
  More of package filepath on Unix, and \<open>strconv.Atoi\<close>: the directory of a path, the name that
  \<open>Join\<close> puts at the end of one, and the decimal text of an integer read back.
\<close>

section \<open>Paths\<close>

text \<open>\<open>filepath.Dir\<close>.\<close>

definition path_dir :: "string \<Rightarrow> string" where
  "path_dir p = path_clean (rev (dropWhile (\<lambda>c. c \<noteq> CHR ''/'') (rev p)))"

text \<open>A name that \<open>filepath.Join\<close> leaves alone.\<close>

definition plain_name :: "string \<Rightarrow> bool" where
  "plain_name a \<longleftrightarrow> a \<noteq> [] \<and> a \<noteq> ''.'' \<and> a \<noteq> ''..'' \<and> CHR ''/'' \<notin> set a"

definition base_name :: "string \<Rightarrow> string" where
  "base_name p = rev (takeWhile (\<lambda>c. c \<noteq> CHR ''/'') (rev p))"

lemma cut_at_more: "cut_at c s = Some (x, y) \<Longrightarrow> cut_at c (s @ z) = Some (x, y @ z)"
  by (induction s arbitrary: x) (auto split: option.splits if_splits)

lemma split_slash_append:
  assumes "CHR ''/'' \<notin> set a"
  shows "split_slash (d @ CHR ''/'' # a) = split_slash d @ [a]"
proof (induction d rule: split_slash.induct)
  case (1 d)
  have one: "split_slash a = [a]" using assms by (simp add: split_slash.simps cut_at_None [THEN iffD2])
  show ?case
  proof (cases "cut_at (CHR ''/'') d")
    case None
    then show ?thesis
      using one cut_at_append [of "CHR ''/''" d a] cut_at_None [of "CHR ''/''" d]
      by (simp add: split_slash.simps [of "d @ CHR ''/'' # a"] split_slash.simps [of d])
  next
    case (Some p)
    with 1 show ?thesis
      by (cases p) (simp add: split_slash.simps [of d] split_slash.simps [of "d @ CHR ''/'' # a"] cut_at_more)
  qed
qed

lemma join_slash_snoc: "join_slash (ps @ [a]) = (if ps = [] then a else join_slash ps @ ''/'' @ a)"
  by (induction ps rule: join_slash.induct) auto

lemma takeWhile_stops: "c \<notin> set xs \<Longrightarrow> takeWhile (\<lambda>x. x \<noteq> c) (xs @ c # ys) = xs"
  by (induction xs) auto

lemma base_name_plain: "CHR ''/'' \<notin> set a \<Longrightarrow> base_name (d @ ''/'' @ a) = a"
  by (simp add: base_name_def takeWhile_stops)

lemma base_name_alone: "CHR ''/'' \<notin> set a \<Longrightarrow> base_name a = a"
  by (subst base_name_def, subst takeWhile_eq_all_conv [THEN iffD2]) auto

lemma base_name_tail:
  assumes "CHR ''/'' \<notin> set a"
  shows "base_name (join_slash (ps @ [a])) = a" "base_name (''/'' @ join_slash (ps @ [a])) = a"
proof -
  show "base_name (join_slash (ps @ [a])) = a"
    using base_name_plain [OF assms, of "join_slash ps"] base_name_alone [OF assms] by (simp add: join_slash_snoc)
  show "base_name (''/'' @ join_slash (ps @ [a])) = a"
    using base_name_plain [OF assms, of "''/'' @ join_slash ps"] base_name_plain [OF assms, of "[]"]
    by (simp add: join_slash_snoc)
qed

lemma base_name_join:
  assumes "d \<noteq> []" and a: "plain_name a"
  shows "base_name (path_join [d, a]) = a"
proof -
  have no: "CHR ''/'' \<notin> set a" using a by (simp add: plain_name_def)
  have "path_join [d, a] = (let r = (hd d = CHR ''/''); ps = foldl (clean_step r) [] (split_slash d) in
      if r then ''/'' @ join_slash (ps @ [a]) else join_slash (ps @ [a]))"
    using assms by (simp add: path_join_def path_clean_def split_slash_append [OF no] clean_step_def plain_name_def Let_def)
  then show ?thesis by (simp only: Let_def base_name_tail [OF no] split: if_split) simp
qed

lemma join_slash_not_nil: "ps \<noteq> [] \<Longrightarrow> [] \<notin> set ps \<Longrightarrow> join_slash ps \<noteq> []"
  by (induction ps rule: join_slash.induct) auto

lemma clean_step_not_nil: "[] \<notin> set out \<Longrightarrow> [] \<notin> set (clean_step r out p)"
  using in_set_butlastD [of "[]" out] by (simp add: clean_step_def eq_commute [of "[]" p]) blast

lemma clean_steps_not_nil: "[] \<notin> set out \<Longrightarrow> [] \<notin> set (foldl (clean_step r) out ps)"
  by (induction ps arbitrary: out) (simp_all add: clean_step_not_nil)

lemma path_clean_not_nil: "path_clean s \<noteq> []"
proof -
  let ?ps = "foldl (clean_step (hd s = CHR ''/'')) [] (split_slash s)"
  have "[] \<notin> set ?ps" by (rule clean_steps_not_nil) simp
  then have "?ps \<noteq> [] \<Longrightarrow> join_slash ?ps \<noteq> []" by (rule join_slash_not_nil [rotated])
  then show ?thesis unfolding path_clean_def Let_def by auto
qed

section \<open>Decimal text\<close>

text \<open>\<open>strconv.Atoi\<close>: an optional sign, digits, and a value of 64 bits.\<close>

definition is_decimal :: "char \<Rightarrow> bool" where
  "is_decimal c \<longleftrightarrow> CHR ''0'' \<le> c \<and> c \<le> CHR ''9''"

definition all_digits :: "string \<Rightarrow> bool" where
  "all_digits s \<longleftrightarrow> s \<noteq> [] \<and> list_all is_decimal s"

definition digits_value :: "string \<Rightarrow> int" where
  "digits_value s = foldl (\<lambda>n c. n * 10 + (of_char c - 48)) 0 s"

definition Atoi :: "string \<Rightarrow> int option" where
  "Atoi s =
     (let neg = HasPrefix s ''-''; ds = (if neg \<or> HasPrefix s ''+'' then drop 1 s else s);
          n = (if neg then - digits_value ds else digits_value ds)
      in if all_digits ds \<and> - (2 ^ 63) \<le> n \<and> n < 2 ^ 63 then Some n else None)"

lemma digit_char: "n < 10 \<Longrightarrow> is_decimal (char_of (48 + n :: nat))"
  by (simp add: is_decimal_def less_eq_char_def)

lemma digit_value: "n < 10 \<Longrightarrow> of_char (char_of (48 + n :: nat)) - 48 = int n"
  using of_nat_of_char [of "char_of (48 + n)", where 'a = int] by simp

lemma digits_of_digits: "c \<in> set (digits_of n) \<Longrightarrow> is_decimal c"
proof (induction n rule: digits_of.induct)
  case (1 n)
  then show ?case
    by (subst (asm) (2) digits_of.simps) (auto simp: digit_char split: if_splits)
qed

lemma digits_of_not_nil [simp]: "digits_of n \<noteq> []"
  by (subst digits_of.simps) simp

lemma digits_of_value: "digits_value (digits_of n) = int n"
proof (induction n rule: digits_of.induct)
  case (1 n)
  show ?case
  proof (cases "n < 10")
    case True
    then show ?thesis using digit_value [of n] by (simp add: digits_of.simps [of n] digits_value_def)
  next
    case False
    with 1 digit_value [of "n mod 10"] have "digits_value (digits_of n) = int (n div 10) * 10 + int (n mod 10)"
      by (simp add: digits_of.simps [of n] digits_value_def)
    also have "\<dots> = int (n div 10 * 10 + n mod 10)" by (simp only: of_nat_add of_nat_mult of_nat_numeral)
    finally show ?thesis by simp
  qed
qed

lemma digits_of_unsigned: "\<not> HasPrefix (digits_of n) ''-''" "\<not> HasPrefix (digits_of n) ''+''"
proof -
  have "is_decimal (hd (digits_of n))" by (rule digits_of_digits [of _ n]) simp
  moreover have "hd (digits_of n) = c" if "HasPrefix (digits_of n) [c]" for c using that by (auto simp: HasPrefix_iff)
  moreover have "\<not> is_decimal (CHR ''-'')" "\<not> is_decimal (CHR ''+'')" by (simp_all add: is_decimal_def less_eq_char_def)
  ultimately show "\<not> HasPrefix (digits_of n) ''-''" "\<not> HasPrefix (digits_of n) ''+''" by metis+
qed

lemma Atoi_itoa: "0 \<le> n \<Longrightarrow> n < 2 ^ 63 \<Longrightarrow> Atoi (itoa n) = Some n"
  using digits_of_digits
  by (simp add: Atoi_def itoa_def digits_of_unsigned digits_of_value all_digits_def list_all_iff)

end
