(* ===== verification/Boot.thy ===== *)
theory Boot
  imports Wired Ipc GoPath
begin

text \<open>
  From the start of the process to the running daemon: the data directory
  (\<open>internal/storage/paths.go\<close>), the identity files and the machine's description
  (\<open>internal/runtime/daemon.go\<close>), and \<open>cmd/engine-toold/main.go\<close>.

  Parameters: what xdg, the working directory, \<open>uuid.Parse\<close>, the random source, the listener and
  the opening of the database give; the machine and the build are the record \<open>host\<close>.  Flag parsing is
  package flag; its result is the record \<open>flags\<close>.
\<close>

section \<open>Environment and state\<close>

record host =
  HostName :: string
  UnameText :: string
  OSName :: string
  ArchName :: string
  CPUCount :: int
  BuildVersion :: string
  HashHex :: "string \<Rightarrow> string"
  getenv :: "string \<Rightarrow> string"
  Executable :: "string + string"

record benv = genv +
  xdg_file :: "string \<Rightarrow> string + string"
  working_dir :: "string + string"
  uuid_parse :: "string \<Rightarrow> string option"
  rand_fault :: "nat \<Rightarrow> string option"
  rand_byte :: "nat \<Rightarrow> nat \<Rightarrow> byte"
  open_fault :: "string \<Rightarrow> string option"
  net_listen :: "string \<Rightarrow> string + int"
  pid_alive :: "int \<Rightarrow> bool"
  start_process :: "nat \<Rightarrow> string \<Rightarrow> string + int"

record bootw = media +
  rand_reads :: nat
  ui_done :: "int option option"
  ui_starts :: "string list"

section \<open>Files of the data directory\<close>

text \<open>\<open>filepath.Abs\<close> on Unix.\<close>

definition path_abs :: "'e benv_scheme \<Rightarrow> string \<Rightarrow> gerror + string" where
  "path_abs E p =
     (if HasPrefix p ''/'' then Inr (path_clean p)
      else (case working_dir E of Inl m \<Rightarrow> Inl (Plain m) | Inr d \<Rightarrow> Inr (path_join [d, p])))"

definition os_ReadFile :: "'e menv_scheme \<Rightarrow> string \<Rightarrow> 'm media_scheme \<Rightarrow> (gerror + string) \<times> 'm media_scheme" where
  "os_ReadFile E p w = os_Open E p w"

text \<open>\<open>os.WriteFile\<close>: create or truncate, then write.\<close>

definition os_WriteFile ::
  "'e menv_scheme \<Rightarrow> string \<Rightarrow> string \<Rightarrow> 'm media_scheme \<Rightarrow> gerror option \<times> 'm media_scheme" where
  "os_WriteFile E p content w =
     (case os_Create E p w of
        (Some e, w1) \<Rightarrow> (Some e, w1)
      | (None, w1) \<Rightarrow> io_Copy E p content None w1)"

definition os_MkdirAll :: "'e denv_scheme \<Rightarrow> string \<Rightarrow> 'd daemon_scheme \<Rightarrow> gerror option \<times> 'd daemon_scheme" where
  "os_MkdirAll E d w =
     (case mkdir_fault E d of
        Some m \<Rightarrow> (Some (Plain m), w)
      | None \<Rightarrow> (None, w\<lparr>workdirs := insert d (workdirs w)\<rparr>))"

section \<open>The layout\<close>

definition AppName :: string where
  "AppName = ''astery-engine-tools''"

record layout =
  Root :: string
  Cache :: string
  Tmp :: string
  Runtimes :: string
  OutputsDir :: string
  Logs :: string
  Crashes :: string
  Secrets :: string
  JobsDB :: string
  IpcTokenFile :: string
  IpcPortFile :: string
  InstallFile :: string

definition layout_of :: "string \<Rightarrow> layout" where
  "layout_of dir =
     \<lparr>Root = dir,
      Cache = path_join [dir, ''cache''],
      Tmp = path_join [dir, ''tmp''],
      Runtimes = path_join [dir, ''runtimes''],
      OutputsDir = path_join [dir, ''outputs''],
      Logs = path_join [dir, ''logs''],
      Crashes = path_join [dir, ''crashes''],
      Secrets = path_join [dir, ''secrets''],
      JobsDB = path_join [dir, ''jobs.db''],
      IpcTokenFile = path_join [dir, ''ipc.token''],
      IpcPortFile = path_join [dir, ''ipc.port''],
      InstallFile = path_join [dir, ''installation.id'']\<rparr>"

definition data_root :: "'e benv_scheme \<Rightarrow> string \<Rightarrow> gerror + string" where
  "data_root E override =
     (if override \<noteq> [] then Inr override
      else (case xdg_file E (AppName @ ''/.keep'') of
          Inl m \<Rightarrow> Inl (errorf ''resolve data dir'' (Plain m))
        | Inr base \<Rightarrow> Inr (path_dir base)))"

definition Resolve :: "'e benv_scheme \<Rightarrow> string \<Rightarrow> gerror + layout" where
  "Resolve E override =
     (case data_root E override of
        Inl e \<Rightarrow> Inl e
      | Inr r0 \<Rightarrow>
          (case path_abs E r0 of
             Inl e \<Rightarrow> Inl (errorf ''abs data dir'' e)
           | Inr r \<Rightarrow> Inr (layout_of r)))"

fun make_dirs :: "'e denv_scheme \<Rightarrow> string list \<Rightarrow> 'd daemon_scheme \<Rightarrow> gerror option \<times> 'd daemon_scheme" where
  "make_dirs E [] w = (None, w)"
| "make_dirs E (d # ds) w =
     (case os_MkdirAll E d w of
        (Some e, w1) \<Rightarrow> (Some (errorf (''mkdir '' @ d) e), w1)
      | (None, w1) \<Rightarrow> make_dirs E ds w1)"

definition EnsureLayout :: "'e denv_scheme \<Rightarrow> layout \<Rightarrow> 'd daemon_scheme \<Rightarrow> gerror option \<times> 'd daemon_scheme" where
  "EnsureLayout E L w =
     make_dirs E [Root L, Cache L, Tmp L, Runtimes L, OutputsDir L, Logs L, Crashes L, Secrets L] w"

definition EnsureWorkDir ::
  "'e denv_scheme \<Rightarrow> layout \<Rightarrow> string \<Rightarrow> 'd daemon_scheme \<Rightarrow> (gerror + string) \<times> 'd daemon_scheme" where
  "EnsureWorkDir E L sfx w =
     (let dir = path_join [Tmp L, sfx] in
      case os_MkdirAll E dir w of
        (Some e, w1) \<Rightarrow> (Inl (errorf ''mkdir workdir'' e), w1)
      | (None, w1) \<Rightarrow> (Inr dir, w1))"

text \<open>The attributes of the event that \<open>LogStartup\<close> emits.\<close>

definition LogStartup :: "layout \<Rightarrow> string \<Rightarrow> (string \<times> string) list" where
  "LogStartup L ver = [(''data_dir'', Root L), (''jobs_db'', JobsDB L), (''version'', ver)]"

section \<open>Identity\<close>

text \<open>The text of the UUID stands for the UUID.\<close>

definition create_installation_id ::
  "'e benv_scheme \<Rightarrow> layout \<Rightarrow> 'm media_scheme \<Rightarrow> (gerror + string) \<times> 'm media_scheme" where
  "create_installation_id E L w =
     (case new_uuid E w of (u, w1) \<Rightarrow>
        (case os_WriteFile E (InstallFile L) u w1 of
           (Some e, w2) \<Rightarrow> (Inl (errorf ''persist installation_id'' e), w2)
         | (None, w2) \<Rightarrow> (Inr u, w2)))"

definition LoadOrCreateInstallationID ::
  "'e benv_scheme \<Rightarrow> layout \<Rightarrow> 'm media_scheme \<Rightarrow> (gerror + string) \<times> 'm media_scheme" where
  "LoadOrCreateInstallationID E L w =
     (case os_ReadFile E (InstallFile L) w of
        (Inl e, w1) \<Rightarrow> create_installation_id E L w1
      | (Inr raw, w1) \<Rightarrow>
          (case uuid_parse E (TrimSpace raw) of
             Some u \<Rightarrow> (Inr u, w1)
           | None \<Rightarrow> create_installation_id E L w1))"

definition create_ipc_token ::
  "'e benv_scheme \<Rightarrow> layout \<Rightarrow> 'b bootw_scheme \<Rightarrow> (gerror + string) \<times> 'b bootw_scheme" where
  "create_ipc_token E L w =
     (let n = rand_reads w; w1 = w\<lparr>rand_reads := Suc n\<rparr> in
      case rand_fault E n of
        Some m \<Rightarrow> (Inl (errorf ''rand'' (Plain m)), w1)
      | None \<Rightarrow>
          (let tk = hex_EncodeToString (map (rand_byte E n) [0..<32]) in
           case os_WriteFile E (IpcTokenFile L) tk w1 of
             (Some e, w2) \<Rightarrow> (Inl (errorf ''persist ipc token'' e), w2)
           | (None, w2) \<Rightarrow> (Inr tk, w2)))"

definition LoadOrCreateIPCToken ::
  "'e benv_scheme \<Rightarrow> layout \<Rightarrow> 'b bootw_scheme \<Rightarrow> (gerror + string) \<times> 'b bootw_scheme" where
  "LoadOrCreateIPCToken E L w =
     (case os_ReadFile E (IpcTokenFile L) w of
        (Inl e, w1) \<Rightarrow> create_ipc_token E L w1
      | (Inr raw, w1) \<Rightarrow>
          (if length (TrimSpace raw) \<ge> 32 then (Inr (TrimSpace raw), w1) else create_ipc_token E L w1))"

definition HardwareFingerprint :: "'h host_scheme \<Rightarrow> string" where
  "HardwareFingerprint H = HashHex H (HostName H @ ''|'' @ OSName H @ ''|'' @ ArchName H @ ''|'' @ UnameText H)"

definition CapabilityPayload ::
  "'h host_scheme \<Rightarrow> string \<Rightarrow> string \<Rightarrow> string \<Rightarrow> string \<Rightarrow> string \<Rightarrow> string \<Rightarrow> json" where
  "CapabilityPayload H deviceID installationID appVersion runtimeVersion ffmpegPath ffmpegVersion =
     (let found = (ffmpegVersion \<noteq> []);
          executors = (if found then [(''video:clip'', 1), (''video:extract-audio'', 1)] else [])
      in JObj
        [(''device'', JObj
           [(''app_version'', JText appVersion), (''arch'', JText (ArchName H)), (''id'', JText deviceID),
            (''installation_id'', JText installationID), (''os'', JText (OSName H)),
            (''runtime_version'', JText runtimeVersion)]),
         (''executors'', JList (map (\<lambda>(i, v). JObj [(''id'', JText i), (''version'', JInt v)])
           (sort_key fst executors))),
         (''resources'', JObj [(''cpu_cores'', JInt (CPUCount H))]),
         (''tools'', JObj [(''ffmpeg'', JObj
           [(''available'', JBool found), (''path'', JText ffmpegPath), (''version'', JText ffmpegVersion)])])])"

section \<open>Pairing from the command line\<close>

definition local_device :: "'h host_scheme \<Rightarrow> string \<Rightarrow> string \<Rightarrow> device" where
  "local_device H displayName installationID =
     \<lparr>InstallationID = installationID, DisplayName = displayName, Hostname = HostName H, DevOS = OSName H,
      DevArch = ArchName H, AppVersion = BuildVersion H, RuntimeVersion = BuildVersion H\<rparr>"

definition runPair ::
  "'e env_scheme \<Rightarrow> 'h host_scheme \<Rightarrow> string \<Rightarrow> string \<Rightarrow> string \<Rightarrow> string \<Rightarrow> 'd daemon_scheme \<Rightarrow>
     gerror option \<times> 'd daemon_scheme" where
  "runPair E H code displayName installationID base w =
     (case Exchange E base \<lparr>DisplayCode = code, Device = local_device H displayName installationID,
             ReqHwFingerprint = HardwareFingerprint H, DevicePubkey = []\<rparr> w of
        (Inl e, w1) \<Rightarrow> (Some (errorf ''exchange'' e), w1)
      | (Inr resp, w1) \<Rightarrow> on_ks (ks_Save E (paired_bundle (HardwareFingerprint H) resp)) w1)"

definition envOr :: "'h host_scheme \<Rightarrow> string \<Rightarrow> string \<Rightarrow> string" where
  "envOr H key fallback = (if getenv H key \<noteq> [] then getenv H key else fallback)"

definition defaultDisplayName :: "'h host_scheme \<Rightarrow> string" where
  "defaultDisplayName H = (if HostName H = [] then ''engine-tools'' else HostName H)"

section \<open>Listening\<close>

definition Listen ::
  "'e benv_scheme \<Rightarrow> string \<Rightarrow> string \<Rightarrow> 'm media_scheme \<Rightarrow> (gerror + int) \<times> 'm media_scheme" where
  "Listen E listen portFile w =
     (case listen_address listen of
        Inl e \<Rightarrow> (Inl e, w)
      | Inr addr \<Rightarrow>
          (case net_listen E addr of
             Inl m \<Rightarrow> (Inl (errorf ''ipc listen'' (Plain m)), w)
           | Inr port \<Rightarrow>
               (if portFile = [] then (Inr port, w)
                else (case os_WriteFile E portFile (itoa port) w of
                    (Some e, w1) \<Rightarrow> (Inl (errorf ''write port file'' e), w1)
                  | (None, w1) \<Rightarrow> (Inr port, w1)))))"

section \<open>The user interface process\<close>

definition pidAlive ::
  "'e benv_scheme \<Rightarrow> 'h host_scheme \<Rightarrow> string \<Rightarrow> 'm media_scheme \<Rightarrow> bool \<times> 'm media_scheme" where
  "pidAlive E H pidPath w =
     (case os_ReadFile E pidPath w of
        (Inl e, w1) \<Rightarrow> (False, w1)
      | (Inr raw, w1) \<Rightarrow>
          (case Atoi raw of
             None \<Rightarrow> (False, w1)
           | Some pid \<Rightarrow> (0 < pid \<and> pid_alive E pid, w1)))"

definition uiSiblingPath :: "'h host_scheme \<Rightarrow> gerror + string" where
  "uiSiblingPath H =
     (case Executable H of
        Inl m \<Rightarrow> Inl (errorf ''os.Executable'' (Plain m))
      | Inr exe \<Rightarrow> Inr (path_join [path_dir exe,
          ''astery-engine-tools-ui'' @ (if OSName H = ''windows'' then ''.exe'' else [])]))"

definition start_ui ::
  "'e benv_scheme \<Rightarrow> string \<Rightarrow> string \<Rightarrow> 'b bootw_scheme \<Rightarrow> int option \<times> 'b bootw_scheme" where
  "start_ui E binPath pidPath w =
     (case start_process E (length (ui_starts w)) binPath of
        Inl m \<Rightarrow> (None, w)
      | Inr pid \<Rightarrow>
          (Some pid, snd (os_WriteFile E pidPath (itoa pid) (w\<lparr>ui_starts := ui_starts w @ [binPath]\<rparr>))))"

definition doSpawnUI ::
  "'e benv_scheme \<Rightarrow> 'h host_scheme \<Rightarrow> string \<Rightarrow> 'b bootw_scheme \<Rightarrow> int option \<times> 'b bootw_scheme" where
  "doSpawnUI E H dataDir w =
     (case uiSiblingPath H of
        Inl e \<Rightarrow> (None, w)
      | Inr binPath \<Rightarrow>
          (case os_Stat E binPath w of (st, w1) \<Rightarrow>
             if stat_error binPath st \<noteq> None then (None, w1)
             else (let pidPath = path_join [dataDir, ''ui.pid''] in
               case pidAlive E H pidPath w1 of (alive, w2) \<Rightarrow>
                 if alive then (None, w2) else start_ui E binPath pidPath w2)))"

definition spawnUIOnce ::
  "'e benv_scheme \<Rightarrow> 'h host_scheme \<Rightarrow> string \<Rightarrow> 'b bootw_scheme \<Rightarrow> int option \<times> 'b bootw_scheme" where
  "spawnUIOnce E H dataDir w =
     (case ui_done w of
        Some r \<Rightarrow> (r, w)
      | None \<Rightarrow> (case doSpawnUI E H dataDir w of (r, w1) \<Rightarrow> (r, w1\<lparr>ui_done := Some r\<rparr>)))"

text \<open>
  The end of \<open>main\<close>: the interface the process has started gets SIGTERM, and SIGKILL when it has not
  quit (\<open>quits\<close>) within the five seconds; it is waited for in both cases.  Nothing else is.
\<close>

datatype ui_signal = SigTerm | SigKill

definition stopUIChild :: "bool \<Rightarrow> ui_signal list" where
  "stopUIChild quits = (if quits then [SigTerm] else [SigTerm, SigKill])"

definition shutdown_ui :: "(int \<Rightarrow> bool) \<Rightarrow> 'b bootw_scheme \<Rightarrow> (int \<times> ui_signal) list" where
  "shutdown_ui quits w =
     (case ui_done w of Some (Some pid) \<Rightarrow> map (Pair pid) (stopUIChild (quits pid)) | _ \<Rightarrow> [])"

lemma shutdown_own_child:
  assumes "spawnUIOnce E H d w = (r, v)" and "ui_done w = None" and "(pid, sg) \<in> set (shutdown_ui quits v)"
  shows "r = Some pid \<and> (\<exists>n bin. start_process E n bin = Inr pid)"
proof -
  obtain w1 where d: "doSpawnUI E H d w = (r, w1)" and v: "v = w1\<lparr>ui_done := Some r\<rparr>"
    using assms(1,2) by (auto simp: spawnUIOnce_def split: prod.splits)
  then have r: "r = Some pid" using assms(3) by (auto simp: shutdown_ui_def split: option.splits)
  with d show ?thesis
    by (auto simp: doSpawnUI_def start_ui_def Let_def split: sum.splits prod.splits if_splits)
qed

section \<open>main\<close>

record flags =
  WithUI :: bool
  PairCode :: string
  DataDir :: string
  ListenAddr :: string
  CloudURL :: string
  FlagDisplayName :: string

text \<open>The flags when the command line gives none.\<close>

definition default_flags :: "'h host_scheme \<Rightarrow> flags" where
  "default_flags H =
     \<lparr>WithUI = False, PairCode = [], DataDir = [], ListenAddr = ''127.0.0.1:0'',
      CloudURL = envOr H ''ENGINE_CLOUD_URL'' ''https://engine.asteryvn.com/api'',
      FlagDisplayName = envOr H ''ENGINE_DISPLAY_NAME'' (defaultDisplayName H)\<rparr>"

text \<open>How \<open>main\<close> ends, or the daemon it leaves running: the control server and the scheduler.\<close>

datatype 'w boot_result = ExitError string gerror | ExitPaired | Running ipc_server int "'w sched_deps"

text \<open>The session in the keystore, when there is one, becomes the token source's.\<close>

definition boot_session :: "'e env_scheme \<Rightarrow> string \<Rightarrow> 'd daemon_scheme \<Rightarrow> 'd daemon_scheme" where
  "boot_session E base w =
     (case on_ks (ks_Load E) (w\<lparr>tok := NewTokenSource (Some base)\<rparr>) of
        (Inl e, w1) \<Rightarrow> w1
      | (Inr b, w1) \<Rightarrow> snd (SetBundle E b w1))"

definition boot_server :: "'h host_scheme \<Rightarrow> string \<Rightarrow> string \<Rightarrow> string \<Rightarrow> string \<Rightarrow> ipc_server" where
  "boot_server H token base displayName installationID =
     \<lparr>srv_token = token, allowOrigin = False, AppVersionText = BuildVersion H, PairURL = Some base,
      PairDevice = local_device H displayName installationID, PairFingerprint = HardwareFingerprint H,
      StoreConfigured = True, HubReady = True, CanFlush = True\<rparr>"

definition boot_serve ::
  "'e benv_scheme \<Rightarrow> 'h host_scheme \<Rightarrow> flags \<Rightarrow> layout \<Rightarrow> string \<Rightarrow> ('b bootw_scheme) sched_deps \<Rightarrow> 'b bootw_scheme \<Rightarrow>
     ('b bootw_scheme) boot_result \<times> 'b bootw_scheme" where
  "boot_serve E H F L installationID D w =
     (case LoadOrCreateIPCToken E L w of
        (Inl e, w1) \<Rightarrow> (ExitError ''ipc token'' e, w1)
      | (Inr tk, w1) \<Rightarrow>
          (case Listen E (ListenAddr F) (IpcPortFile L) w1 of
             (Inl e, w2) \<Rightarrow> (ExitError ''ipc listen'' e, w2)
           | (Inr port, w2) \<Rightarrow>
               (Running (boot_server H tk (NewPairingClient (CloudURL F)) (FlagDisplayName F) installationID) port D,
                if WithUI F then snd (spawnUIOnce E H (Root L) w2) else w2)))"

definition boot_daemon ::
  "'e benv_scheme \<Rightarrow> 'h host_scheme \<Rightarrow> flags \<Rightarrow> layout \<Rightarrow> string \<Rightarrow> 'b bootw_scheme \<Rightarrow>
     ('b bootw_scheme) boot_result \<times> 'b bootw_scheme" where
  "boot_daemon E H F L installationID w =
     (let w1 = boot_session E (NewPairingClient (CloudURL F)) w in
      case open_fault E (JobsDB L) of
        Some m \<Rightarrow> (ExitError ''open jobs db'' (Plain m), w1)
      | None \<Rightarrow>
          (let w2 = snd (on_db (RecoverOrphaned E ReasonOrphanedAfterRestart) w1);
               w3 = (snd (Locate E ''ffmpeg'' w2))\<lparr>pool := NewManager zero_limits\<rparr>;
               cloud = New (CloudURL F) (HardwareFingerprint H)
           in case boot_registry E (Some cloud) of
                None \<Rightarrow> (ExitError ''panic'' (Plain ''duplicate executor id''), w3)
              | Some r \<Rightarrow>
                  boot_serve E H F L installationID
                    \<lparr>DepRegistry = r, DepCloud = cloud, DepBaseTmp = Tmp L, HasAuth = True\<rparr> w3))"

text \<open>What a new process starts with: the caches and flags that live in its memory.\<close>

definition fresh_process :: "'b bootw_scheme \<Rightarrow> 'b bootw_scheme" where
  "fresh_process w =
     w\<lparr>tool_cache := [], enc_once := None, ui_done := None, paused_flag := False, reauth_flag := False, ctx_done := False\<rparr>"

definition boot ::
  "'e benv_scheme \<Rightarrow> 'h host_scheme \<Rightarrow> flags \<Rightarrow> 'b bootw_scheme \<Rightarrow> ('b bootw_scheme) boot_result \<times> 'b bootw_scheme" where
  "boot E H F w =
     (case Resolve E (DataDir F) of
        Inl e \<Rightarrow> (ExitError ''resolve data dir:'' e, fresh_process w)
      | Inr L \<Rightarrow>
          (case EnsureLayout E L (fresh_process w) of
             (Some e, w1) \<Rightarrow> (ExitError ''ensure layout:'' e, w1)
           | (None, w1) \<Rightarrow>
               (case LoadOrCreateInstallationID E L w1 of
                  (Inl e, w2) \<Rightarrow> (ExitError ''installation id:'' e, w2)
                | (Inr i, w2) \<Rightarrow>
                    (if PairCode F \<noteq> [] then
                       (case runPair E H (PairCode F) (FlagDisplayName F) i (NewPairingClient (CloudURL F)) w2 of
                          (Some e, w3) \<Rightarrow> (ExitError ''pair:'' e, w3)
                        | (None, w3) \<Rightarrow> (ExitPaired, w3))
                     else boot_daemon E H F L i w2))))"

end
