(* ===== verification/IpcProps.thy ===== *)
theory IpcProps
  imports Ipc SchedTick
begin

text \<open>
  What the control server promises: who gets past its middleware, how query integers are read,
  and what pairing and unpairing change, in the response, the tables, the keystore and under
  the running token source.
\<close>

section \<open>Who gets past the middleware\<close>

text \<open>The credential a request carries: its header, or on the log stream the query token.\<close>

definition credential :: "ipc_request \<Rightarrow> string" where
  "credential r =
     (if hq_header r ''Authorization'' \<noteq> [] then hq_header r ''Authorization''
      else if hq_path r = ''/v1/logs/stream'' \<and> hq_query r ''token'' \<noteq> [] then ''Bearer '' @ hq_query r ''token''
      else [])"

lemma shim_simps [simp]:
  "hq_header (sseQueryAuthShim r) ''Authorization'' = credential r"
  "hq_header (sseQueryAuthShim r) ''Origin'' = hq_header r ''Origin''"
  "hq_method (sseQueryAuthShim r) = hq_method r"
  "hq_path (sseQueryAuthShim r) = hq_path r"
  by (simp_all add: sseQueryAuthShim_def credential_def)

text \<open>
  C13. No request does anything unless its Origin is absent or one of the two Tauri origins and
  its bearer token is the server's: otherwise the state is untouched and the response is the
  403, the 401, or the CORS preflight's 204, whatever the path and method.  The token may come
  in the query of the log stream, and only there.
\<close>

theorem ipc_requires_token:
  assumes run: "ipc_serve E S r w = (res, w')"
    and bad: "\<not> (origin_ok S (hq_header r ''Origin'') \<and> bearer_ok S (credential r))"
  shows "w' = w \<and> (\<exists>x. res = Respond x \<and>
    (rs_status x = 403 \<and> \<not> origin_ok S (hq_header r ''Origin'') \<or>
     rs_status x = 204 \<and> hq_method r = ''OPTIONS'' \<and> hq_header r ''Origin'' \<noteq> [] \<or>
     rs_status x = 401 \<and> origin_ok S (hq_header r ''Origin'')))"
  using run bad
  by (auto simp: ipc_serve_def middleware_def Let_def with_cors_def preflight_def writeErr_def writeJSON_def
      split: if_splits)

definition sample_server :: ipc_server where
  "sample_server = \<lparr>srv_token = ''secret'', allowOrigin = False, AppVersionText = ''0'', PairURL = Some ''http://c'',
     PairDevice = \<lparr>InstallationID = ''i'', DisplayName = ''d'', Hostname = [], DevOS = ''linux'', DevArch = ''amd64'',
       AppVersion = ''0'', RuntimeVersion = ''0''\<rparr>, PairFingerprint = ''fp'', StoreConfigured = True, HubReady = True,
     CanFlush = True\<rparr>"

definition sample_request :: "string \<Rightarrow> string \<Rightarrow> json option \<Rightarrow> ipc_request" where
  "sample_request meth path body = \<lparr>hq_method = meth, hq_path = path, hq_header = (\<lambda>_. []), hq_query = (\<lambda>_. []),
     hq_json = body, hq_length = (if body = None then 0 else 10)\<rparr>"

lemma empty_bearer: "\<not> bearer_ok sample_server []"
proof -
  have "trim_front encs [] = []" for encs
  proof -
    have "find (\<lambda>e. False) encs = None" by (induction encs) simp_all
    then show ?thesis by (subst trim_front.simps) simp
  qed
  then show ?thesis by (simp add: bearer_ok_def TrimPrefix_def HasPrefix_def TrimSpace_def sample_server_def)
qed

definition calm_ienv :: "(request list \<Rightarrow> http_result) \<Rightarrow> (string \<Rightarrow> json option) \<Rightarrow> ienv" where
  "calm_ienv srv js = denv.extend (calm_denv srv js) \<lparr>fmt_time = (\<lambda>_. ''T'')\<rparr>"

lemma calm_ienv_simps [simp]:
  "server (calm_ienv srv js) = srv" "json_of_text (calm_ienv srv js) = js"
  "clock (calm_ienv srv js) n = zero_time" "url_ok (calm_ienv srv js) u"
  "ks_fault (calm_ienv srv js) k = None" "db_fault (calm_ienv srv js) k = None"
  by (simp_all add: calm_ienv_def denv.defs calm_denv_def env.defs calm_env_def)

lemma calm_ienv_times [simp]:
  "time_of_text (calm_ienv srv js) ''F'' = Some far_time" "time_of_text (calm_ienv srv js) ''Z'' = Some zero_time"
  "time_codec (calm_ienv srv js)"
  by (simp_all add: calm_ienv_def denv.defs calm_denv_def env.defs calm_env_def time_codec_def
      far_time_def zero_time_def)

theorem ipc_requires_token_witness:
  "\<exists>x. fst (ipc_serve (calm_ienv (\<lambda>_. Reply 200 [] None) (\<lambda>_. None)) sample_server
      (sample_request ''POST'' ''/v1/pause'' None) (sample_daemon signed_in NoItem empty_store)) = Respond x \<and>
    rs_status x = 401"
proof -
  let ?E = "calm_ienv (\<lambda>_. Reply 200 [] None) (\<lambda>_. None)" and ?r = "sample_request ''POST'' ''/v1/pause'' None"
  obtain res w' where run: "ipc_serve ?E sample_server ?r (sample_daemon signed_in NoItem empty_store) = (res, w')"
    by fastforce
  have "\<not> (origin_ok sample_server (hq_header ?r ''Origin'') \<and> bearer_ok sample_server (credential ?r))"
    using empty_bearer by (simp add: sample_request_def credential_def)
  from ipc_requires_token [OF run this] run show ?thesis
    by (auto simp: sample_request_def origin_ok_def)
qed

section \<open>Query integers\<close>

definition is_digit :: "char \<Rightarrow> bool" where
  "is_digit c \<longleftrightarrow> CHR ''0'' \<le> c \<and> c \<le> CHR ''9''"

definition decimal :: "string \<Rightarrow> nat" where
  "decimal = foldl (\<lambda>n c. n * 10 + (of_char c - 48)) 0"

lemma atoi_loop_result:
  "atoi_loop s (of_nat n) =
     (if list_all is_digit s then Some (of_nat (foldl (\<lambda>n c. n * 10 + (of_char c - 48)) n s)) else None)"
proof (induction s arbitrary: n)
  case (Cons c cs)
  have "of_nat n * 10 + of_nat (of_char c - 48) = (of_nat (n * 10 + (of_char c - 48)) :: 64 word)"
    by simp
  with Cons.IH [of "n * 10 + (of_char c - 48)"] show ?case
    by (auto simp: is_digit_def not_less not_le simp del: of_nat_add of_nat_mult)
qed simp

text \<open>
  The query integers: a non-empty string of ASCII digits gives its decimal value read as a
  64-bit two's complement number, so it is the value itself below \<open>2 ^ 63\<close> and wraps above it,
  possibly to a negative limit or offset; everything else, a sign included, gives the fallback.
\<close>

theorem atoiOr_value:
  "atoiOr s fallback =
     (if s \<noteq> [] \<and> list_all is_digit s then sint (of_nat (decimal s) :: 64 word) else fallback)"
  using atoi_loop_result [of s 0] by (simp add: atoiOr_def decimal_def)

section \<open>Unpairing\<close>

lemma on_ks_eq: "on_ks f w = (fst (f (ks w)), w\<lparr>ks := snd (f (ks w))\<rparr>)"
  by (simp add: on_ks_def split_beta)

lemma ks_Clear_result:
  "ks_Clear E k = (r, k') \<Longrightarrow> (r = None \<and> item k' = NoItem) \<or> (r \<noteq> None \<and> item k' = item k)"
  by (auto simp: ks_Clear_def split: kbackend.splits option.splits)

lemma ks_Load_item: "item (snd (ks_Load E k)) = item k"
  by (cases "ks_Load E k") (auto simp: ks_Load_def split: kbackend.splits option.splits)

text \<open>The cloud's answers that end the pairing, and those that leave it unreachable.\<close>

definition cloud_gone :: "http_result \<Rightarrow> bool" where
  "cloud_gone h \<longleftrightarrow> (case h of Reply st b m \<Rightarrow> st = 200 \<or> st = 204 \<or> st = 401 | TransportError m \<Rightarrow> False)"

definition cloud_down :: "http_result \<Rightarrow> bool" where
  "cloud_down h \<longleftrightarrow> (case h of Reply st b m \<Rightarrow> st \<ge> 500 | TransportError m \<Rightarrow> True)"

lemma Unpair_cases:
  "Unpair E base j fp w = (r, w') \<Longrightarrow>
     (\<exists>rq. w' = after_send True rq w \<and> rq_method rq = ''DELETE'' \<and>
        (r = None \<longleftrightarrow> cloud_gone (server E (sent w'))) \<and>
        (\<forall>e. r = Some e \<longrightarrow> errors_is e ErrCloudUnreachable = cloud_down (server E (sent w')))) \<or>
     (w' = w \<and> (\<exists>e. r = Some e \<and> \<not> errors_is e ErrCloudUnreachable))"
  by (auto simp: Unpair_def Let_def new_uuid_def http_do_def unpair_reply_def http_status_defs after_send_def
      cloud_gone_def cloud_down_def split: if_splits http_result.splits)

lemma SweepActive_result:
  assumes "SweepActiveToFailed E reason s = (r, t)"
  shows "tables t = tables s \<or> (\<forall>j \<in> set (jobs t). job_status j \<noteq> StatusQueued \<and> job_status j \<noteq> StatusRunning)"
proof -
  obtain kind msg where f: "failActive E [StatusQueued, StatusRunning] kind msg s = (r, t)"
    using assms by (auto simp: SweepActiveToFailed_def Let_def)
  show ?thesis
  proof (cases r)
    case (Inl e)
    with f failActive_InlD show ?thesis by blast
  next
    case (Inr n)
    with f failActive_jobs obtain now where "jobs t = map (fail_row [StatusQueued, StatusRunning] now) (jobs s)"
      by blast
    then show ?thesis by (auto simp: fail_row_def status_defs)
  qed
qed

lemma clear_local_result:
  assumes "clear_local E forced w = (resp, w')"
  shows "tok w' = tok w \<and> sent w' = sent w \<and>
    (rs_status resp = 200 \<and> item (ks w') = NoItem \<or> rs_status resp = 500 \<and> item (ks w') = item (ks w)) \<and>
    (tables (db w') = tables (db w) \<or>
     (\<forall>j \<in> set (jobs (db w')). job_status j \<noteq> StatusQueued \<and> job_status j \<noteq> StatusRunning))"
proof -
  obtain q s where q: "SweepActiveToFailed E ReasonUnpaired (db w) = (q, s)" by fastforce
  obtain c k where c: "ks_Clear E (ks w) = (c, k)" by fastforce
  have "w' = w\<lparr>db := s, ks := k\<rparr>" and "rs_status resp = (if c = None then 200 else 500)"
    using assms q c by (auto simp: clear_local_def on_db_def on_ks_def split: option.splits)
  with SweepActive_result [OF q] ks_Clear_result [OF c] show ?thesis by auto
qed

definition asks_force :: "ipc_request \<Rightarrow> bool" where
  "asks_force r \<longleftrightarrow> hq_length r > 0 \<and> Option.bind (hq_json r) (dec_unpair_request False) = Some True"

lemma handleUnpair_cases:
  assumes run: "handleUnpair E S r w = (resp, w')"
  shows "(rs_status resp \<noteq> 200 \<and> w' = w) \<or>
    (\<exists>base. PairURL S = Some base \<and> unpair_loaded E base (asks_force r) w = (resp, w'))"
proof -
  have "force = asks_force r"
    if "(if hq_length r > 0 then Option.bind (hq_json r) (dec_unpair_request False) else Some False) = Some force"
    for force
    using that by (auto simp: asks_force_def split: if_splits)
  with run show ?thesis by (auto simp: handleUnpair_def split: if_splits option.splits)
qed

lemma unpair_loaded_result:
  assumes run: "unpair_loaded E base force w = (resp, w')"
  shows "tok w' = tok w \<and>
    (item (ks w') = item (ks w) \<and> tables (db w') = tables (db w) \<and> rs_status resp \<noteq> 200 \<or>
     (\<exists>rq. sent w' = sent w @ [rq] \<and> rq_method rq = ''DELETE'' \<and>
        (cloud_gone (server E (sent w')) \<or> cloud_down (server E (sent w')) \<and> force) \<and>
        (rs_status resp = 200 \<and> item (ks w') = NoItem \<or> rs_status resp = 500 \<and> item (ks w') = item (ks w)) \<and>
        (tables (db w') = tables (db w) \<or>
         (\<forall>j \<in> set (jobs (db w')). job_status j \<noteq> StatusQueued \<and> job_status j \<noteq> StatusRunning))))"
proof -
  obtain q k where q: "ks_Load E (ks w) = (q, k)" by fastforce
  have k: "item k = item (ks w)" using ks_Load_item [of E "ks w"] q by simp
  let ?w1 = "w\<lparr>ks := k\<rparr>"
  show ?thesis
  proof (cases q)
    case (Inl e)
    with run q k show ?thesis by (auto simp: unpair_loaded_def on_ks_def split: if_splits)
  next
    case (Inr b)
    obtain p w2 where p: "Unpair E base (SessionJWT b) (HwFingerprint b) ?w1 = (p, w2)" by fastforce
    have w2: "tok w2 = tok w" "db w2 = db w" "item (ks w2) = item (ks w)"
      using Unpair_cases [OF p] k by (auto simp: after_send_def)
    show ?thesis
    proof (cases "\<exists>f. clear_local E f w2 = (resp, w')")
      case False
      with run q Inr p w2 show ?thesis
        by (auto simp: unpair_loaded_def on_ks_def split: if_splits option.splits)
    next
      case True
      then obtain f where f: "clear_local E f w2 = (resp, w')" ..
      note cl = clear_local_result [OF f]
      have "p = None \<or> (\<exists>e. p = Some e \<and> errors_is e ErrCloudUnreachable \<and> force) \<or> rs_status resp = 502"
        using run q Inr p by (auto simp: unpair_loaded_def on_ks_def split: if_splits option.splits)
      with cl have "p = None \<or> (\<exists>e. p = Some e \<and> errors_is e ErrCloudUnreachable \<and> force)" by auto
      with Unpair_cases [OF p] obtain rq where rq: "w2 = after_send True rq ?w1" "rq_method rq = ''DELETE''"
        "cloud_gone (server E (sent w2)) \<or> cloud_down (server E (sent w2)) \<and> force" by blast
      have "tok w' = tok w" using cl w2 by simp
      moreover have "sent w' = sent w @ [rq]" using cl rq(1) by simp
      moreover have "cloud_gone (server E (sent w')) \<or> cloud_down (server E (sent w')) \<and> force"
        using cl rq(3) by simp
      moreover have "rs_status resp = 200 \<and> item (ks w') = NoItem \<or> rs_status resp = 500 \<and> item (ks w') = item (ks w)"
        using cl w2 by simp
      moreover have "tables (db w') = tables (db w) \<or>
         (\<forall>j \<in> set (jobs (db w')). job_status j \<noteq> StatusQueued \<and> job_status j \<noteq> StatusRunning)"
        using cl w2 by simp
      ultimately show ?thesis using rq(2) by blast
    qed
  qed
qed

text \<open>A daemon that is paired, with one job running, and a cloud that is down.\<close>

definition paired_daemon :: daemon where
  "paired_daemon = sample_daemon signed_in fresh_item (snd (UpdateStatus calm_db ''j1'' StatusRunning sample_store))"

definition down_env :: ienv where
  "down_env = calm_ienv (\<lambda>_. TransportError ''down'') (\<lambda>_. None)"

definition force_request :: ipc_request where
  "force_request = sample_request ''POST'' ''/v1/unpair'' (Some (JObj [(''force'', JBool True)]))"

lemma fresh_item_bundle: "unmarshal_session (calm_ienv srv js) fresh_item = Inr fresh_bundle"
  by (simp add: unmarshal_session_def fresh_item_def bundle_of_json_def bundle_fields_def dec_defs
      fresh_bundle_def sample_bundle_def zero_bundle_def)

definition asks_unpair :: "ipc_request \<Rightarrow> bool" where
  "asks_unpair r \<longleftrightarrow> hq_method r = ''POST'' \<and> asks_force r"

lemma force_request_asks: "asks_unpair force_request"
  by (simp add: asks_unpair_def asks_force_def force_request_def sample_request_def dec_unpair_request_def
      dec_bool_def dec_defs)

lemma forced_unpair:
  assumes "asks_unpair r"
  shows "\<exists>resp w'. handleUnpair down_env sample_server r (sample_daemon t fresh_item s) = (resp, w') \<and>
    rs_status resp = 200 \<and> backend (ks w') = FileBackend"
proof -
  let ?w = "sample_daemon t fresh_item s" and ?k = "ks (sample_daemon t fresh_item s)"
  have load: "ks_Load down_env ?k = (Inr fresh_bundle, ks_tick ?k)"
    by (simp add: ks_Load_def down_env_def fresh_item_bundle)
  have clear: "ks_Clear down_env (ks_tick ?k) = (None, (ks_tick (ks_tick ?k))\<lparr>item := NoItem\<rparr>)"
    by (simp add: ks_Clear_def down_env_def)
  obtain q s' where sweep: "SweepActiveToFailed down_env ReasonUnpaired s = (q, s')" by fastforce
  have "\<exists>rq. Unpair down_env ''http://c'' (SessionJWT fresh_bundle) (HwFingerprint fresh_bundle) (?w\<lparr>ks := ks_tick ?k\<rparr>) =
    (Some (Wrap (sentinel_text ErrCloudUnreachable @ '': '' @ ''down'') (Sentinel ErrCloudUnreachable)),
     after_send True rq (?w\<lparr>ks := ks_tick ?k\<rparr>))"
    by (simp add: Unpair_def Let_def new_uuid_def http_do_def unpair_reply_def down_env_def after_send_def)
      (intro conjI impI; rule exI; rule refl)
  moreover have "db (after_send True rq (?w\<lparr>ks := k\<rparr>)) = s" for rq k
    by (simp add: after_send_def)
  moreover have "PairURL sample_server = Some ''http://c''" "StoreConfigured sample_server"
    by (simp_all add: sample_server_def)
  ultimately show ?thesis
    using load clear sweep assms
    by (auto simp: handleUnpair_def unpair_loaded_def on_ks_def clear_local_def on_db_def asks_unpair_def asks_force_def)
qed

section \<open>Identity under the running daemon\<close>

text \<open>No request to the control server reaches the token source's cache.\<close>

lemma lift_response_snd [simp]: "snd (lift_response p) = snd p"
  by (simp add: lift_response_def)

lemma on_db_tok [simp]: "tok (snd (on_db f w)) = tok w"
  by (simp add: on_db_eq)

lemma on_ks_tok [simp]: "tok (snd (on_ks f w)) = tok w"
  by (simp add: on_ks_eq)

lemma getJob_tok [simp]: "tok (snd (getJob E j w)) = tok w"
  by (simp add: getJob_def split_beta split: sum.split)

lemma cancelJob_tok [simp]: "tok (snd (cancelJob E j w)) = tok w"
  by (simp add: cancelJob_def split_beta split: sum.split)

lemma handleJobByID_tok [simp]: "tok (snd (handleJobByID E r w)) = tok w"
  by (simp add: handleJobByID_def Let_def)

lemma handleJobsList_tok [simp]: "tok (snd (handleJobsList E r w)) = tok w"
  by (simp add: handleJobsList_def split_beta split: sum.split)

lemma AlreadyPaired_tok [simp]: "tok (snd (AlreadyPaired E w)) = tok w"
  by (simp add: AlreadyPaired_def split_beta split: sum.split)

lemma Exchange_tok: "Exchange E base rq w = (r, w') \<Longrightarrow> tok w' = tok w \<and> ks w' = ks w \<and> db w' = db w"
  by (auto simp: Exchange_def pairing_call_eq after_call_def split: if_splits)

lemma pair_exchange_tok [simp]: "tok (snd (pair_exchange E S base code w)) = tok w"
proof -
  obtain q w1 where q: "Exchange E base \<lparr>DisplayCode = code, Device = PairDevice S,
      ReqHwFingerprint = PairFingerprint S, DevicePubkey = []\<rparr> w = (q, w1)" by fastforce
  show ?thesis
  proof (cases q)
    case (Inl e)
    with q Exchange_tok [OF q] show ?thesis by (simp add: pair_exchange_def)
  next
    case (Inr x)
    obtain z w2 where z: "on_ks (ks_Save E (paired_bundle (PairFingerprint S) x)) w1 = (z, w2)" by fastforce
    have "tok w2 = tok w"
      using on_ks_tok [of "ks_Save E (paired_bundle (PairFingerprint S) x)" w1] z Exchange_tok [OF q] by simp
    with q Inr z show ?thesis by (simp add: pair_exchange_def split: option.split)
  qed
qed

lemma handlePair_tok [simp]: "tok (snd (handlePair E S r w)) = tok w"
  by (simp add: handlePair_def Let_def split_beta split: option.split)

lemma handleUnpair_tok: "handleUnpair E S r w = (resp, w') \<Longrightarrow> tok w' = tok w"
  using handleUnpair_cases [of E S r w resp w'] unpair_loaded_result by fastforce

lemma run_route_tok: "tok (snd (run_route E S rt r w)) = tok w"
  using handleUnpair_tok [of E S r w]
  by (cases rt; cases "handleUnpair E S r w")
    (simp_all add: run_route_def handleStatus_def time_now_def handlePause_def handleResume_def
      handleCapabilities_def Pause_def Resume_def Let_def)

lemma ipc_serve_tok: "tok (snd (ipc_serve E S r w)) = tok w"
proof -
  have "tok (snd (serve_mux E S q w)) = tok w" for q
    by (simp add: serve_mux_def run_route_tok split: option.split)
  then show ?thesis
    by (simp add: ipc_serve_def middleware_def Let_def split_beta)
qed

text \<open>
  C38. The control server changes the stored identity behind the token source's back.  After any
  request to it (unpairing included, which has emptied the keystore, and pairing, which has
  stored a new identity) the session that was cached before is still the one in use: the next
  refresh that succeeds rotates that old session and writes it back over whatever the keystore
  holds.
\<close>

theorem cached_identity_comes_back:
  assumes known: "cachedKnown (tok w)" and codec: "time_codec E'"
    and request: "ipc_serve E S r w = (res, w1)"
    and soon: "\<not> time_until (clock E' (clock_reads w1)) (SessionExpiresAt (cached (tok w))) > refreshGracePeriod"
    and refresh: "BearerToken E' w1 = (Inr t, w2)"
  shows "\<exists>x. unmarshal_session E' (item (ks w2)) = Inr (rotated (cached (tok w)) x) \<and>
    SessionJWT (rotated (cached (tok w)) x) = t"
proof -
  have tok: "tok w1 = tok w" using ipc_serve_tok [of E S r w] request by simp
  let ?v = "w1\<lparr>clock_reads := Suc (clock_reads w1)\<rparr>"
  have "rotate_session E' (errorf ''refresh session'') ''token source save rotated'' ?v = (Inr t, w2)"
    using refresh known soon tok by (simp add: BearerToken_def load_cache_known time_now_def)
  from rotate_session_InrD [OF this] codec tok show ?thesis
    by (auto simp: on_disk_def)
qed


text \<open>The forced unpair of the example with the server's token, through the whole server.\<close>

definition authorized_unpair :: ipc_request where
  "authorized_unpair = force_request\<lparr>hq_header := (\<lambda>_. [])(''Authorization'' := ''Bearer secret'')\<rparr>"

lemma authorized_bearer: "bearer_ok sample_server ''Bearer secret''"
proof -
  have "trim_front space_encodings ''secret'' = ''secret''"
    by (subst trim_front.simps) (simp add: space_encodings_def HasPrefix_def)
  moreover have "trim_front (map rev space_encodings) ''terces'' = ''terces''"
    by (subst trim_front.simps) (simp add: space_encodings_def HasPrefix_def)
  ultimately show ?thesis
    by (simp add: bearer_ok_def TrimPrefix_def HasPrefix_def TrimSpace_def sample_server_def)
qed

lemma unpair_path: "mux_clean ''/v1/unpair'' = ''/v1/unpair''" "mux_match ''/v1/unpair'' = Some RUnpair"
  by (simp_all add: mux_clean_def path_clean_def split_slash.simps clean_step_def mux_match_def routes_def)

lemma authorized_unpair_runs:
  "snd (ipc_serve E sample_server authorized_unpair w) = snd (handleUnpair E sample_server authorized_unpair w)"
proof -
  have "sseQueryAuthShim authorized_unpair = authorized_unpair"
    by (simp add: sseQueryAuthShim_def authorized_unpair_def)
  then show ?thesis
    using authorized_bearer unpair_path
    by (simp add: ipc_serve_def middleware_def origin_ok_def serve_mux_def run_route_def split_beta Let_def
        authorized_unpair_def force_request_def sample_request_def)
qed

lemma authorized_asks: "asks_unpair authorized_unpair"
  using force_request_asks by (simp add: asks_unpair_def asks_force_def authorized_unpair_def)

lemma rotating_run:
  assumes "cachedKnown (tok w)" "cached (tok w) = sample_bundle" "pairing (tok w) = Some base"
    and "backend (ks w) = FileBackend"
  shows "fst (BearerToken rotating_env w) = Inr ''jwt2''"
  using assms sample_expired [of "clock_reads w"]
  by (simp add: BearerToken_def load_cache_def time_now_def rotate_session_def Refresh_eq
      rotating_reply Let_def ks_Save_def rotated_def bundle_json_def)

theorem cached_identity_comes_back_witness:
  "\<exists>w1 w2. snd (ipc_serve down_env sample_server authorized_unpair
      (sample_daemon (signed_in\<lparr>cached := sample_bundle\<rparr>) fresh_item empty_store)) = w1 \<and>
    item (ks w1) = NoItem \<and> BearerToken rotating_env w1 = (Inr ''jwt2'', w2) \<and> item (ks w2) \<noteq> NoItem"
proof -
  let ?w = "sample_daemon (signed_in\<lparr>cached := sample_bundle\<rparr>) fresh_item empty_store"
  obtain resp v where un: "handleUnpair down_env sample_server authorized_unpair ?w = (resp, v)"
    and st: "rs_status resp = 200" and fb: "backend (ks v) = FileBackend"
    using forced_unpair [OF authorized_asks] by blast
  obtain res w1 where run: "ipc_serve down_env sample_server authorized_unpair ?w = (res, w1)" by fastforce
  have w1: "w1 = v" using authorized_unpair_runs [of down_env ?w] un run by simp
  have tokv: "tok v = signed_in\<lparr>cached := sample_bundle\<rparr>" using handleUnpair_tok [OF un] by simp
  have "fst (BearerToken rotating_env v) = Inr ''jwt2''"
    by (rule rotating_run [where base = "''http://c''"]) (simp_all add: tokv fb)
  then have "fst (BearerToken rotating_env w1) = Inr ''jwt2''" by (simp only: w1)
  then obtain w2 where ref: "BearerToken rotating_env w1 = (Inr ''jwt2'', w2)" by (cases "BearerToken rotating_env w1") simp
  have known: "cachedKnown (tok ?w)" by simp
  have codec: "time_codec rotating_env" by (simp add: rotating_env_def)
  have soon: "\<not> time_until (clock rotating_env (clock_reads w1)) (SessionExpiresAt (cached (tok ?w))) > refreshGracePeriod"
    using sample_expired [of "clock_reads w1"] by simp
  have "item (ks w2) \<noteq> NoItem"
    using cached_identity_comes_back [OF known codec run soon ref] by (auto simp: unmarshal_session_def)
  moreover have "item (ks w1) = NoItem"
    using handleUnpair_cases [OF un] unpair_loaded_result [of down_env _ _ ?w resp v] st w1 by fastforce
  ultimately show ?thesis using run ref by auto
qed

section \<open>Unpairing through the server\<close>

text \<open>A request past the middleware, on its route; any other leaves everything as it was and is not answered 200.\<close>

definition admitted :: "ipc_server \<Rightarrow> ipc_request \<Rightarrow> bool" where
  "admitted S r \<longleftrightarrow> origin_ok S (hq_header r ''Origin'') \<and> bearer_ok S (hq_header r ''Authorization'') \<and>
     \<not> (hq_method r = ''OPTIONS'' \<and> hq_header r ''Origin'' \<noteq> [])"

lemma ipc_serve_admitted:
  assumes "admitted S (sseQueryAuthShim r)" and "mux_clean (hq_path r) = hq_path r" and "mux_match (hq_path r) = Some rt"
  shows "ipc_serve E S r w = (case run_route E S rt (sseQueryAuthShim r) w of
    (res, v) \<Rightarrow> (with_cors (cors_headers (hq_header r ''Origin'')) res, v))"
proof -
  have "hq_path (sseQueryAuthShim r) = hq_path r" "hq_header (sseQueryAuthShim r) ''Origin'' = hq_header r ''Origin''"
    by (simp_all add: sseQueryAuthShim_def)
  with assms show ?thesis by (auto simp: ipc_serve_def middleware_def serve_mux_def admitted_def)
qed

lemma ipc_serve_cases:
  assumes run: "ipc_serve E S r w = (res, w')"
  shows "w' = w \<and> (\<forall>resp. res = Respond resp \<longrightarrow> rs_status resp \<noteq> 200) \<or>
    admitted S (sseQueryAuthShim r) \<and> (\<exists>rt. mux_match (hq_path r) = Some rt \<and>
      (\<exists>a. run_route E S rt (sseQueryAuthShim r) w = (a, w') \<and> res = with_cors (cors_headers (hq_header r ''Origin'')) a))"
proof -
  have same: "hq_path (sseQueryAuthShim r) = hq_path r" "hq_header (sseQueryAuthShim r) ''Origin'' = hq_header r ''Origin''"
    by (simp_all add: sseQueryAuthShim_def)
  show ?thesis
  proof (cases "admitted S (sseQueryAuthShim r) \<and> mux_clean (hq_path r) = hq_path r \<and> mux_match (hq_path r) \<noteq> None")
    case True
    then obtain rt where rt: "mux_match (hq_path r) = Some rt" by auto
    from run ipc_serve_admitted [of S r rt E w] True rt show ?thesis by (auto split: prod.splits)
  next
    case False
    with run same show ?thesis
      by (auto simp: ipc_serve_def middleware_def serve_mux_def admitted_def Let_def with_cors_def writeErr_def
          writeJSON_def preflight_def split: option.splits if_splits)
  qed
qed

lemma mux_match_unpair: "mux_match p = Some RUnpair \<longleftrightarrow> p = ''/v1/unpair''"
  by (auto simp: mux_match_def routes_def split: option.splits if_splits)

lemma mux_match_pair: "mux_match p = Some RPair \<longleftrightarrow> p = ''/v1/pair''"
  by (auto simp: mux_match_def routes_def split: option.splits if_splits)

text \<open>Only pairing and unpairing reach the keystore, and only unpairing empties it.\<close>

lemma ks_Save_kept: "ks_Save E b k = (z, k') \<Longrightarrow> item k' = NoItem \<Longrightarrow> item k = NoItem"
  by (auto simp: ks_Save_def split: kbackend.splits option.splits if_splits)

lemma pair_exchange_kept:
  assumes "pair_exchange E S base code w = (resp, w')" and "item (ks w') = NoItem"
  shows "item (ks w) = NoItem"
proof -
  obtain q w1 where q: "Exchange E base \<lparr>DisplayCode = code, Device = PairDevice S,
      ReqHwFingerprint = PairFingerprint S, DevicePubkey = []\<rparr> w = (q, w1)" by fastforce
  show ?thesis
  proof (cases q)
    case (Inl e)
    with assms q Exchange_tok [OF q] show ?thesis by (auto simp: pair_exchange_def split: if_splits)
  next
    case (Inr x)
    obtain z k where z: "ks_Save E (paired_bundle (PairFingerprint S) x) (ks w1) = (z, k)" by fastforce
    have "item k = NoItem" using assms q Inr z by (auto simp: pair_exchange_def on_ks_def split: option.splits)
    from ks_Save_kept [OF z this] Exchange_tok [OF q] show ?thesis by simp
  qed
qed

lemma AlreadyPaired_item: "item (ks (snd (AlreadyPaired E w))) = item (ks w)"
  using ks_Load_item [of E "ks w"] by (simp add: AlreadyPaired_def on_ks_eq split_beta split: sum.split)

lemma handlePair_kept:
  assumes "handlePair E S r w = (resp, w')" and "item (ks w') = NoItem"
  shows "item (ks w) = NoItem"
proof -
  obtain p w1 where p: "AlreadyPaired E w = (p, w1)" by fastforce
  have "item (ks w1) = item (ks w)" using AlreadyPaired_item [of E w] p by simp
  with assms p show ?thesis
    by (auto simp: handlePair_def Let_def split: if_splits option.splits dest: pair_exchange_kept)
qed

lemma run_route_ks:
  assumes "rt \<noteq> RPair" and "rt \<noteq> RUnpair"
  shows "ks (snd (run_route E S rt r w)) = ks w"
proof -
  have get: "ks (snd (getJob E j w)) = ks w" "ks (snd (cancelJob E j w)) = ks w" for j
    by (simp_all add: getJob_def cancelJob_def split_beta split: sum.split)
  with assms show ?thesis
    by (cases rt) (simp_all add: run_route_def handleStatus_def time_now_def handlePause_def handleResume_def
        handleCapabilities_def Pause_def Resume_def Let_def handleJobByID_def handleJobsList_def split_beta
        split: sum.split)
qed

text \<open>What the cloud, or the user, must have said.\<close>

definition unpair_word :: "'e ienv_scheme \<Rightarrow> ipc_request \<Rightarrow> 'd daemon_scheme \<Rightarrow> 'd daemon_scheme \<Rightarrow> bool" where
  "unpair_word E r w w' \<longleftrightarrow> (\<exists>rq. sent w' = sent w @ [rq] \<and> rq_method rq = ''DELETE'' \<and>
     (cloud_gone (server E (sent w')) \<or> cloud_down (server E (sent w')) \<and> asks_force r))"

lemma handleUnpair_word:
  assumes run: "handleUnpair E S r w = (resp, w')"
  shows "(item (ks w') \<noteq> item (ks w) \<or> tables (db w') \<noteq> tables (db w) \<longrightarrow> hq_method r = ''POST'' \<and> unpair_word E r w w') \<and>
    (rs_status resp = 200 \<longrightarrow> hq_method r = ''POST'' \<and> unpair_word E r w w' \<and> item (ks w') = NoItem \<and>
      (tables (db w') = tables (db w) \<or>
       (\<forall>j \<in> set (jobs (db w')). job_status j \<noteq> StatusQueued \<and> job_status j \<noteq> StatusRunning)))"
proof (cases "hq_method r = ''POST''")
  case True
  then show ?thesis
    unfolding unpair_word_def using handleUnpair_cases [OF run] unpair_loaded_result by fastforce
qed (use run in \<open>auto simp: handleUnpair_def writeErr_def writeJSON_def\<close>)

text \<open>
  C37. Unpairing tears down local state only on an authorised request and on the cloud's word or the
  user's.  Whatever request the control server gets: if the stored session is gone afterwards, the
  request carried the server's token from an admissible origin, it was a POST to \<open>/v1/unpair\<close>, one
  DELETE was sent, and the cloud answered it with 200, 204 or 401, or it was down (5xx or no answer)
  and the request asked for force.  The same holds before a request on that path changes any table.
  The answer 200 on that path means that this happened, the keystore is empty, and the live
  jobs are failed unless the sweep itself failed.
\<close>

theorem unpair_only_on_word:
  assumes run: "ipc_serve E S r w = (res, w')"
  shows "(item (ks w) \<noteq> NoItem \<and> item (ks w') = NoItem \<or> hq_path r = ''/v1/unpair'' \<and> tables (db w') \<noteq> tables (db w) \<longrightarrow>
      admitted S r \<and> hq_method r = ''POST'' \<and> hq_path r = ''/v1/unpair'' \<and> unpair_word E r w w') \<and>
    (hq_path r = ''/v1/unpair'' \<and> res = Respond resp \<and> rs_status resp = 200 \<longrightarrow>
      admitted S r \<and> hq_method r = ''POST'' \<and> unpair_word E r w w' \<and> item (ks w') = NoItem \<and>
      (tables (db w') = tables (db w) \<or>
       (\<forall>j \<in> set (jobs (db w')). job_status j \<noteq> StatusQueued \<and> job_status j \<noteq> StatusRunning)))"
  using ipc_serve_cases [OF run]
proof (elim disjE exE conjE)
  fix rt a
  let ?q = "sseQueryAuthShim r"
  assume ok: "admitted S ?q" and rt: "mux_match (hq_path r) = Some rt" and a: "run_route E S rt ?q w = (a, w')"
    and res: "res = with_cors (cors_headers (hq_header r ''Origin'')) a"
  show ?thesis
  proof (cases "rt = RUnpair")
    case True
    with rt have path: "hq_path r = ''/v1/unpair''" using mux_match_unpair by simp
    then have q: "?q = r" by (simp add: sseQueryAuthShim_def)
    obtain x where x: "handleUnpair E S r w = (x, w')" "a = Respond x"
      using a True q by (cases "handleUnpair E S r w") (auto simp: run_route_def lift_response_def)
    have "res = Respond resp \<longrightarrow> rs_status resp = rs_status x" using res x(2) by (auto simp: with_cors_def)
    with handleUnpair_word [OF x(1)] path ok q show ?thesis by auto
  next
    case False
    then have path: "hq_path r \<noteq> ''/v1/unpair''" using rt unpair_path by auto
    have "item (ks w) = NoItem" if "item (ks w') = NoItem"
    proof (cases "rt = RPair")
      case True
      with a that handlePair_kept [of E S ?q w _ w'] show ?thesis
        by (cases "handlePair E S ?q w") (auto simp: run_route_def lift_response_def)
    next
      case False
      with run_route_ks [of rt E S ?q w] \<open>rt \<noteq> RUnpair\<close> a that show ?thesis by simp
    qed
    with path show ?thesis by auto
  qed
qed auto

theorem unpair_only_on_word_witness:
  "\<exists>res w'. ipc_serve down_env sample_server authorized_unpair paired_daemon = (res, w') \<and> item (ks w') = NoItem \<and>
     item (ks paired_daemon) \<noteq> NoItem \<and> unpair_word down_env authorized_unpair paired_daemon w'"
proof -
  obtain resp v where un: "handleUnpair down_env sample_server authorized_unpair paired_daemon = (resp, v)"
    and st: "rs_status resp = 200"
    unfolding paired_daemon_def using forced_unpair [OF authorized_asks] by blast
  obtain res w' where run: "ipc_serve down_env sample_server authorized_unpair paired_daemon = (res, w')" by fastforce
  have "w' = v" using authorized_unpair_runs [of down_env paired_daemon] un run by simp
  with handleUnpair_word [OF un] st have gone: "item (ks w') = NoItem" by blast
  have "item (ks paired_daemon) \<noteq> NoItem" by (simp add: paired_daemon_def fresh_item_def)
  with unpair_only_on_word [OF run] gone run show ?thesis by blast
qed

section \<open>Pairing\<close>

lemma pair_exchange_result:
  assumes codec: "time_codec E" and run: "pair_exchange E S base code w = (resp, w')"
  shows "db w' = db w \<and> rs_status resp \<noteq> 409 \<and>
    (rs_status resp = 200 \<longrightarrow> (\<exists>x rq. sent w' = sent w @ [rq] \<and>
       rq_body rq = Some (exchange_json \<lparr>DisplayCode = code, Device = PairDevice S,
          ReqHwFingerprint = PairFingerprint S, DevicePubkey = []\<rparr>) \<and>
       pairing_reply E ''exchange'' (server E (sent w')) = Inr x \<and>
       on_disk E w' (paired_bundle (PairFingerprint S) x))) \<and>
    (rs_status resp = 200 \<or> rs_status resp = 500 \<or> ks w' = ks w)"
proof -
  let ?rq = "\<lparr>DisplayCode = code, Device = PairDevice S, ReqHwFingerprint = PairFingerprint S, DevicePubkey = []\<rparr>"
  obtain q w1 where q: "Exchange E base ?rq w = (q, w1)" by fastforce
  note keep = Exchange_tok [OF q]
  show ?thesis
  proof (cases q)
    case (Inl e)
    with run q keep show ?thesis by (auto simp: pair_exchange_def split: if_splits)
  next
    case (Inr x)
    then have sent: "\<exists>rq. sent w1 = sent w @ [rq] \<and> rq_body rq = Some (exchange_json ?rq)"
      and reply: "pairing_reply E ''exchange'' (server E (sent w1)) = Inr x"
      using q by (auto simp: Exchange_def pairing_call_eq post_request_def split: if_splits)
    obtain z k where z: "ks_Save E (paired_bundle (PairFingerprint S) x) (ks w1) = (z, k)" by fastforce
    have w': "w' = w1\<lparr>ks := k\<rparr>" and st: "rs_status resp = (if z = None then 200 else 500)"
      using run q Inr z by (auto simp: pair_exchange_def on_ks_def split: option.splits)
    have "on_disk E w' (paired_bundle (PairFingerprint S) x)" if "z = None"
      using ks_Save_okD [OF z [unfolded that] codec] w' by (simp add: on_disk_def)
    with w' st keep sent reply show ?thesis by auto
  qed
qed

text \<open>The request that pairing sends for a code.\<close>

definition code_request :: "'e ienv_scheme \<Rightarrow> ipc_server \<Rightarrow> string \<Rightarrow> string \<Rightarrow> 'd daemon_scheme \<Rightarrow> request" where
  "code_request E S base code w = post_request (base @ ''/v1/desktop/exchange'')
     (exchange_json \<lparr>DisplayCode = code, Device = PairDevice S, ReqHwFingerprint = PairFingerprint S, DevicePubkey = []\<rparr>)
     (uuid E (uuids w))"

lemma pair_exchange_200:
  assumes run: "pair_exchange E S base code w = (resp, w')"
  shows "rs_status resp = 200 \<longleftrightarrow> (\<exists>x. sent w' = sent w @ [code_request E S base code w] \<and>
      pairing_reply E ''exchange'' (server E (sent w')) = Inr x \<and>
      fst (ks_Save E (paired_bundle (PairFingerprint S) x) (ks w)) = None)"
proof -
  let ?rq = "\<lparr>DisplayCode = code, Device = PairDevice S, ReqHwFingerprint = PairFingerprint S, DevicePubkey = []\<rparr>"
  obtain q w1 where q: "Exchange E base ?rq w = (q, w1)" by fastforce
  note keep = Exchange_tok [OF q]
  show ?thesis
  proof (cases q)
    case (Inl e)
    with run q have "w' = w1" "rs_status resp \<noteq> 200" by (auto simp: pair_exchange_def split: if_splits)
    with q Inl show ?thesis
      by (auto simp: Exchange_def pairing_call_eq after_call_def code_request_def split: if_splits)
  next
    case (Inr x)
    then have sent: "sent w1 = sent w @ [code_request E S base code w]"
      and reply: "pairing_reply E ''exchange'' (server E (sent w1)) = Inr x"
      using q by (auto simp: Exchange_def pairing_call_eq code_request_def split: if_splits)
    obtain z k where z: "ks_Save E (paired_bundle (PairFingerprint S) x) (ks w1) = (z, k)" by fastforce
    have "w' = w1\<lparr>ks := k\<rparr>" and "rs_status resp = (if z = None then 200 else 500)"
      using run q Inr z by (auto simp: pair_exchange_def on_ks_def split: option.splits)
    with sent reply z keep show ?thesis by auto
  qed
qed

lemma AlreadyPaired_frame: "AlreadyPaired E w = (p, w1) \<Longrightarrow> sent w1 = sent w \<and> uuids w1 = uuids w \<and> db w1 = db w"
  by (auto simp: AlreadyPaired_def on_ks_eq split_beta split: sum.splits)

text \<open>What a pairing request asks for, when it is one that pairing is tried for.\<close>

definition asks_pair :: "ipc_server \<Rightarrow> ipc_request \<Rightarrow> string \<Rightarrow> string \<Rightarrow> bool" where
  "asks_pair S r base code \<longleftrightarrow> hq_method r = ''POST'' \<and> PairURL S = Some base \<and> code \<noteq> [] \<and>
     (\<exists>display. Option.bind (hq_json r) (dec_pair_request []) = Some display \<and> code = TrimSpace display)"

lemma asks_pair_once: "asks_pair S r b c \<Longrightarrow> asks_pair S r base code \<Longrightarrow> b = base \<and> c = code"
  by (auto simp: asks_pair_def)

lemma handlePair_asked:
  assumes "asks_pair S r base code" and "AlreadyPaired E w = (paired, w1)"
  shows "handlePair E S r w = (if paired then (writeErr 409 ''already_paired'', w1) else pair_exchange E S base code w1)"
  using assms by (auto simp: asks_pair_def handlePair_def Let_def)

lemma handlePair_not_asked:
  assumes "\<nexists>base code. asks_pair S r base code"
  shows "\<exists>resp. handlePair E S r w = (resp, w) \<and> rs_status resp \<notin> {200, 409, 500}"
proof (cases "hq_method r = ''POST'' \<and> PairURL S \<noteq> None \<and> Option.bind (hq_json r) (dec_pair_request []) \<noteq> None")
  case True
  then obtain base display where b: "hq_method r = ''POST''" "PairURL S = Some base"
    "Option.bind (hq_json r) (dec_pair_request []) = Some display" by blast
  with assms have "TrimSpace display = []" unfolding asks_pair_def by blast
  with b show ?thesis by (simp add: handlePair_def Let_def writeErr_def writeJSON_def)
next
  case False
  then show ?thesis by (auto simp: handlePair_def writeErr_def writeJSON_def split: option.split)
qed

lemma handlePair_200:
  assumes codec: "time_codec E" and asks: "asks_pair S r base code"
    and f: "sent w1 = sent w \<and> uuids w1 = uuids w \<and> db w1 = db w" and run: "pair_exchange E S base code w1 = (resp, w')"
  shows "rs_status resp = 200 \<longleftrightarrow> (\<exists>base code x. asks_pair S r base code \<and>
    sent w' = sent w @ [code_request E S base code w] \<and>
    pairing_reply E ''exchange'' (server E (sent w')) = Inr x \<and>
    fst (ks_Save E (paired_bundle (PairFingerprint S) x) (ks w1)) = None \<and>
    on_disk E w' (paired_bundle (PairFingerprint S) x))" (is "_ \<longleftrightarrow> ?rhs")
proof -
  have rq: "code_request E S b c w1 = code_request E S b c w" for b c using f by (simp add: code_request_def)
  note ok = pair_exchange_200 [OF run]
  show ?thesis
  proof
    assume good: "rs_status resp = 200"
    with ok obtain x where x: "sent w' = sent w1 @ [code_request E S base code w1]"
      "pairing_reply E ''exchange'' (server E (sent w')) = Inr x"
      "fst (ks_Save E (paired_bundle (PairFingerprint S) x) (ks w1)) = None" by blast
    from good pair_exchange_result [OF codec run] obtain y where "pairing_reply E ''exchange'' (server E (sent w')) = Inr y"
      "on_disk E w' (paired_bundle (PairFingerprint S) y)" by blast
    with x asks rq f show ?rhs by auto
  next
    assume ?rhs
    then obtain b c x where bc: "asks_pair S r b c" and x: "sent w' = sent w @ [code_request E S b c w]"
      "pairing_reply E ''exchange'' (server E (sent w')) = Inr x"
      "fst (ks_Save E (paired_bundle (PairFingerprint S) x) (ks w1)) = None" by blast
    have "b = base" "c = code" using asks_pair_once [OF bc asks] by auto
    with x rq f show "rs_status resp = 200" using ok by auto
  qed
qed

lemma AlreadyPaired_found:
  assumes "AlreadyPaired E w = (True, w1)"
  shows "\<exists>b. on_disk E w b \<and> SessionJWT b \<noteq> []"
proof -
  obtain q k where q: "ks_Load E (ks w) = (q, k)" by fastforce
  with assms show ?thesis
    by (cases q) (auto simp: AlreadyPaired_def on_ks_def on_disk_def dest: ks_Load_InrD)
qed

text \<open>
  C39. Pairing answers 200 exactly when it was asked for with POST and a code that is not blank, no
  session was found stored, the one exchange request it sent, for the trimmed code of the request, was
  answered with an identity, and that identity, bound to this device's fingerprint, was saved; the
  keystore then holds it.  It answers 409 exactly when it was asked for with such a code and a session
  was found, and then nothing was sent.  No table changes, and except for a failed save the stored
  session does not either.
\<close>

theorem pair_outcome:
  assumes codec: "time_codec E" and run: "handlePair E S r w = (resp, w')"
    and loaded: "AlreadyPaired E w = (paired, w1)"
  shows "tables (db w') = tables (db w) \<and>
    (rs_status resp = 200 \<longleftrightarrow> (\<exists>base code x. asks_pair S r base code \<and> \<not> paired \<and>
       sent w' = sent w @ [code_request E S base code w] \<and>
       pairing_reply E ''exchange'' (server E (sent w')) = Inr x \<and>
       fst (ks_Save E (paired_bundle (PairFingerprint S) x) (ks w1)) = None \<and>
       on_disk E w' (paired_bundle (PairFingerprint S) x))) \<and>
    (rs_status resp = 409 \<longleftrightarrow> (\<exists>base code. asks_pair S r base code) \<and> paired) \<and>
    (rs_status resp = 409 \<longrightarrow> sent w' = sent w \<and> (\<exists>b. on_disk E w b \<and> SessionJWT b \<noteq> [])) \<and>
    (rs_status resp = 200 \<or> rs_status resp = 500 \<or> item (ks w') = item (ks w))"
proof -
  have k: "item (ks w1) = item (ks w)" using AlreadyPaired_item [of E w] loaded by simp
  note f = AlreadyPaired_frame [OF loaded]
  show ?thesis
  proof (cases "\<exists>base code. asks_pair S r base code")
    case asked: True
    then obtain base code where asks: "asks_pair S r base code" by blast
    note rest = handlePair_asked [OF asks loaded]
    show ?thesis
    proof (cases paired)
      case True
      with rest run have "rs_status resp = 409" "w' = w1" by (simp_all add: writeErr_def writeJSON_def)
      with True asked AlreadyPaired_found loaded k f show ?thesis by auto
    next
      case False
      with rest run have run1: "pair_exchange E S base code w1 = (resp, w')" by simp
      note res = pair_exchange_result [OF codec run1]
      have "rs_status resp \<noteq> 409" "tables (db w') = tables (db w)"
        "rs_status resp = 200 \<or> rs_status resp = 500 \<or> item (ks w') = item (ks w)"
        using res f k by auto
      with False handlePair_200 [OF codec asks f run1] show ?thesis by blast
    qed
  next
    case False
    with handlePair_not_asked [of S r E w] run show ?thesis by auto
  qed
qed

text \<open>A cloud that accepts every code.\<close>

definition pairing_env :: ienv where
  "pairing_env = calm_ienv (\<lambda>_. Reply 200 ''ok'' None)
     (\<lambda>_. Some (JObj [(''data'', JObj [(''device'', JObj [(''id'', JText ''dev''), (''organization_id'', JText ''org'')]),
        (''session'', JObj [(''token'', JText ''jwt2''), (''expires_at'', JText ''F'')]),
        (''refresh'', JObj [(''token'', JText ''r2''), (''expires_at'', JText ''F'')])])]))"

definition pair_request :: ipc_request where
  "pair_request = sample_request ''POST'' ''/v1/pair'' (Some (JObj [(''display_code'', JText ''AB'')]))"

lemma pair_code: "TrimSpace ''AB'' = ''AB''"
proof -
  have "trim_front space_encodings ''AB'' = ''AB''"
    by (subst trim_front.simps) (simp add: space_encodings_def HasPrefix_def)
  moreover have "trim_front (map rev space_encodings) ''BA'' = ''BA''"
    by (subst trim_front.simps) (simp add: space_encodings_def HasPrefix_def)
  ultimately show ?thesis by (simp add: TrimSpace_def)
qed

lemma pairing_env_reply:
  "pairing_reply pairing_env ''exchange'' (server pairing_env h) =
     Inr \<lparr>ResDeviceID = ''dev'', ResOrganizationID = ''org'', Session = \<lparr>Token = ''jwt2'', ExpiresAt = far_time\<rparr>,
       Refreshed = \<lparr>Token = ''r2'', ExpiresAt = far_time\<rparr>\<rparr>"
  by (simp add: pairing_reply_def pairing_env_def http_status_defs unmarshal_data_def
      dec_exchange_def dec_token_def dec_device_def dec_defs zero_exchange_def zero_token_def)

lemma pairing_env_simps [simp]:
  "url_ok pairing_env u" "ks_fault pairing_env k = None" "time_text pairing_env far_time = Some ''F''"
  by (simp_all add: pairing_env_def)
    (simp add: calm_ienv_def denv.defs calm_denv_def env.defs calm_env_def far_time_def zero_time_def minute_def second_def)

theorem pair_outcome_witness:
  "\<exists>resp w'. handlePair pairing_env sample_server pair_request (sample_daemon signed_in NoItem empty_store) = (resp, w') \<and>
     rs_status resp = 200 \<and> item (ks w') \<noteq> NoItem"
proof -
  let ?w = "sample_daemon signed_in NoItem empty_store"
  obtain resp w' where run: "handlePair pairing_env sample_server pair_request ?w = (resp, w')" by fastforce
  have "rs_status (fst (handlePair pairing_env sample_server pair_request ?w)) = 200"
    by (simp add: handlePair_def pair_request_def sample_request_def sample_server_def dec_pair_request_def dec_defs
        pair_code AlreadyPaired_def on_ks_def ks_Load_def unmarshal_session_def pair_exchange_def Exchange_def
        pairing_call_eq pairing_env_reply ks_Save_def bundle_json_def paired_bundle_def after_call_def)
  with run have ok: "rs_status resp = 200" by simp
  have codec: "time_codec pairing_env" by (simp add: pairing_env_def)
  obtain paired w1 where loaded: "AlreadyPaired pairing_env ?w = (paired, w1)" by fastforce
  from pair_outcome [OF codec run loaded] ok have "item (ks w') \<noteq> NoItem"
    by (auto simp: on_disk_def unmarshal_session_def)
  with run ok show ?thesis by blast
qed

end
