(* ===== verification/BootProps.thy ===== *)
theory BootProps
  imports Boot IpcProps
begin

text \<open>
  What holds of the boot: the files of the data directory stay apart, the identities survive a
  restart, a process in the pid file is not started twice, pairing on the command line is the
  pairing of the control server, and the daemon that runs is the one the properties of the
  scheduler and of the control server speak of.
\<close>

text \<open>A world in which everything works, and a first start in it.\<close>

definition calm_benv :: benv where
  "calm_benv = genv.extend calm_genv
     \<lparr>xdg_file = (\<lambda>_. Inr ''/home/u/.local/share/astery-engine-tools/.keep''), working_dir = Inr ''/'',
      uuid_parse = (\<lambda>s. None), rand_fault = (\<lambda>_. None), rand_byte = (\<lambda>n k. of_nat k), open_fault = (\<lambda>_. None),
      net_listen = (\<lambda>_. Inr 40000), pid_alive = (\<lambda>_. False), start_process = (\<lambda>n p. Inr 7)\<rparr>"

definition calm_host :: host where
  "calm_host = \<lparr>HostName = ''host'', UnameText = ''Linux'', OSName = ''linux'', ArchName = ''amd64'', CPUCount = 4,
     BuildVersion = ''0.1.0'', HashHex = (\<lambda>s. ''00''), getenv = (\<lambda>_. []), Executable = Inr ''/opt/engine-toold''\<rparr>"

definition sample_bootw :: bootw where
  "sample_bootw = media.extend (sample_media empty_store) \<lparr>rand_reads = 0, ui_done = None, ui_starts = []\<rparr>"

lemma calm_benv_simps [simp]:
  "fs_fault calm_benv k = None" "mkdir_fault calm_benv d = None" "rand_fault calm_benv n = None"
  "open_fault calm_benv p = None" "net_listen calm_benv a = Inr 40000"
  by (simp_all add: calm_benv_def genv.defs calm_genv_def menv.defs calm_menv_def denv.defs calm_denv_def env.defs calm_env_def)

section \<open>Files\<close>

lemma os_ReadFile_keeps: "os_ReadFile E p w = (r, v) \<Longrightarrow> fs_only w v \<and> files v = files w"
  unfolding os_ReadFile_def by (rule os_Open_only)

lemma os_ReadFile_calm: "fs_fault E (fs_ops w) = None \<Longrightarrow> files w p = Some c \<Longrightarrow> os_ReadFile E p w = (Inr c, fs_tick w)"
  by (simp add: os_ReadFile_def os_Open_def)

lemma os_WriteFile_only: "os_WriteFile E p c w = (r, v) \<Longrightarrow> fs_only w v"
  by (auto simp: os_WriteFile_def split: prod.splits option.splits dest!: os_Create_only io_Copy_only intro: fs_only_trans)

lemma os_WriteFile_files:
  "os_WriteFile E p c w = (r, v) \<Longrightarrow> (r = None \<longrightarrow> files v p = Some c) \<and> (\<forall>q. q \<noteq> p \<longrightarrow> files v q = files w q)"
  by (auto simp: os_WriteFile_def os_Create_def io_Copy_def split: prod.splits option.splits if_splits)

lemma os_WriteFile_calm: "(\<And>k. fs_fault E k = None) \<Longrightarrow> \<exists>v. os_WriteFile E p c w = (None, v)"
  by (simp add: os_WriteFile_def os_Create_def io_Copy_def)

section \<open>Identities\<close>

lemma hex_token: "TrimSpace (hex_EncodeToString bs) = hex_EncodeToString bs"
  by (rule TrimSpace_hex) (rule hex_text_is_hex)

lemma create_ipc_token_result:
  assumes "create_ipc_token E L w = (Inr tk, v)"
  shows "files v (IpcTokenFile L) = Some tk \<and> TrimSpace tk = tk \<and> 32 \<le> length tk"
  using assms os_WriteFile_files
  by (fastforce simp: create_ipc_token_def Let_def hex_token split: option.splits prod.splits)

lemma LoadOrCreateIPCToken_result:
  assumes "LoadOrCreateIPCToken E L w = (Inr tk, v)"
  shows "\<exists>raw. files v (IpcTokenFile L) = Some raw \<and> TrimSpace raw = tk \<and> 32 \<le> length tk"
proof -
  obtain r w1 where r: "os_ReadFile E (IpcTokenFile L) w = (r, w1)" by fastforce
  show ?thesis
  proof (cases "create_ipc_token E L w1 = (Inr tk, v)")
    case True
    with create_ipc_token_result show ?thesis by blast
  next
    case False
    with r assms obtain raw where "r = Inr raw" "tk = TrimSpace raw" "32 \<le> length tk" "v = w1"
      by (auto simp: LoadOrCreateIPCToken_def split: sum.splits if_splits)
    with r os_Open_Inr os_ReadFile_keeps [OF r] show ?thesis by (fastforce simp: os_ReadFile_def)
  qed
qed

text \<open>
  C14. The token of the control server outlives the process.  A boot that gets a token gets one
  of at least 32 characters, and the token file then holds it: whoever sends what the file
  holds as the bearer is let in.  Every later boot that finds the file as it was and can read it
  gets the same token, draws no random bytes and writes nothing.
\<close>

theorem ipc_token_persists:
  assumes boot: "LoadOrCreateIPCToken E L w = (Inr tk, v)"
  shows "32 \<le> length tk \<and>
    (\<exists>raw. files v (IpcTokenFile L) = Some raw \<and> (\<forall>S. srv_token S = tk \<longrightarrow> bearer_ok S (''Bearer '' @ raw))) \<and>
    (files v' (IpcTokenFile L) = files v (IpcTokenFile L) \<longrightarrow> fs_fault E' (fs_ops v') = None \<longrightarrow>
       LoadOrCreateIPCToken E' L v' = (Inr tk, fs_tick v'))"
proof -
  obtain raw where raw: "files v (IpcTokenFile L) = Some raw" "TrimSpace raw = tk" "32 \<le> length tk"
    using LoadOrCreateIPCToken_result [OF boot] by blast
  have "TrimPrefix (''Bearer '' @ raw) ''Bearer '' = raw" by (rule TrimPrefix_append)
  then have "bearer_ok S (''Bearer '' @ raw)" if "srv_token S = tk" for S
    using that raw by (simp add: bearer_ok_def)
  moreover have "LoadOrCreateIPCToken E' L v' = (Inr tk, fs_tick v')"
    if "files v' (IpcTokenFile L) = Some raw" "fs_fault E' (fs_ops v') = None"
    using raw by (simp add: LoadOrCreateIPCToken_def os_ReadFile_calm [OF that(2,1)])
  ultimately show ?thesis using raw by auto
qed

lemma ipc_token_calm:
  assumes "\<And>k. fs_fault E k = None" and "\<And>n. rand_fault E n = None"
  shows "\<exists>tk v. LoadOrCreateIPCToken E L w = (Inr tk, v)"
proof -
  have "\<exists>tk v. create_ipc_token E L x = (Inr tk, v)" for x
    using assms by (simp add: create_ipc_token_def Let_def os_WriteFile_def os_Create_def io_Copy_def)
  then show ?thesis by (auto simp: LoadOrCreateIPCToken_def split: sum.splits prod.splits)
qed

theorem ipc_token_persists_witness:
  "\<exists>tk v. LoadOrCreateIPCToken calm_benv (layout_of ''/d'') sample_bootw = (Inr tk, v) \<and>
     LoadOrCreateIPCToken calm_benv (layout_of ''/d'') v = (Inr tk, fs_tick v)"
proof -
  obtain tk v where run: "LoadOrCreateIPCToken calm_benv (layout_of ''/d'') sample_bootw = (Inr tk, v)"
    using ipc_token_calm [where E = calm_benv] by fastforce
  from ipc_token_persists [OF run, where v' = v and E' = calm_benv] have "LoadOrCreateIPCToken calm_benv (layout_of ''/d'') v = (Inr tk, fs_tick v)" by auto
  with run show ?thesis by blast
qed

lemma create_installation_id_result:
  assumes "create_installation_id E L w = (Inr u, v)"
  shows "files v (InstallFile L) = Some u \<and> u = uuid E (uuids w)"
  using assms os_WriteFile_files
  by (fastforce simp: create_installation_id_def new_uuid_def split: option.splits prod.splits)

text \<open>The installation id likewise, when \<open>uuid.Parse\<close> reads what \<open>String\<close> wrote.\<close>

lemma installation_id_persists:
  assumes boot: "LoadOrCreateInstallationID E L w = (Inr u, v)"
    and codec: "\<And>k. uuid_parse E (TrimSpace (uuid E k)) = Some (uuid E k)"
    and same: "files v' (InstallFile L) = files v (InstallFile L)" and calm: "fs_fault E (fs_ops v') = None"
  shows "LoadOrCreateInstallationID E L v' = (Inr u, fs_tick v')"
proof -
  obtain r w1 where r: "os_ReadFile E (InstallFile L) w = (r, w1)" by fastforce
  have "\<exists>raw. files v (InstallFile L) = Some raw \<and> uuid_parse E (TrimSpace raw) = Some u"
  proof (cases "create_installation_id E L w1 = (Inr u, v)")
    case True
    with create_installation_id_result codec show ?thesis by metis
  next
    case False
    with r boot obtain raw where "r = Inr raw" "uuid_parse E (TrimSpace raw) = Some u" "v = w1"
      by (auto simp: LoadOrCreateInstallationID_def split: sum.splits option.splits)
    with r os_Open_Inr os_ReadFile_keeps [OF r] show ?thesis by (fastforce simp: os_ReadFile_def)
  qed
  with same calm show ?thesis by (auto simp: LoadOrCreateInstallationID_def os_ReadFile_calm)
qed

text \<open>
  A read that fails for any reason is taken for a missing file: the new id is written over the
  one that is there.
\<close>

lemma installation_id_replaced:
  assumes fault: "fs_fault E (fs_ops w) = Some m" and calm: "\<And>k. fs_ops w < k \<Longrightarrow> fs_fault E k = None"
  shows "\<exists>v. LoadOrCreateInstallationID E L w = (Inr (uuid E (uuids w)), v) \<and>
    files v (InstallFile L) = Some (uuid E (uuids w))"
proof -
  have "fs_fault E (fs_ops (fs_tick w)) = None" "fs_fault E (fs_ops (fs_tick (fs_tick w))) = None"
    using calm by (simp_all add: fs_tick_def)
  then show ?thesis
    using fault by (simp add: LoadOrCreateInstallationID_def os_ReadFile_def os_Open_def create_installation_id_def
        new_uuid_def os_WriteFile_def os_Create_def io_Copy_def fs_tick_def)
qed

section \<open>Pairing\<close>

text \<open>
  C24. Pairing with \<open>--pair\<close> and pairing through the control server are the same exchange, but for
  the check that only the server makes.  Let an authorised POST to \<open>/v1/pair\<close> bring a code, and let the
  server have looked for a stored session.  If it found one it answers 409 and nothing else
  happens.  Otherwise it leaves exactly the state that the command leaves with the trimmed code,
  keystore, requests and all, and it answers 200 exactly when the command succeeds.  The command
  does not look: whether it succeeds does not depend on what the keystore holds.
\<close>

theorem cli_pair_is_ipc_pair:
  assumes admitted: "admitted S r" "hq_path r = ''/v1/pair''" and server: "S = boot_server H tk base dn i"
    and asked: "asks_pair S r base code" and checked: "AlreadyPaired E w = (paired, w1)"
    and cli: "runPair E H code dn i base w1 = (err, v)"
  shows "\<exists>resp. ipc_serve E S r w = (Respond resp, if paired then w1 else v) \<and>
    (rs_status resp = 409 \<longleftrightarrow> paired) \<and> (rs_status resp = 200 \<longleftrightarrow> \<not> paired \<and> err = None) \<and>
    (\<forall>it. fst (runPair E H code dn i base (w1\<lparr>ks := (ks w1)\<lparr>item := it\<rparr>\<rparr>)) = err)"
proof -
  have route: "mux_clean ''/v1/pair'' = ''/v1/pair''" "mux_match ''/v1/pair'' = Some RPair"
    by (simp_all add: mux_clean_def path_clean_def split_slash.simps clean_step_def mux_match_def routes_def)
  have shim: "sseQueryAuthShim r = r" using admitted(2) by (simp add: sseQueryAuthShim_def)
  obtain a u where a: "handlePair E S r w = (a, u)" by fastforce
  from ipc_serve_admitted [of S r RPair E w] admitted shim route a
  obtain resp where serve: "ipc_serve E S r w = (Respond resp, u)" "rs_status resp = rs_status a"
    by (auto simp: run_route_def lift_response_def with_cors_def)
  have free: "fst (runPair E H code dn i base (w1\<lparr>ks := (ks w1)\<lparr>item := it\<rparr>\<rparr>)) = err" for it
    using cli by (auto simp: runPair_def Exchange_def pairing_call_eq after_call_def on_ks_def ks_Save_def
        split: sum.splits prod.splits option.splits kbackend.splits if_splits)
  show ?thesis
  proof (cases paired)
    case True
    with handlePair_asked [OF asked checked] a have "a = writeErr 409 ''already_paired''" "u = w1" by simp_all
    with serve True free show ?thesis by (simp add: writeErr_def writeJSON_def)
  next
    case False
    with handlePair_asked [OF asked checked] a have run: "pair_exchange E S base code w1 = (a, u)" by simp
    have "u = v \<and> (rs_status a = 200 \<longleftrightarrow> err = None) \<and> rs_status a \<noteq> 409"
      using run cli by (auto simp: runPair_def pair_exchange_def server boot_server_def writeErr_def writeJSON_def
          split: sum.splits prod.splits option.splits if_splits)
    with serve False free show ?thesis by simp
  qed
qed

text \<open>A daemon that is not paired, a cloud that accepts the code, and a request with the server's token.\<close>

definition authorized_pair :: ipc_request where
  "authorized_pair = pair_request\<lparr>hq_header := (\<lambda>_. [])(''Authorization'' := ''Bearer secret'')\<rparr>"

theorem cli_pair_is_ipc_pair_witness:
  "\<exists>resp v. ipc_serve pairing_env (boot_server calm_host ''secret'' ''http://c'' ''d'' ''i'') authorized_pair
      (sample_daemon signed_in NoItem empty_store) = (Respond resp, v) \<and> rs_status resp = 200 \<and> item (ks v) \<noteq> NoItem"
proof -
  let ?S = "boot_server calm_host ''secret'' ''http://c'' ''d'' ''i''" and ?w = "sample_daemon signed_in NoItem empty_store"
  have S: "bearer_ok ?S = bearer_ok sample_server" "PairURL ?S = Some ''http://c''" "allowOrigin ?S = allowOrigin sample_server"
    by (simp_all add: fun_eq_iff bearer_ok_def boot_server_def sample_server_def)
  have adm: "admitted ?S authorized_pair"
    using authorized_bearer S by (simp add: admitted_def authorized_pair_def origin_ok_def pair_request_def sample_request_def)
  have path: "hq_path authorized_pair = ''/v1/pair''" by (simp add: authorized_pair_def pair_request_def sample_request_def)
  have asks: "asks_pair ?S authorized_pair ''http://c'' ''AB''"
    using pair_code S by (simp add: asks_pair_def authorized_pair_def pair_request_def sample_request_def dec_pair_request_def dec_defs)
  obtain paired w1 where ap: "AlreadyPaired pairing_env ?w = (paired, w1)" by fastforce
  then have not: "\<not> paired" and w1: "w1 = ?w\<lparr>ks := ks_tick (ks ?w)\<rparr>"
    by (simp_all add: AlreadyPaired_def on_ks_def ks_Load_def unmarshal_session_def)
  obtain err v where cli: "runPair pairing_env calm_host ''AB'' ''d'' ''i'' ''http://c'' w1 = (err, v)" by fastforce
  then have "err = None \<and> item (ks v) \<noteq> NoItem"
    by (auto simp: w1 runPair_def Exchange_def pairing_call_eq pairing_env_reply on_ks_def ks_Save_def bundle_json_def
        paired_bundle_def after_call_def)
  with cli_pair_is_ipc_pair [OF adm path refl asks ap cli] not show ?thesis by auto
qed

section \<open>The user interface process\<close>

definition ui_pid_path :: "string \<Rightarrow> string" where
  "ui_pid_path dataDir = path_join [dataDir, ''ui.pid'']"

lemma pidAlive_keeps: "pidAlive E H p w = (a, v) \<Longrightarrow> fs_only w v \<and> files v = files w"
  by (auto simp: pidAlive_def split: prod.splits sum.splits option.splits dest!: os_ReadFile_keeps)

lemma fs_only_ui: "fs_only w v \<Longrightarrow> ui_starts v = ui_starts w \<and> ui_done v = ui_done w"
  by (auto simp: fs_only_def)

lemma start_ui_result:
  assumes "start_ui E bin p w = (r, v)"
  shows "(r = None \<longrightarrow> v = w) \<and> (r \<noteq> None \<longrightarrow> ui_starts v = ui_starts w @ [bin]) \<and> ui_done v = ui_done w"
proof (cases r)
  case None
  with assms show ?thesis by (auto simp: start_ui_def split: sum.splits)
next
  case (Some pid)
  let ?w = "w\<lparr>ui_starts := ui_starts w @ [bin]\<rparr>"
  obtain e u where u: "os_WriteFile E p (itoa pid) ?w = (e, u)" by fastforce
  with assms Some have "v = u" by (auto simp: start_ui_def split: sum.splits)
  with fs_only_ui [OF os_WriteFile_only [OF u]] Some show ?thesis by simp
qed

lemma doSpawnUI_result:
  assumes run: "doSpawnUI E H dd w = (r, v)"
  shows "ui_done v = ui_done w \<and> (r = None \<longrightarrow> ui_starts v = ui_starts w) \<and>
    (r \<noteq> None \<longrightarrow> (\<exists>bin. ui_starts v = ui_starts w @ [bin]))"
proof (cases "uiSiblingPath H")
  case (Inr bin)
  obtain st w1 where st: "os_Stat E bin w = (st, w1)" by fastforce
  obtain a w2 where a: "pidAlive E H (path_join [dd, ''ui.pid'']) w1 = (a, w2)" by fastforce
  note same = fs_only_ui [OF conjunct1 [OF os_Stat_only [OF st]]] fs_only_ui [OF conjunct1 [OF pidAlive_keeps [OF a]]]
  from run Inr st a have "r = None \<and> v = w1 \<or> r = None \<and> v = w2 \<or>
      start_ui E bin (path_join [dd, ''ui.pid'']) w2 = (r, v)"
    by (auto simp: doSpawnUI_def Let_def split: if_splits)
  with same start_ui_result [of E bin "path_join [dd, ''ui.pid'']" w2 r v] show ?thesis by auto
qed (use run in \<open>simp add: doSpawnUI_def\<close>)

lemma doSpawnUI_locked:
  assumes "\<And>k. fs_fault E k = None" and "files w (ui_pid_path dd) = Some (itoa pid)"
    and "0 < pid" "pid < 2 ^ 63" "pid_alive E pid"
  shows "fst (doSpawnUI E H dd w) = None"
proof (cases "uiSiblingPath H")
  case (Inr bin)
  obtain st w1 where st: "os_Stat E bin w = (st, w1)" by fastforce
  from os_Stat_only [OF this] assms(2) have "files w1 (ui_pid_path dd) = Some (itoa pid)" by simp
  with assms Atoi_itoa [of pid] have "fst (pidAlive E H (ui_pid_path dd) w1)"
    by (simp add: pidAlive_def os_ReadFile_calm)
  then obtain w2 where "pidAlive E H (ui_pid_path dd) w1 = (True, w2)" by (metis prod.collapse)
  with Inr st show ?thesis by (simp add: doSpawnUI_def ui_pid_path_def)
qed (simp add: doSpawnUI_def)

lemma doSpawnUI_pid_file:
  assumes calm: "\<And>k. fs_fault E k = None" and run: "doSpawnUI E H dd w = (Some pid, v)"
  shows "files v (ui_pid_path dd) = Some (itoa pid)"
proof (cases "uiSiblingPath H")
  case (Inr bin)
  obtain st w1 where st: "os_Stat E bin w = (st, w1)" by fastforce
  obtain a w2 where a: "pidAlive E H (ui_pid_path dd) w1 = (a, w2)" by fastforce
  let ?u = "w2\<lparr>ui_starts := ui_starts w2 @ [bin]\<rparr>"
  obtain u where u: "os_WriteFile E (ui_pid_path dd) (itoa pid) ?u = (None, u)" using os_WriteFile_calm [OF calm] by blast
  from run Inr st a u have "v = u"
    by (auto simp: doSpawnUI_def Let_def ui_pid_path_def start_ui_def split: if_splits sum.splits)
  with os_WriteFile_files [OF u] show ?thesis by simp
qed (use run in \<open>simp add: doSpawnUI_def\<close>)

lemma spawn_locked:
  assumes calm: "\<forall>k. fs_fault E k = None" and at: "files u (ui_pid_path dd) = Some (itoa pid)" "ui_done u = None"
    and pid: "0 < pid" "pid < 2 ^ 63" "pid_alive E pid"
  shows "\<exists>u'. spawnUIOnce E H dd u = (None, u') \<and> ui_starts u' = ui_starts u"
proof -
  obtain x where "doSpawnUI E H dd u = (None, x)"
    using doSpawnUI_locked [where E = E and H = H, OF _ at(1) pid] calm by (metis prod.collapse)
  with doSpawnUI_result [OF this] at(2) show ?thesis by (simp add: spawnUIOnce_def)
qed


section \<open>The daemon that runs\<close>

text \<open>The part of the state that the identities, the listener and the user interface leave alone.\<close>

definition boot_frame :: "'b bootw_scheme \<Rightarrow> 'b bootw_scheme \<Rightarrow> bool" where
  "boot_frame w v \<longleftrightarrow> pool v = pool w \<and> db v = db w \<and> paused_flag v = paused_flag w \<and> workdirs v = workdirs w \<and>
     tok v = tok w \<and> ks v = ks w \<and> sent v = sent w"

lemma boot_frame_refl [simp]: "boot_frame w w"
  by (simp add: boot_frame_def)

lemma boot_frame_trans: "boot_frame w v \<Longrightarrow> boot_frame v u \<Longrightarrow> boot_frame w u"
  by (simp add: boot_frame_def)

lemma fs_only_boot_frame: "fs_only w v \<Longrightarrow> boot_frame w v"
  by (auto simp: fs_only_def boot_frame_def)

lemma boot_frame_update [simp]:
  "boot_frame w (w\<lparr>rand_reads := n\<rparr>)" "boot_frame w (w\<lparr>ui_done := q\<rparr>)" "boot_frame w (w\<lparr>ui_starts := l\<rparr>)"
  "boot_frame w (w\<lparr>uuids := n\<rparr>)"
  by (simp_all add: boot_frame_def)

lemma create_token_frame:
  assumes "create_ipc_token E L w = (r, v)"
  shows "boot_frame w v"
proof (cases "rand_fault E (rand_reads w)")
  case None
  let ?w = "w\<lparr>rand_reads := Suc (rand_reads w)\<rparr>"
  obtain e u where u: "os_WriteFile E (IpcTokenFile L)
      (hex_EncodeToString (map (rand_byte E (rand_reads w)) [0..<32])) ?w = (e, u)" by fastforce
  with assms None have "v = u" by (auto simp: create_ipc_token_def Let_def split: option.splits)
  with os_WriteFile_only [OF u] fs_only_boot_frame show ?thesis
    using boot_frame_trans [OF boot_frame_update(1)] by blast
qed (use assms in \<open>auto simp: create_ipc_token_def\<close>)

lemma token_frame:
  assumes "LoadOrCreateIPCToken E L w = (r, v)"
  shows "boot_frame w v"
proof -
  obtain q w1 where q: "os_ReadFile E (IpcTokenFile L) w = (q, w1)" by fastforce
  then have one: "boot_frame w w1" by (metis os_ReadFile_keeps fs_only_boot_frame)
  have "v = w1 \<or> create_ipc_token E L w1 = (r, v)"
    using assms q by (auto simp: LoadOrCreateIPCToken_def split: sum.splits if_splits)
  with one create_token_frame boot_frame_trans show ?thesis by blast
qed

lemma Listen_result:
  assumes "Listen E a p w = (r, v)"
  shows "boot_frame w v \<and> (\<forall>q. q \<noteq> p \<longrightarrow> files v q = files w q) \<and>
    (\<forall>port. r = Inr port \<longrightarrow> p \<noteq> [] \<longrightarrow> files v p = Some (itoa port))"
proof -
  have "v = w \<and> (\<forall>port. r = Inr port \<longrightarrow> p = []) \<or>
      (\<exists>port e. os_WriteFile E p (itoa port) w = (e, v) \<and> r = (case e of None \<Rightarrow> Inr port | Some x \<Rightarrow> Inl (errorf ''write port file'' x)))"
    using assms by (auto simp: Listen_def split: sum.splits if_splits prod.splits option.splits)
  then show ?thesis
    using os_WriteFile_only fs_only_boot_frame os_WriteFile_files by (fastforce split: option.splits)
qed

lemma start_ui_frame:
  assumes "start_ui E bin p w = (r, v)"
  shows "boot_frame w v \<and> (\<forall>q. q \<noteq> p \<longrightarrow> files v q = files w q)"
proof (cases "start_process E (length (ui_starts w)) bin")
  case (Inr pid)
  let ?w = "w\<lparr>ui_starts := ui_starts w @ [bin]\<rparr>"
  obtain e u where u: "os_WriteFile E p (itoa pid) ?w = (e, u)" by fastforce
  with assms Inr have "v = u" by (auto simp: start_ui_def)
  with os_WriteFile_files [OF u] boot_frame_trans [OF boot_frame_update(3) fs_only_boot_frame [OF os_WriteFile_only [OF u]]]
  show ?thesis by simp
qed (use assms in \<open>auto simp: start_ui_def\<close>)

lemma doSpawnUI_frame:
  assumes run: "doSpawnUI E H dd w = (r, v)"
  shows "boot_frame w v \<and> (\<forall>q. q \<noteq> ui_pid_path dd \<longrightarrow> files v q = files w q)"
proof (cases "uiSiblingPath H")
  case (Inr bin)
  obtain st w1 where st: "os_Stat E bin w = (st, w1)" by fastforce
  obtain a w2 where a: "pidAlive E H (ui_pid_path dd) w1 = (a, w2)" by fastforce
  from os_Stat_only [OF st] have one: "boot_frame w w1" "files w1 = files w" by (simp_all add: fs_only_boot_frame)
  from pidAlive_keeps [OF a] have two: "boot_frame w1 w2" "files w2 = files w1" by (simp_all add: fs_only_boot_frame)
  from run Inr st a have "v = w1 \<or> v = w2 \<or> start_ui E bin (ui_pid_path dd) w2 = (r, v)"
    by (auto simp: doSpawnUI_def Let_def ui_pid_path_def split: if_splits)
  with one two boot_frame_trans [OF one(1) two(1)] boot_frame_trans start_ui_frame [of E bin "ui_pid_path dd" w2 r v]
  show ?thesis by auto
qed (use run in \<open>simp add: doSpawnUI_def\<close>)

lemma spawn_frame:
  "boot_frame w (snd (spawnUIOnce E H dd w)) \<and>
   (\<forall>q. q \<noteq> ui_pid_path dd \<longrightarrow> files (snd (spawnUIOnce E H dd w)) q = files w q)"
proof (cases "ui_done w")
  case None
  obtain r v where "doSpawnUI E H dd w = (r, v)" by fastforce
  with None doSpawnUI_frame [OF this] show ?thesis by (simp add: spawnUIOnce_def boot_frame_def)
qed (simp add: spawnUIOnce_def)

text \<open>The files of one data directory have different names.\<close>

lemma layout_apart:
  assumes "Resolve E ov = Inr L"
  shows "IpcTokenFile L \<noteq> IpcPortFile L" "IpcTokenFile L \<noteq> ui_pid_path (Root L)" "IpcPortFile L \<noteq> ui_pid_path (Root L)"
    "InstallFile L \<noteq> IpcTokenFile L" "InstallFile L \<noteq> IpcPortFile L" "IpcPortFile L \<noteq> []"
proof -
  have root: "r \<noteq> []" if "data_root E ov = Inr r" for r
    using that path_clean_not_nil by (auto simp: data_root_def path_dir_def split: if_splits sum.splits)
  have abs: "r \<noteq> []" if "path_abs E p = Inr r" "p \<noteq> []" for r p
    using that path_clean_not_nil by (auto simp: path_abs_def path_join_def Let_def split: if_splits sum.splits)
  obtain r where L: "L = layout_of r" "r \<noteq> []"
    using assms root abs by (auto simp: Resolve_def split: sum.splits)
  have base: "base_name (IpcTokenFile L) = ''ipc.token''" "base_name (IpcPortFile L) = ''ipc.port''"
    "base_name (InstallFile L) = ''installation.id''" "base_name (ui_pid_path (Root L)) = ''ui.pid''"
    by (simp_all add: L layout_of_def ui_pid_path_def base_name_join plain_name_def)
  then show "IpcTokenFile L \<noteq> IpcPortFile L" "IpcTokenFile L \<noteq> ui_pid_path (Root L)" "IpcPortFile L \<noteq> ui_pid_path (Root L)"
    "InstallFile L \<noteq> IpcTokenFile L" "InstallFile L \<noteq> IpcPortFile L" by auto
  show "IpcPortFile L \<noteq> []" using base(2) by (auto simp: base_name_def)
qed

text \<open>The tail of the boot: the token, the listener and the user interface.\<close>

lemma boot_serve_result:
  assumes run: "boot_serve E H F L i D w = (Running S port D', v)" and lay: "Resolve E ov = Inr L"
  shows "D' = D \<and> boot_frame w v \<and> 32 \<le> length (srv_token S) \<and>
    (\<exists>raw. files v (IpcTokenFile L) = Some raw \<and> bearer_ok S (''Bearer '' @ raw)) \<and>
    files v (IpcPortFile L) = Some (itoa port)"
proof -
  obtain tk w1 where tk: "LoadOrCreateIPCToken E L w = (Inr tk, w1)"
    using run by (auto simp: boot_serve_def split: prod.splits sum.splits)
  obtain p w2 where p: "Listen E (ListenAddr F) (IpcPortFile L) w1 = (Inr p, w2)"
    using run tk by (auto simp: boot_serve_def split: prod.splits sum.splits)
  have S: "D' = D" "port = p" "S = boot_server H tk (NewPairingClient (CloudURL F)) (FlagDisplayName F) i"
    and v: "v = (if WithUI F then snd (spawnUIOnce E H (Root L) w2) else w2)"
    using run tk p by (simp_all add: boot_serve_def split: if_splits)
  note apart = layout_apart [OF lay]
  obtain raw where raw: "files w1 (IpcTokenFile L) = Some raw" "TrimSpace raw = tk" "32 \<le> length tk"
    using LoadOrCreateIPCToken_result [OF tk] by blast
  from Listen_result [OF p] raw apart
  have l: "boot_frame w1 w2" "files w2 (IpcTokenFile L) = Some raw" "files w2 (IpcPortFile L) = Some (itoa p)" by auto
  have ui: "boot_frame w2 v" "files v (IpcTokenFile L) = Some raw" "files v (IpcPortFile L) = Some (itoa p)"
    using l v spawn_frame [of w2 E H "Root L"] apart by auto
  have "bearer_ok S (''Bearer '' @ raw)"
    unfolding bearer_ok_def TrimPrefix_append raw S by (simp add: boot_server_def)
  with ui S raw boot_frame_trans [OF boot_frame_trans [OF token_frame [OF tk] l(1)] ui(1)]
  show ?thesis by (simp add: boot_server_def)
qed

lemma Locate_frame: "boot_frame w (snd (Locate E t w))"
  by (auto simp: Locate_def discoverFFmpeg_def run_command_def boot_frame_def split: option.splits prod.splits sum.splits)

lemma make_dirs_result: "make_dirs E ds w = (None, v) \<Longrightarrow> v = w\<lparr>workdirs := workdirs w \<union> set ds\<rparr>"
proof (induction ds arbitrary: w)
  case (Cons d ds)
  then have "make_dirs E ds (w\<lparr>workdirs := insert d (workdirs w)\<rparr>) = (None, v)"
    by (auto simp: os_MkdirAll_def split: option.splits)
  from Cons.IH [OF this] show ?case by simp
qed simp

lemma boot_session_keeps [simp]:
  "pool (boot_session E b w) = pool w" "db (boot_session E b w) = db w" "workdirs (boot_session E b w) = workdirs w"
  "paused_flag (boot_session E b w) = paused_flag w"
  by (auto simp: boot_session_def on_ks_def SetBundle_def split: prod.splits sum.splits)

lemma boot_session_loaded:
  "ks_Load E (ks w) = (Inr x, k) \<Longrightarrow> cachedKnown (tok (boot_session E b w)) \<and> cached (tok (boot_session E b w)) = x"
  by (simp add: boot_session_def on_ks_def SetBundle_def split: prod.splits)

lemma swept:
  assumes "fst (RecoverOrphaned E m s) = Inr n"
  shows "\<not> has_row j StatusRunning (snd (RecoverOrphaned E m s))"
proof -
  obtain kind msg where "failActive E [StatusRunning] kind msg s = (Inr n, snd (RecoverOrphaned E m s))"
    using assms by (auto simp: RecoverOrphaned_def Let_def) (metis prod.collapse)+
  then obtain now where "jobs (snd (RecoverOrphaned E m s)) = map (fail_row [StatusRunning] now) (jobs s)"
    using failActive_jobs by blast
  then show ?thesis by (auto simp: has_row_def fail_row_def status_defs)
qed

lemma boot_daemon_result:
  fixes w v :: "'b bootw_scheme"
  assumes run: "boot_daemon E H F L i w = (Running S port D, v)" and lay: "Resolve E ov = Inr L"
  shows "boot_registry E (Some (DepCloud D)) = Some (DepRegistry D) \<and> DepBaseTmp D = Tmp L \<and> HasAuth D \<and>
    pool v = NewManager zero_limits \<and> paused_flag v = paused_flag w \<and> workdirs v = workdirs w \<and>
    db v = snd (RecoverOrphaned E ReasonOrphanedAfterRestart (db w)) \<and>
    (\<forall>x k. ks_Load E (ks w) = (Inr x, k) \<longrightarrow> cachedKnown (tok v) \<and> cached (tok v) = x) \<and>
    32 \<le> length (srv_token S) \<and>
    (\<exists>raw. files v (IpcTokenFile L) = Some raw \<and> bearer_ok S (''Bearer '' @ raw)) \<and>
    files v (IpcPortFile L) = Some (itoa port)"
proof -
  let ?b = "NewPairingClient (CloudURL F)" and ?c = "New (CloudURL F) (HardwareFingerprint H)"
  let ?w2 = "snd (on_db (RecoverOrphaned E ReasonOrphanedAfterRestart) (boot_session E ?b w))"
  define w3 where "w3 = (snd (Locate E ''ffmpeg'' ?w2))\<lparr>pool := NewManager zero_limits\<rparr>"
  obtain r :: "'b bootw_scheme registry" where r: "boot_registry E (Some ?c) = Some r" using boot_registry_made by blast
  let ?D = "\<lparr>DepRegistry = r, DepCloud = ?c, DepBaseTmp = Tmp L, HasAuth = True\<rparr>"
  have serve: "boot_serve E H F L i ?D w3 = (Running S port D, v)"
    using run r by (simp add: boot_daemon_def Let_def w3_def split: option.splits)
  note res = boot_serve_result [OF serve lay]
  have "boot_frame ?w2 (snd (Locate E ''ffmpeg'' ?w2))" by (rule Locate_frame)
  then have w3: "pool w3 = NewManager zero_limits" "paused_flag w3 = paused_flag w" "workdirs w3 = workdirs w"
    "db w3 = snd (RecoverOrphaned E ReasonOrphanedAfterRestart (db w))" "tok w3 = tok (boot_session E ?b w)"
    by (simp_all add: w3_def boot_frame_def on_db_eq)
  with res r boot_session_loaded [of E w _ _ ?b] show ?thesis by (auto simp: boot_frame_def)
qed

lemma installation_frame:
  assumes "LoadOrCreateInstallationID E L w = (r, v)"
  shows "boot_frame w v"
proof -
  obtain q w1 where q: "os_ReadFile E (InstallFile L) w = (q, w1)" by fastforce
  then have one: "boot_frame w w1" by (metis os_ReadFile_keeps fs_only_boot_frame)
  obtain e u where u: "os_WriteFile E (InstallFile L) (uuid E (uuids w1)) (w1\<lparr>uuids := Suc (uuids w1)\<rparr>) = (e, u)"
    by fastforce
  have "v = w1 \<or> v = u"
    using assms q u
    by (auto simp: LoadOrCreateInstallationID_def create_installation_id_def new_uuid_def
        split: sum.splits option.splits prod.splits)
  with one boot_frame_trans [OF one boot_frame_trans [OF boot_frame_update(4) fs_only_boot_frame [OF os_WriteFile_only [OF u]]]]
  show ?thesis by auto
qed

lemma boot_running:
  assumes run: "boot E H F w = (Running S port D, v)"
  shows "\<exists>L. Resolve E (DataDir F) = Inr L \<and> DepBaseTmp D = Tmp L \<and> Tmp L \<in> workdirs v \<and>
    boot_registry E (Some (DepCloud D)) = Some (DepRegistry D) \<and>
    pool v = NewManager zero_limits \<and> \<not> paused_flag v \<and> HasAuth D \<and>
    (\<forall>x k. ks_Load E (ks w) = (Inr x, k) \<longrightarrow> cachedKnown (tok v) \<and> cached (tok v) = x) \<and>
    32 \<le> length (srv_token S) \<and> (\<exists>raw. files v (IpcTokenFile L) = Some raw \<and> bearer_ok S (''Bearer '' @ raw)) \<and>
    files v (IpcPortFile L) = Some (itoa port) \<and>
    db v = snd (RecoverOrphaned E ReasonOrphanedAfterRestart (db w)) \<and>
    (\<forall>n j. fst (RecoverOrphaned E ReasonOrphanedAfterRestart (db w)) = Inr n \<longrightarrow> \<not> has_row j StatusRunning (db v))"
proof -
  obtain L where L: "Resolve E (DataDir F) = Inr L" using run by (auto simp: boot_def split: sum.splits)
  obtain w1 where w1: "EnsureLayout E L (fresh_process w) = (None, w1)"
    using run L by (auto simp: boot_def split: prod.splits option.splits)
  obtain i w2 where w2: "LoadOrCreateInstallationID E L w1 = (Inr i, w2)"
    using run L w1 by (auto simp: boot_def split: prod.splits sum.splits)
  have d: "boot_daemon E H F L i w2 = (Running S port D, v)"
    using run L w1 w2 by (auto simp: boot_def split: if_splits prod.splits option.splits)
  have "Tmp L \<in> workdirs w1" "ks w1 = ks w" "db w1 = db w" "\<not> paused_flag w1"
    using make_dirs_result [OF w1 [unfolded EnsureLayout_def]] by (simp_all add: fresh_process_def)
  with installation_frame [OF w2] have "Tmp L \<in> workdirs w2" "ks w2 = ks w" "db w2 = db w" "\<not> paused_flag w2"
    by (simp_all add: boot_frame_def)
  with boot_daemon_result [OF d L] L swept [of E ReasonOrphanedAfterRestart "db w"] show ?thesis by auto
qed

text \<open>
  C8. A boot that comes up is ready.  The scheduler has a pool of free slots with the default
  limits, is not paused, works below the data directory in a directory that was made, and has the
  executors of the daemon on the cloud the flags name; the session the keystore gives is the
  token source's; the control server has a token of at least 32 characters that the token file
  gives, and the port file holds its port.  The tables are those the orphan sweep leaves, so
  when the sweep succeeds no job is running.
\<close>

theorem boot_ready:
  assumes run: "boot E H F w = (Running S port D, v)"
  shows "\<exists>L. Resolve E (DataDir F) = Inr L \<and> DepBaseTmp D = Tmp L \<and> Tmp L \<in> workdirs v \<and>
    boot_registry E (Some (DepCloud D)) = Some (DepRegistry D) \<and>
    pool v = NewManager zero_limits \<and> \<not> paused_flag v \<and> HasAuth D \<and>
    (\<forall>x k. ks_Load E (ks w) = (Inr x, k) \<longrightarrow> cachedKnown (tok v) \<and> cached (tok v) = x) \<and>
    32 \<le> length (srv_token S) \<and> (\<exists>raw. files v (IpcTokenFile L) = Some raw \<and> bearer_ok S (''Bearer '' @ raw)) \<and>
    files v (IpcPortFile L) = Some (itoa port) \<and>
    db v = snd (RecoverOrphaned E ReasonOrphanedAfterRestart (db w)) \<and>
    (\<forall>n j. fst (RecoverOrphaned E ReasonOrphanedAfterRestart (db w)) = Inr n \<longrightarrow> \<not> has_row j StatusRunning (db v))"
  by (rule boot_running [OF run])

section \<open>The daemon comes up\<close>

lemma make_dirs_calm: "(\<And>d. mkdir_fault E d = None) \<Longrightarrow> \<exists>v. make_dirs E ds w = (None, v)"
  by (induction ds arbitrary: w) (simp_all add: os_MkdirAll_def)

lemma installation_id_calm:
  assumes "\<And>k. fs_fault E k = None"
  shows "\<exists>u v. LoadOrCreateInstallationID E L w = (Inr u, v)"
proof -
  have "\<exists>u v. create_installation_id E L x = (Inr u, v)" for x
    using assms by (simp add: create_installation_id_def new_uuid_def os_WriteFile_def os_Create_def io_Copy_def)
  then show ?thesis by (auto simp: LoadOrCreateInstallationID_def split: sum.splits option.splits prod.splits)
qed

lemma Listen_calm:
  assumes "\<And>k. fs_fault E k = None" and "listen_address a = Inr addr" and "net_listen E addr = Inr port"
  shows "\<exists>v. Listen E a p w = (Inr port, v)"
  using assms by (simp add: Listen_def os_WriteFile_def os_Create_def io_Copy_def)

lemma boot_serve_calm:
  assumes fs: "\<And>k. fs_fault E k = None" and rand: "\<And>n. rand_fault E n = None"
    and addr: "listen_address (ListenAddr F) = Inr a" and port: "net_listen E a = Inr port"
  shows "\<exists>S v. boot_serve E H F L i D w = (Running S port D, v)"
proof -
  obtain tk w1 where tk: "LoadOrCreateIPCToken E L w = (Inr tk, w1)" using ipc_token_calm [OF fs rand] by blast
  obtain w2 where "Listen E (ListenAddr F) (IpcPortFile L) w1 = (Inr port, w2)" using Listen_calm [OF fs addr port] by blast
  with tk show ?thesis by (simp add: boot_serve_def)
qed

lemma boot_up:
  fixes w :: "'b bootw_scheme"
  assumes fs: "\<And>k. fs_fault E k = None" "\<And>d. mkdir_fault E d = None" and rand: "\<And>n. rand_fault E n = None"
    and opens: "open_fault E (JobsDB L) = None" and dir: "Resolve E (DataDir F) = Inr L"
    and addr: "listen_address (ListenAddr F) = Inr a" and port: "net_listen E a = Inr port"
    and no_pair: "PairCode F = []"
  shows "\<exists>S D v. boot E H F w = (Running S port D, v)"
proof -
  obtain w1 where w1: "EnsureLayout E L (fresh_process w) = (None, w1)"
    unfolding EnsureLayout_def using make_dirs_calm [OF fs(2)] by blast
  obtain i w2 where w2: "LoadOrCreateInstallationID E L w1 = (Inr i, w2)" using installation_id_calm [OF fs(1)] by blast
  obtain r :: "'b bootw_scheme registry" where r: "boot_registry E (Some (New (CloudURL F) (HardwareFingerprint H))) = Some r"
    using boot_registry_made by blast
  have "\<exists>S D v. boot_daemon E H F L i w2 = (Running S port D, v)"
    by (simp add: boot_daemon_def Let_def opens r) (meson boot_serve_calm [OF fs(1) rand addr port])
  then show ?thesis using w1 w2 by (simp add: boot_def dir no_pair)
qed

lemma sample_dir: "\<exists>L. Resolve calm_benv (DataDir (default_flags calm_host)) = Inr L"
  by (simp add: Resolve_def data_root_def default_flags_def calm_benv_def genv.defs path_abs_def split: if_splits)

lemma sample_addr: "listen_address (ListenAddr (default_flags calm_host)) = Inr ''127.0.0.1:0''"
  by (simp add: default_flags_def listen_address_def HasPrefix_def)

lemma sample_boot: "\<exists>S D v. boot calm_benv calm_host (default_flags calm_host) sample_bootw = (Running S 40000 D, v)"
proof -
  obtain L where L: "Resolve calm_benv (DataDir (default_flags calm_host)) = Inr L" using sample_dir by blast
  show ?thesis by (rule boot_up [OF _ _ _ _ L sample_addr]) (simp_all add: default_flags_def)
qed

text \<open>
  C23. The daemon comes up whenever its files, its random source, the opening of the database and
  the listener work, with no \<open>--pair\<close> on the command line.  Nothing else can stop it: not a
  keystore that is locked or empty, not a sweep that fails, not a missing ffmpeg, not a missing
  or broken user interface, not the cloud.
\<close>

theorem boot_comes_up:
  fixes w :: "'b bootw_scheme"
  assumes fs: "\<And>k. fs_fault E k = None" "\<And>d. mkdir_fault E d = None" and rand: "\<And>n. rand_fault E n = None"
    and opens: "open_fault E (JobsDB L) = None" and dir: "Resolve E (DataDir F) = Inr L"
    and addr: "listen_address (ListenAddr F) = Inr a" and port: "net_listen E a = Inr port"
    and no_pair: "PairCode F = []"
  shows "\<exists>S D v. boot E H F w = (Running S port D, v)"
  by (rule boot_up [OF assms])

theorem boot_comes_up_witness:
  "\<exists>S D v. boot calm_benv calm_host (default_flags calm_host) (sample_bootw\<lparr>ui_starts := [''x'']\<rparr>) = (Running S 40000 D, v)"
proof -
  obtain L where L: "Resolve calm_benv (DataDir (default_flags calm_host)) = Inr L" using sample_dir by blast
  show ?thesis by (rule boot_comes_up [OF _ _ _ _ L sample_addr]) (simp_all add: default_flags_def)
qed

theorem boot_ready_witness:
  "\<exists>S D v. boot calm_benv calm_host (default_flags calm_host) sample_bootw = (Running S 40000 D, v) \<and>
     pool v = NewManager zero_limits \<and> 32 \<le> length (srv_token S)"
proof -
  obtain S and D :: "bootw sched_deps" and v where
    run: "boot calm_benv calm_host (default_flags calm_host) sample_bootw = (Running S 40000 D, v)"
    using sample_boot by blast
  from boot_ready [OF this] run show ?thesis by auto
qed

lemma sample_spawn:
  "\<exists>v. spawnUIOnce calm_benv calm_host ''/d'' (sample_bootw\<lparr>files := (\<lambda>_. Some ''x'')\<rparr>) = (Some 7, v)"
proof -
  obtain bin where bin: "uiSiblingPath calm_host = Inr bin" by (simp add: uiSiblingPath_def calm_host_def)
  have "Atoi ''x'' = None" by (simp add: Atoi_def all_digits_def HasPrefix_def is_decimal_def less_eq_char_def)
  then show ?thesis
    by (simp add: spawnUIOnce_def doSpawnUI_def bin os_Stat_def stat_error_def pidAlive_def os_ReadFile_def os_Open_def
        start_ui_def sample_bootw_def media.defs fs_tick_def)
      (simp add: calm_benv_def genv.defs)
qed


end
