(* ===== verification/Workers.thy ===== *)
theory Workers
  imports Wired
begin

text \<open>
  The goroutine of a job, \<open>runOne\<close> and the \<open>upsertJobForWorkload\<close> it starts with
  (\<open>internal/runtime/scheduler.go\<close>), one database statement, request or call at a time: between two
  of its steps the poll loop, the other job, the heartbeats, the control server and a signal do
  theirs.  Theory Scheduler has the same code in one piece.
\<close>

section \<open>The steps of a job goroutine\<close>

text \<open>The terminal reports, and what is left to write when one was sent.\<close>

datatype report =
    ReportComplete "(string \<times> json) list"
  | ReportFail string bool
  | ReportSurrender string

record closing =
  cl_job :: string
  cl_attempt :: nat
  cl_status :: string
  cl_outcome :: string
  cl_msg :: string

text \<open>
  Where the goroutine stands.  Up to \<open>Settling\<close> it is inside \<open>upsertJobForWorkload\<close>: \<open>Absent\<close> and
  \<open>Found\<close> are its two lookups, \<open>Settling\<close> its exits with \<open>ok = false\<close>.  \<open>Cleaning\<close> and
  \<open>Stopping\<close> are the deferred calls, the last deferred first.
\<close>

datatype stage =
    Claimed
  | Absent
  | Found string
  | Renewed string
  | Settling report
  | Prepared string int
  | Marked string int
  | Started string nat
  | Refused string nat gerror
  | Ready string nat job_handle
  | Ran string nat job_handle "gerror option"
  | Reported "job_handle option" closing
  | Recorded "job_handle option" closing
  | Cleaning job_handle
  | Stopping
  | Returned

definition send_report ::
  "'e env_scheme \<Rightarrow> 'x sched_deps \<Rightarrow> workload \<Rightarrow> lease_dto \<Rightarrow> report \<Rightarrow> 'd daemon_scheme \<Rightarrow> 'd daemon_scheme" where
  "send_report E D wl lease r w =
     (case r of
        ReportComplete sm \<Rightarrow> snd (Complete E (DepCloud D) (wl_ID wl) (LeaseTok lease) sm w)
      | ReportFail m retry \<Rightarrow> snd (Fail E (DepCloud D) (wl_ID wl) (LeaseTok lease) m retry w)
      | ReportSurrender m \<Rightarrow> snd (Surrender E (DepCloud D) (wl_ID wl) (LeaseTok lease) m w))"

definition look_up :: "'e denv_scheme \<Rightarrow> workload \<Rightarrow> 'd daemon_scheme \<Rightarrow> stage \<times> 'd daemon_scheme" where
  "look_up E wl w =
     (case on_db (GetByWorkloadID E (wl_ID wl)) w of
        (Inl e, w1) \<Rightarrow>
          (if \<not> errors_is e ErrNotFound then (Settling (ReportSurrender ''store_error''), w1) else (Absent, w1))
      | (Inr existing, w1) \<Rightarrow>
          (if job_status existing = StatusQueued \<or> job_status existing = StatusRunning
           then (Found (jid existing), w1)
           else if job_status existing = StatusSucceeded
           then (Settling (ReportComplete
             [(''executor_id'', JText []), (''local_status'', JText ''already_succeeded'')]), w1)
           else (Settling (ReportFail (''local_already_attempted: '' @ job_status existing) False), w1)))"

definition insert_job ::
  "'e denv_scheme \<Rightarrow> workload \<Rightarrow> lease_dto \<Rightarrow> 'd daemon_scheme \<Rightarrow> stage \<times> 'd daemon_scheme" where
  "insert_job E wl lease w =
     (let (jobID, w1) = new_uuid E w in
      case on_db (CreateJob E (new_job_input E jobID wl lease)) w1 of
        (Inl e, w2) \<Rightarrow> (Settling (ReportSurrender ''store_error''), w2)
      | (Inr u, w2) \<Rightarrow> (Prepared jobID 1, w2))"

definition renew_lease ::
  "'e denv_scheme \<Rightarrow> lease_dto \<Rightarrow> string \<Rightarrow> 'd daemon_scheme \<Rightarrow> stage \<times> 'd daemon_scheme" where
  "renew_lease E lease jobID w =
     (case on_db (UpdateLease E jobID (LeaseTok lease) (LeaseExpires lease)) w of
        (Inl e, w1) \<Rightarrow> (Settling (ReportSurrender ''store_error''), w1)
      | (Inr u, w1) \<Rightarrow> (Renewed jobID, w1))"

definition count_attempts :: "'e denv_scheme \<Rightarrow> string \<Rightarrow> 'd daemon_scheme \<Rightarrow> stage \<times> 'd daemon_scheme" where
  "count_attempts E jobID w =
     (case on_db (AttemptCount E jobID) w of
        (r, w1) \<Rightarrow> (Prepared jobID ((case r of Inl _ \<Rightarrow> 0 | Inr n \<Rightarrow> n) + 1), w1))"

definition open_attempt :: "'e denv_scheme \<Rightarrow> string \<Rightarrow> int \<Rightarrow> 'd daemon_scheme \<Rightarrow> stage \<times> 'd daemon_scheme" where
  "open_attempt E jobID n w =
     (case on_db (StartAttempt E jobID n) w of
        (r, w1) \<Rightarrow> (Started jobID (case r of Inl _ \<Rightarrow> 0 | Inr i \<Rightarrow> i), w1))"

definition make_handle ::
  "'e denv_scheme \<Rightarrow> 'x sched_deps \<Rightarrow> workload \<Rightarrow> lease_dto \<Rightarrow> string \<Rightarrow> nat \<Rightarrow> 'd daemon_scheme \<Rightarrow>
     stage \<times> 'd daemon_scheme" where
  "make_handle E D wl lease jobID attemptID w =
     (case NewJobHandle E D jobID wl lease w of
        (Inl e, w1) \<Rightarrow> (Refused jobID attemptID e, w1)
      | (Inr h, w1) \<Rightarrow> (Ready jobID attemptID h, w1))"

definition failed_closing :: "string \<Rightarrow> nat \<Rightarrow> gerror \<Rightarrow> closing" where
  "failed_closing jobID attemptID e = \<lparr>cl_job = jobID, cl_attempt = attemptID, cl_status = StatusFailed,
     cl_outcome = ''failed'', cl_msg = err_text e\<rparr>"

definition succeeded_closing :: "string \<Rightarrow> nat \<Rightarrow> closing" where
  "succeeded_closing jobID attemptID = \<lparr>cl_job = jobID, cl_attempt = attemptID, cl_status = StatusSucceeded,
     cl_outcome = ''succeeded'', cl_msg = []\<rparr>"

definition result_report ::
  "('d daemon_scheme) executor \<Rightarrow> workload \<Rightarrow> gerror option \<Rightarrow> 'd daemon_scheme \<Rightarrow> report" where
  "result_report ex wl res w =
     (case res of
        Some e \<Rightarrow> ReportFail (err_text e) (\<not> ctx_done w)
      | None \<Rightarrow> ReportComplete [(''executor_id'', JText (ex_ID ex)),
          (''executor_version'', JText (duration_text (Duration (ex_Estimate ex wl))))])"

definition result_closing :: "string \<Rightarrow> nat \<Rightarrow> gerror option \<Rightarrow> closing" where
  "result_closing jobID attemptID res =
     (case res of Some e \<Rightarrow> failed_closing jobID attemptID e | None \<Rightarrow> succeeded_closing jobID attemptID)"

fun advance ::
  "'e denv_scheme \<Rightarrow> ('d daemon_scheme) sched_deps \<Rightarrow> ('d daemon_scheme) executor \<Rightarrow> workload \<Rightarrow> lease_dto \<Rightarrow>
     stage \<Rightarrow> 'd daemon_scheme \<Rightarrow> stage \<times> 'd daemon_scheme" where
  "advance E D ex wl lease Claimed w = look_up E wl w"
| "advance E D ex wl lease Absent w = insert_job E wl lease w"
| "advance E D ex wl lease (Found jobID) w = renew_lease E lease jobID w"
| "advance E D ex wl lease (Renewed jobID) w = count_attempts E jobID w"
| "advance E D ex wl lease (Settling r) w = (Returned, send_report E D wl lease r w)"
| "advance E D ex wl lease (Prepared jobID n) w =
     (Marked jobID n, snd (on_db (UpdateStatus E jobID StatusRunning) w))"
| "advance E D ex wl lease (Marked jobID n) w = open_attempt E jobID n w"
| "advance E D ex wl lease (Started jobID attemptID) w = make_handle E D wl lease jobID attemptID w"
| "advance E D ex wl lease (Refused jobID attemptID e) w =
     (Reported None (failed_closing jobID attemptID e),
      send_report E D wl lease (ReportFail (''job handle: '' @ err_text e) False) w)"
| "advance E D ex wl lease (Ready jobID attemptID h) w =
     (case ex_Execute ex h w of (res, w1) \<Rightarrow> (Ran jobID attemptID h res, w1))"
| "advance E D ex wl lease (Ran jobID attemptID h res) w =
     (Reported (Some h) (result_closing jobID attemptID res),
      send_report E D wl lease (result_report ex wl res w) w)"
| "advance E D ex wl lease (Reported jh c) w =
     (Recorded jh c, snd (on_db (UpdateStatus E (cl_job c) (cl_status c)) w))"
| "advance E D ex wl lease (Recorded jh c) w =
     (case jh of None \<Rightarrow> Stopping | Some h \<Rightarrow> Cleaning h,
      snd (on_db (FinishAttempt E (cl_attempt c) (cl_outcome c) (cl_msg c)) w))"
| "advance E D ex wl lease (Cleaning h) w = (Stopping, Cleanup E h w)"
| "advance E D ex wl lease Stopping w = (Returned, w)"
| "advance E D ex wl lease Returned w = (Returned, w)"

section \<open>The goroutine on its own\<close>

fun advances ::
  "nat \<Rightarrow> 'e denv_scheme \<Rightarrow> ('d daemon_scheme) sched_deps \<Rightarrow> ('d daemon_scheme) executor \<Rightarrow> workload \<Rightarrow> lease_dto \<Rightarrow>
     stage \<times> 'd daemon_scheme \<Rightarrow> stage \<times> 'd daemon_scheme" where
  "advances 0 E D ex wl lease p = p"
| "advances (Suc n) E D ex wl lease p = advances n E D ex wl lease (advance E D ex wl lease (fst p) (snd p))"

lemma advances_add: "advances (m + n) E D ex wl lease p = advances n E D ex wl lease (advances m E D ex wl lease p)"
  by (induction m arbitrary: p) simp_all

lemma advances_returned [simp]: "advances n E D ex wl lease (Returned, w) = (Returned, w)"
  by (induction n) simp_all

text \<open>How many steps are left at most.\<close>

fun stages_left :: "stage \<Rightarrow> nat" where
  "stages_left Claimed = 12"
| "stages_left (Found _) = 11"
| "stages_left Absent = 11"
| "stages_left (Renewed _) = 10"
| "stages_left (Settling _) = 1"
| "stages_left (Prepared _ _) = 9"
| "stages_left (Marked _ _) = 8"
| "stages_left (Started _ _) = 7"
| "stages_left (Refused _ _ _) = 5"
| "stages_left (Ready _ _ _) = 6"
| "stages_left (Ran _ _ _ _) = 5"
| "stages_left (Reported _ _) = 4"
| "stages_left (Recorded _ _) = 3"
| "stages_left (Cleaning _) = 2"
| "stages_left Stopping = 1"
| "stages_left Returned = 0"

lemmas upsert_stage_defs = look_up_def insert_job_def renew_lease_def count_attempts_def
lemmas run_stage_defs = open_attempt_def make_handle_def

lemma stages_left_0: "stages_left st = 0 \<longleftrightarrow> st = Returned"
  by (cases st) simp_all

lemma advance_closer:
  assumes "st \<noteq> Returned"
  shows "stages_left (fst (advance E D ex wl lease st w)) < stages_left st"
  using assms
  by (cases st) (auto simp: upsert_stage_defs run_stage_defs Let_def split: prod.split sum.split option.split)

lemma advances_return: "stages_left st \<le> n \<Longrightarrow> fst (advances n E D ex wl lease (st, w)) = Returned"
proof (induction n arbitrary: st w)
  case (Suc n)
  obtain st' w' where a: "advance E D ex wl lease st w = (st', w')" by fastforce
  show ?case
  proof (cases "st = Returned")
    case False
    from advance_closer [OF this, of E D ex wl lease w] a Suc.prems have "stages_left st' \<le> n" by simp
    with a Suc.IH show ?thesis by simp
  qed (simp only: advances_returned fst_conv)
qed (simp add: stages_left_0)

lemma advances_more:
  assumes "advances m E D ex wl lease p = (Returned, w)" and "m \<le> n"
  shows "advances n E D ex wl lease p = (Returned, w)"
  using advances_add [of m "n - m" E D ex wl lease p] assms by simp


lemma finishing:
  "advances 4 E D ex wl lease (Reported jh c, w) =
     (Returned, case jh of None \<Rightarrow> conclude E (cl_job c) (cl_attempt c) (cl_status c) (cl_outcome c) (cl_msg c) w
      | Some h \<Rightarrow> Cleanup E h (conclude E (cl_job c) (cl_attempt c) (cl_status c) (cl_outcome c) (cl_msg c) w))"
  by (cases jh) (simp_all add: numeral_eq_Suc conclude_def)

lemma finish_run_report:
  "finish_run E D ex wl lease j a res w =
     (case result_closing j a res of c \<Rightarrow> conclude E (cl_job c) (cl_attempt c) (cl_status c) (cl_outcome c) (cl_msg c)
        (send_report E D wl lease (result_report ex wl res w) w))"
  by (simp add: finish_run_def result_closing_def failed_closing_def succeeded_closing_def send_report_def
      result_report_def split: option.split)

lemma advances_run_job: "advances 7 E D ex wl lease (Started j a, w) = (Returned, run_job E D ex wl lease j a w)"
proof (cases "NewJobHandle E D j wl lease w")
  case (Pair r w1)
  show ?thesis
  proof (cases r)
    case (Inl e)
    have "advances 2 E D ex wl lease (Started j a, w) = (Reported None (failed_closing j a e),
        send_report E D wl lease (ReportFail (''job handle: '' @ err_text e) False) w1)"
      using Pair Inl by (simp add: numeral_eq_Suc make_handle_def)
    then have "advances (2 + 4) E D ex wl lease (Started j a, w) = (Returned, run_job E D ex wl lease j a w)"
      using Pair Inl unfolding advances_add by (simp add: finishing run_job_def failed_closing_def send_report_def)
    then show ?thesis by (rule advances_more) simp
  next
    case (Inr h)
    obtain res w2 where x: "ex_Execute ex h w1 = (res, w2)" by fastforce
    have "advances 3 E D ex wl lease (Started j a, w) = (Reported (Some h) (result_closing j a res),
        send_report E D wl lease (result_report ex wl res w2) w2)"
      using Pair Inr x by (simp add: numeral_eq_Suc make_handle_def)
    then have "advances (3 + 4) E D ex wl lease (Started j a, w) = (Returned, run_job E D ex wl lease j a w)"
      using Pair Inr x unfolding advances_add by (simp add: finishing run_job_def finish_run_report)
    then show ?thesis by simp
  qed
qed

lemma advances_upsert:
  assumes "upsertJobForWorkload E D wl lease w = (r, w1)"
  shows "case r of None \<Rightarrow> advances 3 E D ex wl lease (Claimed, w) = (Returned, w1)
    | Some (j, n) \<Rightarrow> \<exists>m \<le> 3. advances m E D ex wl lease (Claimed, w) = (Prepared j n, w1)"
proof (cases "on_db (GetByWorkloadID E (wl_ID wl)) w")
  case (Pair q v)
  show ?thesis
  proof (cases q)
    case (Inl e)
    show ?thesis
    proof (cases "errors_is e ErrNotFound")
      case False
      with Pair Inl assms show ?thesis
        by (auto simp: upsertJobForWorkload_def look_up_def numeral_eq_Suc surrender_store_error_def send_report_def)
    next
      case True
      obtain j u where u: "new_uuid E v = (j, u)" by fastforce
      obtain z u' where z: "on_db (CreateJob E (new_job_input E j wl lease)) u = (z, u')" by fastforce
      show ?thesis
      proof (cases z)
        case (Inl e')
        with Pair \<open>q = Inl e\<close> True u z assms show ?thesis
          by (auto simp: upsertJobForWorkload_def look_up_def insert_job_def numeral_eq_Suc surrender_store_error_def
              send_report_def)
      next
        case (Inr x)
        with Pair \<open>q = Inl e\<close> True u z assms have "r = Some (j, 1)" "w1 = u'"
          by (simp_all add: upsertJobForWorkload_def)
        moreover have "advances 2 E D ex wl lease (Claimed, w) = (Prepared j 1, u')"
          using Pair Inr \<open>q = Inl e\<close> True u z by (simp add: look_up_def insert_job_def numeral_eq_Suc)
        ultimately show ?thesis by (auto intro!: exI [of _ 2])
      qed
    qed
  next
    case (Inr x)
    show ?thesis
    proof (cases "job_status x = StatusQueued \<or> job_status x = StatusRunning")
      case False
      with Pair Inr assms show ?thesis
        by (auto simp: upsertJobForWorkload_def look_up_def numeral_eq_Suc send_report_def split: if_splits)
    next
      case True
      obtain y u where y: "on_db (UpdateLease E (jid x) (LeaseTok lease) (LeaseExpires lease)) v = (y, u)" by fastforce
      have tk: "take_over E D wl lease (jid x) v = (r, w1)"
        using Pair Inr True assms by (simp add: upsertJobForWorkload_def)
      have "advance E D ex wl lease Claimed w = (Found (jid x), v)"
        using Pair Inr True by (auto simp: look_up_def)
      then have one: "advances 3 E D ex wl lease (Claimed, w) = advances 2 E D ex wl lease (Found (jid x), v)"
        by (simp only: eval_nat_numeral BitM.simps advances.simps fst_conv snd_conv)
      show ?thesis
      proof (cases y)
        case (Inl e)
        with y tk have "r = None" "w1 = send_report E D wl lease (ReportSurrender ''store_error'') u"
          by (auto simp: take_over_def surrender_store_error_def send_report_def)
        moreover have "advances 3 E D ex wl lease (Claimed, w) =
            (Returned, send_report E D wl lease (ReportSurrender ''store_error'') u)"
          unfolding one using y Inl by (simp add: renew_lease_def numeral_eq_Suc)
        ultimately show ?thesis by simp
      next
        case (Inr t)
        obtain p u' where p: "on_db (AttemptCount E (jid x)) u = (p, u')" by fastforce
        with y Inr tk have "r = Some (jid x, (case p of Inl _ \<Rightarrow> 0 | Inr n \<Rightarrow> n) + 1)" "w1 = u'"
          by (auto simp: take_over_def)
        moreover have "advances 3 E D ex wl lease (Claimed, w) =
            (Prepared (jid x) ((case p of Inl _ \<Rightarrow> 0 | Inr n \<Rightarrow> n) + 1), u')"
          unfolding one using y Inr p by (simp add: renew_lease_def count_attempts_def numeral_eq_Suc)
        ultimately show ?thesis by (auto intro!: exI [of _ 3])
      qed
    qed
  qed
qed

lemma advances_prepared:
  "advances 9 E D ex wl lease (Prepared j n, w) =
     (Returned, run_job E D ex wl lease j (fst (begin_attempt E j n w)) (snd (begin_attempt E j n w)))"
proof -
  have "advances 2 E D ex wl lease (Prepared j n, w) =
      (Started j (fst (begin_attempt E j n w)), snd (begin_attempt E j n w))"
    by (simp add: numeral_eq_Suc begin_attempt_def open_attempt_def split_beta)
  then have "advances (2 + 7) E D ex wl lease (Prepared j n, w) =
      (Returned, run_job E D ex wl lease j (fst (begin_attempt E j n w)) (snd (begin_attempt E j n w)))"
    unfolding advances_add by (simp add: advances_run_job)
  then show ?thesis by simp
qed

lemma advances_runOne: "advances 12 E D ex wl lease (Claimed, w) = (Returned, runOne E D ex wl lease w)"
proof -
  obtain r w1 where r: "upsertJobForWorkload E D wl lease w = (r, w1)" by fastforce
  note up = advances_upsert [OF r, of ex]
  show ?thesis
  proof (cases r)
    case None
    with up have "advances 3 E D ex wl lease (Claimed, w) = (Returned, runOne E D ex wl lease w)"
      by (simp add: runOne_eq [OF r])
    then show ?thesis by (rule advances_more) simp
  next
    case (Some p)
    obtain j n where p: "p = (j, n)" by fastforce
    with up Some obtain m where m: "m \<le> 3" "advances m E D ex wl lease (Claimed, w) = (Prepared j n, w1)" by auto
    have "advances (m + 9) E D ex wl lease (Claimed, w) = (Returned, runOne E D ex wl lease w)"
      unfolding advances_add m(2) advances_prepared using Some p by (simp add: runOne_eq [OF r])
    then show ?thesis by (rule advances_more) (use m in simp)
  qed
qed


section \<open>What a step touches\<close>

lemma look_up_world: "snd (look_up E wl w) = snd (on_db (GetByWorkloadID E (wl_ID wl)) w)"
  by (simp add: look_up_def split: prod.split sum.split)

lemma insert_job_world:
  "snd (insert_job E wl lease w) = snd (on_db (CreateJob E (new_job_input E (uuid E (uuids w)) wl lease)) (w\<lparr>uuids := Suc (uuids w)\<rparr>))"
  by (simp add: insert_job_def new_uuid_def split: prod.split sum.split)

lemma renew_lease_world:
  "snd (renew_lease E lease j w) = snd (on_db (UpdateLease E j (LeaseTok lease) (LeaseExpires lease)) w)"
  by (simp add: renew_lease_def split: prod.split sum.split)

lemma count_attempts_world: "snd (count_attempts E j w) = snd (on_db (AttemptCount E j) w)"
  by (simp add: count_attempts_def split: prod.split)

lemma open_attempt_world: "snd (open_attempt E j n w) = snd (on_db (StartAttempt E j n) w)"
  by (simp add: open_attempt_def split: prod.split)

lemma make_handle_world: "snd (make_handle E D wl lease j a w) = snd (NewJobHandle E D j wl lease w)"
  by (simp add: make_handle_def split: prod.split sum.split)

lemmas stage_worlds = look_up_world insert_job_world renew_lease_world count_attempts_world open_attempt_world
  make_handle_world

lemma send_report_parts [simp]:
  "pool (send_report E D wl lease r w) = pool w" "db (send_report E D wl lease r w) = db w"
  "ctx_done (send_report E D wl lease r w) = ctx_done w" "workdirs (send_report E D wl lease r w) = workdirs w"
  "files (send_report E D wl lease r w) = files w"
  by (simp_all add: send_report_def split: report.split)

lemma NewJobHandle_parts [simp]:
  "db (snd (NewJobHandle E D j wl lease w)) = db w" "ctx_done (snd (NewJobHandle E D j wl lease w)) = ctx_done w"
  by (simp_all add: NewJobHandle_def Let_def split: option.split)

lemma advance_pool:
  assumes "keeps_pool ex"
  shows "pool (snd (advance E D ex wl lease st w)) = pool w"
  using assms by (cases st) (simp_all add: stage_worlds keeps_pool_def split_beta)

definition closing_ok :: "stage \<Rightarrow> bool" where
  "closing_ok st \<longleftrightarrow> (\<forall>jh c. st = Reported jh c \<longrightarrow> cl_status c \<in> set all_statuses)"

lemma advance_closing: "closing_ok st \<Longrightarrow> closing_ok (fst (advance E D ex wl lease st w))"
  by (cases st) (auto simp: closing_ok_def upsert_stage_defs run_stage_defs result_closing_def failed_closing_def
      succeeded_closing_def all_statuses_def Let_def split: prod.splits sum.splits option.splits if_splits)

lemma advance_safe:
  assumes "executor_contract ex" and "closing_ok st"
  shows "safe (db w) (db (snd (advance E D ex wl lease st w)))"
  using assms(2) executor_contract.honest [OF assms(1)]
  by (cases st) (auto simp: stage_worlds split_beta closing_ok_def GetByWorkloadID_safe CreateJob_safe
      UpdateLease_safe AttemptCount_safe UpdateStatus_safe StartAttempt_safe FinishAttempt_safe all_statuses_def)

text \<open>A terminal report has been sent, or was given up when its token could not be had.\<close>

fun settled :: "stage \<Rightarrow> bool" where
  "settled (Reported _ _) = True"
| "settled (Recorded _ _) = True"
| "settled (Cleaning _) = True"
| "settled Stopping = True"
| "settled Returned = True"
| "settled _ = False"

lemma settled_stays: "settled st \<Longrightarrow> settled (fst (advance E D ex wl lease st w))"
  by (cases st) (auto split: option.split)

text \<open>A report for one workload is none for another.\<close>

lemma report_about:
  assumes "what \<in> {''complete'', ''fail'', ''surrender''}" and "rq_url rq = baseURL c @ workload_path i what"
    and "is_report c wid rq"
  shows "i = wid"
proof -
  obtain x where x: "x \<in> {''complete'', ''fail'', ''surrender''}" and url: "rq_url rq = baseURL c @ workload_path wid x"
    using assms(3) unfolding is_report_def by blast
  with assms(2) have same: "workload_path i what = workload_path wid x" by simp
  have "take 2 (rev what) = take 2 (rev x)"
    using arg_cong [OF same, of "\<lambda>u. take 2 (rev u)"] assms(1) x by (auto simp: workload_path_def)
  with assms(1) x have "what = x" by auto
  with same show ?thesis by (simp add: workload_path_def)
qed

lemma send_report_counted:
  "reports_within (DepCloud D) wid (if wid = wl_ID wl then 1 else 0) w (send_report E D wl lease r w)"
proof (cases "wid = wl_ID wl")
  case True
  then show ?thesis by (simp only: if_True send_report_def) (cases r; simp only: refl if_True report.case report_reports)
next
  case False
  have other: "reports_within (DepCloud D) wid 0 w (snd (doRaw E (DepCloud D) m (workload_path (wl_ID wl) what) b w))"
    if "what \<in> {''complete'', ''fail'', ''surrender''}" for what m b
    using False report_about [OF that] by (intro doRaw_no_report) blast
  show ?thesis
    unfolding send_report_def Complete_def Fail_def Surrender_def
    using False by (cases r) (simp_all add: do_json_snd other)
qed

lemma advance_reports:
  assumes contract: "executor_contract ex"
  shows "reports_within (DepCloud D) wid
    (if wid = wl_ID wl \<and> \<not> settled st \<and> settled (fst (advance E D ex wl lease st w)) then 1 else 0)
    w (snd (advance E D ex wl lease st w))"
proof -
  have quiet: "reports_within (DepCloud D) wid 0 w (snd (ex_Execute ex h w))" for h
    using executor_contract.silent [OF contract] by (simp add: reports_nothing_def)
  have same: ?thesis if "sent (snd (advance E D ex wl lease st w)) = sent w"
    using that by (rule reports_within_refl)
  note send = send_report_counted [of D wid wl w E lease]
  show ?thesis
  proof (cases st)
    case (Settling r) with send [of r] show ?thesis by simp
  next
    case (Refused j a e) with send show ?thesis by simp
  next
    case (Ran j a h res) with send show ?thesis by simp
  next
    case (Ready j a h) with quiet [of h] show ?thesis by (simp add: split_beta)
  qed (use same in \<open>simp_all add: stage_worlds split: option.split\<close>)
qed

end
