(* ===== verification/Poller.thy ===== *)
theory Poller
  imports Workers
begin

text \<open>
  The goroutine of \<open>Run\<close> (\<open>internal/runtime/scheduler.go\<close>), one database statement or request at
  a time: the recovery at its start, then its ticks with the recovery of a claim from a 401.  Theory
  Scheduler has the same code in whole pieces.
\<close>

section \<open>The steps of the loop\<close>

text \<open>
  Where the goroutine of \<open>Run\<close> stands.  From \<open>Holding\<close> to \<open>Answered\<close> it is inside a tick and
  has a slot; \<open>Rejected\<close>, \<open>Reloaded\<close>, \<open>Refreshing\<close> and \<open>Refreshed\<close> are inside \<open>claimWithReauth\<close>.
\<close>

datatype turn =
    Booting
  | Failing "job list"
  | Waiting
  | Holding nat
  | Rejected nat
  | Reloaded nat
  | Refreshing nat
  | Refreshed nat
  | Answered nat "gerror + claim_response"
  | Stopped

definition list_stranded :: "'e denv_scheme \<Rightarrow> 'd daemon_scheme \<Rightarrow> turn \<times> 'd daemon_scheme" where
  "list_stranded E w =
     (case on_db (PendingRecovery E) w of
        (Inl e, w1) \<Rightarrow> (Waiting, w1)
      | (Inr js, w1) \<Rightarrow> (Failing js, w1))"

definition take_turn :: "'e denv_scheme \<Rightarrow> 'd daemon_scheme \<Rightarrow> turn \<times> 'd daemon_scheme" where
  "take_turn E w =
     (case Reserve (probe_at E (probe_reads w)) (pool w) of (r, m) \<Rightarrow>
        (case r of Inl e \<Rightarrow> Waiting | Inr slot \<Rightarrow> Holding slot,
         w\<lparr>pool := m, probe_reads := Suc (probe_reads w)\<rparr>))"

text \<open>A claim whose 401 sends the loop on to the next way out, if there is one.\<close>

definition claim_or ::
  "'e env_scheme \<Rightarrow> 'x sched_deps \<Rightarrow> bool \<Rightarrow> nat \<Rightarrow> turn \<Rightarrow> 'w authw_scheme \<Rightarrow> turn \<times> 'w authw_scheme" where
  "claim_or E D recover slot other w =
     (case Claim E (DepCloud D) w of (r, w1) \<Rightarrow>
        (if recover \<and> result_is r SyncErrUnauthorized then other else Answered slot r, w1))"

definition refresh_turn :: "'e env_scheme \<Rightarrow> nat \<Rightarrow> 'w authw_scheme \<Rightarrow> turn \<times> 'w authw_scheme" where
  "refresh_turn E slot w =
     (case ForceRefresh E w of
        (Inl e, w1) \<Rightarrow>
          (if errors_is e AuthErrUnauthorized then (Answered slot (Inl (Sentinel SyncErrUnauthorized)), w1)
           else (Answered slot (Inl (errorf ''force refresh'' e)), w1))
      | (Inr t, w1) \<Rightarrow> (Refreshed slot, w1))"

definition act_on_error :: "nat \<Rightarrow> gerror \<Rightarrow> 'd daemon_scheme \<Rightarrow> 'd daemon_scheme" where
  "act_on_error slot e w =
     (if errors_is e ErrNoWork then release_slot slot w
      else if errors_is e SyncErrUnauthorized
      then release_slot slot (w\<lparr>reauth_flag := True, paused_flag := True\<rparr>)
      else release_slot slot w)"

fun loop_step ::
  "'e denv_scheme \<Rightarrow> ('d daemon_scheme) sched_deps \<Rightarrow> turn \<Rightarrow> 'd daemon_scheme \<Rightarrow>
     (turn \<times> ('d daemon_scheme) flight option) \<times> 'd daemon_scheme" where
  "loop_step E D Booting w = apfst (\<lambda>t. (t, None)) (list_stranded E w)"
| "loop_step E D (Failing []) w = ((Waiting, None), w)"
| "loop_step E D (Failing (j # js)) w =
     ((Failing js, None), snd (on_db (UpdateStatus E (jid j) StatusFailed) w))"
| "loop_step E D Waiting w = apfst (\<lambda>t. (t, None)) (take_turn E w)"
| "loop_step E D (Holding slot) w = apfst (\<lambda>t. (t, None)) (claim_or E D (HasAuth D) slot (Rejected slot) w)"
| "loop_step E D (Rejected slot) w = ((Reloaded slot, None), Invalidate w)"
| "loop_step E D (Reloaded slot) w = apfst (\<lambda>t. (t, None)) (claim_or E D True slot (Refreshing slot) w)"
| "loop_step E D (Refreshing slot) w = apfst (\<lambda>t. (t, None)) (refresh_turn E slot w)"
| "loop_step E D (Refreshed slot) w = apfst (\<lambda>t. (t, None)) (claim_or E D False slot Waiting w)"
| "loop_step E D (Answered slot (Inl e)) w = ((Waiting, None), act_on_error slot e w)"
| "loop_step E D (Answered slot (Inr resp)) w = apfst (\<lambda>f. (Waiting, f)) (dispatch E D slot resp w)"
| "loop_step E D Stopped w = ((Stopped, None), w)"

text \<open>The slot the loop holds, and the workload whose claim it is about to act on.\<close>

fun turn_slots :: "turn \<Rightarrow> nat list" where
  "turn_slots (Holding i) = [i]"
| "turn_slots (Rejected i) = [i]"
| "turn_slots (Reloaded i) = [i]"
| "turn_slots (Refreshing i) = [i]"
| "turn_slots (Refreshed i) = [i]"
| "turn_slots (Answered i _) = [i]"
| "turn_slots _ = []"

fun turn_claim :: "turn \<Rightarrow> string list" where
  "turn_claim (Answered _ (Inr resp)) = [DtoID (ClaimWorkload resp)]"
| "turn_claim _ = []"

section \<open>The loop on its own\<close>

definition started :: "'f option \<Rightarrow> 'f list" where
  "started f = (case f of None \<Rightarrow> [] | Some x \<Rightarrow> [x])"

lemma started_simps [simp]: "started None = []" "started (Some x) = [x]"
  by (simp_all add: started_def)

text \<open>At most so many steps, up to the next time the loop waits for its ticker.\<close>

fun loops ::
  "nat \<Rightarrow> 'e denv_scheme \<Rightarrow> ('d daemon_scheme) sched_deps \<Rightarrow> turn \<Rightarrow> 'd daemon_scheme \<Rightarrow>
     (turn \<times> ('d daemon_scheme) flight list) \<times> 'd daemon_scheme" where
  "loops 0 E D t w = ((t, []), w)"
| "loops (Suc n) E D t w =
     (case loop_step E D t w of ((t', f), w') \<Rightarrow>
        if t' = Waiting then ((Waiting, started f), w')
        else (case loops n E D t' w' of ((u, fs), v) \<Rightarrow> ((u, started f @ fs), v)))"

lemma loops_step:
  "loop_step E D t w = ((t', None), w') \<Longrightarrow> t' \<noteq> Waiting \<Longrightarrow> loops n E D t' w' = p \<Longrightarrow> loops (Suc n) E D t w = p"
  by (cases p) auto

lemma loops_more:
  "loops (Suc m) E D t w = ((Waiting, fs), v) \<Longrightarrow> m \<le> n \<Longrightarrow> loops (Suc n) E D t w = ((Waiting, fs), v)"
proof (induction m arbitrary: n t w fs)
  case 0
  then show ?case by (cases "loop_step E D t w") (auto split: if_splits)
next
  case (Suc m)
  obtain t' f w' where l: "loop_step E D t w = ((t', f), w')" by (metis prod.collapse)
  show ?case
  proof (cases "t' = Waiting")
    case True
    with l Suc.prems show ?thesis by simp
  next
    case False
    obtain u gs x where r: "loops (Suc m) E D t' w' = ((u, gs), x)" by (metis prod.collapse)
    with l False Suc.prems(1) have "u = Waiting" "x = v" "fs = started f @ gs" by simp_all
    moreover obtain n' where n: "n = Suc n'" "m \<le> n'" using Suc.prems(2) by (cases n) auto
    ultimately have "loops (Suc n') E D t' w' = ((Waiting, gs), v)" using Suc.IH r by blast
    with l False \<open>fs = started f @ gs\<close> show ?thesis unfolding n(1) loops.simps(2) [of "Suc n'"] by simp
  qed
qed

lemma loops_failing: "loops (Suc (length js)) E D (Failing js) w = ((Waiting, []), fail_each E js w)"
  by (induction js arbitrary: w) (simp_all split: prod.split)

text \<open>\<open>Run\<close> up to its loop is \<open>recoverPending\<close>.\<close>

lemma loops_recover: "\<exists>n. loops (Suc n) E D Booting w = ((Waiting, []), recoverPending E w)"
proof -
  obtain r w1 where r: "on_db (PendingRecovery E) w = (r, w1)" by fastforce
  show ?thesis
  proof (cases r)
    case (Inl e)
    with r show ?thesis by (intro exI [of _ 0]) (simp add: list_stranded_def recoverPending_def)
  next
    case (Inr js)
    with r have "loop_step E D Booting w = ((Failing js, None), w1)" by (simp add: list_stranded_def)
    from loops_step [OF this _ loops_failing] r Inr show ?thesis
      by (intro exI [of _ "Suc (length js)"]) (simp add: recoverPending_def)
  qed
qed

text \<open>From the answer to the end of the tick.\<close>

definition after_answer ::
  "'e denv_scheme \<Rightarrow> ('d daemon_scheme) sched_deps \<Rightarrow> nat \<Rightarrow> (gerror + claim_response) \<times> 'd daemon_scheme \<Rightarrow>
     ('d daemon_scheme) flight option \<times> 'd daemon_scheme" where
  "after_answer E D slot p =
     (case p of (Inl e, w) \<Rightarrow> (None, act_on_error slot e w) | (Inr resp, w) \<Rightarrow> dispatch E D slot resp w)"

lemma loops_answered:
  "loops (Suc n) E D (Answered slot r) w =
     ((Waiting, started (fst (after_answer E D slot (r, w)))), snd (after_answer E D slot (r, w)))"
  by (cases r) (simp_all add: after_answer_def apfst_def map_prod_def split_beta)

lemma sched_tick_answer:
  "sched_tick E D w =
     (case Reserve (probe_at E (probe_reads w)) (pool w) of
        (Inl e, m) \<Rightarrow> (None, w\<lparr>pool := m, probe_reads := Suc (probe_reads w)\<rparr>)
      | (Inr slot, m) \<Rightarrow> after_answer E D slot
          (claimWithReauth E D (w\<lparr>pool := m, probe_reads := Suc (probe_reads w)\<rparr>)))"
  by (simp add: sched_tick_def after_answer_def act_on_error_def split: prod.split sum.split)

lemma loops_holding:
  "loops 6 E D (Holding slot) w =
     ((Waiting, started (fst (after_answer E D slot (claimWithReauth E D w)))),
      snd (after_answer E D slot (claimWithReauth E D w)))"
proof -
  obtain r1 w1 where c1: "Claim E (DepCloud D) w = (r1, w1)" by fastforce
  obtain r2 w2 where c2: "Claim E (DepCloud D) (Invalidate w1) = (r2, w2)" by fastforce
  obtain r3 w3 where c3: "ForceRefresh E w2 = (r3, w3)" by fastforce
  obtain r4 w4 where c4: "Claim E (DepCloud D) w3 = (r4, w4)" by fastforce
  have fuel: "6 = Suc (Suc (Suc (Suc (Suc (Suc 0)))))" by simp
  consider (direct) "\<not> result_is r1 SyncErrUnauthorized \<or> \<not> HasAuth D"
    | (reload) "result_is r1 SyncErrUnauthorized" "HasAuth D" "\<not> result_is r2 SyncErrUnauthorized"
    | (refused) e where "result_is r1 SyncErrUnauthorized" "HasAuth D" "result_is r2 SyncErrUnauthorized" "r3 = Inl e"
    | (again) t where "result_is r1 SyncErrUnauthorized" "HasAuth D" "result_is r2 SyncErrUnauthorized" "r3 = Inr t"
    by (cases r3) auto
  then show ?thesis
  proof cases
    case direct
    then have c: "claimWithReauth E D w = (r1, w1)" using c1 by (auto simp: claimWithReauth_def)
    have 1: "loop_step E D (Holding slot) w = ((Answered slot r1, None), w1)" using direct c1 by (auto simp: claim_or_def)
    show ?thesis unfolding c fuel by (rule loops_step [OF 1 _ loops_answered]) simp
  next
    case reload
    then have c: "claimWithReauth E D w = (r2, w2)" using c1 c2 by (simp add: claimWithReauth_def)
    have 1: "loop_step E D (Holding slot) w = ((Rejected slot, None), w1)" using reload c1 by (simp add: claim_or_def)
    have 2: "loop_step E D (Rejected slot) w1 = ((Reloaded slot, None), Invalidate w1)" by simp
    have 3: "loop_step E D (Reloaded slot) (Invalidate w1) = ((Answered slot r2, None), w2)"
      using reload c2 by (simp add: claim_or_def)
    show ?thesis unfolding c fuel
      by (rule loops_step [OF 1 _ loops_step [OF 2 _ loops_step [OF 3 _ loops_answered]]]) simp_all
  next
    case refused
    let ?r = "Inl (if errors_is e AuthErrUnauthorized then Sentinel SyncErrUnauthorized else errorf ''force refresh'' e)"
    from refused c1 c2 c3 have c: "claimWithReauth E D w = (?r, w3)" by (simp add: claimWithReauth_def)
    from refused c1 have 1: "loop_step E D (Holding slot) w = ((Rejected slot, None), w1)" by (simp add: claim_or_def)
    have 2: "loop_step E D (Rejected slot) w1 = ((Reloaded slot, None), Invalidate w1)" by simp
    have 3: "loop_step E D (Reloaded slot) (Invalidate w1) = ((Refreshing slot, None), w2)"
      using refused c2 by (simp add: claim_or_def)
    have 4: "loop_step E D (Refreshing slot) w2 = ((Answered slot ?r, None), w3)"
      using refused c3 by (simp add: refresh_turn_def)
    show ?thesis unfolding c fuel
      by (rule loops_step [OF 1 _ loops_step [OF 2 _ loops_step [OF 3 _ loops_step [OF 4 _ loops_answered]]]]) simp_all
  next
    case again
    from again c1 c2 c3 c4 have c: "claimWithReauth E D w = (r4, w4)" by (simp add: claimWithReauth_def)
    from again c1 have 1: "loop_step E D (Holding slot) w = ((Rejected slot, None), w1)" by (simp add: claim_or_def)
    have 2: "loop_step E D (Rejected slot) w1 = ((Reloaded slot, None), Invalidate w1)" by simp
    have 3: "loop_step E D (Reloaded slot) (Invalidate w1) = ((Refreshing slot, None), w2)"
      using again c2 by (simp add: claim_or_def)
    have 4: "loop_step E D (Refreshing slot) w2 = ((Refreshed slot, None), w3)"
      using again c3 by (simp add: refresh_turn_def)
    have 5: "loop_step E D (Refreshed slot) w3 = ((Answered slot r4, None), w4)"
      using c4 by (simp add: claim_or_def)
    show ?thesis unfolding c fuel
      by (rule loops_step [OF 1 _ loops_step [OF 2 _ loops_step [OF 3 _ loops_step [OF 4 _
          loops_step [OF 5 _ loops_answered]]]]]) simp_all
  qed
qed

text \<open>A tick left alone is \<open>sched_tick\<close>.\<close>

lemma loops_tick:
  assumes "sched_tick E D w = (f, w')"
  shows "loops 7 E D Waiting w = ((Waiting, started f), w')"
proof -
  obtain r m where res: "Reserve (probe_at E (probe_reads w)) (pool w) = (r, m)" by fastforce
  let ?w = "w\<lparr>pool := m, probe_reads := Suc (probe_reads w)\<rparr>"
  have fuel: "7 = Suc (6 :: nat)" by simp
  show ?thesis
  proof (cases r)
    case (Inl e)
    with res assms show ?thesis unfolding fuel loops.simps(2) [of 6] by (simp add: take_turn_def sched_tick_answer)
  next
    case (Inr slot)
    with res have 1: "loop_step E D Waiting w = ((Holding slot, None), ?w)" by (simp add: take_turn_def)
    have c: "after_answer E D slot (claimWithReauth E D ?w) = (f, w')"
      using assms res Inr by (simp add: sched_tick_answer)
    show ?thesis unfolding fuel
      by (rule loops_step [OF 1 _ loops_holding [where E = E and D = D and w = ?w and slot = slot, unfolded c fst_conv snd_conv]]) simp
  qed
qed

section \<open>What a step touches\<close>

lemma claim_or_world: "snd (claim_or E D b i t w) = snd (Claim E (DepCloud D) w)"
  by (simp add: claim_or_def split_beta)

lemma refresh_turn_world: "snd (refresh_turn E i w) = snd (ForceRefresh E w)"
  by (simp add: refresh_turn_def split: prod.split sum.split)

lemma list_stranded_world: "snd (list_stranded E w) = snd (on_db (PendingRecovery E) w)"
  by (simp add: list_stranded_def split: prod.split sum.split)

lemma take_turn_world:
  "snd (take_turn E w) = w\<lparr>pool := snd (Reserve (probe_at E (probe_reads w)) (pool w)), probe_reads := Suc (probe_reads w)\<rparr>"
  by (simp add: take_turn_def split_beta)

lemmas turn_worlds = claim_or_world refresh_turn_world list_stranded_world take_turn_world

lemma act_on_error_parts [simp]:
  "pool (act_on_error i e w) = Release (Some i) (pool w)" "db (act_on_error i e w) = db w"
  "sent (act_on_error i e w) = sent w"
  by (simp_all add: act_on_error_def)

lemma Claim_parts [simp]:
  fixes w :: "'d daemon_scheme"
  shows "db (snd (Claim E c w)) = db w" "pool (snd (Claim E c w)) = pool w"
  using same_rest_daemon(1,2) [OF Claim_rest [of E c w]] by (metis prod.collapse)+

lemma ForceRefresh_parts [simp]:
  fixes w :: "'d daemon_scheme"
  shows "db (snd (ForceRefresh E w)) = db w" "pool (snd (ForceRefresh E w)) = pool w"
  using same_rest_daemon(1,2) [OF ForceRefresh_rest [of E w]] by (metis prod.collapse)+

lemma dispatch_db [simp]: "db (snd (dispatch E D i resp w)) = db w"
  by (simp add: dispatch_cases split: option.split)

lemma loop_safe: "safe (db w) (db (snd (loop_step E D t w)))"
proof (cases "(E, D, t, w)" rule: loop_step.cases)
  case (11 E D i resp w)
  then show ?thesis by simp
next
  case (6 E D i w)
  then show ?thesis by (simp add: Invalidate_def)
qed (simp_all add: turn_worlds PendingRecovery_safe UpdateStatus_safe all_statuses_def)

text \<open>The pool, the slots of the loop and the goroutine it starts.\<close>

lemma dispatch_slot:
  "case dispatch E D i resp w of
     (None, v) \<Rightarrow> pool v = Release (Some i) (pool w)
   | (Some x, v) \<Rightarrow> pool v = pool w \<and> fl_slot x = i \<and> wl_ID (fl_wl x) = DtoID (ClaimWorkload resp) \<and>
       Lookup (DepRegistry D) (wl_Type (fl_wl x)) = Some (fl_exec x)"
  by (simp add: dispatch_cases workload_of_def split: option.split)

lemma loop_slots:
  assumes "loop_step E D t w = ((t', f), v)"
  shows "(pool v = pool w \<and> turn_slots t' @ map fl_slot (started f) = turn_slots t) \<or>
    (\<exists>i. turn_slots t = [i] \<and> turn_slots t' = [] \<and> f = None \<and> pool v = Release (Some i) (pool w)) \<or>
    (\<exists>p i. turn_slots t = [] \<and> turn_slots t' = [i] \<and> f = None \<and> Reserve p (pool w) = (Inr i, pool v))"
  using assms
proof (cases "(E, D, t, w)" rule: loop_step.cases)
  case (4 E D w)
  obtain r m where r: "Reserve (probe_at E (probe_reads w)) (pool w) = (r, m)" by fastforce
  with 4 assms show ?thesis
    by (cases r) (auto simp: take_turn_def apfst_def map_prod_def dest: pool.reserve_refuses)
next
  case (1 E D w)
  with assms show ?thesis by (auto simp: list_stranded_def on_db_eq split: sum.splits)
next
  case (11 E D i resp w)
  with assms dispatch_slot [where E = E and D = D and i = i and resp = resp and w = w] show ?thesis
    by (cases "dispatch E D i resp w") (auto split: option.splits)
next
  case (6 E D i w)
  with assms show ?thesis by (auto simp: Invalidate_def)
next
  case (5 E D i w)
  with assms Claim_parts(2) [of E "DepCloud D" w] show ?thesis
    by (cases "Claim E (DepCloud D) w") (auto simp: claim_or_def split: if_splits)
next
  case (7 E D i w)
  with assms Claim_parts(2) [of E "DepCloud D" w] show ?thesis
    by (cases "Claim E (DepCloud D) w") (auto simp: claim_or_def split: if_splits)
next
  case (9 E D i w)
  with assms Claim_parts(2) [of E "DepCloud D" w] show ?thesis
    by (cases "Claim E (DepCloud D) w") (auto simp: claim_or_def split: if_splits)
next
  case (8 E D i w)
  with assms ForceRefresh_parts(2) [of E w] show ?thesis
    by (cases "ForceRefresh E w") (auto simp: refresh_turn_def split: if_splits sum.splits)
qed auto

text \<open>The reports of the loop: at most the surrender of the claim it acts on, when it starts no job for it.\<close>

lemma Claim_silent: "reports_within c' wid 0 w (snd (Claim E c w))"
proof -
  have "snd (Claim E c w) = snd (doRaw E c ''GET'' ''/v1/workloads/claim'' None w)"
    by (simp add: Claim_def do_json_def split: prod.split sum.split)
  moreover have "\<not> is_report c' wid rq" if "rq_url rq = baseURL c @ ''/v1/workloads/claim''" for rq
  proof
    assume "is_report c' wid rq"
    then have "take 2 (rev (rq_url rq)) \<in> {''et'', ''li'', ''re''}" by (auto simp: is_report_def workload_path_def)
    with that show False by simp
  qed
  ultimately show ?thesis by (simp add: doRaw_no_report)
qed

lemma ForceRefresh_silent: "reports_within c wid 0 w (snd (ForceRefresh E w))"
  using ForceRefresh_sends [OF _ no_refresh_report [of E c wid], of w]
  by (cases "ForceRefresh E w") (auto simp: sends_within_def reports_within_def)


lemma dispatch_reports:
  assumes "dispatch E D i resp w = (f, v)"
  shows "reports_within (DepCloud D) wid (if f = None \<and> wid = DtoID (ClaimWorkload resp) then 1 else 0) w v"
proof -
  let ?wl = "workload_of (ClaimWorkload resp)"
  have id: "wl_ID ?wl = DtoID (ClaimWorkload resp)" by (simp add: workload_of_def)
  consider "f \<noteq> None" "v = w" | m where "f = None"
      "v = release_slot i (send_report E D ?wl (ClaimLease resp) (ReportSurrender m) w)"
    using assms by (auto simp: dispatch_cases send_report_def split: option.splits if_splits)
  then show ?thesis
  proof cases
    case 1
    then show ?thesis by (simp add: reports_within_refl)
  next
    case (2 m)
    have "reports_within (DepCloud D) wid (if f = None \<and> wid = DtoID (ClaimWorkload resp) then 1 else 0) w
        (send_report E D ?wl (ClaimLease resp) (ReportSurrender m) w)"
      using send_report_counted [of D wid ?wl w E "ClaimLease resp" "ReportSurrender m"] 2(1) unfolding id by simp
    then show ?thesis unfolding 2(2) by (rule reports_within_to) simp
  qed
qed

definition flights_of :: "string \<Rightarrow> ('d daemon_scheme) flight list \<Rightarrow> nat" where
  "flights_of wid fs = length (filter (\<lambda>x. wl_ID (fl_wl x) = wid) fs)"

lemma loop_reports:
  assumes run: "loop_step E D t w = ((t', f), v)"
  shows "flights_of wid (started f) \<le> count_list (turn_claim t) wid \<and>
    reports_within (DepCloud D) wid (count_list (turn_claim t) wid - flights_of wid (started f)) w v"
proof (cases "\<exists>i resp. t = Answered i (Inr resp)")
  case True
  then obtain i resp where t: "t = Answered i (Inr resp)" by blast
  then have d: "dispatch E D i resp w = (f, v)" using run by (cases "dispatch E D i resp w") simp
  note rep = dispatch_reports [OF d, of wid]
  show ?thesis
  proof (cases f)
    case None
    with rep t show ?thesis by (auto simp: flights_of_def)
  next
    case (Some x)
    with dispatch_slot [where E = E and D = D and i = i and resp = resp and w = w] d
    have "wl_ID (fl_wl x) = DtoID (ClaimWorkload resp)" by simp
    with rep t Some show ?thesis by (auto simp: flights_of_def)
  qed
next
  case False
  have v: "v = snd (loop_step E D t w)" "f = snd (fst (loop_step E D t w))" using run by simp_all
  have "f = None \<and> turn_claim t = [] \<and> reports_within (DepCloud D) wid 0 w v"
    unfolding v using False
    by (cases "(E, D, t, w)" rule: loop_step.cases)
      (simp_all add: turn_worlds Claim_silent ForceRefresh_silent reports_within_refl Invalidate_def)
  then show ?thesis by (simp add: flights_of_def)
qed

end
