(* ===== verification/Lifecycle.thy ===== *)
theory Lifecycle
  imports BootProps Poller
begin

text \<open>
  The life of the daemon over several processes: a boot, then ticks of the scheduler, ends of jobs,
  heartbeats, requests to the control server and signals in any order, and crashes followed by
  boots on what the dead process left.
\<close>

section \<open>What the control server leaves alone\<close>

text \<open>
  A request to the control server does no more to the pool, the store and the terminal reports
  than an executor may, saves no state, and leaves alone what only executors use.
\<close>

definition serves_within :: "'d daemon_scheme \<Rightarrow> 'd daemon_scheme \<Rightarrow> bool" where
  "serves_within w v \<longleftrightarrow> runs_within w v \<and> saves (db v) \<subseteq> saves (db w) \<and> daemon.more v = daemon.more w"

lemma serves_within_refl [simp]: "serves_within w w"
  by (simp add: serves_within_def)

lemma serves_within_trans: "serves_within w v \<Longrightarrow> serves_within v u \<Longrightarrow> serves_within w u"
  by (auto simp: serves_within_def intro: runs_within_trans)

lemma serves_withinI:
  "pool v = pool w \<Longrightarrow> db v = db w \<Longrightarrow> sent v = sent w \<Longrightarrow> daemon.more v = daemon.more w \<Longrightarrow> serves_within w v"
  by (simp add: serves_within_def runs_withinI)

lemma on_db_serves: "(\<And>s. still s (snd (f s))) \<Longrightarrow> serves_within w (snd (on_db f w))"
  by (simp add: serves_within_def on_db_within still_mild still_saves) (simp add: on_db_eq)

lemmas serves_defs = serves_within_def runs_within_def

text \<open>Its own requests to the cloud, pairing and unpairing, are no terminal reports.\<close>

lemma report_end: "is_report c wid rq \<Longrightarrow> take 2 (rev (rq_url rq)) \<in> {''et'', ''li'', ''re''}"
  by (auto simp: is_report_def workload_path_def)

lemma one_request_within:
  assumes "pool v = pool w" and "db v = db w" and "daemon.more v = daemon.more w" and "sent v = sent w @ [rq]"
    and "take 2 (rev (rq_url rq)) \<notin> {''et'', ''li'', ''re''}"
  shows "serves_within w v"
proof -
  have "\<not> is_report c wid rq" for c wid using assms(5) report_end by blast
  with assms show ?thesis by (simp add: serves_defs reports_within_def)
qed

lemma on_ks_within: "on_ks f w = (r, v) \<Longrightarrow> serves_within w v"
  by (auto simp: on_ks_def intro: serves_withinI split: prod.splits)

lemma clear_local_within: "serves_within w (snd (clear_local E forced w))"
proof -
  obtain q w1 where q: "on_db (SweepActiveToFailed E ReasonUnpaired) w = (q, w1)" by fastforce
  have "serves_within w (snd (on_db (SweepActiveToFailed E ReasonUnpaired) w))"
    by (rule on_db_serves) (rule SweepActiveToFailed_still)
  with q have one: "serves_within w w1" by simp
  obtain r w2 where r: "on_ks (ks_Clear E) w1 = (r, w2)" by fastforce
  from serves_within_trans [OF one on_ks_within [OF r]] q r show ?thesis
    by (simp add: clear_local_def split: option.split)
qed

lemma Unpair_within:
  assumes "Unpair E base jwt fp w = (r, v)"
  shows "serves_within w v"
proof -
  have "v = w \<or> (\<exists>rq. v = after_send True rq w \<and> rq_url rq = base @ ''/v1/desktop/devices/self'')"
    using assms by (auto simp: Unpair_def Let_def new_uuid_def http_do_def after_send_def split: if_splits)
  then show ?thesis
  proof (elim disjE exE conjE)
    fix rq assume "v = after_send True rq w" "rq_url rq = base @ ''/v1/desktop/devices/self''"
    then show ?thesis by (intro one_request_within [where rq = rq]) (simp_all add: after_send_def)
  qed simp
qed

lemma unpair_loaded_within: "serves_within w (snd (unpair_loaded E base force w))"
proof -
  obtain q w1 where q: "on_ks (ks_Load E) w = (q, w1)" by fastforce
  note one = on_ks_within [OF q]
  show ?thesis
  proof (cases q)
    case (Inr b)
    obtain p w2 where p: "Unpair E base (SessionJWT b) (HwFingerprint b) w1 = (p, w2)" by fastforce
    have two: "serves_within w w2" using one Unpair_within [OF p] by (rule serves_within_trans)
    have "serves_within w (snd (clear_local E forced w2))" for forced
      using two clear_local_within by (rule serves_within_trans)
    with q Inr p two show ?thesis by (simp add: unpair_loaded_def split: option.split)
  qed (use q one in \<open>simp add: unpair_loaded_def\<close>)
qed

lemma Exchange_within:
  assumes "Exchange E base rq w = (r, v)"
  shows "serves_within w v"
proof (cases "v = w")
  case False
  with assms have "v = after_call (post_request (base @ ''/v1/desktop/exchange'') (exchange_json rq) (uuid E (uuids w))) w"
    by (auto simp: Exchange_def pairing_call_eq split: if_splits)
  then show ?thesis
    by (intro one_request_within [where rq = "post_request (base @ ''/v1/desktop/exchange'') (exchange_json rq) (uuid E (uuids w))"])
      (simp_all add: after_call_def post_request_def)
qed simp

lemma pair_exchange_within: "serves_within w (snd (pair_exchange E S base code w))"
proof -
  obtain q w1 where q: "Exchange E base \<lparr>DisplayCode = code, Device = PairDevice S,
      ReqHwFingerprint = PairFingerprint S, DevicePubkey = []\<rparr> w = (q, w1)" by fastforce
  note one = Exchange_within [OF q]
  show ?thesis
  proof (cases q)
    case (Inr x)
    obtain z w2 where z: "on_ks (ks_Save E (paired_bundle (PairFingerprint S) x)) w1 = (z, w2)" by fastforce
    from serves_within_trans [OF one on_ks_within [OF z]] q Inr z show ?thesis
      by (simp add: pair_exchange_def split: option.split)
  qed (use q one in \<open>simp add: pair_exchange_def\<close>)
qed

lemma handlePair_within: "serves_within w (snd (handlePair E S r w))"
proof -
  obtain q w1 where q: "on_ks (ks_Load E) w = (q, w1)" by fastforce
  note one = on_ks_within [OF q]
  have "snd (AlreadyPaired E w) = w1" using q by (simp add: AlreadyPaired_def split: sum.split)
  moreover have "serves_within w (snd (pair_exchange E S base code w1))" for base code
    using one pair_exchange_within by (rule serves_within_trans)
  ultimately show ?thesis using one
    by (simp add: handlePair_def Let_def split_beta split: option.split)
qed

lemma handleUnpair_within: "serves_within w (snd (handleUnpair E S r w))"
proof -
  obtain resp v where run: "handleUnpair E S r w = (resp, v)" by fastforce
  from handleUnpair_cases [OF this] consider "v = w" | base where "unpair_loaded E base (asks_force r) w = (resp, v)"
    by blast
  then show ?thesis using unpair_loaded_within [of w E _ "asks_force r"] run by cases (simp, metis snd_conv)
qed

lemma handleJobByID_within: "serves_within w (snd (handleJobByID E r w))"
proof -
  have get: "serves_within w (snd (getJob E i w))" for i
  proof -
    have "serves_within w (snd (on_db (GetJob E i) w))" by (rule on_db_serves) (rule GetJob_still)
    then show ?thesis by (auto simp: getJob_def on_db_eq split: sum.split)
  qed
  have "serves_within w (snd (cancelJob E i w))" for i
  proof -
    have "serves_within w (snd (on_db (Cancel E i) w))" by (rule on_db_serves) (rule Cancel_still)
    then show ?thesis by (auto simp: cancelJob_def on_db_eq split: sum.split)
  qed
  with get show ?thesis by (simp add: handleJobByID_def Let_def)
qed

lemma handleJobsList_within: "serves_within w (snd (handleJobsList E r w))"
proof -
  have "serves_within w (snd (on_db (ListJobs E st l off) w))" for st l off
    by (rule on_db_serves) (rule ListJobs_still)
  then show ?thesis by (auto simp: handleJobsList_def on_db_eq split: sum.split)
qed

lemma run_route_within: "serves_within w (snd (run_route E S rt r w))"
proof (cases rt)
  case RStatus then show ?thesis by (simp add: run_route_def lift_response_def handleStatus_def time_now_def serves_defs reports_within_refl)
next
  case RPause then show ?thesis by (simp add: run_route_def lift_response_def handlePause_def Pause_def serves_defs reports_within_refl)
next
  case RResume then show ?thesis by (simp add: run_route_def lift_response_def handleResume_def Resume_def serves_defs reports_within_refl)
next
  case RCapabilities then show ?thesis by (simp add: run_route_def lift_response_def handleCapabilities_def Let_def serves_defs reports_within_refl)
qed (simp_all add: run_route_def lift_response_def handlePair_within handleUnpair_within handleJobByID_within
    handleJobsList_within)

lemma ipc_serve_serves:
  assumes "ipc_serve E S r w = (res, v)"
  shows "serves_within w v"
proof -
  have "serves_within w (snd (serve_mux E S q w))" for q
    by (simp add: serve_mux_def run_route_within split: option.split)
  then have "serves_within w (snd (ipc_serve E S r w))"
    by (simp add: ipc_serve_def middleware_def Let_def split_beta)
  with assms show ?thesis by simp
qed

lemma ipc_serve_within: "ipc_serve E S r w = (res, v) \<Longrightarrow> runs_within w v"
  by (rule conjunct1 [OF ipc_serve_serves [unfolded serves_within_def]])

section \<open>The scheduler's own requests and statements\<close>

lemma Heartbeat_within:
  fixes w :: "'d daemon_scheme"
  assumes "Heartbeat E c wid tk w = (r, v)"
  shows "runs_within w v"
proof -
  have "v = snd (doRaw E c ''POST'' (workload_path wid ''heartbeat'') (Some (heartbeat_body tk)) w)"
    using assms by (auto simp: Heartbeat_def do_json_def split: prod.splits sum.splits if_splits)
  moreover have "\<not> is_report c' wid' rq" if "rq_url rq = baseURL c @ workload_path wid ''heartbeat''" for c' wid' rq
    using report_end [of c' wid' rq] that by (auto simp: workload_path_def)
  ultimately have "reports_within c' wid' 0 w v" for c' wid' by (simp add: doRaw_no_report)
  with same_rest_daemon(1,2) [OF Heartbeat_rest [OF assms]] show ?thesis by (simp add: runs_within_def)
qed

section \<open>The life of the daemon\<close>

text \<open>
  A job goroutine with its stage, and whether the heartbeat it started is still alive: from
  \<open>StartHeartbeat\<close> until a heartbeat fails or the deferred \<open>Stop\<close> returns.
\<close>

record 'w worker =
  wk_flight :: "'w flight"
  wk_stage :: stage
  wk_beating :: bool

definition new_worker :: "'w flight \<Rightarrow> 'w worker" where
  "new_worker f = \<lparr>wk_flight = f, wk_stage = Claimed, wk_beating = False\<rparr>"

definition beating_after :: "stage \<Rightarrow> bool \<Rightarrow> bool" where
  "beating_after st b = (case st of Marked _ _ \<Rightarrow> True | Stopping \<Rightarrow> False | _ \<Rightarrow> b)"

definition worker_step ::
  "'e denv_scheme \<Rightarrow> ('d daemon_scheme) sched_deps \<Rightarrow> ('d daemon_scheme) worker \<Rightarrow> 'd daemon_scheme \<Rightarrow>
     ('d daemon_scheme) worker \<times> 'd daemon_scheme" where
  "worker_step E D k w =
     (case advance E D (fl_exec (wk_flight k)) (fl_wl (wk_flight k)) (fl_lease (wk_flight k)) (wk_stage k) w of
        (st, v) \<Rightarrow> (k\<lparr>wk_stage := st, wk_beating := beating_after (wk_stage k) (wk_beating k)\<rparr>, v))"

text \<open>
  The goroutines of a daemon: the world they share, where the loop stands, the jobs, and the
  workload of every claim the loop has acted on so far, which the code does not record.
\<close>

record 'd crew =
  cw :: "'d daemon_scheme"
  loop_at :: turn
  workers :: "('d daemon_scheme) worker list"
  claims :: "string list"

definition fresh_crew :: "'d daemon_scheme \<Rightarrow> 'd crew" where
  "fresh_crew w = \<lparr>cw = w, loop_at = Booting, workers = [], claims = []\<rparr>"

text \<open>
  One step of one goroutine.  A loop that waits for its ticker starts a tick unless it is paused,
  and returns when the context is cancelled.
\<close>

inductive crew_step for E EI S D where
  loop: "(loop_at c = Waiting \<longrightarrow> \<not> paused_flag (cw c)) \<Longrightarrow>
    loop_step E D (loop_at c) (cw c) = ((t, f), w) \<Longrightarrow>
    crew_step E EI S D c (c\<lparr>cw := w, loop_at := t, workers := workers c @ map new_worker (started f),
      claims := claims c @ turn_claim (loop_at c)\<rparr>)"
| return: "loop_at c = Waiting \<Longrightarrow> ctx_done (cw c) \<Longrightarrow> crew_step E EI S D c (c\<lparr>loop_at := Stopped\<rparr>)"
| work: "i < length (workers c) \<Longrightarrow> worker_step E D (workers c ! i) (cw c) = (k, w) \<Longrightarrow>
    crew_step E EI S D c (c\<lparr>cw := w, workers := (workers c)[i := k]\<rparr>)"
| leave: "i < length (workers c) \<Longrightarrow> wk_stage (workers c ! i) = Returned \<Longrightarrow>
    crew_step E EI S D c (c\<lparr>cw := release_slot (fl_slot (wk_flight (workers c ! i))) (cw c),
      workers := take i (workers c) @ drop (Suc i) (workers c)\<rparr>)"
| beat: "i < length (workers c) \<Longrightarrow> wk_beating (workers c ! i) \<Longrightarrow>
    Heartbeat E (DepCloud D) (wl_ID (fl_wl (wk_flight (workers c ! i))))
      (LeaseTok (fl_lease (wk_flight (workers c ! i)))) (cw c) = (r, w) \<Longrightarrow>
    crew_step E EI S D c (c\<lparr>cw := w,
      workers := (workers c)[i := (workers c ! i)\<lparr>wk_beating := r \<in> range Inr\<rparr>]\<rparr>)"
| request: "ipc_serve EI S rq (cw c) = (res, w) \<Longrightarrow> crew_step E EI S D c (c\<lparr>cw := w\<rparr>)"
| signal: "crew_step E EI S D c (c\<lparr>cw := (cw c)\<lparr>ctx_done := True\<rparr>\<rparr>)"

text \<open>
  A crash leaves a database on which the operations in flight have been carried out up to any
  point, in any order; whatever else the next boot finds (files, keystore, network) is arbitrary.
\<close>

inductive life_step for E EI H F where
  run: "crew_step E EI S D c c' \<Longrightarrow> life_step E EI H F (S, D, c) (S, D, c')"
| crash: "(store_step E)\<^sup>*\<^sup>* (db (cw c)) (db w) \<Longrightarrow> boot E H F w = (Running S' port D', v) \<Longrightarrow>
    life_step E EI H F (S, D, c) (S', D', fresh_crew v)"

section \<open>The invariant\<close>

definition slots_out :: "'d crew \<Rightarrow> nat list" where
  "slots_out c = turn_slots (loop_at c) @ map (\<lambda>k. fl_slot (wk_flight k)) (workers c)"

definition crew_ok :: "('d daemon_scheme) sched_deps \<Rightarrow> limits \<Rightarrow> 'd crew \<Rightarrow> bool" where
  "crew_ok D l c \<longleftrightarrow> pool_inv \<lparr>pm = pool (cw c), passed = []\<rparr> \<and> mlimits (pool (cw c)) = l \<and>
     distinct (slots_out c) \<and> set (slots_out c) = held (pool (cw c)) \<and>
     (\<forall>k \<in> set (workers c). closing_ok (wk_stage k) \<and>
        Lookup (DepRegistry D) (wl_Type (fl_wl (wk_flight k))) = Some (fl_exec (wk_flight k)))"

lemma worker_step_flight: "worker_step E D k w = (k', v) \<Longrightarrow> wk_flight k' = wk_flight k"
  by (auto simp: worker_step_def split: prod.splits)

lemma crew_same_pool:
  assumes "crew_ok D l c" and "pool w = pool (cw c)"
  shows "crew_ok D l (c\<lparr>cw := w\<rparr>)"
  using assms by (simp add: crew_ok_def slots_out_def)

lemma map_update_same: "i < length xs \<Longrightarrow> f y = f (xs ! i) \<Longrightarrow> map f (xs[i := y]) = map f xs"
  by (simp add: map_update list_update_same_conv)

lemma crew_update:
  assumes ok: "crew_ok D l c" and i: "i < length (workers c)" and p: "pool w = pool (cw c)"
    and k: "wk_flight k = wk_flight (workers c ! i)" "closing_ok (wk_stage k)"
  shows "crew_ok D l (c\<lparr>cw := w, workers := (workers c)[i := k]\<rparr>)"
proof -
  have "map (\<lambda>k. fl_slot (wk_flight k)) ((workers c)[i := k]) = map (\<lambda>k. fl_slot (wk_flight k)) (workers c)"
    using i k(1) by (intro map_update_same) simp_all
  moreover have "Lookup (DepRegistry D) (wl_Type (fl_wl (wk_flight k))) = Some (fl_exec (wk_flight k))"
    using ok i k(1) by (auto simp: crew_ok_def)
  then have "\<forall>x \<in> set ((workers c)[i := k]). closing_ok (wk_stage x) \<and>
      Lookup (DepRegistry D) (wl_Type (fl_wl (wk_flight x))) = Some (fl_exec (wk_flight x))"
    using ok k set_update_subset_insert [of "workers c" i k] unfolding crew_ok_def by blast
  ultimately show ?thesis using ok p by (simp add: crew_ok_def slots_out_def)
qed

lemma loop_registered:
  assumes "loop_step E D t w = ((t', f), v)" and "f = Some x"
  shows "Lookup (DepRegistry D) (wl_Type (fl_wl x)) = Some (fl_exec x)"
proof (cases "\<exists>i resp. t = Answered i (Inr resp)")
  case True
  then obtain i resp where "t = Answered i (Inr resp)" by blast
  with assms have "dispatch E D i resp w = (f, v)" by (cases "dispatch E D i resp w") simp
  with dispatch_slot [where E = E and D = D and i = i and resp = resp and w = w] assms(2) show ?thesis by auto
next
  case False
  then have "snd (fst (loop_step E D t w)) = None" by (cases "(E, D, t, w)" rule: loop_step.cases) simp_all
  with assms show ?thesis by simp
qed

lemma crew_loop:
  assumes ok: "crew_ok D l c" and run: "loop_step E D (loop_at c) (cw c) = ((t, f), w)"
  shows "crew_ok D l (c\<lparr>cw := w, loop_at := t, workers := workers c @ map new_worker (started f), claims := cs\<rparr>)"
proof -
  let ?ws = "map (\<lambda>k. fl_slot (wk_flight k)) (workers c)"
  let ?c = "c\<lparr>cw := w, loop_at := t, workers := workers c @ map new_worker (started f), claims := cs\<rparr>"
  have new: "slots_out ?c = turn_slots t @ ?ws @ map fl_slot (started f)"
    by (cases f) (simp_all add: slots_out_def new_worker_def)
  have known: "closing_ok (wk_stage k) \<and> (Lookup (DepRegistry D) (wl_Type (fl_wl (wk_flight k))) = Some (fl_exec (wk_flight k)))"
    if "k \<in> set (workers c @ map new_worker (started f))" for k
    using that ok loop_registered [OF run] by (cases f) (auto simp: crew_ok_def new_worker_def closing_ok_def)
  have inv: "pool_inv \<lparr>pm = pool (cw c), passed = []\<rparr>" and lim: "mlimits (pool (cw c)) = l"
    and dist: "distinct (turn_slots (loop_at c) @ ?ws)" and out: "set (turn_slots (loop_at c) @ ?ws) = held (pool (cw c))"
    using ok by (simp_all add: crew_ok_def slots_out_def)
  have "pool_inv \<lparr>pm = pool w, passed = []\<rparr> \<and> mlimits (pool w) = l \<and>
      distinct (turn_slots t @ ?ws @ map fl_slot (started f)) \<and>
      set (turn_slots t @ ?ws @ map fl_slot (started f)) = held (pool w)"
    using loop_slots [OF run]
  proof (elim disjE exE conjE)
    assume p: "pool w = pool (cw c)" and t: "turn_slots t @ map fl_slot (started f) = turn_slots (loop_at c)"
    show ?thesis using inv lim dist out unfolding p t [symmetric] by auto
  next
    fix i assume i: "turn_slots (loop_at c) = [i]" "turn_slots t = []" "f = None" "pool w = Release (Some i) (pool (cw c))"
    with dist out have "held (pool (cw c)) - {i} = set ?ws" by auto
    with i inv lim dist out show ?thesis by (simp add: pool_inv_return pool.release_returns)
  next
    fix p i assume i: "turn_slots (loop_at c) = []" "turn_slots t = [i]" "f = None"
      and r: "Reserve p (pool (cw c)) = (Inr i, pool w)"
    from pool.reserve_grants [OF r] pool_inv_reserve [OF r inv] Reserve_limits [OF r] i lim dist out
    show ?thesis by simp
  qed
  with known show ?thesis unfolding crew_ok_def new by simp
qed

lemma crew_leave:
  assumes ok: "crew_ok D l c" and i: "i < length (workers c)"
  shows "crew_ok D l (c\<lparr>cw := release_slot (fl_slot (wk_flight (workers c ! i))) (cw c),
    workers := take i (workers c) @ drop (Suc i) (workers c)\<rparr>)"
proof -
  let ?k = "workers c ! i" and ?f = "\<lambda>k. fl_slot (wk_flight k)"
  have split: "workers c = take i (workers c) @ ?k # drop (Suc i) (workers c)"
    using i by (rule id_take_nth_drop)
  have "distinct (turn_slots (loop_at c) @ map ?f (take i (workers c) @ ?k # drop (Suc i) (workers c)))"
    and "set (turn_slots (loop_at c) @ map ?f (take i (workers c) @ ?k # drop (Suc i) (workers c))) = held (pool (cw c))"
    using ok split by (simp_all add: crew_ok_def slots_out_def)
  then have "distinct (turn_slots (loop_at c) @ map ?f (take i (workers c) @ drop (Suc i) (workers c)))"
    and "set (turn_slots (loop_at c) @ map ?f (take i (workers c) @ drop (Suc i) (workers c))) = held (pool (cw c)) - {?f ?k}"
    by auto
  moreover have "set (take i (workers c) @ drop (Suc i) (workers c)) \<subseteq> set (workers c)"
    using set_take_subset [of i "workers c"] set_drop_subset [of "Suc i" "workers c"] by auto
  ultimately show ?thesis
    using ok unfolding crew_ok_def slots_out_def
    by (simp add: pool_inv_return pool.release_returns) blast
qed

text \<open>What a step of a job goroutine may do.\<close>

lemma worker_step_within:
  assumes reg: "boot_registry E (Some (DepCloud D)) = Some (DepRegistry D)"
    and found: "Lookup (DepRegistry D) t = Some (fl_exec (wk_flight k))"
    and ok: "closing_ok (wk_stage k)" and run: "worker_step E D k w = (k', v)"
  shows "pool v = pool w \<and> safe (db w) (db v) \<and> closing_ok (wk_stage k') \<and>
    (\<forall>wid. reports_within (DepCloud D) wid (if wid = wl_ID (fl_wl (wk_flight k)) \<and> \<not> settled (wk_stage k) \<and>
       settled (wk_stage k') then 1 else 0) w v) \<and> (settled (wk_stage k) \<longrightarrow> settled (wk_stage k'))"
proof -
  note contract = wired_contract [OF reg found]
  let ?a = "advance E D (fl_exec (wk_flight k)) (fl_wl (wk_flight k)) (fl_lease (wk_flight k)) (wk_stage k) w"
  have v: "v = snd ?a" "wk_stage k' = fst ?a" using run by (auto simp: worker_step_def split: prod.splits)
  show ?thesis
    unfolding v
    by (intro conjI allI impI advance_pool [OF executor_contract.keeps [OF contract]] advance_safe [OF contract ok]
        advance_closing [OF ok] advance_reports [OF contract] settled_stays)
qed

definition life_ok where
  "life_ok E d0 p \<longleftrightarrow> (case p of (S, D, c) \<Rightarrow>
     crew_ok D (mlimits (NewManager zero_limits)) c \<and> safe d0 (db (cw c)) \<and> 32 \<le> length (srv_token S) \<and>
     boot_registry E (Some (DepCloud D)) = Some (DepRegistry D))"

lemma boot_life_ok:
  assumes run: "boot E H F w = (Running S port D, v)"
  shows "life_ok E (db w) (S, D, fresh_crew v)"
proof -
  from boot_running [OF run] have b: "boot_registry E (Some (DepCloud D)) = Some (DepRegistry D)"
    "pool v = NewManager zero_limits" "32 \<le> length (srv_token S)"
    "db v = snd (RecoverOrphaned E ReasonOrphanedAfterRestart (db w))" by auto
  have "pool_inv (start_run zero_limits)" by (rule start_run_inv) (simp add: zero_limits_def)
  moreover have "held (NewManager zero_limits) = {}" by (simp add: held_def NewManager_def)
  ultimately have "crew_ok D (mlimits (NewManager zero_limits)) (fresh_crew v)"
    using b(2) by (simp add: crew_ok_def fresh_crew_def slots_out_def start_run_def)
  moreover have "safe (db w) (db v)" unfolding b(4) by (rule RecoverOrphaned_safe)
  ultimately show ?thesis using b by (simp add: life_ok_def fresh_crew_def)
qed

lemma crew_step_ok:
  assumes "crew_step E EI S D c c'" and ok: "life_ok E d0 (S, D, c)"
  shows "life_ok E d0 (S, D, c')"
proof -
  have crew: "crew_ok D (mlimits (NewManager zero_limits)) c" and d: "safe d0 (db (cw c))"
    and reg: "boot_registry E (Some (DepCloud D)) = Some (DepRegistry D)"
    using ok by (simp_all add: life_ok_def)
  have within: "life_ok E d0 (S, D, c\<lparr>cw := w\<rparr>)" if "runs_within (cw c) w" for w
    using that ok safe_trans [OF d mild_safe] by (simp add: life_ok_def runs_within_def crew_same_pool)
  from assms(1) show ?thesis
  proof cases
    case (loop t f w)
    from loop_safe [of "cw c" E D "loop_at c"] loop(3) have "safe (db (cw c)) (db w)" by simp
    with crew_loop [OF crew loop(3)] ok safe_trans [OF d] loop(1) show ?thesis by (simp add: life_ok_def)
  next
    case return
    with ok show ?thesis by (simp add: life_ok_def crew_ok_def slots_out_def)
  next
    case (work i k w)
    from crew work(2) obtain t where "Lookup (DepRegistry D) t = Some (fl_exec (wk_flight (workers c ! i)))"
      "closing_ok (wk_stage (workers c ! i))" by (meson crew_ok_def nth_mem)
    note step = worker_step_within [OF reg this work(3)]
    with crew_update [OF crew work(2) _ worker_step_flight [OF work(3)]] ok safe_trans [OF d] work(1)
    show ?thesis by (simp add: life_ok_def)
  next
    case (leave i)
    with crew_leave [OF crew leave(2)] ok show ?thesis by (simp add: life_ok_def)
  next
    case (beat i r w)
    let ?k = "(workers c ! i)\<lparr>wk_beating := r \<in> range Inr\<rparr>"
    note h = Heartbeat_within [OF beat(4)]
    have "closing_ok (wk_stage ?k)" using crew beat(2) by (simp add: crew_ok_def)
    with crew_update [OF crew beat(2), of w ?k] h ok safe_trans [OF d mild_safe] beat(1)
    show ?thesis by (simp add: life_ok_def runs_within_def)
  next
    case (request rq res w)
    with within ipc_serve_within show ?thesis by blast
  next
    case signal
    with within [of "(cw c)\<lparr>ctx_done := True\<rparr>"] show ?thesis by (simp add: runs_withinI)
  qed
qed

lemma store_steps_safe: "(store_step E)\<^sup>*\<^sup>* d d' \<Longrightarrow> safe d d'"
  by (induction rule: rtranclp_induct) (auto intro: safe_trans dest: store_step_safe)

lemma life_step_ok:
  assumes "life_step E EI H F p q" and ok: "life_ok E d0 p"
  shows "life_ok E d0 q"
  using assms(1)
proof cases
  case (run S D c c')
  with ok crew_step_ok show ?thesis by blast
next
  case (crash c w S' port D' v S D)
  have "safe d0 (db w)"
    using ok safe_trans [OF _ store_steps_safe [OF crash(3)], of d0] unfolding crash(1) by (simp add: life_ok_def)
  with boot_life_ok [OF crash(4)] safe_trans [of d0 "db w"] crash(2) show ?thesis by (simp add: life_ok_def)
qed

interpretation life: step_invariant "life_step E EI H F" "life_ok E d0" for E EI H F d0
  by unfold_locales (rule life_step_ok)

lemma slots_counted:
  assumes ok: "crew_ok D (mlimits (NewManager zero_limits)) c"
  shows "int (length (slots_out c)) = Active (pool (cw c)) \<and> length (slots_out c) \<le> 2"
proof -
  have "length (slots_out c) = card (held (pool (cw c)))"
    using ok by (metis distinct_card crew_ok_def)
  then have "int (length (slots_out c)) = Active (pool (cw c)) \<and>
      int (length (slots_out c)) \<le> MaxConcurrentJobs (mlimits (NewManager zero_limits))"
    using ok by (auto simp: crew_ok_def pool_inv_def card_held)
  then show ?thesis by (simp add: NewManager_def zero_limits_def default_defs)
qed

lemma life_run_ok:
  assumes "boot E H F w = (Running S0 port D0, v)" and "(life_step E EI H F)\<^sup>*\<^sup>* (S0, D0, fresh_crew v) (S, D, c)"
  shows "life_ok E (db w) (S, D, c)"
  by (rule life.run_keeps [OF assms(2) boot_life_ok [OF assms(1)]])

text \<open>
  C2. Whatever happens to the daemon, over any number of crashes and restarts and any interleaving
  of the loop, the jobs, the heartbeats, the control server and signals, one database statement
  or request at a time: on tables that were well-formed at the first boot the tables stay
  well-formed, no job, event or attempt is ever lost, each slot out is that of one job or of
  the loop's tick, they are what the pool counts and at most two, each job runs on the
  executor registered for its type, and the control server asks for a token of at least 32 characters.
\<close>

theorem daemon_invariant:
  assumes boot: "boot E H F w = (Running S0 port D0, v)" and wf: "store_wf (db w)"
    and run: "(life_step E EI H F)\<^sup>*\<^sup>* (S0, D0, fresh_crew v) (S, D, c)"
  shows "store_wf (db (cw c)) \<and> store_before (db w) (db (cw c)) \<and>
    distinct (slots_out c) \<and> set (slots_out c) = held (pool (cw c)) \<and>
    int (length (slots_out c)) = Active (pool (cw c)) \<and> length (slots_out c) \<le> 2 \<and>
    (\<forall>k \<in> set (workers c). Lookup (DepRegistry D) (wl_Type (fl_wl (wk_flight k))) = Some (fl_exec (wk_flight k))) \<and>
    32 \<le> length (srv_token S)"
proof -
  have ok: "life_ok E (db w) (S, D, c)" by (rule life_run_ok [OF boot run])
  then have "crew_ok D (mlimits (NewManager zero_limits)) c" by (simp add: life_ok_def)
  with slots_counted [OF this] ok wf show ?thesis by (simp add: life_ok_def safe_def crew_ok_def)
qed

text \<open>A daemon that is started on a running job, crashes and is started again.\<close>

lemma sample_reboot: "\<exists>S D v. boot calm_benv calm_host (default_flags calm_host) w = (Running S 40000 D, v)"
proof -
  obtain L where L: "Resolve calm_benv (DataDir (default_flags calm_host)) = Inr L" using sample_dir by blast
  show ?thesis by (rule boot_up [OF _ _ _ _ L sample_addr]) (simp_all add: default_flags_def)
qed

theorem daemon_invariant_witness:
  "\<exists>S D v S' D' v'. boot calm_benv calm_host (default_flags calm_host)
       (sample_bootw\<lparr>db := claimed_store StatusRunning\<rparr>) = (Running S 40000 D, v) \<and>
     (life_step calm_benv (calm_ienv (\<lambda>_. Reply 200 [] None) (\<lambda>_. None)) calm_host (default_flags calm_host))\<^sup>*\<^sup>*
       (S, D, fresh_crew v) (S', D', fresh_crew v') \<and>
     store_before (claimed_store StatusRunning) (db (cw (fresh_crew v')))"
proof -
  let ?H = calm_host and ?F = "default_flags calm_host" and ?w = "sample_bootw\<lparr>db := claimed_store StatusRunning\<rparr>"
  obtain S and D :: "bootw sched_deps" and v where boot: "boot calm_benv ?H ?F ?w = (Running S 40000 D, v)"
    using sample_reboot [of ?w] by blast
  let ?c = "fresh_crew v"
  obtain S' and D' :: "bootw sched_deps" and v' where again: "boot calm_benv ?H ?F (cw ?c) = (Running S' 40000 D', v')"
    using sample_reboot [of "cw ?c"] by blast
  have "life_step calm_benv (calm_ienv (\<lambda>_. Reply 200 [] None) (\<lambda>_. None)) ?H ?F (S, D, ?c)
      (S', D', fresh_crew v')"
    by (rule life_step.crash [OF _ again]) simp
  then have run: "(life_step calm_benv (calm_ienv (\<lambda>_. Reply 200 [] None) (\<lambda>_. None)) ?H ?F)\<^sup>*\<^sup>* (S, D, ?c)
      (S', D', fresh_crew v')" by (rule r_into_rtranclp)
  have "store_wf (db ?w)" by (simp add: claimed_store_wf all_statuses_def)
  from daemon_invariant [OF boot this run] boot run show ?thesis by auto
qed

end
