(* ===== verification/LifeProps.thy ===== *)
theory LifeProps
  imports Lifecycle
begin

text \<open>
  What holds of the daemon's goroutines in every interleaving: the terminal reports of its claims,
  the end of its jobs; and the scheduler of theory Scheduler, which runs a tick or a job in one
  piece, as one of their interleavings.
\<close>

section \<open>Terminal reports\<close>

text \<open>The jobs of a workload whose report is still to come.\<close>

definition unsettled :: "string \<Rightarrow> 'w worker \<Rightarrow> bool" where
  "unsettled wid k \<longleftrightarrow> wl_ID (fl_wl (wk_flight k)) = wid \<and> \<not> settled (wk_stage k)"

definition open_jobs :: "string \<Rightarrow> 'w worker list \<Rightarrow> nat" where
  "open_jobs wid ws = length (filter (unsettled wid) ws)"

lemma open_jobs_append: "open_jobs wid (xs @ ys) = open_jobs wid xs + open_jobs wid ys"
  by (simp add: open_jobs_def)

lemma open_jobs_new: "open_jobs wid (map new_worker fs) = flights_of wid fs"
  by (induction fs) (simp_all add: open_jobs_def flights_of_def unsettled_def new_worker_def)

lemma open_jobs_update:
  assumes "i < length ws"
  shows "open_jobs wid (ws[i := k]) + of_bool (unsettled wid (ws ! i)) = open_jobs wid ws + of_bool (unsettled wid k)"
proof -
  have "open_jobs wid ws = open_jobs wid (take i ws) + of_bool (unsettled wid (ws ! i)) + open_jobs wid (drop (Suc i) ws)"
    by (subst id_take_nth_drop [OF assms]) (simp add: open_jobs_def)
  moreover have "open_jobs wid (ws[i := k]) =
      open_jobs wid (take i ws) + of_bool (unsettled wid k) + open_jobs wid (drop (Suc i) ws)"
    using assms by (simp add: open_jobs_def upd_conv_take_nth_drop)
  ultimately show ?thesis by simp
qed

lemma open_jobs_leave:
  assumes "i < length ws" and "settled (wk_stage (ws ! i))"
  shows "open_jobs wid (take i ws @ drop (Suc i) ws) = open_jobs wid ws"
proof -
  have "open_jobs wid ws = open_jobs wid (take i ws @ ws ! i # drop (Suc i) ws)"
    using id_take_nth_drop [OF assms(1)] by simp
  with assms(2) show ?thesis by (simp add: open_jobs_def unsettled_def)
qed

definition budget_ok :: "('d daemon_scheme) sched_deps \<Rightarrow> 'd daemon_scheme \<Rightarrow> 'd crew \<Rightarrow> bool" where
  "budget_ok D w0 c \<longleftrightarrow> (\<forall>wid. open_jobs wid (workers c) \<le> count_list (claims c) wid \<and>
     reports_within (DepCloud D) wid (count_list (claims c) wid - open_jobs wid (workers c)) w0 (cw c))"

lemma budget_more:
  assumes "budget_ok D w0 c"
    and "\<And>wid. reports_within (DepCloud D) wid (m wid) (cw c) w"
    and "\<And>wid. open_jobs wid ws + m wid \<le> open_jobs wid (workers c) + count_list cs wid"
    and "\<And>wid. open_jobs wid ws \<le> open_jobs wid (workers c) + count_list cs wid"
  shows "budget_ok D w0 (c\<lparr>cw := w, loop_at := t, workers := ws, claims := claims c @ cs\<rparr>)"
  unfolding budget_ok_def
proof (intro allI conjI)
  fix wid
  have b: "open_jobs wid (workers c) \<le> count_list (claims c) wid"
    "reports_within (DepCloud D) wid (count_list (claims c) wid - open_jobs wid (workers c)) w0 (cw c)"
    using assms(1) by (simp_all add: budget_ok_def)
  with assms(4) [of wid] show "open_jobs wid (workers (c\<lparr>cw := w, loop_at := t, workers := ws, claims := claims c @ cs\<rparr>))
      \<le> count_list (claims (c\<lparr>cw := w, loop_at := t, workers := ws, claims := claims c @ cs\<rparr>)) wid"
    by simp
  have "reports_within (DepCloud D) wid (count_list (claims c) wid - open_jobs wid (workers c) + m wid) w0 w"
    by (rule reports_within_trans [OF b(2) assms(2)])
  then have "reports_within (DepCloud D) wid (count_list (claims c @ cs) wid - open_jobs wid ws) w0 w"
    by (rule reports_within_mono) (use assms(3) [of wid] b(1) in simp)
  then show "reports_within (DepCloud D) wid
      (count_list (claims (c\<lparr>cw := w, loop_at := t, workers := ws, claims := claims c @ cs\<rparr>)) wid -
        open_jobs wid (workers (c\<lparr>cw := w, loop_at := t, workers := ws, claims := claims c @ cs\<rparr>))) w0
      (cw (c\<lparr>cw := w, loop_at := t, workers := ws, claims := claims c @ cs\<rparr>))" by simp
qed

lemma budget_within:
  assumes "budget_ok D w0 c" and "runs_within (cw c) w" and "\<And>wid. open_jobs wid ws = open_jobs wid (workers c)"
  shows "budget_ok D w0 (c\<lparr>cw := w, workers := ws\<rparr>)"
  using budget_more [OF assms(1), of "\<lambda>_. 0" w ws "[]" "loop_at c"] assms(2,3) by (simp add: runs_within_def)

lemma crew_step_budget:
  assumes step: "crew_step E EI S D c c'" and ok: "life_ok E d0 (S, D, c)" and b: "budget_ok D w0 c"
  shows "budget_ok D w0 c'"
proof -
  have crew: "crew_ok D (mlimits (NewManager zero_limits)) c"
    and reg: "boot_registry E (Some (DepCloud D)) = Some (DepRegistry D)"
    using ok by (simp_all add: life_ok_def)
  have keep: "budget_ok D w0 (c\<lparr>cw := w\<rparr>)" if "runs_within (cw c) w" for w
    using budget_within [OF b that, of "workers c"] by simp
  from step show ?thesis
  proof cases
    case (loop t f w)
    note rep = loop_reports [OF loop(3)]
    show ?thesis unfolding loop(1)
    proof (rule budget_more [OF b, where m = "\<lambda>wid. count_list (turn_claim (loop_at c)) wid - flights_of wid (started f)"])
      fix wid
      show "reports_within (DepCloud D) wid (count_list (turn_claim (loop_at c)) wid - flights_of wid (started f)) (cw c) w"
        using rep by blast
      show "open_jobs wid (workers c @ map new_worker (started f)) +
          (count_list (turn_claim (loop_at c)) wid - flights_of wid (started f))
          \<le> open_jobs wid (workers c) + count_list (turn_claim (loop_at c)) wid"
        using rep [of wid] by (simp add: open_jobs_append open_jobs_new)
      show "open_jobs wid (workers c @ map new_worker (started f))
          \<le> open_jobs wid (workers c) + count_list (turn_claim (loop_at c)) wid"
        using rep [of wid] by (simp add: open_jobs_append open_jobs_new)
    qed
  next
    case return
    with b show ?thesis by (simp add: budget_ok_def)
  next
    case (work i k w)
    from crew work(2) obtain t where "Lookup (DepRegistry D) t = Some (fl_exec (wk_flight (workers c ! i)))"
      "closing_ok (wk_stage (workers c ! i))" by (meson crew_ok_def nth_mem)
    note st = worker_step_within [OF reg this work(3)]
    note fl = worker_step_flight [OF work(3)]
    let ?m = "\<lambda>wid. if wid = wl_ID (fl_wl (wk_flight (workers c ! i))) \<and> \<not> settled (wk_stage (workers c ! i)) \<and>
        settled (wk_stage k) then 1 else 0"
    have eq: "open_jobs wid ((workers c)[i := k]) + ?m wid = open_jobs wid (workers c)" for wid
      using open_jobs_update [OF work(2), of wid k] st fl by (auto simp: unsettled_def split: if_splits)
    have "budget_ok D w0 (c\<lparr>cw := w, loop_at := loop_at c, workers := (workers c)[i := k], claims := claims c @ []\<rparr>)"
    proof (rule budget_more [OF b, where m = ?m])
      fix wid
      show "reports_within (DepCloud D) wid (?m wid) (cw c) w" using st by blast
      show "open_jobs wid ((workers c)[i := k]) + ?m wid \<le> open_jobs wid (workers c) + count_list [] wid"
        unfolding eq by simp
      show "open_jobs wid ((workers c)[i := k]) \<le> open_jobs wid (workers c) + count_list [] wid"
        using eq [of wid] by simp
    qed
    then show ?thesis unfolding work(1) by simp
  next
    case (leave i)
    have "budget_ok D w0 (c\<lparr>cw := release_slot (fl_slot (wk_flight (workers c ! i))) (cw c),
        loop_at := loop_at c, workers := take i (workers c) @ drop (Suc i) (workers c), claims := claims c @ []\<rparr>)"
      using open_jobs_leave [OF leave(2)] leave(3)
      by (intro budget_more [OF b, where m = "\<lambda>_. 0"]) (simp_all add: reports_within_refl)
    then show ?thesis unfolding leave(1) by simp
  next
    case (beat i r w)
    have "open_jobs wid ((workers c)[i := (workers c ! i)\<lparr>wk_beating := r \<in> range Inr\<rparr>]) = open_jobs wid (workers c)" for wid
      using open_jobs_update [OF beat(2), of wid "(workers c ! i)\<lparr>wk_beating := r \<in> range Inr\<rparr>"]
      by (simp add: unsettled_def)
    with budget_within [OF b Heartbeat_within [OF beat(4)]] show ?thesis unfolding beat(1) by blast
  next
    case (request rq res w)
    with keep ipc_serve_within show ?thesis by blast
  next
    case signal
    with keep [of "(cw c)\<lparr>ctx_done := True\<rparr>"] show ?thesis by (simp add: runs_withinI)
  qed
qed

lemma crew_run_budget:
  assumes "(crew_step E EI S D)\<^sup>*\<^sup>* c c'" and "life_ok E d0 (S, D, c)" and "budget_ok D w0 c"
  shows "life_ok E d0 (S, D, c') \<and> budget_ok D w0 c'"
  using assms by (induction rule: rtranclp_induct) (auto intro: crew_step_ok crew_step_budget)

section \<open>Ticks and jobs in one piece\<close>

text \<open>The goroutines of a scheduler between two ticks, whose jobs have not begun.\<close>

definition crew_of :: "'d sched \<Rightarrow> string list \<Rightarrow> 'd crew" where
  "crew_of s cs = \<lparr>cw = sw s, loop_at = Waiting, workers = map new_worker (flying s), claims = cs\<rparr>"

lemma loops_run:
  assumes "loops n E D (loop_at c) (cw c) = ((t, fs), w)" and "loop_at c = Waiting \<longrightarrow> \<not> paused_flag (cw c)"
  shows "\<exists>cs. (crew_step E EI S D)\<^sup>*\<^sup>* c
    (c\<lparr>cw := w, loop_at := t, workers := workers c @ map new_worker fs, claims := claims c @ cs\<rparr>)"
  using assms
proof (induction n arbitrary: c fs)
  case 0
  then have "c\<lparr>cw := w, loop_at := t, workers := workers c @ map new_worker fs, claims := claims c @ []\<rparr> = c"
    by (cases c) simp
  then show ?case by (metis rtranclp.rtrancl_refl)
next
  case (Suc n)
  obtain t1 f w1 where l: "loop_step E D (loop_at c) (cw c) = ((t1, f), w1)" by (metis prod.collapse)
  let ?c = "c\<lparr>cw := w1, loop_at := t1, workers := workers c @ map new_worker (started f),
    claims := claims c @ turn_claim (loop_at c)\<rparr>"
  have one: "crew_step E EI S D c ?c" by (rule crew_step.loop [OF Suc.prems(2) l])
  show ?case
  proof (cases "t1 = Waiting")
    case True
    with Suc.prems(1) l have "t = t1" "fs = started f" "w = w1" by simp_all
    with one show ?thesis by (intro exI [of _ "turn_claim (loop_at c)"]) (simp add: r_into_rtranclp)
  next
    case False
    with Suc.prems(1) l obtain gs where rest: "loops n E D (loop_at ?c) (cw ?c) = ((t, gs), w)"
      and fs: "fs = started f @ gs" by (auto split: prod.splits)
    with Suc.IH [of ?c gs] False obtain cs where "(crew_step E EI S D)\<^sup>*\<^sup>* ?c
        (?c\<lparr>cw := w, loop_at := t, workers := workers ?c @ map new_worker gs, claims := claims ?c @ cs\<rparr>)" by auto
    from converse_rtranclp_into_rtranclp [OF one this] fs show ?thesis
      by (intro exI [of _ "turn_claim (loop_at c) @ cs"]) simp
  qed
qed

lemma worker_run:
  assumes "i < length (workers c)" and "wk_flight (workers c ! i) = f"
    and "advances n E D (fl_exec f) (fl_wl f) (fl_lease f) (wk_stage (workers c ! i), cw c) = (st, w)"
  shows "\<exists>k. wk_flight k = f \<and> wk_stage k = st \<and>
    (crew_step E EI S D)\<^sup>*\<^sup>* c (c\<lparr>cw := w, workers := (workers c)[i := k]\<rparr>)"
  using assms
proof (induction n arbitrary: c)
  case 0
  then have same: "c\<lparr>cw := w, workers := (workers c)[i := workers c ! i]\<rparr> = c" by (cases c) simp
  show ?case by (rule exI [of _ "workers c ! i"], unfold same) (use 0 in simp)
next
  case (Suc n)
  obtain k1 w1 where s: "worker_step E D (workers c ! i) (cw c) = (k1, w1)" by fastforce
  let ?c = "c\<lparr>cw := w1, workers := (workers c)[i := k1]\<rparr>"
  have one: "crew_step E EI S D c ?c" by (rule crew_step.work [OF Suc.prems(1) s])
  have k1: "wk_flight k1 = f" using worker_step_flight [OF s] Suc.prems(2) by simp
  have "advance E D (fl_exec f) (fl_wl f) (fl_lease f) (wk_stage (workers c ! i)) (cw c) = (wk_stage k1, w1)"
    using s Suc.prems(2) by (auto simp: worker_step_def split: prod.splits)
  with Suc.prems k1 have "advances n E D (fl_exec f) (fl_wl f) (fl_lease f) (wk_stage (workers ?c ! i), cw ?c) = (st, w)"
    by simp
  with Suc.IH [of ?c] Suc.prems(1) k1 obtain k where k: "wk_flight k = f" "wk_stage k = st"
    "(crew_step E EI S D)\<^sup>*\<^sup>* ?c (?c\<lparr>cw := w, workers := (workers ?c)[i := k]\<rparr>)" by auto
  from converse_rtranclp_into_rtranclp [OF one k(3)] k show ?case by (intro exI [of _ k]) simp
qed

lemma landing_run:
  assumes "landing E D s t"
  shows "(crew_step E EI S D)\<^sup>*\<^sup>* (crew_of s cs) (crew_of t cs)"
proof -
  obtain i where i: "i < length (flying s)"
    and t: "t = s\<lparr>sw := land E D (flying s ! i) (sw s), flying := take i (flying s) @ drop (Suc i) (flying s)\<rparr>"
    using assms unfolding landing_def by blast
  let ?c = "crew_of s cs" and ?f = "flying s ! i"
  have len: "i < length (workers ?c)" and w: "workers ?c ! i = new_worker ?f"
    using i by (simp_all add: crew_of_def)
  have "advances 12 E D (fl_exec ?f) (fl_wl ?f) (fl_lease ?f) (wk_stage (workers ?c ! i), cw ?c) =
      (Returned, runOne E D (fl_exec ?f) (fl_wl ?f) (fl_lease ?f) (sw s))"
    unfolding w by (simp only: advances_runOne new_worker_def worker.simps crew_of_def crew.simps)
  from worker_run [OF len _ this] w obtain k where k: "wk_flight k = ?f" "wk_stage k = Returned"
    and run: "(crew_step E EI S D)\<^sup>*\<^sup>* ?c (?c\<lparr>cw := runOne E D (fl_exec ?f) (fl_wl ?f) (fl_lease ?f) (sw s),
      workers := (workers ?c)[i := k]\<rparr>)" by (auto simp: new_worker_def)
  let ?d = "?c\<lparr>cw := runOne E D (fl_exec ?f) (fl_wl ?f) (fl_lease ?f) (sw s), workers := (workers ?c)[i := k]\<rparr>"
  have "crew_step E EI S D ?d (?d\<lparr>cw := release_slot (fl_slot (wk_flight (workers ?d ! i))) (cw ?d),
      workers := take i (workers ?d) @ drop (Suc i) (workers ?d)\<rparr>)"
    by (rule crew_step.leave) (use len k in simp_all)
  moreover have "?d\<lparr>cw := release_slot (fl_slot (wk_flight (workers ?d ! i))) (cw ?d),
      workers := take i (workers ?d) @ drop (Suc i) (workers ?d)\<rparr> = crew_of t cs"
    using len k i unfolding t by (simp add: crew_of_def land_def take_map drop_map)
  ultimately show ?thesis using run by simp
qed

text \<open>
  The scheduler in pieces: while it is not paused a tick as a whole, at any time the run of a job
  as a whole.
\<close>

definition whole_step :: "'e denv_scheme \<Rightarrow> ('d daemon_scheme) sched_deps \<Rightarrow> 'd sched \<Rightarrow> 'd sched \<Rightarrow> bool" where
  "whole_step E D s t \<longleftrightarrow> landing E D s t \<or>
     (\<not> paused_flag (sw s) \<and> (\<exists>f w. sched_tick E D (sw s) = (f, w) \<and>
        t = s\<lparr>sw := w, flying := flying s @ started f\<rparr>))"

lemma whole_step_run:
  assumes "whole_step E D s t"
  shows "\<exists>cs'. (crew_step E EI S D)\<^sup>*\<^sup>* (crew_of s cs) (crew_of t (cs @ cs'))"
proof (cases "landing E D s t")
  case True
  from landing_run [OF this] show ?thesis by (intro exI [of _ "[]"]) simp
next
  case False
  with assms obtain f w where p: "\<not> paused_flag (sw s)" and tk: "sched_tick E D (sw s) = (f, w)"
    and t: "t = s\<lparr>sw := w, flying := flying s @ started f\<rparr>" by (auto simp: whole_step_def)
  let ?c = "crew_of s cs"
  have "loops 7 E D (loop_at ?c) (cw ?c) = ((Waiting, started f), w)"
    using loops_tick [OF tk] by (simp only: crew_of_def crew.simps)
  from loops_run [OF this] p obtain cs' where "(crew_step E EI S D)\<^sup>*\<^sup>* ?c
      (?c\<lparr>cw := w, loop_at := Waiting, workers := workers ?c @ map new_worker (started f), claims := claims ?c @ cs'\<rparr>)"
    by (auto simp: crew_of_def)
  then show ?thesis unfolding t by (intro exI [of _ cs']) (simp add: crew_of_def)
qed

lemma whole_runs:
  assumes run: "(whole_step E D)\<^sup>*\<^sup>* (start_sched E w) s"
  shows "\<exists>cs. (crew_step E EI S D)\<^sup>*\<^sup>* (fresh_crew w) (crew_of s cs)"
  using run
proof (induction rule: rtranclp_induct)
  case base
  obtain n where "loops (Suc n) E D Booting w = ((Waiting, []), recoverPending E w)" using loops_recover by blast
  then have "loops (Suc n) E D (loop_at (fresh_crew w)) (cw (fresh_crew w)) = ((Waiting, []), recoverPending E w)"
    by (simp only: fresh_crew_def crew.simps)
  from loops_run [OF this] obtain cs where "(crew_step E EI S D)\<^sup>*\<^sup>* (fresh_crew w)
      ((fresh_crew w)\<lparr>cw := recoverPending E w, loop_at := Waiting, workers := workers (fresh_crew w) @ map new_worker [],
        claims := claims (fresh_crew w) @ cs\<rparr>)" by (auto simp: fresh_crew_def)
  then show ?case by (intro exI [of _ cs]) (simp add: fresh_crew_def crew_of_def start_sched_def)
next
  case (step s t)
  then obtain cs where "(crew_step E EI S D)\<^sup>*\<^sup>* (fresh_crew w) (crew_of s cs)" by blast
  moreover obtain cs' where "(crew_step E EI S D)\<^sup>*\<^sup>* (crew_of s cs) (crew_of t (cs @ cs'))"
    using whole_step_run [OF step(2)] by blast
  ultimately show ?case by (meson rtranclp_trans)
qed

section \<open>The jobs in flight come to an end\<close>

text \<open>A step of a job goroutine that has not returned, or its end, with the slot given back.\<close>

definition job_move :: "'e denv_scheme \<Rightarrow> ('d daemon_scheme) sched_deps \<Rightarrow> 'd crew \<Rightarrow> 'd crew \<Rightarrow> bool" where
  "job_move E D c c' \<longleftrightarrow> (\<exists>i < length (workers c).
     if wk_stage (workers c ! i) = Returned
     then c' = c\<lparr>cw := release_slot (fl_slot (wk_flight (workers c ! i))) (cw c),
        workers := take i (workers c) @ drop (Suc i) (workers c)\<rparr>
     else (\<exists>k w. worker_step E D (workers c ! i) (cw c) = (k, w) \<and>
        c' = c\<lparr>cw := w, workers := (workers c)[i := k]\<rparr>))"

definition moves_left :: "'d crew \<Rightarrow> nat" where
  "moves_left c = sum_list (map (\<lambda>k. Suc (stages_left (wk_stage k))) (workers c))"

lemma job_move_step: "job_move E D c c' \<Longrightarrow> crew_step E EI S D c c'"
  by (auto simp: job_move_def intro: crew_step.work crew_step.leave split: if_splits)

lemma job_move_closer:
  assumes "job_move E D c c'"
  shows "moves_left c' < moves_left c"
proof -
  let ?n = "\<lambda>k. Suc (stages_left (wk_stage k))"
  obtain i where i: "i < length (workers c)"
    and m: "if wk_stage (workers c ! i) = Returned
     then c' = c\<lparr>cw := release_slot (fl_slot (wk_flight (workers c ! i))) (cw c),
        workers := take i (workers c) @ drop (Suc i) (workers c)\<rparr>
     else (\<exists>k w. worker_step E D (workers c ! i) (cw c) = (k, w) \<and>
        c' = c\<lparr>cw := w, workers := (workers c)[i := k]\<rparr>)"
    using assms unfolding job_move_def by blast
  have split: "workers c = take i (workers c) @ workers c ! i # drop (Suc i) (workers c)"
    using i by (rule id_take_nth_drop)
  have all: "moves_left c = sum_list (map ?n (take i (workers c))) + ?n (workers c ! i) +
      sum_list (map ?n (drop (Suc i) (workers c)))"
    unfolding moves_left_def by (subst split) simp
  show ?thesis
  proof (cases "wk_stage (workers c ! i) = Returned")
    case True
    with m all show ?thesis by (simp add: moves_left_def)
  next
    case False
    with m obtain k w where s: "worker_step E D (workers c ! i) (cw c) = (k, w)"
      and c': "c' = c\<lparr>cw := w, workers := (workers c)[i := k]\<rparr>" by auto
    have "stages_left (wk_stage k) < stages_left (wk_stage (workers c ! i))"
      using s advance_closer [OF False, of E D "fl_exec (wk_flight (workers c ! i))" "fl_wl (wk_flight (workers c ! i))"
          "fl_lease (wk_flight (workers c ! i))" "cw c"]
      by (auto simp: worker_step_def split: prod.splits)
    with i all show ?thesis unfolding c' by (simp add: moves_left_def upd_conv_take_nth_drop)
  qed
qed

lemma job_moves_bounded: "(job_move E D ^^ n) c c' \<Longrightarrow> n + moves_left c' \<le> moves_left c"
proof (induction n arbitrary: c')
  case (Suc n)
  then obtain d where "(job_move E D ^^ n) c d" "job_move E D d c'" by auto
  with Suc.IH job_move_closer show ?case by fastforce
qed simp

lemma job_can_move:
  assumes "workers c \<noteq> []"
  shows "\<exists>c'. job_move E D c c'"
proof -
  obtain k w where s: "worker_step E D (workers c ! 0) (cw c) = (k, w)" by fastforce
  have "0 < length (workers c)" using assms by simp
  then have "job_move E D c (if wk_stage (workers c ! 0) = Returned
      then c\<lparr>cw := release_slot (fl_slot (wk_flight (workers c ! 0))) (cw c),
        workers := take 0 (workers c) @ drop (Suc 0) (workers c)\<rparr>
      else c\<lparr>cw := w, workers := (workers c)[0 := k]\<rparr>)"
    using s unfolding job_move_def by (intro exI [of _ 0]) simp
  then show ?thesis by blast
qed

lemma job_stuck: "workers c = [] \<Longrightarrow> \<not> job_move E D c d"
  by (simp add: job_move_def)

lemma stages_left_le: "stages_left st \<le> 12"
  by (cases st) simp_all

lemma moves_left_le: "moves_left c \<le> 13 * length (workers c)"
proof -
  have "sum_list (map (\<lambda>k. Suc (stages_left (wk_stage k))) ws) \<le> 13 * length ws" for ws :: "'b worker list"
  proof (induction ws)
    case (Cons k ws)
    with stages_left_le [of "wk_stage k"] show ?case by simp
  qed simp
  then show ?thesis by (simp add: moves_left_def)
qed

lemma jobs_run_out: "\<exists>c'. (job_move E D)\<^sup>*\<^sup>* c c' \<and> workers c' = []"
proof (induction "moves_left c" arbitrary: c rule: less_induct)
  case less
  show ?case
  proof (cases "workers c = []")
    case False
    then obtain d where d: "job_move E D c d" using job_can_move by blast
    with less job_move_closer obtain c' where "(job_move E D)\<^sup>*\<^sup>* d c'" "workers c' = []" by blast
    with d show ?thesis by (meson converse_rtranclp_into_rtranclp)
  qed blast
qed

section \<open>A daemon with work\<close>

text \<open>A machine whose keystore has a session, and a cloud that answers every request with the same clip workload.\<close>

definition busy_benv :: benv where
  "busy_benv = calm_benv\<lparr>json_of_text := (\<lambda>_. Some claim_json), server := (\<lambda>_. Reply 200 ''c'' None)\<rparr>"

definition busy_bootw :: bootw where
  "busy_bootw = sample_bootw\<lparr>ks := (ks sample_bootw)\<lparr>item := fresh_item\<rparr>\<rparr>"

lemma busy_simps [simp]:
  "server busy_benv h = Reply 200 ''c'' None" "json_of_text busy_benv t = Some claim_json"
  "clock busy_benv k = zero_time" "url_ok busy_benv u" "probe_at busy_benv k = no_probes"
  "time_of_text busy_benv ''F'' = Some far_time" "time_of_text busy_benv ''Z'' = Some zero_time" "fs_fault busy_benv k = None" "mkdir_fault busy_benv d = None"
  "rand_fault busy_benv n = None" "open_fault busy_benv p = None" "net_listen busy_benv a = Inr 40000"
  "ks_fault busy_benv k = None" "db_fault busy_benv k = None" "db_scan_time busy_benv t' = Some t'" "rm_fails busy_benv d = False"
  by (simp_all add: busy_benv_def calm_benv_def genv.defs calm_genv_def menv.defs calm_menv_def denv.defs calm_denv_def
      env.defs calm_env_def)

lemma busy_dir: "Resolve busy_benv (DataDir (default_flags calm_host)) = Resolve calm_benv (DataDir (default_flags calm_host))"
proof -
  have "path_abs busy_benv p = path_abs calm_benv p" for p by (simp add: path_abs_def busy_benv_def)
  moreover have "xdg_file busy_benv = xdg_file calm_benv" by (simp add: busy_benv_def)
  ultimately show ?thesis by (simp add: Resolve_def data_root_def split: sum.split)
qed

lemma busy_boot: "\<exists>S D v. boot busy_benv calm_host (default_flags calm_host) w = (Running S 40000 D, v)"
proof -
  obtain L where L: "Resolve busy_benv (DataDir (default_flags calm_host)) = Inr L" using sample_dir busy_dir by auto
  show ?thesis by (rule boot_up [OF _ _ _ _ L sample_addr]) (simp_all add: default_flags_def)
qed

lemma busy_session: "fst (ks_Load busy_benv (ks busy_bootw)) = Inr fresh_bundle"
  by (simp add: busy_bootw_def sample_bootw_def media.defs sample_media_def daemon.defs sample_daemon_def ks_Load_def fresh_item_def
      unmarshal_session_def bundle_of_json_def bundle_fields_def dec_defs zero_bundle_def fresh_bundle_def
      sample_bundle_def)

lemma fail_each_rest [simp]: "tok (fail_each E js w) = tok w" "paused_flag (fail_each E js w) = paused_flag w"
  by (induction js arbitrary: w) simp_all

lemma recoverPending_rest [simp]: "tok (recoverPending E w) = tok w" "paused_flag (recoverPending E w) = paused_flag w"
proof -
  obtain r v where "on_db (PendingRecovery E) w = (r, v)" by fastforce
  with on_db_parts(2,9) [of "PendingRecovery E" w]
  show "tok (recoverPending E w) = tok w" "paused_flag (recoverPending E w) = paused_flag w"
    by (simp_all add: recoverPending_def split: sum.split)
qed

lemma sched_tick_db:
  assumes "sched_tick E D w = (f, v)"
  shows "db v = db w"
proof (cases "Reserve (probe_at E (probe_reads w)) (pool w)")
  case (Pair r m)
  obtain q w1 where q: "claimWithReauth E D (w\<lparr>pool := m, probe_reads := Suc (probe_reads w)\<rparr>) = (q, w1)"
    by fastforce
  have "db w1 = db w" using same_rest_daemon(1) [OF claimWithReauth_rest [OF q]] by simp
  with assms Pair q show ?thesis
    by (auto simp: sched_tick_def dispatch_cases split: sum.splits if_splits option.splits)
qed

lemma UpdateStatus_empty: "jobs s = [] \<Longrightarrow> jobs (snd (UpdateStatus E j st s)) = []"
  using update_job_result [of E "''update status''" j "\<lambda>r. r\<lparr>job_status := st\<rparr>" s]
  by (cases "update_job E ''update status'' j (\<lambda>r. r\<lparr>job_status := st\<rparr>) s") (auto simp: UpdateStatus_def set_row_def)

lemma fail_each_empty: "jobs (db v) = [] \<Longrightarrow> jobs (db (fail_each E js v)) = []"
  by (induction js arbitrary: v) (simp_all add: UpdateStatus_empty)

lemma recoverPending_empty:
  assumes "jobs (db w) = []"
  shows "jobs (db (recoverPending E w)) = []"
proof -
  obtain r v where r: "on_db (PendingRecovery E) w = (r, v)" by fastforce
  then have "jobs (db v) = []" using assms by (auto simp: on_db_eq PendingRecovery_def ListJobs_tables)
  with r show ?thesis by (simp add: recoverPending_def fail_each_empty split: sum.split)
qed

lemma RecoverOrphaned_empty:
  assumes "jobs s = []"
  shows "jobs (snd (RecoverOrphaned E reason s)) = []"
proof -
  obtain r t where run: "RecoverOrphaned E reason s = (r, t)" by fastforce
  then have f: "failActive E [StatusRunning] ''orphan_failed''
      (if reason = [] then ReasonOrphanedAfterRestart else reason) s = (r, t)" by (simp add: RecoverOrphaned_def)
  have "jobs t = []"
  proof (cases r)
    case (Inl e)
    from failActive_InlD [OF f [unfolded this]] assms show ?thesis by (simp add: tables_def)
  next
    case (Inr n)
    from failActive_jobs [OF f [unfolded this]] assms show ?thesis by auto
  qed
  with run show ?thesis by simp
qed

text \<open>A boot, the recovery, and two ticks that are granted the same workload.\<close>

lemma busy_run:
  "\<exists>S D v s. boot busy_benv calm_host (default_flags calm_host) busy_bootw = (Running S 40000 D, v) \<and>
     (whole_step busy_benv D)\<^sup>*\<^sup>* (start_sched busy_benv v) s \<and>
     (\<exists>x y. flying s = [x, y] \<and> fl_wl x = sample_workload \<and> fl_wl y = sample_workload) \<and>
     jobs (db (sw s)) = []"
proof -
  obtain S and D :: "bootw sched_deps" and v where run: "boot busy_benv calm_host (default_flags calm_host) busy_bootw
      = (Running S 40000 D, v)" using busy_boot [of busy_bootw] by blast
  note up = boot_running [OF run]
  have E: "grants_clips busy_benv" by (simp add: grants_clips_def)
  have reg: "boot_registry busy_benv (Some (DepCloud D)) = Some (DepRegistry D)" using up by blast
  have found: "Lookup (DepRegistry D) ''video:clip'' = Some (clip_executor busy_benv (Some (DepCloud D)))"
    using reg by (auto simp: boot_registry_def register_all_result NewRegistry_def Lookup_def boot_executors_def
        clip_executor_def split: if_splits dest!: sym [of _ "DepRegistry D"])
  have accepts: "ex_CanRun (clip_executor busy_benv (Some (DepCloud D))) sample_workload"
    by (simp add: clip_executor_def sample_workload_def)
  let ?s = "start_sched busy_benv v"
  obtain k where "ks_Load busy_benv (ks busy_bootw) = (Inr fresh_bundle, k)"
    using busy_session by (metis prod.collapse)
  then have on: "cachedKnown (tok v)" "cached (tok v) = fresh_bundle" using up by blast+
  have new: "pool v = NewManager zero_limits" "\<not> paused_flag v" using up by blast+
  have free: "\<not> reserve_refused (pool (sw ?s)) no_probes" by (simp add: start_sched_def new)
  obtain x w1 where t1: "sched_tick busy_benv D (sw ?s) = (Some x, w1)" and tok1: "tok w1 = tok v"
    and p1: "\<not> paused_flag w1" and x: "fl_wl x = sample_workload"
    using granted_tick [OF E found accepts free] on new by (auto simp: start_sched_def)
  let ?s1 = "?s\<lparr>sw := w1, flying := flying ?s @ started (Some x)\<rparr>"
  have one: "whole_step busy_benv D ?s ?s1" using t1 new unfolding whole_step_def by (auto simp: start_sched_def)
  have "pool w1 = take_slot (NewManager zero_limits)"
    using sched_tick_pool [OF t1] by (simp add: start_sched_def new Reserve_def )
  then have free1: "\<not> reserve_refused (pool (sw ?s1)) no_probes"
    by (simp add: reserve_refused_def take_slot_def NewManager_def Active_def zero_limits_def default_defs no_probes_def)
  obtain y w2 where t2: "sched_tick busy_benv D (sw ?s1) = (Some y, w2)" and y: "fl_wl y = sample_workload"
    using granted_tick [OF E found accepts free1] on tok1 by auto
  let ?s2 = "?s1\<lparr>sw := w2, flying := flying ?s1 @ started (Some y)\<rparr>"
  have two: "whole_step busy_benv D ?s1 ?s2" using t2 p1 unfolding whole_step_def by auto
  have "(whole_step busy_benv D)\<^sup>*\<^sup>* ?s ?s2" using one two by (meson converse_rtranclp_into_rtranclp r_into_rtranclp)
  moreover have "jobs (db busy_bootw) = []"
    by (simp add: busy_bootw_def sample_bootw_def media.defs sample_media_def daemon.defs sample_daemon_def empty_store_def)
  then have "jobs (db v) = []" using up RecoverOrphaned_empty by metis
  then have "jobs (db (sw ?s2)) = []"
    using sched_tick_db [OF t1] sched_tick_db [OF t2] by (simp add: start_sched_def recoverPending_empty)
  ultimately show ?thesis
    using run x y by (intro exI [of _ S] exI [of _ D] exI [of _ v] exI [of _ ?s2]) (simp add: start_sched_def)
qed


lemma crew_life: "(crew_step E EI S D)\<^sup>*\<^sup>* c c' \<Longrightarrow> (life_step E EI H F)\<^sup>*\<^sup>* (S, D, c) (S, D, c')"
  by (induction rule: rtranclp_induct) (auto intro: rtranclp.rtrancl_into_rtrancl life_step.run)

lemma busy_crew:
  "\<exists>S D v c k k'. boot busy_benv calm_host (default_flags calm_host) busy_bootw = (Running S 40000 D, v) \<and>
     (crew_step busy_benv EI S D)\<^sup>*\<^sup>* (fresh_crew v) c \<and> workers c = [k, k'] \<and> loop_at c = Waiting \<and>
     wk_stage k = Claimed \<and> wk_stage k' = Claimed \<and> fl_wl (wk_flight k) = sample_workload \<and>
     fl_wl (wk_flight k') = sample_workload \<and> jobs (db (cw c)) = []"
proof -
  obtain S and D :: "bootw sched_deps" and v s x y where
    b: "boot busy_benv calm_host (default_flags calm_host) busy_bootw = (Running S 40000 D, v)"
    and run: "(whole_step busy_benv D)\<^sup>*\<^sup>* (start_sched busy_benv v) s"
    and s: "flying s = [x, y]" "fl_wl x = sample_workload" "fl_wl y = sample_workload" "jobs (db (sw s)) = []"
    using busy_run by blast
  obtain cs where "(crew_step busy_benv EI S D)\<^sup>*\<^sup>* (fresh_crew v) (crew_of s cs)" using whole_runs [OF run] by blast
  with b s show ?thesis
    by (intro exI [of _ S] exI [of _ D] exI [of _ v] exI [of _ "crew_of s cs"] exI [of _ "new_worker x"]
        exI [of _ "new_worker y"]) (simp add: crew_of_def new_worker_def)
qed

section \<open>The properties\<close>

text \<open>
  C3. In every interleaving since the boot of the process, the terminal reports (complete, fail or
  surrender) the cloud was sent for a workload, together with its jobs that have not reported
  yet, are at most the claims of that workload the loop has acted on: no claim is reported
  twice, and none is reported that was not granted.
\<close>

theorem reports_within_claims:
  assumes boot: "boot E H F w = (Running S port D, v)" and run: "(crew_step E EI S D)\<^sup>*\<^sup>* (fresh_crew v) c"
  shows "\<exists>pre. sent (cw c) = sent v @ pre \<and>
    length (filter (is_report (DepCloud D) wid) pre) + open_jobs wid (workers c) \<le> count_list (claims c) wid"
proof -
  have "budget_ok D v (fresh_crew v)"
    by (simp add: budget_ok_def fresh_crew_def open_jobs_def reports_within_refl)
  from crew_run_budget [OF run boot_life_ok [OF boot] this] have b: "budget_ok D v c" by blast
  then have "open_jobs wid (workers c) \<le> count_list (claims c) wid"
    and "reports_within (DepCloud D) wid (count_list (claims c) wid - open_jobs wid (workers c)) v (cw c)"
    by (simp_all add: budget_ok_def)
  then show ?thesis by (fastforce simp: reports_within_def)
qed

theorem reports_within_claims_witness:
  "\<exists>S D v c. boot busy_benv calm_host (default_flags calm_host) busy_bootw = (Running S 40000 D, v) \<and>
     (crew_step busy_benv (calm_ienv (\<lambda>_. Reply 200 [] None) (\<lambda>_. None)) S D)\<^sup>*\<^sup>* (fresh_crew v) c \<and>
     2 \<le> count_list (claims c) ''wl''"
proof -
  let ?EI = "calm_ienv (\<lambda>_. Reply 200 [] None) (\<lambda>_. None)"
  obtain S and D :: "bootw sched_deps" and v c k k' where
    b: "boot busy_benv calm_host (default_flags calm_host) busy_bootw = (Running S 40000 D, v)"
    and run: "(crew_step busy_benv ?EI S D)\<^sup>*\<^sup>* (fresh_crew v) c"
    and c: "workers c = [k, k']" "wk_stage k = Claimed" "wk_stage k' = Claimed" "fl_wl (wk_flight k) = sample_workload"
      "fl_wl (wk_flight k') = sample_workload"
    using busy_crew by blast
  have "open_jobs ''wl'' (workers c) = 2" using c by (simp add: open_jobs_def unsettled_def sample_workload_def)
  with reports_within_claims [OF b run, of "''wl''"] have "2 \<le> count_list (claims c) ''wl''" by auto
  with b run show ?thesis by blast
qed

text \<open>
  C26. Refinement.  Every run of the scheduler in whole pieces, from the recovery at its start, is
  a run of the daemon's interleaved goroutines: recovery, a tick and the run of a job are what the
  loop and the job goroutines do when they are left alone.
\<close>

theorem whole_runs_are_runs:
  assumes run: "(whole_step E D)\<^sup>*\<^sup>* (start_sched E w) s"
  shows "\<exists>cs. (crew_step E EI S D)\<^sup>*\<^sup>* (fresh_crew w) (crew_of s cs)"
  by (rule whole_runs [OF run])

theorem whole_runs_are_runs_witness:
  "\<exists>(D :: bootw sched_deps) S v s cs. length (flying s) = 2 \<and>
     (crew_step busy_benv (calm_ienv (\<lambda>_. Reply 200 [] None) (\<lambda>_. None)) S D)\<^sup>*\<^sup>* (fresh_crew v) (crew_of s cs)"
proof -
  obtain S and D :: "bootw sched_deps" and v s x y where
    "boot busy_benv calm_host (default_flags calm_host) busy_bootw = (Running S 40000 D, v)"
    and run: "(whole_step busy_benv D)\<^sup>*\<^sup>* (start_sched busy_benv v) s" and s: "flying s = [x, y]"
    using busy_run by blast
  from whole_runs_are_runs [OF run, of "calm_ienv (\<lambda>_. Reply 200 [] None) (\<lambda>_. None)" S] obtain cs where
    "(crew_step busy_benv (calm_ienv (\<lambda>_. Reply 200 [] None) (\<lambda>_. None)) S D)\<^sup>*\<^sup>* (fresh_crew v) (crew_of s cs)"
    by blast
  with s show ?thesis by (intro exI [of _ D] exI [of _ S] exI [of _ v] exI [of _ s] exI [of _ cs]) simp
qed

text \<open>
  C5. The daemon drains.  Whatever has happened since the first boot, the jobs in flight come to
  their end: they can be run until none is left; however their steps are interleaved there are at
  most 26 of them; and as long as a job is left one of them has a step to take.  When none
  is left every slot is back, but for the one of a tick under way.
\<close>

theorem jobs_drain:
  assumes boot: "boot E H F w = (Running S0 port D0, v)"
    and run: "(life_step E EI H F)\<^sup>*\<^sup>* (S0, D0, fresh_crew v) (S, D, c)"
  shows "(\<exists>c'. (job_move E D)\<^sup>*\<^sup>* c c' \<and> workers c' = []) \<and>
    (\<forall>n c'. (job_move E D ^^ n) c c' \<longrightarrow>
       n \<le> 26 \<and> (workers c' = [] \<longleftrightarrow> \<not> (\<exists>d. job_move E D c' d)) \<and>
       (workers c' = [] \<longrightarrow> held (pool (cw c')) = set (turn_slots (loop_at c'))))"
proof (intro conjI allI impI jobs_run_out)
  fix n c' assume moves: "(job_move E D ^^ n) c c'"
  have ok: "life_ok E (db w) (S, D, c)" by (rule life_run_ok [OF boot run])
  then have "crew_ok D (mlimits (NewManager zero_limits)) c" by (simp add: life_ok_def)
  from slots_counted [OF this] have "length (workers c) \<le> 2" by (simp add: slots_out_def)
  with job_moves_bounded [OF moves] moves_left_le [of c] show "n \<le> 26" by simp
  show "workers c' = [] \<longleftrightarrow> \<not> (\<exists>d. job_move E D c' d)"
    using job_can_move [of c' E D] job_stuck [of c' E D] by blast
  assume none: "workers c' = []"
  have "(crew_step E undefined S D)\<^sup>*\<^sup>* c c'"
    using relpowp_imp_rtranclp [OF moves] by (rule rtranclp_mono [THEN predicate2D, rotated]) (auto intro: job_move_step)
  then have "life_ok E (db w) (S, D, c')" using ok by (induction rule: rtranclp_induct) (auto intro: crew_step_ok)
  with none show "held (pool (cw c')) = set (turn_slots (loop_at c'))"
    by (simp add: life_ok_def crew_ok_def slots_out_def)
qed

theorem jobs_drain_witness:
  "\<exists>(D :: bootw sched_deps) c c'. length (workers c) = 2 \<and> (job_move busy_benv D)\<^sup>*\<^sup>* c c' \<and> workers c' = [] \<and>
     held (pool (cw c')) = set (turn_slots (loop_at c'))"
proof -
  let ?EI = "calm_ienv (\<lambda>_. Reply 200 [] None) (\<lambda>_. None)"
  obtain S and D :: "bootw sched_deps" and v c k k' where
    b: "boot busy_benv calm_host (default_flags calm_host) busy_bootw = (Running S 40000 D, v)"
    and run: "(crew_step busy_benv ?EI S D)\<^sup>*\<^sup>* (fresh_crew v) c" and c: "workers c = [k, k']"
    using busy_crew by blast
  have life: "(life_step busy_benv ?EI calm_host (default_flags calm_host))\<^sup>*\<^sup>* (S, D, fresh_crew v) (S, D, c)"
    by (rule crew_life [OF run])
  from jobs_drain [OF b life] obtain c' where c': "(job_move busy_benv D)\<^sup>*\<^sup>* c c'" "workers c' = []" by blast
  then obtain n where "(job_move busy_benv D ^^ n) c c'" by (auto simp: rtranclp_power)
  with jobs_drain [OF b life] c' have "held (pool (cw c')) = set (turn_slots (loop_at c'))" by blast
  with c c' show ?thesis by (intro exI [of _ D] exI [of _ c] exI [of _ c']) simp
qed

end
