(* ===== verification/Reissue.thy ===== *)
theory Reissue
  imports LifeProps
begin

text \<open>
  The rows of the jobs in flight, and what happens when the cloud gives out a workload again while
  its job still runs here.  A lost lease is only logged (\<open>OnLost\<close> in \<open>runOne\<close>), so the executor goes
  on; and \<open>upsertJobForWorkload\<close> hands the row of the running job to the second goroutine.
\<close>

section \<open>Jobs of different workloads\<close>

text \<open>The job row a goroutine works on, once it has one.\<close>

fun stage_job :: "stage \<Rightarrow> string option" where
  "stage_job (Found j) = Some j"
| "stage_job (Renewed j) = Some j"
| "stage_job (Prepared j _) = Some j"
| "stage_job (Marked j _) = Some j"
| "stage_job (Started j _) = Some j"
| "stage_job (Refused j _ _) = Some j"
| "stage_job (Ready j _ _) = Some j"
| "stage_job (Ran j _ _ _) = Some j"
| "stage_job (Reported _ c) = Some (cl_job c)"
| "stage_job (Recorded _ c) = Some (cl_job c)"
| "stage_job _ = None"

definition row_for :: "string \<Rightarrow> string \<Rightarrow> store \<Rightarrow> bool" where
  "row_for j wid s \<longleftrightarrow> (\<exists>x \<in> set (jobs s). jid x = j \<and> workload_id x = wid)"

lemma row_for_later: "row_for j wid s \<Longrightarrow> safe s t \<Longrightarrow> row_for j wid t"
  unfolding row_for_def safe_def store_before_def using prefix_map_member [of job_key "jobs s" "jobs t"]
  by (fastforce simp: job_key_def)

lemma look_up_row:
  assumes "look_up E wl w = (st, v)" and "stage_job st = Some j"
  shows "row_for j (wl_ID wl) (db v)"
proof -
  obtain q s where q: "GetByWorkloadID E (wl_ID wl) (db w) = (q, s)" by fastforce
  with assms obtain x where x: "q = Inr x" "jid x = j" "db v = s"
    by (auto simp: look_up_def on_db_eq split: sum.splits if_splits)
  with GetByWorkloadID_InrD [of E "wl_ID wl" "db w" x s] q show ?thesis by (auto simp: row_for_def)
qed

lemma insert_job_row:
  assumes "insert_job E wl lease w = (st, v)" and "stage_job st = Some j"
  shows "row_for j (wl_ID wl) (db v)"
proof -
  let ?i = "new_job_input E (uuid E (uuids w)) wl lease"
  obtain q s where q: "CreateJob E ?i (db w) = (q, s)" by fastforce
  with assms have "q = Inr ()" "j = uuid E (uuids w)" "db v = s"
    by (auto simp: insert_job_def new_uuid_def on_db_eq split: sum.splits)
  with CreateJob_result [OF q] show ?thesis by (auto simp: row_for_def row_of_input_def new_job_input_def)
qed

lemma advance_row:
  assumes contract: "executor_contract ex" "closing_ok st" and run: "advance E D ex wl lease st w = (st', v)"
    and old: "\<And>j. stage_job st = Some j \<Longrightarrow> row_for j (wl_ID wl) (db w)" and new: "stage_job st' = Some j"
  shows "row_for j (wl_ID wl) (db v)"
proof (cases "st = Claimed \<or> st = Absent")
  case True
  with run new look_up_row insert_job_row show ?thesis by auto
next
  case False
  have "stage_job st = Some j"
    using False run new
    by (cases st) (auto simp: renew_lease_def count_attempts_def open_attempt_def make_handle_def result_closing_def
        failed_closing_def succeeded_closing_def split: prod.splits sum.splits option.splits)
  moreover have "safe (db w) (db v)" using advance_safe [OF contract, of w E D wl lease] run by simp
  ultimately show ?thesis using old row_for_later by blast
qed

definition rows_ok :: "'d crew \<Rightarrow> bool" where
  "rows_ok c \<longleftrightarrow> (\<forall>k \<in> set (workers c). \<forall>j. stage_job (wk_stage k) = Some j \<longrightarrow>
     row_for j (wl_ID (fl_wl (wk_flight k))) (db (cw c)))"

lemma rows_later:
  assumes "rows_ok c" and "safe (db (cw c)) (db w)"
    and "\<And>k. k \<in> set ws \<Longrightarrow> k \<notin> set (workers c) \<Longrightarrow>
      (\<forall>j. stage_job (wk_stage k) = Some j \<longrightarrow> row_for j (wl_ID (fl_wl (wk_flight k))) (db w))"
  shows "rows_ok (c\<lparr>cw := w, loop_at := t, workers := ws, claims := cs\<rparr>)"
  using assms row_for_later unfolding rows_ok_def by (auto, metis)

lemma rows_keep:
  assumes "rows_ok c" and "safe (db (cw c)) (db w)"
  shows "rows_ok (c\<lparr>cw := w\<rparr>)"
  using rows_later [OF assms, where ws = "workers c" and t = "loop_at c" and cs = "claims c"] by simp

lemma crew_step_rows:
  assumes step: "crew_step E EI S D c c'" and ok: "life_ok E d0 (S, D, c)" and rows: "rows_ok c"
  shows "rows_ok c'"
proof -
  have crew: "crew_ok D (mlimits (NewManager zero_limits)) c"
    and reg: "boot_registry E (Some (DepCloud D)) = Some (DepRegistry D)"
    using ok by (simp_all add: life_ok_def)
  from step show ?thesis
  proof cases
    case (loop t f w)
    have "safe (db (cw c)) (db w)" using loop_safe [of "cw c" E D "loop_at c"] loop(3) by simp
    then show ?thesis unfolding loop(1) by (rule rows_later [OF rows]) (auto simp: new_worker_def)
  next
    case return
    with rows show ?thesis by (simp add: rows_ok_def)
  next
    case (work i k w)
    let ?k = "workers c ! i"
    have mem: "?k \<in> set (workers c)" using work(2) by simp
    then obtain t where t: "Lookup (DepRegistry D) t = Some (fl_exec (wk_flight ?k))" and cl: "closing_ok (wk_stage ?k)"
      using crew unfolding crew_ok_def by blast
    note step = worker_step_within [OF reg t cl work(3)]
    have adv: "advance E D (fl_exec (wk_flight ?k)) (fl_wl (wk_flight ?k)) (fl_lease (wk_flight ?k)) (wk_stage ?k) (cw c)
        = (wk_stage k, w)" using work(3) by (auto simp: worker_step_def split: prod.splits)
    have old: "row_for j (wl_ID (fl_wl (wk_flight ?k))) (db (cw c))" if "stage_job (wk_stage ?k) = Some j" for j
      using rows mem that by (simp add: rows_ok_def)
    have "row_for j (wl_ID (fl_wl (wk_flight k))) (db w)" if "stage_job (wk_stage k) = Some j" for j
      unfolding worker_step_flight [OF work(3)]
      by (rule advance_row [OF wired_contract [OF reg t] cl adv old that])
    then have "rows_ok (c\<lparr>cw := w, loop_at := loop_at c, workers := (workers c)[i := k], claims := claims c\<rparr>)"
      using set_update_subset_insert [of "workers c" i k] step by (intro rows_later [OF rows]) blast+
    then show ?thesis unfolding work(1) by simp
  next
    case (leave i)
    have "rows_ok (c\<lparr>cw := release_slot (fl_slot (wk_flight (workers c ! i))) (cw c), loop_at := loop_at c,
        workers := take i (workers c) @ drop (Suc i) (workers c), claims := claims c\<rparr>)"
      using set_take_subset [of i "workers c"] set_drop_subset [of "Suc i" "workers c"]
      by (intro rows_later [OF rows]) auto
    then show ?thesis unfolding leave(1) by simp
  next
    case (beat i r w)
    let ?k = "(workers c ! i)\<lparr>wk_beating := r \<in> range Inr\<rparr>"
    have h: "safe (db (cw c)) (db w)" using Heartbeat_within [OF beat(4)] by (simp add: runs_within_def mild_def)
    have "row_for j (wl_ID (fl_wl (wk_flight ?k))) (db w)" if "stage_job (wk_stage ?k) = Some j" for j
      using rows beat(2) that row_for_later [OF _ h] by (simp add: rows_ok_def)
    then have "rows_ok (c\<lparr>cw := w, loop_at := loop_at c, workers := (workers c)[i := ?k], claims := claims c\<rparr>)"
      using set_update_subset_insert [of "workers c" i ?k] h by (intro rows_later [OF rows]) blast+
    then show ?thesis unfolding beat(1) by simp
  next
    case (request rq res w)
    with rows_keep [OF rows] ipc_serve_within [of EI S rq "cw c" res w] show ?thesis
      by (simp add: runs_within_def mild_def)
  next
    case signal
    with rows show ?thesis by (simp add: rows_ok_def)
  qed
qed

definition life_rows where
  "life_rows E d0 p \<longleftrightarrow> life_ok E d0 p \<and> rows_ok (snd (snd p))"

lemma life_step_rows:
  assumes "life_step E EI H F p q" and "life_rows E d0 p"
  shows "life_rows E d0 q"
  using assms(1)
proof cases
  case (run S D c c')
  with assms(2) crew_step_rows crew_step_ok show ?thesis unfolding life_rows_def by fastforce
next
  case (crash c w S' port D' v S D)
  with assms life_step_ok [OF assms(1)] show ?thesis by (simp add: life_rows_def rows_ok_def fresh_crew_def)
qed

interpretation life_rows: step_invariant "life_step E EI H F" "life_rows E d0" for E EI H F d0
  by unfold_locales (rule life_step_rows)

section \<open>A workload given out again\<close>

lemma find_workload:
  "distinct (map workload_id rs) \<Longrightarrow> x \<in> set rs \<Longrightarrow> find (\<lambda>r. workload_id r = workload_id x) rs = Some x"
  by (induction rs) auto

lemma look_up_found:
  assumes calm: "calm_statements E" and times: "readable E x"
    and wf: "store_wf (db w)" and x: "x \<in> set (jobs (db w))" "workload_id x = wl_ID wl"
    and st: "job_status x = StatusQueued \<or> job_status x = StatusRunning"
  shows "look_up E wl w = (Found (jid x), w\<lparr>db := tick (db w)\<rparr>)"
proof -
  obtain j where j: "scan_job E x = Inr j" using scan_readable [OF times] by blast
  have "find (\<lambda>r. workload_id r = wl_ID wl) (jobs (db w)) = Some x"
    using find_workload [of "jobs (db w)" x] wf x by (simp add: store_wf_def)
  then have "GetByWorkloadID E (wl_ID wl) (db w) = (Inr j, tick (db w))"
    using j by (simp add: GetByWorkloadID_ok [OF calm_statementsD [OF calm]])
  with scan_job_cols [OF j] st show ?thesis by (simp add: look_up_def on_db_eq)
qed

lemma look_up_unreadable:
  assumes calm: "db_fault E (stmts (db w)) = None" and bad: "\<not> readable E x"
    and wf: "store_wf (db w)" and x: "x \<in> set (jobs (db w))" "workload_id x = wl_ID wl"
  shows "look_up E wl w = (Settling (ReportSurrender ''store_error''), w\<lparr>db := tick (db w)\<rparr>)"
proof -
  obtain m where j: "scan_job E x = Inl (Plain m)" using scan_unreadable [OF bad] by blast
  have "find (\<lambda>r. workload_id r = wl_ID wl) (jobs (db w)) = Some x"
    using find_workload [of "jobs (db w)" x] wf x by (simp add: store_wf_def)
  then have "GetByWorkloadID E (wl_ID wl) (db w) = (Inl (errorf ''get by workload id'' (Plain m)), tick (db w))"
    using j by (simp add: GetByWorkloadID_ok [OF calm])
  then show ?thesis by (simp add: look_up_def on_db_eq)
qed

lemma renew_lease_calm:
  "calm_statements E \<Longrightarrow> fst (renew_lease E lease j w) = Renewed j"
  by (simp add: renew_lease_def on_db_eq UpdateLease_def update_job_def exec_stmt_ok sql_defs)

lemma takeover_ready:
  assumes calm: "calm_statements E" and times: "readable E x" and dirs: "\<And>d. mkdir_fault E d = None"
    and wf: "store_wf (db w)" and x: "x \<in> set (jobs (db w))" "workload_id x = wl_ID wl"
    and st: "job_status x = StatusQueued \<or> job_status x = StatusRunning"
  shows "\<exists>a v. advances 6 E D ex wl lease (Claimed, w) = (Ready (jid x) a (handle_of D (jid x) wl lease), v) \<and>
    has_row (jid x) StatusRunning (db v) \<and> safe (db w) (db v)"
proof -
  let ?w0 = "w\<lparr>db := tick (db w)\<rparr>"
  note l = look_up_found [OF calm times wf x st]
  obtain w1 where w1: "renew_lease E lease (jid x) ?w0 = (Renewed (jid x), w1)"
    using renew_lease_calm [OF calm] by (metis prod.collapse)
  obtain n w2 where w2: "count_attempts E (jid x) w1 = (Prepared (jid x) n, w2)"
    by (cases "on_db (AttemptCount E (jid x)) w1") (simp add: count_attempts_def)
  have "snd (renew_lease E lease (jid x) ?w0) = w1" "snd (count_attempts E (jid x) w1) = w2" using w1 w2 by simp_all
  then have d1: "db w1 = snd (UpdateLease E (jid x) (LeaseTok lease) (LeaseExpires lease) (tick (db w)))"
    and d2: "db w2 = snd (AttemptCount E (jid x) (db w1))"
    unfolding stage_worlds by auto
  have safe2: "safe (db w) (db w2)"
    unfolding d1 d2 by (meson safe_tick UpdateLease_safe AttemptCount_safe safe_trans)
  have "has_row (jid x) (job_status x) (db w)" using x by (auto simp: has_row_def)
  then obtain st' where row: "has_row (jid x) st' (db w2)" using has_row_later [OF _ safe2] by blast
  let ?b = "snd (begin_attempt E (jid x) n w2)"
  note b = begin_attempt_result [OF calm row, of n]
  have "advances 2 E D ex wl lease (Prepared (jid x) n, w2) = (Started (jid x) (fst (begin_attempt E (jid x) n w2)), ?b)"
    by (simp add: numeral_eq_Suc begin_attempt_def open_attempt_def split_beta)
  moreover have "advances 3 E D ex wl lease (Claimed, w) = (Prepared (jid x) n, w2)"
    using l w1 w2 by (simp add: numeral_eq_Suc)
  ultimately have "advances (3 + 2) E D ex wl lease (Claimed, w) =
      (Started (jid x) (fst (begin_attempt E (jid x) n w2)), ?b)" unfolding advances_add by simp
  then have five: "advances 5 E D ex wl lease (Claimed, w) =
      (Started (jid x) (fst (begin_attempt E (jid x) n w2)), ?b)" by simp
  let ?h = "handle_of D (jid x) wl lease"
  let ?v = "?b\<lparr>workdirs := insert (jh_workDir ?h) (workdirs ?b)\<rparr>"
  have "advances (5 + 1) E D ex wl lease (Claimed, w) = (Ready (jid x) (fst (begin_attempt E (jid x) n w2)) ?h, ?v)"
    unfolding advances_add five by (simp add: make_handle_def NewJobHandle_ok dirs)
  moreover have "safe (db w) (db ?b)" using safe2 begin_attempt_safe by (rule safe_trans)
  ultimately show ?thesis using b by (auto intro!: exI)
qed

text \<open>From the execution to the cleanup.\<close>

lemma finish_to_cleanup:
  assumes calm: "calm_statements E" and rm: "\<not> rm_fails E (jh_workDir h)"
    and honest: "\<And>h v. safe (db v) (db (snd (ex_Execute ex h v)))" and row: "has_row j st (db w)"
  shows "\<exists>v s. advances 5 E D ex wl lease (Ready j a h, w) = (Stopping, v) \<and> jh_workDir h \<notin> workdirs v \<and>
    (\<forall>p. below (jh_workDir h) p \<longrightarrow> files v p = None) \<and> has_row j s (db v) \<and> s \<in> {StatusSucceeded, StatusFailed}"
proof -
  obtain res w1 where x: "ex_Execute ex h w = (res, w1)" by fastforce
  obtain st' where row1: "has_row j st' (db w1)" using has_row_later [OF row honest [of w h]] x by auto
  let ?c = "result_closing j a res"
  let ?w2 = "send_report E D wl lease (result_report ex wl res w1) w1"
  let ?v = "conclude E (cl_job ?c) (cl_attempt ?c) (cl_status ?c) (cl_outcome ?c) (cl_msg ?c) ?w2"
  have c: "cl_job ?c = j" "cl_status ?c \<in> {StatusSucceeded, StatusFailed}"
    by (simp_all add: result_closing_def failed_closing_def succeeded_closing_def split: option.split)
  have "advances 5 E D ex wl lease (Ready j a h, w) = (Stopping, Cleanup E h ?v)"
    using x by (simp add: numeral_eq_Suc conclude_def)
  moreover have "has_row j (cl_status ?c) (db ?v)"
  proof -
    have "has_row j (cl_status ?c) (snd (UpdateStatus E (cl_job ?c) (cl_status ?c) (db ?w2)))"
      using UpdateStatus_row(1) [OF calm row1, of "cl_status ?c"] c by simp
    then show ?thesis by (simp add: conclude_db has_row_def FinishAttempt_calm [OF calm])
  qed
  ultimately show ?thesis using rm c by (auto simp: Cleanup_def)
qed

text \<open>A second goroutine that can read the row takes over what the first works on.\<close>

lemma second_takes_over:
  assumes calm: "calm_statements E" and times: "readable E x"
    and dirs: "\<And>d. mkdir_fault E d = None" "\<And>d. \<not> rm_fails E d" and wf: "store_wf (db (cw c))"
    and row: "x \<in> set (jobs (db (cw c)))" "job_status x = StatusRunning"
    and ij: "i < length (workers c)" "j < length (workers c)" "i \<noteq> j"
    and honest: "\<And>h v. safe (db v) (db (snd (ex_Execute (fl_exec (wk_flight (workers c ! i))) h v)))"
    and first: "wk_stage (workers c ! i) = Ready (jid x) a h" "jh_workDir h = path_join [DepBaseTmp D, ''job-'' @ jid x]"
    and second: "wk_stage (workers c ! j) = Claimed" "workload_id x = wl_ID (fl_wl (wk_flight (workers c ! j)))"
  shows "\<exists>c' b h' st. (crew_step E EI S D)\<^sup>*\<^sup>* c c' \<and>
    wk_stage (workers c' ! j) = Ready (jid x) b h' \<and> jh_workDir h' = jh_workDir h \<and> wk_stage (workers c' ! i) = Stopping \<and>
    jh_workDir h \<notin> workdirs (cw c') \<and> (\<forall>p. below (jh_workDir h) p \<longrightarrow> files (cw c') p = None) \<and>
    has_row (jid x) st (db (cw c')) \<and> st \<in> {StatusSucceeded, StatusFailed}"
proof -
  let ?g = "wk_flight (workers c ! j)" and ?f = "wk_flight (workers c ! i)"
  let ?h = "handle_of D (jid x) (fl_wl ?g) (fl_lease ?g)"
  from takeover_ready [OF calm times dirs(1) wf row(1) second(2), where ex = "fl_exec ?g" and D = D and lease = "fl_lease ?g"] row(2)
  obtain b v where up: "advances 6 E D (fl_exec ?g) (fl_wl ?g) (fl_lease ?g) (Claimed, cw c) = (Ready (jid x) b ?h, v)"
    and r: "has_row (jid x) StatusRunning (db v)" by auto
  from worker_run [OF ij(2) refl up [folded second(1)]] obtain k where k: "wk_stage k = Ready (jid x) b ?h"
    and one: "(crew_step E EI S D)\<^sup>*\<^sup>* c (c\<lparr>cw := v, workers := (workers c)[j := k]\<rparr>)" by blast
  let ?c = "c\<lparr>cw := v, workers := (workers c)[j := k]\<rparr>"
  from finish_to_cleanup [OF calm dirs(2) honest r, where D = D and wl = "fl_wl ?f" and lease = "fl_lease ?f" and a = a and h = h]
  obtain u st where fin: "advances 5 E D (fl_exec ?f) (fl_wl ?f) (fl_lease ?f) (Ready (jid x) a h, v) = (Stopping, u)"
    and gone: "jh_workDir h \<notin> workdirs u" "\<forall>p. below (jh_workDir h) p \<longrightarrow> files u p = None"
    and over: "has_row (jid x) st (db u)" "st \<in> {StatusSucceeded, StatusFailed}" by blast
  have i: "workers ?c ! i = workers c ! i" "i < length (workers ?c)" using ij by simp_all
  have "advances 5 E D (fl_exec ?f) (fl_wl ?f) (fl_lease ?f) (wk_stage (workers ?c ! i), cw ?c) = (Stopping, u)"
    using fin i(1) first(1) by simp
  from worker_run [OF i(2) _ this] i(1) obtain k' where k': "wk_stage k' = Stopping"
    and two: "(crew_step E EI S D)\<^sup>*\<^sup>* ?c (?c\<lparr>cw := u, workers := (workers ?c)[i := k']\<rparr>)" by metis
  let ?d = "?c\<lparr>cw := u, workers := (workers ?c)[i := k']\<rparr>"
  have "(crew_step E EI S D)\<^sup>*\<^sup>* c ?d" using one two by (rule rtranclp_trans)
  moreover have "workers ?d ! j = k" "workers ?d ! i = k'" using ij by simp_all
  moreover have "jh_workDir ?h = jh_workDir h" using first(2) by (simp add: handle_of_def)
  ultimately show ?thesis using k k' gone over by (intro exI [of _ ?d] exI [of _ b] exI [of _ ?h] exI [of _ st]) simp
qed

text \<open>
  C27. A lost lease is not acted on.  While one goroutine runs a job whose executor it has called or
  is about to call, let the cloud have granted its workload again (the lease expired) to a second
  goroutine of the same daemon, and let nothing fail.  What comes of it hangs on whether the row can
  be read.  If it can (it carries no lease expiry, or the driver scans one), the second takes over the
  row and the work directory of the first; and when the first ends, its cleanup has deleted that
  directory with all files in it and the row says that the job is over, while the second job has
  still to be run on them.  If it cannot, which is every row with a lease expiry under the
  driver of this repository, the second goroutine surrenders the workload with \<open>store_error\<close> and
  returns, the tables and files as they were, while the first runs on.
\<close>

theorem takeover_loses_files:
  assumes calm: "calm_statements E"
    and dirs: "\<And>d. mkdir_fault E d = None" "\<And>d. \<not> rm_fails E d" and wf: "store_wf (db (cw c))"
    and row: "x \<in> set (jobs (db (cw c)))" "job_status x = StatusRunning"
    and ij: "i < length (workers c)" "j < length (workers c)" "i \<noteq> j"
    and honest: "\<And>h v. safe (db v) (db (snd (ex_Execute (fl_exec (wk_flight (workers c ! i))) h v)))"
    and first: "wk_stage (workers c ! i) = Ready (jid x) a h" "jh_workDir h = path_join [DepBaseTmp D, ''job-'' @ jid x]"
    and second: "wk_stage (workers c ! j) = Claimed" "workload_id x = wl_ID (fl_wl (wk_flight (workers c ! j)))"
  shows "\<exists>c'. (crew_step E EI S D)\<^sup>*\<^sup>* c c' \<and>
    (if readable E x
     then (\<exists>b h' st. wk_stage (workers c' ! j) = Ready (jid x) b h' \<and> jh_workDir h' = jh_workDir h \<and>
       wk_stage (workers c' ! i) = Stopping \<and> jh_workDir h \<notin> workdirs (cw c') \<and>
       (\<forall>p. below (jh_workDir h) p \<longrightarrow> files (cw c') p = None) \<and>
       has_row (jid x) st (db (cw c')) \<and> st \<in> {StatusSucceeded, StatusFailed})
     else wk_stage (workers c' ! j) = Returned \<and> workers c' ! i = workers c ! i \<and>
       cw c' = snd (Surrender E (DepCloud D) (workload_id x) (LeaseTok (fl_lease (wk_flight (workers c ! j))))
         ''store_error'' ((cw c)\<lparr>db := tick (db (cw c))\<rparr>)) \<and>
       tables (db (cw c')) = tables (db (cw c)) \<and> workdirs (cw c') = workdirs (cw c) \<and> files (cw c') = files (cw c)) \<and>
    (lease_unscannable E \<longrightarrow> readable E x = (lease_expires_at x = None))"
proof -
  have drv: "lease_unscannable E \<longrightarrow> readable E x = (lease_expires_at x = None)" using leased_unreadable by blast
  show ?thesis
  proof (cases "readable E x")
    case True
    from second_takes_over [OF calm True dirs wf row ij honest first second, of EI S] True drv show ?thesis by auto
  next
    case False
    let ?g = "wk_flight (workers c ! j)"
    let ?v = "snd (Surrender E (DepCloud D) (workload_id x) (LeaseTok (fl_lease ?g)) ''store_error''
      ((cw c)\<lparr>db := tick (db (cw c))\<rparr>))"
    have "advances 2 E D (fl_exec ?g) (fl_wl ?g) (fl_lease ?g) (wk_stage (workers c ! j), cw c) = (Returned, ?v)"
      using look_up_unreadable [OF calm_statementsD [OF calm] False wf row(1) second(2)] second
      by (simp add: numeral_eq_Suc send_report_def)
    from worker_run [OF ij(2) refl this] obtain k where k: "wk_stage k = Returned"
      and run: "(crew_step E EI S D)\<^sup>*\<^sup>* c (c\<lparr>cw := ?v, workers := (workers c)[j := k]\<rparr>)" by blast
    have "workdirs ?v = workdirs (cw c)" "files ?v = files (cw c)" by simp_all
    with False drv k run ij show ?thesis
      by (intro exI [of _ "c\<lparr>cw := ?v, workers := (workers c)[j := k]\<rparr>"]) simp
  qed
qed

text \<open>The first job of the sample workload on an empty store, up to its executor.\<close>

lemma first_ready:
  assumes calm: "calm_statements E" and dirs: "\<And>d. mkdir_fault E d = None" and empty: "jobs (db w) = []"
  shows "\<exists>j a v. advances 5 E D ex wl lease (Claimed, w) = (Ready j a (handle_of D j wl lease), v) \<and>
    row_for j (wl_ID wl) (db v) \<and> has_row j StatusRunning (db v) \<and> safe (db w) (db v)"
proof -
  have l: "look_up E wl w = (Absent, w\<lparr>db := tick (db w)\<rparr>)"
    using empty by (simp add: look_up_def on_db_eq GetByWorkloadID_ok [OF calm_statementsD [OF calm]])
  let ?w0 = "w\<lparr>db := tick (db w)\<rparr>" and ?j = "uuid E (uuids w)"
  let ?i = "new_job_input E ?j wl lease"
  obtain r s where s: "CreateJob E ?i (tick (db w)) = (r, s)" by fastforce
  moreover have "r = Inr ()"
    using s empty by (auto simp: CreateJob_def exec_stmt_ok [OF calm_statementsD [OF calm]] sql_defs row_of_input_def
        split: if_splits sum.splits)
  ultimately have ins: "insert_job E wl lease ?w0 = (Prepared ?j 1, w\<lparr>db := s, uuids := Suc (uuids w)\<rparr>)"
    by (simp add: insert_job_def new_uuid_def on_db_eq)
  let ?w1 = "w\<lparr>db := s, uuids := Suc (uuids w)\<rparr>"
  have rf: "row_for ?j (wl_ID wl) (db ?w1)" using insert_job_row [OF ins] by simp
  then obtain st where row: "has_row ?j st (db ?w1)" by (auto simp: row_for_def has_row_def)
  let ?b = "begin_attempt E ?j 1 ?w1" and ?h = "handle_of D ?j wl lease"
  note b = begin_attempt_result [OF calm row, of 1]
  have "advances 2 E D ex wl lease (Claimed, w) = (Prepared ?j 1, ?w1)" using l ins by (simp add: numeral_eq_Suc)
  moreover have "advances 3 E D ex wl lease (Prepared ?j 1, ?w1) =
      (Ready ?j (fst ?b) ?h, (snd ?b)\<lparr>workdirs := insert (jh_workDir ?h) (workdirs (snd ?b))\<rparr>)"
    by (simp add: numeral_eq_Suc begin_attempt_def open_attempt_def split_beta make_handle_def NewJobHandle_ok dirs)
  ultimately have "advances (2 + 3) E D ex wl lease (Claimed, w) =
      (Ready ?j (fst ?b) ?h, (snd ?b)\<lparr>workdirs := insert (jh_workDir ?h) (workdirs (snd ?b))\<rparr>)"
    unfolding advances_add by simp
  moreover have s2: "safe s (db (snd ?b))" using begin_attempt_safe [of ?w1 E ?j 1] by simp
  moreover have "safe (db w) s" using CreateJob_safe [of "tick (db w)" E ?i] s safe_trans [OF safe_tick] by (metis snd_conv)
  moreover have "row_for ?j (wl_ID wl) (db (snd ?b))" using row_for_later [OF rf] s2 by simp
  ultimately show ?thesis
    using b safe_trans [of "db w" s "db (snd ?b)"] by (intro exI [of _ ?j] exI [of _ "fst ?b"]) auto
qed

lemma busy_bootw_wf: "store_wf (db busy_bootw)"
  by (simp add: busy_bootw_def sample_bootw_def media.defs sample_media_def daemon.defs sample_daemon_def
      store_wf_empty)

lemma busy_reissue:
  "\<exists>S D v c k k' j a. boot busy_benv calm_host (default_flags calm_host) busy_bootw = (Running S 40000 D, v) \<and>
     (crew_step busy_benv EI S D)\<^sup>*\<^sup>* (fresh_crew v) c \<and> workers c = [k, k'] \<and> wk_stage k' = Claimed \<and>
     wk_stage k = Ready j a (handle_of D j (fl_wl (wk_flight k)) (fl_lease (wk_flight k))) \<and>
     fl_wl (wk_flight k) = sample_workload \<and> fl_wl (wk_flight k') = sample_workload \<and> store_wf (db (cw c)) \<and>
     row_for j ''wl'' (db (cw c)) \<and> has_row j StatusRunning (db (cw c)) \<and> executor_contract (fl_exec (wk_flight k))"
proof -
  obtain S and D :: "bootw sched_deps" and v c k k' where
    b: "boot busy_benv calm_host (default_flags calm_host) busy_bootw = (Running S 40000 D, v)"
    and run: "(crew_step busy_benv EI S D)\<^sup>*\<^sup>* (fresh_crew v) c"
    and c: "workers c = [k, k']" "wk_stage k = Claimed" "wk_stage k' = Claimed" "fl_wl (wk_flight k) = sample_workload"
      "fl_wl (wk_flight k') = sample_workload" "jobs (db (cw c)) = []"
    using busy_crew by blast
  have calm: "calm_statements busy_benv" by (simp add: calm_statements_def)
  let ?f = "wk_flight k"
  from first_ready [OF calm _ c(6), where D = D and ex = "fl_exec ?f" and wl = "fl_wl ?f" and lease = "fl_lease ?f"]
  obtain j a u where up: "advances 5 busy_benv D (fl_exec ?f) (fl_wl ?f) (fl_lease ?f) (Claimed, cw c) =
      (Ready j a (handle_of D j (fl_wl ?f) (fl_lease ?f)), u)"
    and r: "row_for j (wl_ID (fl_wl ?f)) (db u)" "has_row j StatusRunning (db u)" "safe (db (cw c)) (db u)" by auto
  have i: "0 < length (workers c)" "workers c ! 0 = k" using c by simp_all
  have "advances 5 busy_benv D (fl_exec ?f) (fl_wl ?f) (fl_lease ?f) (wk_stage (workers c ! 0), cw c) =
      (Ready j a (handle_of D j (fl_wl ?f) (fl_lease ?f)), u)" using up i c(2) by simp
  from worker_run [OF i(1) _ this] i(2) obtain m where m: "wk_flight m = ?f"
      "wk_stage m = Ready j a (handle_of D j (fl_wl ?f) (fl_lease ?f))"
    and more: "(crew_step busy_benv EI S D)\<^sup>*\<^sup>* c (c\<lparr>cw := u, workers := (workers c)[0 := m]\<rparr>)" by metis
  let ?c = "c\<lparr>cw := u, workers := (workers c)[0 := m]\<rparr>"
  have all: "(crew_step busy_benv EI S D)\<^sup>*\<^sup>* (fresh_crew v) ?c" using run more by (rule rtranclp_trans)
  have life: "(life_step busy_benv EI calm_host (default_flags calm_host))\<^sup>*\<^sup>* (S, D, fresh_crew v) (S, D, ?c)"
    by (rule crew_life [OF all])
  note ok = life_run_ok [OF b life]
  note busy_bootw_wf
  with ok have wf: "store_wf (db (cw ?c))" by (simp add: life_ok_def safe_def)
  have two: "workers ?c = [m, k']" using c by simp
  with ok obtain t where "Lookup (DepRegistry D) t = Some (fl_exec (wk_flight m))"
    and reg: "boot_registry busy_benv (Some (DepCloud D)) = Some (DepRegistry D)" by (auto simp: life_ok_def crew_ok_def)
  from wired_contract [OF reg this(1)] have "executor_contract (fl_exec (wk_flight m))" .
  with b all two c m r wf show ?thesis
    by (intro exI [of _ S] exI [of _ D] exI [of _ v] exI [of _ ?c] exI [of _ m] exI [of _ k'] exI [of _ j] exI [of _ a])
      (simp add: sample_workload_def)
qed

theorem takeover_loses_files_witness:
  "\<exists>S (D :: bootw sched_deps) v c j b h st.
     (crew_step busy_benv (calm_ienv (\<lambda>_. Reply 200 [] None) (\<lambda>_. None)) S D)\<^sup>*\<^sup>* (fresh_crew v) c \<and>
     wk_stage (workers c ! 1) = Ready j b h \<and> jh_workDir h \<notin> workdirs (cw c) \<and> has_row j st (db (cw c)) \<and>
     st \<in> {StatusSucceeded, StatusFailed}"
proof -
  let ?EI = "calm_ienv (\<lambda>_. Reply 200 [] None) (\<lambda>_. None)"
  obtain S and D :: "bootw sched_deps" and v c k k' j a where
    run: "(crew_step busy_benv ?EI S D)\<^sup>*\<^sup>* (fresh_crew v) c" and c: "workers c = [k, k']" "wk_stage k' = Claimed"
      "wk_stage k = Ready j a (handle_of D j (fl_wl (wk_flight k)) (fl_lease (wk_flight k)))"
      "fl_wl (wk_flight k') = sample_workload"
    and st: "store_wf (db (cw c))" "row_for j ''wl'' (db (cw c))" "has_row j StatusRunning (db (cw c))"
    and ex: "executor_contract (fl_exec (wk_flight k))"
    using busy_reissue by blast
  obtain x y where x: "x \<in> set (jobs (db (cw c)))" "jid x = j" "job_status x = StatusRunning"
    and y: "y \<in> set (jobs (db (cw c)))" "jid y = j" "workload_id y = ''wl''"
    using st by (auto simp: row_for_def has_row_def)
  have "inj_on jid (set (jobs (db (cw c))))" using st(1) by (simp add: store_wf_def distinct_map)
  with x y have "x = y" by (simp add: inj_on_def)
  with y have wid: "workload_id x = wl_ID (fl_wl (wk_flight (workers c ! 1)))" using c by (simp add: sample_workload_def)
  have calm: "calm_statements busy_benv" by (simp add: calm_statements_def)
  have ij: "0 < length (workers c)" "1 < length (workers c)" "(0::nat) \<noteq> 1" using c by simp_all
  have honest: "safe (db v) (db (snd (ex_Execute (fl_exec (wk_flight (workers c ! 0))) h v)))" for h v
    using executor_contract.honest [OF ex] c by simp
  have first: "wk_stage (workers c ! 0) = Ready (jid x) a (handle_of D j (fl_wl (wk_flight k)) (fl_lease (wk_flight k)))"
    "jh_workDir (handle_of D j (fl_wl (wk_flight k)) (fl_lease (wk_flight k))) = path_join [DepBaseTmp D, ''job-'' @ jid x]"
    using c x by (simp_all add: handle_of_def)
  have second: "wk_stage (workers c ! 1) = Claimed" using c by simp
  have "readable busy_benv x" by (simp add: readable_def)
  with takeover_loses_files [OF calm _ _ st(1) x(1,3) ij honest first second wid, of ?EI S]
  obtain c' b h' s where "(crew_step busy_benv ?EI S D)\<^sup>*\<^sup>* c c'" "wk_stage (workers c' ! 1) = Ready (jid x) b h'"
    "jh_workDir h' \<notin> workdirs (cw c')" "has_row (jid x) s (db (cw c'))" "s \<in> {StatusSucceeded, StatusFailed}"
    by auto
  with run rtranclp_trans [OF run] show ?thesis by blast
qed

text \<open>
  C7. Jobs of different workloads never touch each other's row: in every reachable state the job a
  goroutine works on is a row of its own workload, so two goroutines work on the same job only when
  the cloud granted the same workload twice.
\<close>

theorem jobs_isolated:
  assumes boot: "boot E H F w = (Running S0 port D0, v)" and wf: "store_wf (db w)"
    and run: "(life_step E EI H F)\<^sup>*\<^sup>* (S0, D0, fresh_crew v) (S, D, c)"
    and jobs: "k \<in> set (workers c)" "k' \<in> set (workers c)" "stage_job (wk_stage k) = Some j" "stage_job (wk_stage k') = Some j'"
  shows "row_for j (wl_ID (fl_wl (wk_flight k))) (db (cw c)) \<and>
    (j = j' \<longleftrightarrow> wl_ID (fl_wl (wk_flight k)) = wl_ID (fl_wl (wk_flight k')))"
proof -
  have "life_rows E (db w) (S0, D0, fresh_crew v)"
    using boot_life_ok [OF boot] by (simp add: life_rows_def rows_ok_def fresh_crew_def)
  from life_rows.run_keeps [OF run this] have ok: "life_ok E (db w) (S, D, c)" and rows: "rows_ok c"
    by (simp_all add: life_rows_def)
  have r: "row_for j (wl_ID (fl_wl (wk_flight k))) (db (cw c))" "row_for j' (wl_ID (fl_wl (wk_flight k'))) (db (cw c))"
    using rows jobs by (simp_all add: rows_ok_def)
  have "store_wf (db (cw c))" using ok wf by (simp add: life_ok_def safe_def)
  then have "distinct (map jid (jobs (db (cw c))))" "distinct (map workload_id (jobs (db (cw c))))"
    by (simp_all add: store_wf_def)
  then have "inj_on jid (set (jobs (db (cw c))))" "inj_on workload_id (set (jobs (db (cw c))))"
    by (simp_all add: distinct_map)
  with r show ?thesis unfolding row_for_def inj_on_def by metis
qed

theorem jobs_isolated_witness:
  "\<exists>S (D :: bootw sched_deps) v c k j. 
     (life_step busy_benv (calm_ienv (\<lambda>_. Reply 200 [] None) (\<lambda>_. None)) calm_host (default_flags calm_host))\<^sup>*\<^sup>*
       (S, D, fresh_crew v) (S, D, c) \<and> k \<in> set (workers c) \<and> stage_job (wk_stage k) = Some j \<and> row_for j ''wl'' (db (cw c))"
proof -
  let ?EI = "calm_ienv (\<lambda>_. Reply 200 [] None) (\<lambda>_. None)"
  obtain S and D :: "bootw sched_deps" and v c k k' j a where
    b: "boot busy_benv calm_host (default_flags calm_host) busy_bootw = (Running S 40000 D, v)"
    and run: "(crew_step busy_benv ?EI S D)\<^sup>*\<^sup>* (fresh_crew v) c" and c: "workers c = [k, k']"
      "wk_stage k = Ready j a (handle_of D j (fl_wl (wk_flight k)) (fl_lease (wk_flight k)))"
      "fl_wl (wk_flight k) = sample_workload"
    using busy_reissue by blast
  note wf = busy_bootw_wf
  have life: "(life_step busy_benv ?EI calm_host (default_flags calm_host))\<^sup>*\<^sup>* (S, D, fresh_crew v) (S, D, c)"
    by (rule crew_life [OF run])
  have k: "k \<in> set (workers c)" "stage_job (wk_stage k) = Some j" using c by simp_all
  from jobs_isolated [OF b wf life k(1) k(1) k(2) k(2)] have "row_for j ''wl'' (db (cw c))"
    using c by (simp add: sample_workload_def)
  with life k show ?thesis by blast
qed

end
