(* ===== verification/Outcomes.thy ===== *)
theory Outcomes
  imports Reissue
begin

text \<open>
  What the goroutines of the daemon may do to the record of what was achieved: the logs of requests
  and uploads, which only grow; the succeeded rows, to which one statement of one goroutine
  adds; and the states saved for a later attempt, to which only the clip executor adds, and
  only clips it has delivered.
\<close>

section \<open>Logs that every goroutine keeps\<close>

lemma same_logs: "sent v = sent w \<Longrightarrow> puts v = puts w \<Longrightarrow> grows w v"
  by (simp add: grows_def)

lemma send_report_grows: "grows w (send_report E D wl lease r w)"
  by (cases r) (simp_all add: send_report_def same_rest_grows [OF Complete_rest] same_rest_grows [OF Fail_rest]
      same_rest_grows [OF Surrender_rest])

text \<open>What the executors of the repository promise beyond their contract.\<close>

locale growing_executor = executor_contract ex for ex :: "('m media_scheme) executor" +
  assumes execute_grows: "grows w (snd (ex_Execute ex h w))"
begin

lemma advance_grows: "grows w (snd (advance E D ex wl lease st w))"
proof (cases st)
  case (Ready j a h)
  with execute_grows show ?thesis by (simp add: split_beta)
next
  case (Started j a)
  have "grows w (snd (NewJobHandle E D j wl lease w))"
    by (rule same_logs) (simp_all add: NewJobHandle_def Let_def split: option.split)
  with Started show ?thesis by (simp add: stage_worlds)
next
  case Absent
  have "grows w (w\<lparr>uuids := Suc (uuids w)\<rparr>)" by (rule same_logs) simp_all
  from grows_trans [OF this grows_daemon(1)] Absent show ?thesis by (simp add: stage_worlds)
qed (simp_all add: stage_worlds grows_daemon send_report_grows split: option.split)

end

lemma clip_Execute_grows:
  assumes run: "clip_Execute E cl h w = (r, v)"
  shows "grows w v"
proof (cases "check_payload E (jh_wl h)")
  case (Inl e)
  with run show ?thesis by (simp add: clip_Execute_def)
next
  case (Inr p)
  obtain rs w0 where "load_completed E h w = (rs, w0)" by fastforce
  from clip_Execute_result [OF run Inr this] show ?thesis by blast
qed

lemma extract_Execute_grows:
  assumes run: "extract_Execute E cl h w = (r, v)"
  shows "grows w v"
proof (cases "decodePayload E dec_video [] (wl_Payload (jh_wl h))")
  case (Inl e)
  with run show ?thesis by (simp add: extract_Execute_def)
next
  case (Inr u)
  obtain l w1 where l: "Locate E ''ffmpeg'' w = (l, w1)" by fastforce
  have g1: "grows w w1" using Locate_quiet [OF l] by (simp add: quiet_def grows_def)
  show ?thesis
  proof (cases "u \<noteq> [] \<and> (\<exists>ff. l = Inr ff)")
    case True
    then obtain ff where ff: "l = Inr ff" by blast
    let ?w2 = "snd (handle_AppendEvent E h ''log'' ''ffmpeg located''
                (Some (JObj [(''path'', JText (ToolPath ff)), (''version'', JText (ToolVersion ff))])) w1)"
    obtain a w3 where a: "download_and_extract E cl h (ToolPath ff) u (input_path h) (output_path h) ?w2 = (a, w3)"
      by fastforce
    have g2: "grows w ?w2" using g1 grows_daemon(1) grows_trans unfolding handle_AppendEvent_def by blast
    have g3: "grows w w3" using download_and_extract_result [OF a] g2 grows_trans by blast
    have "v = os_Remove E (output_path h) (os_Remove E (input_path h) w3)"
      using run Inr True l ff a by (auto simp: extract_Execute_def Let_def)
    then have "fs_only w3 v" using os_Remove_only fs_only_trans by blast
    from grows_trans [OF g3 fs_only_grows [OF this]] show ?thesis .
  next
    case False
    then have "v \<in> {w, w1}"
      using run Inr l by (cases l; cases "u = []") (auto simp: extract_Execute_def)
    with g1 show ?thesis by auto
  qed
qed

interpretation clip_logs: growing_executor "clip_executor E cl" for E cl
proof unfold_locales
  fix w h show "grows w (snd (ex_Execute (clip_executor E cl) h w))"
    by (cases "clip_Execute E cl h w") (simp add: clip_executor_def clip_Execute_grows)
qed

interpretation audio_logs: growing_executor "extract_executor E cl" for E cl
proof unfold_locales
  fix w h show "grows w (snd (ex_Execute (extract_executor E cl) h w))"
    by (cases "extract_Execute E cl h w") (simp add: extract_executor_def extract_Execute_grows)
qed

lemma wired_growing:
  assumes "boot_registry E cl = Some r" and "Lookup r t = Some ex"
  shows "growing_executor ex"
  using boot_lookup [OF assms] clip_logs.growing_executor_axioms audio_logs.growing_executor_axioms by blast

lemma loop_grows:
  fixes w :: "'m media_scheme"
  shows "grows w (snd (loop_step E D t w))"
proof -
  have claim: "grows w (snd (Claim E (DepCloud D) w))"
    by (rule same_rest_grows) (metis Claim_rest prod.collapse)
  have force: "grows w (snd (ForceRefresh E w))"
    by (rule same_rest_grows) (metis ForceRefresh_rest prod.collapse)
  have send: "grows w (snd (dispatch E D i resp w))" for i resp
  proof -
    obtain f v where d: "dispatch E D i resp w = (f, v)" by fastforce
    have rel: "grows u (release_slot i u)" for u :: "'m media_scheme"
      by (rule same_logs) (simp_all add: release_slot_def)
    consider "v = w" | wl lease m where "v = release_slot i (send_report E D wl lease (ReportSurrender m) w)"
      using d by (auto simp: dispatch_cases send_report_def split: option.splits if_splits)
    then show ?thesis unfolding d snd_conv by cases (simp, simp add: grows_trans [OF send_report_grows rel])
  qed
  show ?thesis
    by (cases "(E, D, t, w)" rule: loop_step.cases)
      (simp_all add: turn_worlds claim force send grows_daemon, simp_all add: grows_def act_on_error_def release_slot_def Invalidate_def)
qed

lemma worker_step_advance:
  "worker_step E D k w = (k', v) \<Longrightarrow>
   advance E D (fl_exec (wk_flight k)) (fl_wl (wk_flight k)) (fl_lease (wk_flight k)) (wk_stage k) w = (wk_stage k', v)"
  by (auto simp: worker_step_def split: prod.splits)

lemma crew_step_grows:
  assumes step: "crew_step E EI S D c c'" and ok: "life_ok E d0 (S, D, c)"
  shows "grows (cw c) (cw c')"
  using step
proof cases
  case (loop t f w)
  with loop_grows [of "cw c" E D "loop_at c"] show ?thesis by simp
next
  case (work i k w)
  let ?k = "workers c ! i"
  have crew: "crew_ok D (mlimits (NewManager zero_limits)) c"
    and reg: "boot_registry E (Some (DepCloud D)) = Some (DepRegistry D)" using ok by (simp_all add: life_ok_def)
  have "?k \<in> set (workers c)" using work(2) by simp
  with crew have "Lookup (DepRegistry D) (wl_Type (fl_wl (wk_flight ?k))) = Some (fl_exec (wk_flight ?k))"
    by (simp add: crew_ok_def)
  from growing_executor.advance_grows [OF wired_growing [OF reg this], where w = "cw c" and E = E and D = D and
      wl = "fl_wl (wk_flight ?k)" and lease = "fl_lease (wk_flight ?k)" and st = "wk_stage ?k"]
  show ?thesis using work(1) worker_step_advance [OF work(3)] by simp
next
  case (beat i r w)
  from same_rest_grows [OF Heartbeat_rest [OF beat(4)]] beat(1) show ?thesis by simp
next
  case (request rq res w)
  from ipc_serve_serves [OF request(2)] have "daemon.more w = daemon.more (cw c)"
    and within: "runs_within (cw c) w" by (simp_all add: serves_within_def)
  then have "puts w = puts (cw c)" by (cases w; cases "cw c") simp
  moreover have "prefix (sent (cw c)) (sent w)"
    using within by (auto simp: runs_within_def reports_within_def prefix_def)
  ultimately show ?thesis using request(1) by (simp add: grows_def)
qed (simp_all add: grows_def release_slot_def)


section \<open>Who ends a job well, and who saves a state\<close>

lemmas still_ids = mild_ids [OF still_mild]

text \<open>The job that a goroutine at this stage is about to mark as succeeded.\<close>

fun ending_well :: "stage \<Rightarrow> string set" where
  "ending_well (Reported jh c) = (if cl_status c = StatusSucceeded then {cl_job c} else {})"
| "ending_well _ = {}"

lemma advance_ids:
  assumes contract: "executor_contract ex" and ok: "closing_ok st"
  shows "succeeded_ids (db (snd (advance E D ex wl lease st w))) \<subseteq> succeeded_ids (db w) \<union> ending_well st"
proof (cases st)
  case (Ready j a h)
  with executor_contract.ends_no_job [OF contract] show ?thesis by (simp add: split_beta)
next
  case (Reported jh c)
  show ?thesis
  proof (cases "cl_status c = StatusSucceeded")
    case True
    with Reported UpdateStatus_ids [of E "cl_job c" StatusSucceeded "db w"] show ?thesis by simp
  next
    case False
    with ok Reported False have "still (db w) (snd (UpdateStatus E (cl_job c) (cl_status c) (db w)))"
      by (intro UpdateStatus_still) (simp_all add: closing_ok_def)
    from still_ids [OF this] Reported False show ?thesis by simp
  qed
next
  case Absent
  from still_ids [OF CreateJob_still, of E "new_job_input E (uuid E (uuids w)) wl lease" "db w"] Absent
  show ?thesis by (simp add: stage_worlds)
qed (simp_all add: stage_worlds still_ids [OF GetByWorkloadID_still] still_ids [OF UpdateLease_still]
    still_ids [OF AttemptCount_still] still_ids [OF UpdateStatus_still] still_ids [OF StartAttempt_still]
    still_ids [OF FinishAttempt_still] all_statuses_def split: option.split)

lemma loop_still: "still (db w) (db (snd (loop_step E D t w)))"
proof (cases "(E, D, t, w)" rule: loop_step.cases)
  case (11 E D i resp w)
  then show ?thesis by simp
next
  case (6 E D i w)
  then show ?thesis by (simp add: Invalidate_def)
qed (simp_all add: turn_worlds PendingRecovery_still UpdateStatus_still all_statuses_def)

text \<open>A goroutine that does not run its executor saves nothing.\<close>

lemma advance_saves:
  assumes "\<And>j a h. st \<noteq> Ready j a h"
  shows "saves (db (snd (advance E D ex wl lease st w))) \<subseteq> saves (db w)"
proof (cases st)
  case (Ready j a h)
  with assms [of j a h] show ?thesis by simp
next
  case Absent
  from still_saves [OF CreateJob_still, of E "new_job_input E (uuid E (uuids w)) wl lease" "db w"] Absent
  show ?thesis by (simp add: stage_worlds)
qed (simp_all add: stage_worlds still_saves [OF GetByWorkloadID_still] still_saves [OF UpdateLease_still]
    still_saves [OF AttemptCount_still] still_saves [OF StartAttempt_still] still_saves [OF FinishAttempt_still]
    UpdateStatus_saves split: option.split)

section \<open>The saved clips\<close>

text \<open>The clips that the saved states name, by job: what an executor may take for done.\<close>

definition saved_clips :: "'e menv_scheme \<Rightarrow> store \<Rightarrow> (string \<times> int) set" where
  "saved_clips E s = {(j, k). \<exists>x. (j, x) \<in> saves s \<and> k \<in> set (hint_list E (Some x))}"

lemma saved_clips_mono: "saves t \<subseteq> saves s \<Longrightarrow> saved_clips E t \<subseteq> saved_clips E s"
  unfolding saved_clips_def by blast

lemma GetJob_InrD:
  assumes "GetJob E i s = (Inr j, t)"
  shows "\<exists>r \<in> set (jobs s). jid r = i \<and> resumable_state j = resumable_state r"
proof -
  have calm: "db_fault E (stmts s) = None"
    using assms by (cases "db_fault E (stmts s)")
      (auto simp: GetJob_def query_job_def exec_stmt_fault split: if_splits)
  then obtain r where r: "find (\<lambda>r. jid r = i) (jobs s) = Some r" and j: "scan_job E r = Inr j"
    using assms by (auto simp: GetJob_def query_job_ok split: option.splits sum.splits if_splits)
  have "resumable_state j = resumable_state r" using j by (auto simp: scan_job_def Let_def split: option.splits)
  with find_Some_set [OF r] show ?thesis by auto
qed

lemma remembered_saved:
  assumes "k \<in> set (remembered E h w)"
  shows "(jh_id h, k) \<in> saved_clips E (db w)"
proof -
  obtain q t where q: "GetJob E (jh_id h) (db w) = (q, t)" by fastforce
  with assms obtain j where j: "q = Inr j"
    by (cases q) (auto simp: remembered_def load_completed_def LoadResumableState_def on_db_eq)
  with assms q obtain x where x: "resumable_state j = Some x" and k: "k \<in> set (hint_list E (Some x))"
    by (auto simp: remembered_def load_completed_def LoadResumableState_def on_db_eq hint_list_def
        split: option.splits if_splits)
  from GetJob_InrD [OF q [unfolded j]] x have "(jh_id h, x) \<in> saves (db w)" by (auto simp: saves_def)
  with k show ?thesis by (auto simp: saved_clips_def)
qed

text \<open>What one save adds, on JSON text that reads back.\<close>

lemma save_adds:
  assumes codec: "hint_codec E" and range: "\<forall>i \<in> set rs. int64 i"
  shows "saved_clips E (db (snd (SaveResumableState E h (resumable_json rs) w)))
    \<subseteq> saved_clips E (db w) \<union> {jh_id h} \<times> set rs"
proof -
  have "hint_list E (Some (json_text E (resumable_json rs))) = rs"
    using codec range dec_resumable_json [OF range] by (simp add: hint_list_def hint_codec_def)
  moreover have "saves (db (snd (SaveResumableState E h (resumable_json rs) w)))
      \<subseteq> insert (jh_id h, json_text E (resumable_json rs)) (saves (db w))"
    using UpdateResumableState_saves by (simp add: SaveResumableState_def)
  ultimately show ?thesis unfolding saved_clips_def by fastforce
qed

lemma clip_loop_saved:
  assumes codec: "hint_codec E"
  shows "clip_loop E cl h ff aspect enc n i rs specs w = (r, v) \<Longrightarrow> \<forall>k \<in> set rs. int64 k \<Longrightarrow>
    \<forall>s \<in> set specs. int64 (Index s) \<Longrightarrow>
    saved_clips E (db v) \<subseteq> saved_clips E (db w) \<union> {jh_id h} \<times>
      (set rs \<union> {k. \<exists>spec \<in> set specs. Index spec = k \<and> clip_delivered E cl h aspect spec v})"
proof (induction specs arbitrary: i rs w)
  case (Cons spec specs)
  obtain a w1 where a: "make_clip E cl h ff aspect enc spec w = (a, w1)" by fastforce
  note one = make_clip_result [OF a]
  have s1: "saved_clips E (db w1) = saved_clips E (db w)" using one by (simp add: saved_clips_def saves_def)
  let ?rs = "rs @ [Index spec]"
  let ?u = "push_progress E (clip_progress E i n) (snd (SaveResumableState E h (resumable_json ?rs) w1))"
  consider "v = w" | "clip_loop E cl h ff aspect enc n (Suc i) rs specs w = (r, v)" | "v = w1"
    | "a = None" "clip_loop E cl h ff aspect enc n (Suc i) ?rs specs ?u = (r, v)"
    using Cons.prems(1) a by (auto simp: Let_def split: option.splits if_splits)
  then show ?case
  proof cases
    case 2
    from Cons.IH [OF this] Cons.prems(2,3) show ?thesis by auto
  next
    case 4
    have range: "\<forall>k \<in> set ?rs. int64 k" using Cons.prems(2,3) by simp
    have "saved_clips E (db ?u) \<subseteq> saved_clips E (db w) \<union> {jh_id h} \<times> set ?rs"
      using save_adds [OF codec range, of h w1] s1 by (simp add: push_progress_def)
    moreover have "clip_delivered E cl h aspect spec v"
    proof -
      from clip_loop_result [OF 4(2)] have "grows ?u v" by (auto simp: loop_outcome_def)
      then have "grows w1 v" by (simp add: grows_def push_progress_def SaveResumableState_def on_db_eq)
      with one 4(1) clip_delivered_grows show ?thesis by blast
    qed
    moreover note Cons.IH [OF 4(2) range]
    ultimately show ?thesis using Cons.prems(3) by auto
  qed (use s1 in auto)
qed auto

lemma clip_Execute_saved:
  assumes codec: "hint_codec E" and run: "clip_Execute E cl h w = (r, v)" and pay: "check_payload E (jh_wl h) = Inr p"
  shows "saved_clips E (db v) \<subseteq> saved_clips E (db w) \<union> {jh_id h} \<times>
    {k. \<exists>spec \<in> set (ClipSpecs p). Index spec = k \<and> clip_delivered E cl h (TargetAspect p) spec v}"
proof -
  obtain w0 where start: "load_completed E h w = (remembered E h w, w0)"
    by (cases "load_completed E h w") (simp add: remembered_def)
  have same: "saved_clips E (db u) = saved_clips E (db w)" if "quiet w u" for u
    using that by (simp add: quiet_def saved_clips_def saves_def)
  from clip_Execute_cases [OF run pay start] show ?thesis
  proof (elim disjE exE conjE)
    assume "quiet w v"
    from same [OF this] show ?thesis by blast
  next
    fix u ff enc assume q: "quiet w u" and l: "clip_loop E cl h ff (TargetAspect p) enc (length (ClipSpecs p)) 0
      (remembered E h w) (ClipSpecs p) u = (r, v)"
    have "{jh_id h} \<times> set (remembered E h w) \<subseteq> saved_clips E (db w)" using remembered_saved by auto
    moreover have "\<forall>k \<in> set (remembered E h w). int64 k" using remembered_range by blast
    moreover have "\<forall>s \<in> set (ClipSpecs p). int64 (Index s)" using check_payload_indices [OF pay] by blast
    moreover note clip_loop_saved [OF codec l]
    ultimately show ?thesis unfolding same [OF q] by blast
  qed
qed

end
