(* ===== verification/Delivery.thy ===== *)
theory Delivery
  imports Outcomes
begin

text \<open>
  What a succeeded row of the job store means, in every interleaving of the daemon's goroutines:
  the outputs of its workload are in the cloud.
\<close>

section \<open>What the cloud has granted\<close>

text \<open>
  The requests \<open>h\<close> sent so far end in a claim, and the cloud answers it with \<open>resp\<close>: a 200 whose body
  decodes to it.
\<close>

definition claim_answer ::
  "'e env_scheme \<Rightarrow> cloud_client \<Rightarrow> request list \<Rightarrow> claim_response \<Rightarrow> bool" where
  "claim_answer E c h resp \<longleftrightarrow> h \<noteq> [] \<and> rq_method (last h) = ''GET'' \<and>
     rq_url (last h) = baseURL c @ ''/v1/workloads/claim'' \<and>
     (\<exists>b. server E h = Reply StatusOK b None \<and> unmarshal_data E (dec_claim E) zero_claim b = Inr resp)"

text \<open>The workload and the lease are those of such an answer, to a claim sent after the first \<open>n\<close> requests.\<close>

definition granted ::
  "'e env_scheme \<Rightarrow> 'x sched_deps \<Rightarrow> nat \<Rightarrow> workload \<Rightarrow> lease_dto \<Rightarrow> 'w netw_scheme \<Rightarrow> bool" where
  "granted E D n wl lease w \<longleftrightarrow> (\<exists>h resp. prefix h (sent w) \<and> n < length h \<and>
     claim_answer E (DepCloud D) h resp \<and> wl = workload_of (ClaimWorkload resp) \<and> lease = ClaimLease resp)"

lemma granted_grows: "granted E D n wl lease w \<Longrightarrow> grows w v \<Longrightarrow> granted E D n wl lease v"
  unfolding granted_def grows_def using prefix_order.trans by blast

text \<open>What a claim returns is what the cloud answered.\<close>

lemma Claim_answered:
  assumes "Claim E c w = (Inr resp, v)"
  shows "claim_answer E c (sent v) resp \<and> length (sent w) < length (sent v)"
proof -
  obtain b st where d: "doRaw E c ''GET'' ''/v1/workloads/claim'' None w = (Inr (b, st), v)"
    and ok: "st = StatusOK" "unmarshal_data E (dec_claim E) zero_claim b = Inr resp"
    using assms by (auto simp: Claim_def do_json_def split: prod.splits sum.splits if_splits)
  obtain tk w1 where tk: "BearerToken E w = (Inr tk, w1)" and
    r: "cloud_reply (server E (sent w1 @ [next_request E c ''GET'' ''/v1/workloads/claim'' None w1 tk])) = Inr (b, st)"
    and v: "v = after_send False (next_request E c ''GET'' ''/v1/workloads/claim'' None w1 tk) w1"
    using d by (auto simp: doRaw_eq changing_method_def split: prod.splits sum.splits if_splits)
  have "length (sent w) \<le> length (sent w1)" using BearerToken_rest [OF tk] by (auto simp: same_rest_def)
  with r v ok show ?thesis
    by (auto simp: claim_answer_def next_request_def cloud_request_def cloud_reply_def
        split: http_result.splits option.splits)
qed

lemma claim_or_answered:
  "claim_or E D rec slot other w = (Answered i (Inr resp), v) \<Longrightarrow> other \<noteq> Answered i (Inr resp) \<Longrightarrow>
   Claim E (DepCloud D) w = (Inr resp, v)"
  by (auto simp: claim_or_def split: prod.splits if_splits)

lemma loop_answered:
  assumes "loop_step E D t w = ((Answered i (Inr resp), f), v)"
  shows "Claim E (DepCloud D) w = (Inr resp, v)"
  using assms
  by (cases "(E, D, t, w)" rule: loop_step.cases)
    (auto simp: apfst_def map_prod_def list_stranded_def take_turn_def refresh_turn_def
      split: prod.splits sum.splits if_splits dest!: claim_or_answered)

text \<open>
  Every workload the loop has been answered with, and every one that a goroutine works on, was
  granted since the first \<open>n\<close> requests.
\<close>

definition grants_ok where
  "grants_ok E D n c \<longleftrightarrow> n \<le> length (sent (cw c)) \<and>
     (\<forall>i resp. loop_at c = Answered i (Inr resp) \<longrightarrow>
        granted E D n (workload_of (ClaimWorkload resp)) (ClaimLease resp) (cw c)) \<and>
     (\<forall>k \<in> set (workers c). granted E D n (fl_wl (wk_flight k)) (fl_lease (wk_flight k)) (cw c))"

lemma grants_keep:
  assumes ok: "grants_ok E D n c" and g: "grows (cw c) (cw c')"
    and loop: "\<And>i resp. loop_at c' = Answered i (Inr resp) \<Longrightarrow> loop_at c = loop_at c'"
    and ws: "\<And>k. k \<in> set (workers c') \<Longrightarrow> \<exists>k0 \<in> set (workers c). wk_flight k = wk_flight k0"
  shows "grants_ok E D n c'"
proof -
  have "length (sent (cw c)) \<le> length (sent (cw c'))" using g by (simp add: grows_def prefix_length_le)
  moreover have "granted E D n (fl_wl (wk_flight k)) (fl_lease (wk_flight k)) (cw c')" if "k \<in> set (workers c')" for k
    using ws [OF that] ok granted_grows [OF _ g, of E D n] unfolding grants_ok_def by auto
  moreover have "granted E D n (workload_of (ClaimWorkload resp)) (ClaimLease resp) (cw c')"
    if "loop_at c' = Answered i (Inr resp)" for i resp
    using loop [OF that] that ok granted_grows [OF _ g, of E D n] unfolding grants_ok_def by auto
  ultimately show ?thesis using ok by (auto simp: grants_ok_def)
qed

lemma updated_flight:
  assumes "i < length xs" and "wk_flight k = wk_flight (xs ! i)" and "m \<in> set (xs[i := k])"
  shows "\<exists>k0 \<in> set xs. wk_flight m = wk_flight k0"
proof (cases "m = k")
  case True
  with assms(1,2) show ?thesis by auto
next
  case False
  with assms(3) set_update_subset_insert [of xs i k] show ?thesis by blast
qed

lemma crew_step_grants:
  assumes step: "crew_step E EI S D c c'" and life: "life_ok E d0 (S, D, c)" and ok: "grants_ok E D n c"
  shows "grants_ok E D n c'"
proof -
  note g = crew_step_grows [OF step life]
  note keep = grants_keep [OF ok g]
  from step show ?thesis
  proof cases
    case (loop t f w)
    have gw: "grows (cw c) w" using g loop(1) by simp
    have "granted E D n (workload_of (ClaimWorkload resp)) (ClaimLease resp) w" if "t = Answered i (Inr resp)" for i resp
    proof -
      from loop_answered [OF loop(3) [unfolded that]] Claim_answered have
        "claim_answer E (DepCloud D) (sent w) resp \<and> length (sent (cw c)) < length (sent w)" by blast
      moreover have "n \<le> length (sent (cw c))" using ok by (simp add: grants_ok_def)
      ultimately show ?thesis unfolding granted_def by (intro exI [of _ "sent w"]) auto
    qed
    moreover have "granted E D n (fl_wl x) (fl_lease x) w" if f: "f = Some x" for x
    proof (cases "\<exists>i resp. loop_at c = Answered i (Inr resp)")
      case True
      then obtain i resp where at: "loop_at c = Answered i (Inr resp)" by blast
      with loop(3) f have "fl_wl x = workload_of (ClaimWorkload resp)" "fl_lease x = ClaimLease resp"
        by (auto simp: dispatch_cases split: option.splits if_splits)
      moreover have "granted E D n (workload_of (ClaimWorkload resp)) (ClaimLease resp) (cw c)"
        using ok at by (simp add: grants_ok_def)
      ultimately show ?thesis using granted_grows [OF _ gw, of E D n] by simp
    next
      case False
      then have "snd (fst (loop_step E D (loop_at c) (cw c))) = None"
        by (cases "(E, D, loop_at c, cw c)" rule: loop_step.cases) simp_all
      with loop(3) f show ?thesis by simp
    qed
    moreover have "granted E D n (fl_wl (wk_flight k)) (fl_lease (wk_flight k)) w" if "k \<in> set (workers c)" for k
      using ok that granted_grows [OF _ gw, of E D n] by (simp add: grants_ok_def)
    moreover have "n \<le> length (sent w)"
      using ok gw by (auto simp: grants_ok_def grows_def dest: prefix_length_le)
    ultimately show ?thesis
      unfolding loop(1) by (cases f) (auto simp: grants_ok_def new_worker_def)
  next
    case (work i k w)
    from updated_flight [OF work(2) worker_step_flight [OF work(3)]] show ?thesis
      by (intro keep) (use work(1) in auto)
  next
    case (leave i)
    then show ?thesis
      by (intro keep) (use leave(1) set_take_subset [of i "workers c"] set_drop_subset [of "Suc i" "workers c"] in auto)
  next
    case (beat i r w)
    have "wk_flight ((workers c ! i)\<lparr>wk_beating := r \<in> range Inr\<rparr>) = wk_flight (workers c ! i)" by simp
    from updated_flight [OF beat(2) this] show ?thesis by (intro keep) (use beat(1) in auto)
  qed (intro keep; auto)+
qed

section \<open>What a job has in the cloud\<close>

text \<open>A clip of a granted workload that a run of the job, under the lease of that grant, has delivered.\<close>

definition clip_up ::
  "'e menv_scheme \<Rightarrow> 'x sched_deps \<Rightarrow> nat \<Rightarrow> string \<Rightarrow> string \<Rightarrow> int \<Rightarrow> 'm media_scheme \<Rightarrow> bool" where
  "clip_up E D n j wid k w \<longleftrightarrow> (\<exists>wl lease p spec. wl_ID wl = wid \<and> granted E D n wl lease w \<and>
     check_payload E wl = Inr p \<and> spec \<in> set (ClipSpecs p) \<and> Index spec = k \<and>
     clip_delivered E (Some (DepCloud D)) (handle_of D j wl lease) (TargetAspect p) spec w)"

text \<open>
  The outputs of a workload: of a clip workload each clip, unless the tables \<open>s0\<close> already named it
  as done; of an audio workload the audio file.
\<close>

definition outputs_up ::
  "'e genv_scheme \<Rightarrow> 'x sched_deps \<Rightarrow> nat \<Rightarrow> store \<Rightarrow> string \<Rightarrow> workload \<Rightarrow> lease_dto \<Rightarrow> 'm media_scheme \<Rightarrow> bool" where
  "outputs_up E D n s0 j wl lease w \<longleftrightarrow>
     wl_Type wl = ''video:clip'' \<and> (\<exists>p. check_payload E wl = Inr p \<and> (\<forall>spec \<in> set (ClipSpecs p).
       (j, Index spec) \<in> saved_clips E s0 \<or> clip_up E D n j (wl_ID wl) (Index spec) w)) \<or>
     wl_Type wl = ''video:extract-audio'' \<and> audio_in_cloud E (DepCloud D) (handle_of D j wl lease) w"

lemma clip_up_grows: "clip_up E D n j wid k w \<Longrightarrow> grows w v \<Longrightarrow> clip_up E D n j wid k v"
  unfolding clip_up_def using clip_delivered_grows [where w = w and v = v] granted_grows [where w = w and v = v] by blast

lemma audio_in_cloud_grows: "audio_in_cloud E c h w \<Longrightarrow> grows w v \<Longrightarrow> audio_in_cloud E c h v"
  unfolding audio_in_cloud_def using delivered_grows [where w = w and v = v] by blast

lemma outputs_up_grows: "outputs_up E D n s0 j wl lease w \<Longrightarrow> grows w v \<Longrightarrow> outputs_up E D n s0 j wl lease v"
  unfolding outputs_up_def using clip_up_grows [where w = w and v = v] audio_in_cloud_grows [where w = w and v = v]
  by blast

lemma outputs_up_tables:
  "outputs_up E D n s0 j wl lease w \<Longrightarrow> saves s0 \<subseteq> saves s \<Longrightarrow> outputs_up E D n s j wl lease w"
  unfolding outputs_up_def using saved_clips_mono [of s0 s E] by blast

text \<open>The saved states tell the truth about everything saved since the tables were \<open>s0\<close>.\<close>

definition saved_up :: "'e menv_scheme \<Rightarrow> 'x sched_deps \<Rightarrow> nat \<Rightarrow> store \<Rightarrow> 'm media_scheme \<Rightarrow> bool" where
  "saved_up E D n s0 w \<longleftrightarrow> (\<forall>(j, k) \<in> saved_clips E (db w).
     (j, k) \<in> saved_clips E s0 \<or> (\<exists>wid. row_for j wid (db w) \<and> clip_up E D n j wid k w))"

lemma saved_upI:
  assumes old: "saved_up E D n s0 w" and g: "grows w v" and s: "safe (db w) (db v)"
    and new: "saved_clips E (db v) \<subseteq> saved_clips E (db w) \<union> {(j, k). \<exists>wid. row_for j wid (db v) \<and> clip_up E D n j wid k v}"
  shows "saved_up E D n s0 v"
proof -
  have "(j, k) \<in> saved_clips E s0 \<or> (\<exists>wid. row_for j wid (db v) \<and> clip_up E D n j wid k v)"
    if "(j, k) \<in> saved_clips E (db v)" for j k
  proof (cases "(j, k) \<in> saved_clips E (db w)")
    case True
    with old consider "(j, k) \<in> saved_clips E s0" | wid where "row_for j wid (db w)" "clip_up E D n j wid k w"
      unfolding saved_up_def by blast
    then show ?thesis using row_for_later [OF _ s] clip_up_grows [OF _ g] by cases blast+
  next
    case False
    with that new show ?thesis by blast
  qed
  then show ?thesis unfolding saved_up_def by blast
qed

lemma saved_up_keep: "saved_up E D n s0 w \<Longrightarrow> grows w v \<Longrightarrow> safe (db w) (db v) \<Longrightarrow> saves (db v) \<subseteq> saves (db w) \<Longrightarrow>
  saved_up E D n s0 v"
  by (rule saved_upI) (use saved_clips_mono in blast)+

section \<open>What an executor achieves\<close>

lemma row_for_unique:
  assumes "store_wf s" and "row_for j a s" and "row_for j b s"
  shows "a = b"
  using assms by (auto simp: row_for_def store_wf_def distinct_map dest: inj_onD)

lemma executed_up:
  assumes reg: "boot_registry E (Some (DepCloud D)) = Some r" and found: "Lookup r (wl_Type wl) = Some ex"
    and run: "ex_Execute ex (handle_of D j wl lease) u = (None, v)" and wf: "store_wf (db u)"
    and row: "row_for j (wl_ID wl) (db u)" and saved: "saved_up E D n s0 u" and grant: "granted E D n wl lease u"
  shows "outputs_up E D n s0 j wl lease v"
  using boot_lookup [OF reg found]
proof (elim disjE conjE)
  let ?h = "handle_of D j wl lease"
  assume t: "wl_Type wl = ''video:clip''" and ex: "ex = clip_executor E (Some (DepCloud D))"
  then have run': "clip_Execute E (Some (DepCloud D)) ?h u = (None, v)" using run by (simp add: clip_executor_def)
  note g = clip_Execute_grows [OF run']
  obtain p where p: "check_payload E wl = Inr p" and all: "\<forall>spec \<in> set (ClipSpecs p). Index spec \<in> set (remembered E ?h u) \<or>
      (\<exists>s \<in> set (ClipSpecs p). Index s = Index spec \<and> clip_delivered E (Some (DepCloud D)) ?h (TargetAspect p) s v)"
    using clip_run_in_cloud [OF run' refl] by (auto simp: clips_in_cloud_def handle_of_def)
  have "(j, Index spec) \<in> saved_clips E s0 \<or> clip_up E D n j (wl_ID wl) (Index spec) v" if "spec \<in> set (ClipSpecs p)" for spec
  proof (cases "Index spec \<in> set (remembered E ?h u)")
    case True
    from remembered_saved [OF this] have "(j, Index spec) \<in> saved_clips E (db u)" by (simp add: handle_of_def)
    with saved consider "(j, Index spec) \<in> saved_clips E s0"
      | wid where "row_for j wid (db u)" "clip_up E D n j wid (Index spec) u" unfolding saved_up_def by blast
    then show ?thesis using row_for_unique [OF wf row] clip_up_grows [OF _ g] by cases blast+
  next
    case False
    with all that p granted_grows [OF grant g] show ?thesis unfolding clip_up_def by blast
  qed
  with p t show ?thesis unfolding outputs_up_def by blast
next
  let ?h = "handle_of D j wl lease"
  assume t: "wl_Type wl = ''video:extract-audio''" and ex: "ex = extract_executor E (Some (DepCloud D))"
  with run have run': "extract_Execute E (Some (DepCloud D)) ?h u = (None, v)" by (simp add: extract_executor_def)
  obtain x where x: "decodePayload E dec_video [] (wl_Payload (jh_wl ?h)) = Inr x" using extract_decodes [OF run'] by blast
  from extract_Execute_result [OF run' x] x have "audio_in_cloud E (DepCloud D) ?h v" by (auto simp: audio_in_cloud_def)
  with t show ?thesis by (simp add: outputs_up_def)
qed

lemma executed_saved:
  assumes reg: "boot_registry E (Some (DepCloud D)) = Some r" and found: "Lookup r (wl_Type wl) = Some ex"
    and run: "ex_Execute ex (handle_of D j wl lease) u = (q, v)" and codec: "hint_codec E"
    and row: "row_for j (wl_ID wl) (db u)" and saved: "saved_up E D n s0 u" and grant: "granted E D n wl lease u"
  shows "saved_up E D n s0 v"
proof -
  let ?h = "handle_of D j wl lease"
  have g: "grows u v" using growing_executor.execute_grows [OF wired_growing [OF reg found], of u ?h] run by simp
  have s: "safe (db u) (db v)" using executor_contract.honest [OF wired_contract [OF reg found], of u ?h] run by simp
  from boot_lookup [OF reg found]
  have "saved_clips E (db v) \<subseteq> saved_clips E (db u) \<union> {(j, k). \<exists>wid. row_for j wid (db v) \<and> clip_up E D n j wid k v}"
  proof (elim disjE conjE)
    assume ex: "ex = clip_executor E (Some (DepCloud D))"
    then have run': "clip_Execute E (Some (DepCloud D)) ?h u = (q, v)" using run by (simp add: clip_executor_def)
    show ?thesis
    proof (cases "check_payload E (jh_wl ?h)")
      case (Inl e)
      with run' show ?thesis by (simp add: clip_Execute_def)
    next
      case (Inr p)
      have h: "jh_wl ?h = wl" "jh_id ?h = j" by (simp_all add: handle_of_def)
      have "row_for j (wl_ID wl) (db v)" by (rule row_for_later [OF row s])
      with clip_Execute_saved [OF codec run' Inr] Inr granted_grows [OF grant g] show ?thesis unfolding h clip_up_def by blast
    qed
  next
    assume ex: "ex = extract_executor E (Some (DepCloud D))"
    then have "extract_Execute E (Some (DepCloud D)) ?h u = (q, v)" using run by (simp add: extract_executor_def)
    from extract_Execute_jobs [OF this] show ?thesis by (simp add: saved_clips_def saves_def)
  qed
  from saved_upI [OF saved g s this] show ?thesis .
qed

section \<open>The invariant\<close>

text \<open>What is known of a goroutine at each stage, with the world as it is.\<close>

fun stage_up where
  "stage_up E D n s0 wl lease w (Ready j a h) = (h = handle_of D j wl lease)"
| "stage_up E D n s0 wl lease w (Ran j a h res) = (res = None \<longrightarrow> outputs_up E D n s0 j wl lease w)"
| "stage_up E D n s0 wl lease w (Reported jh cl) =
     (cl_status cl = StatusSucceeded \<longrightarrow> outputs_up E D n s0 (cl_job cl) wl lease w)"
| "stage_up E D n s0 wl lease w st = True"

lemma stage_up_grows: "stage_up E D n s0 wl lease w st \<Longrightarrow> grows w v \<Longrightarrow> stage_up E D n s0 wl lease v st"
  using outputs_up_grows [where w = w and v = v] by (cases st) auto

lemma advance_up:
  assumes run: "advance E D ex wl lease st w = (st', v)" and g: "grows w v"
    and reg: "boot_registry E (Some (DepCloud D)) = Some (DepRegistry D)"
    and found: "Lookup (DepRegistry D) (wl_Type wl) = Some ex" and wf: "store_wf (db w)"
    and row: "\<And>j. stage_job st = Some j \<Longrightarrow> row_for j (wl_ID wl) (db w)"
    and saved: "saved_up E D n s0 w" and grant: "granted E D n wl lease w" and old: "stage_up E D n s0 wl lease w st"
  shows "stage_up E D n s0 wl lease v st'"
proof (cases st)
  case (Ready j a h)
  let ?h = "handle_of D j wl lease"
  have h: "h = ?h" using old Ready by simp
  obtain res where x: "ex_Execute ex ?h w = (res, v)" and st': "st' = Ran j a ?h res"
    using run Ready h by (auto split: prod.splits)
  have "outputs_up E D n s0 j wl lease v" if "res = None"
    using executed_up [OF reg found _ wf _ saved grant] x that row Ready by auto
  with st' show ?thesis by simp
next
  case (Started j a)
  with run show ?thesis
    by (auto simp: make_handle_def NewJobHandle_def handle_of_def Let_def split: prod.splits sum.splits option.splits)
next
  case (Ran j a h res)
  have "outputs_up E D n s0 j wl lease v" if "res = None" using old Ran that outputs_up_grows [OF _ g] by simp
  with run Ran show ?thesis
    by (auto simp: result_closing_def failed_closing_def succeeded_closing_def split: option.splits)
qed (use run in \<open>auto simp: upsert_stage_defs run_stage_defs failed_closing_def Let_def
    split: prod.splits sum.splits option.splits if_splits\<close>)

definition deliveries where
  "deliveries E D n s0 c \<longleftrightarrow> saved_up E D n s0 (cw c) \<and>
     (\<forall>k \<in> set (workers c). stage_up E D n s0 (fl_wl (wk_flight k)) (fl_lease (wk_flight k)) (cw c) (wk_stage k)) \<and>
     (\<forall>j \<in> succeeded_ids (db (cw c)) - succeeded_ids s0. \<exists>wl lease. granted E D n wl lease (cw c) \<and>
        row_for j (wl_ID wl) (db (cw c)) \<and> outputs_up E D n s0 j wl lease (cw c))"

lemma deliveries_row:
  "deliveries E D n s0 c \<Longrightarrow> j \<in> succeeded_ids (db (cw c)) - succeeded_ids s0 \<Longrightarrow>
   \<exists>wl lease. granted E D n wl lease (cw c) \<and> row_for j (wl_ID wl) (db (cw c)) \<and> outputs_up E D n s0 j wl lease (cw c)"
  unfolding deliveries_def by blast

lemma deliveriesI:
  assumes del: "deliveries E D n s0 c" and g: "grows (cw c) (cw c')" and s: "safe (db (cw c)) (db (cw c'))"
    and saved: "saved_up E D n s0 (cw c')"
    and ws: "\<And>k. k \<in> set (workers c') \<Longrightarrow>
      stage_up E D n s0 (fl_wl (wk_flight k)) (fl_lease (wk_flight k)) (cw c') (wk_stage k)"
    and new: "\<And>j. j \<in> succeeded_ids (db (cw c')) - succeeded_ids (db (cw c)) \<Longrightarrow>
      \<exists>wl lease. granted E D n wl lease (cw c) \<and> row_for j (wl_ID wl) (db (cw c)) \<and> outputs_up E D n s0 j wl lease (cw c)"
  shows "deliveries E D n s0 c'"
proof -
  have "\<exists>wl lease. granted E D n wl lease (cw c') \<and> row_for j (wl_ID wl) (db (cw c')) \<and> outputs_up E D n s0 j wl lease (cw c')"
    if j: "j \<in> succeeded_ids (db (cw c')) - succeeded_ids s0" for j
  proof -
    have "\<exists>wl lease. granted E D n wl lease (cw c) \<and> row_for j (wl_ID wl) (db (cw c)) \<and> outputs_up E D n s0 j wl lease (cw c)"
      using j new deliveries_row [OF del] by blast
    then show ?thesis using row_for_later [OF _ s] outputs_up_grows [OF _ g] granted_grows [OF _ g] by blast
  qed
  with saved ws show ?thesis by (simp add: deliveries_def)
qed

text \<open>A step of anything but a job goroutine.\<close>

lemma deliveries_keep:
  assumes del: "deliveries E D n s0 c" and g: "grows (cw c) (cw c')" and m: "still (db (cw c)) (db (cw c'))"
    and ws: "\<And>k. k \<in> set (workers c') \<Longrightarrow>
      (\<exists>k0 \<in> set (workers c). wk_flight k = wk_flight k0 \<and> wk_stage k = wk_stage k0) \<or> wk_stage k = Claimed"
  shows "deliveries E D n s0 c'"
proof (rule deliveriesI [OF del g])
  show s: "safe (db (cw c)) (db (cw c'))" using m by (simp add: still_mild mild_safe)
  have "saved_up E D n s0 (cw c)" using del by (simp add: deliveries_def)
  from saved_up_keep [OF this g s still_saves [OF m]] show "saved_up E D n s0 (cw c')" .
  show "stage_up E D n s0 (fl_wl (wk_flight k)) (fl_lease (wk_flight k)) (cw c') (wk_stage k)"
    if "k \<in> set (workers c')" for k
    using ws [OF that]
  proof (elim disjE bexE conjE)
    fix k0 assume "k0 \<in> set (workers c)" and k: "wk_flight k = wk_flight k0" "wk_stage k = wk_stage k0"
    then have "stage_up E D n s0 (fl_wl (wk_flight k0)) (fl_lease (wk_flight k0)) (cw c) (wk_stage k0)"
      using del by (simp add: deliveries_def)
    from stage_up_grows [OF this g] show ?thesis by (simp add: k)
  qed simp
qed (use still_ids [OF m] in blast)

lemma deliveries_work:
  assumes del: "deliveries E D n s0 c" and g: "grows (cw c) (cw c')" and codec: "hint_codec E"
    and ok: "life_ok E d0 (S, D, c)" and wf: "store_wf (db (cw c))" and rows: "rows_ok c" and grants: "grants_ok E D n c"
    and i: "i < length (workers c)" and run: "worker_step E D (workers c ! i) (cw c) = (k, w)"
    and c': "c' = c\<lparr>cw := w, workers := (workers c)[i := k]\<rparr>"
  shows "deliveries E D n s0 c'"
proof -
  let ?k = "workers c ! i" and ?f = "wk_flight (workers c ! i)"
  have mem: "?k \<in> set (workers c)" using i by simp
  have crew: "crew_ok D (mlimits (NewManager zero_limits)) c"
    and reg: "boot_registry E (Some (DepCloud D)) = Some (DepRegistry D)" using ok by (simp_all add: life_ok_def)
  with mem have found: "Lookup (DepRegistry D) (wl_Type (fl_wl ?f)) = Some (fl_exec ?f)"
    and cl: "closing_ok (wk_stage ?k)" by (simp_all add: crew_ok_def)
  note contract = wired_contract [OF reg found] and adv = worker_step_advance [OF run]
  have gw: "grows (cw c) w" using g c' by simp
  have safe: "safe (db (cw c)) (db w)" using worker_step_within [OF reg found cl run] by blast
  have old: "stage_up E D n s0 (fl_wl ?f) (fl_lease ?f) (cw c) (wk_stage ?k)" and saved: "saved_up E D n s0 (cw c)"
    using del mem by (simp_all add: deliveries_def)
  have row: "row_for j (wl_ID (fl_wl ?f)) (db (cw c))" if "stage_job (wk_stage ?k) = Some j" for j
    using rows mem that by (simp add: rows_ok_def)
  have grant: "granted E D n (fl_wl ?f) (fl_lease ?f) (cw c)" using grants mem by (simp add: grants_ok_def)
  show ?thesis
  proof (rule deliveriesI [OF del g])
    show "safe (db (cw c)) (db (cw c'))" using safe c' by simp
    have "saved_up E D n s0 w"
    proof (cases "\<exists>j a h. wk_stage ?k = Ready j a h")
      case True
      then obtain j a h where st: "wk_stage ?k = Ready j a h" by blast
      then have "h = handle_of D j (fl_wl ?f) (fl_lease ?f)" using old by simp
      then obtain q where "ex_Execute (fl_exec ?f) (handle_of D j (fl_wl ?f) (fl_lease ?f)) (cw c) = (q, w)"
        using adv st by (auto split: prod.splits)
      from executed_saved [OF reg found this codec _ saved grant] row st show ?thesis by simp
    next
      case False
      then have "saves (db (snd (advance E D (fl_exec ?f) (fl_wl ?f) (fl_lease ?f) (wk_stage ?k) (cw c)))) \<subseteq> saves (db (cw c))"
        by (intro advance_saves) blast
      from saved_up_keep [OF saved gw safe] this adv show ?thesis by simp
    qed
    then show "saved_up E D n s0 (cw c')" using c' by simp
    from advance_up [OF adv gw reg found wf row saved grant old]
    have new: "stage_up E D n s0 (fl_wl ?f) (fl_lease ?f) w (wk_stage k)" .
    show "stage_up E D n s0 (fl_wl (wk_flight m)) (fl_lease (wk_flight m)) (cw c') (wk_stage m)" if "m \<in> set (workers c')" for m
    proof (cases "m = k")
      case True
      with new worker_step_flight [OF run] c' show ?thesis by simp
    next
      case False
      with that have "m \<in> set (workers c)" using set_update_subset_insert [of "workers c" i k] unfolding c' by auto
      with del have "stage_up E D n s0 (fl_wl (wk_flight m)) (fl_lease (wk_flight m)) (cw c) (wk_stage m)"
        by (simp add: deliveries_def)
      from stage_up_grows [OF this g] show ?thesis .
    qed
    fix j assume "j \<in> succeeded_ids (db (cw c')) - succeeded_ids (db (cw c))"
    moreover have "succeeded_ids (db (cw c')) \<subseteq> succeeded_ids (db (cw c)) \<union> ending_well (wk_stage ?k)"
      using advance_ids [OF contract cl, where E = E and D = D and wl = "fl_wl ?f" and lease = "fl_lease ?f" and w = "cw c"]
      unfolding adv c' by simp
    ultimately have "j \<in> ending_well (wk_stage ?k)" by blast
    then obtain jh a where st: "wk_stage ?k = Reported jh a" "cl_status a = StatusSucceeded" "cl_job a = j"
      by (cases "wk_stage ?k") (auto split: if_splits)
    with old row grant show "\<exists>wl lease. granted E D n wl lease (cw c) \<and> row_for j (wl_ID wl) (db (cw c)) \<and> outputs_up E D n s0 j wl lease (cw c)" by auto
  qed
qed

lemma crew_step_deliveries:
  assumes step: "crew_step E EI S D c c'" and ok: "life_ok E d0 (S, D, c)" and wf: "store_wf d0" and rows: "rows_ok c"
    and grants: "grants_ok E D n c" and codec: "hint_codec E" and del: "deliveries E D n s0 c"
  shows "deliveries E D n s0 c'"
proof -
  note g = crew_step_grows [OF step ok]
  have wfc: "store_wf (db (cw c))" using ok wf by (simp add: life_ok_def safe_def)
  note keep = deliveries_keep [OF del g]
  from step show ?thesis
  proof cases
    case (loop t f w)
    have "still (db (cw c)) (db (cw c'))" using loop_still [of "cw c" E D "loop_at c"] loop(1,3) by simp
    then show ?thesis by (rule keep) (use loop(1) in \<open>auto simp: new_worker_def\<close>)
  next
    case (work i k w)
    from deliveries_work [OF del g codec ok wfc rows grants work(2,3,1)] show ?thesis .
  next
    case (leave i)
    have "still (db (cw c)) (db (cw c'))" unfolding leave(1) by simp
    then show ?thesis
      by (rule keep) (use leave(1) set_take_subset [of i "workers c"] set_drop_subset [of "Suc i" "workers c"] in auto)
  next
    case (beat i r w)
    have "db w = db (cw c)" using same_rest_daemon(1) [OF Heartbeat_rest [OF beat(4)]] .
    then have "still (db (cw c)) (db (cw c'))" unfolding beat(1) by simp
    from keep [OF this] show ?thesis
      unfolding beat(1) using set_update_subset_insert [of "workers c" i "(workers c ! i)\<lparr>wk_beating := r \<in> range Inr\<rparr>"] beat(2)
      by fastforce
  next
    case (request rq res w)
    have "still (db (cw c)) (db (cw c'))"
      using ipc_serve_serves [OF request(2)] unfolding request(1) by (simp add: serves_defs still_def)
    then show ?thesis by (rule keep) (use request(1) in auto)
  next
    case return
    then have "still (db (cw c)) (db (cw c'))" by simp
    then show ?thesis by (rule keep) (use return(1) in auto)
  next
    case signal
    then have "still (db (cw c)) (db (cw c'))" by simp
    then show ?thesis by (rule keep) (use signal in auto)
  qed
qed

lemma crew_run_deliveries:
  assumes run: "(crew_step E EI S D)\<^sup>*\<^sup>* (fresh_crew v) c" and ok: "life_ok E d0 (S, D, fresh_crew v)"
    and wf: "store_wf d0" and codec: "hint_codec E"
  shows "life_ok E d0 (S, D, c) \<and> rows_ok c \<and> grants_ok E D (length (sent v)) c \<and> deliveries E D (length (sent v)) (db v) c"
  using run
proof (induction rule: rtranclp_induct)
  case base
  from ok show ?case by (auto simp: rows_ok_def deliveries_def saved_up_def fresh_crew_def grants_ok_def)
next
  case (step c c')
  then have "life_ok E d0 (S, D, c)" "rows_ok c" "grants_ok E D (length (sent v)) c"
    "deliveries E D (length (sent v)) (db v) c" by blast+
  with crew_step_ok [OF step(2)] crew_step_rows [OF step(2)] crew_step_grants [OF step(2)]
    crew_step_deliveries [OF step(2) _ wf _ _ codec]
  show ?case by blast
qed

section \<open>A daemon that does an audio workload\<close>

definition audio_claim :: claim_response where
  "audio_claim = \<lparr>ClaimWorkload = \<lparr>DtoID = ''wl'', DtoOrganizationID = ''org'', DtoType = ''video:extract-audio'',
     DtoVersion = 1, DtoPayload = Some [(''video_url'', JText ''http://v/m'')], DtoRequiredCapabilities = None,
     DtoRequiredExecutor = []\<rparr>, ClaimLease = sample_lease\<rparr>"

lemma audio_claim_workload: "workload_of (ClaimWorkload audio_claim) = audio_workload"
  by (simp add: audio_claim_def workload_of_def audio_workload_def sample_workload_def)

lemma calm_claim:
  assumes E: "calm_world E" and time: "time_of_text E ''F'' = Some far_time" and on: "has_session w"
  shows "\<exists>v. Claim E c w = (Inr audio_claim, v) \<and> tok v = tok w"
proof -
  have "unmarshal_data E (dec_claim E) zero_claim ''ok'' = Inr audio_claim"
    using E time by (simp add: calm_world_def calm_parse_def presigned_json_def unmarshal_data_def dec_claim_def
        dec_workload_def dec_lease_def dec_defs zero_claim_defs sample_lease_def audio_claim_def)
  with E on show ?thesis
    by (simp add: calm_world_def has_session_def Claim_def do_json_def fresh_doRaw Let_def cloud_reply_def http_status_defs
        after_send_def)
qed

lemma calm_benv_facts:
  "calm_audio calm_benv" "time_of_text calm_benv ''F'' = Some far_time" "probe_at calm_benv k = no_probes"
  "hint_codec calm_benv" "calm_statements calm_benv"
proof -
  have same: "json_text calm_benv = json_text calm_menv" "json_of_text calm_benv = json_of_text calm_menv"
    by (simp_all add: calm_benv_def genv.defs calm_genv_def menv.defs calm_menv_def denv.defs calm_denv_def env.defs calm_env_def)
  then show "hint_codec calm_benv" using calm_reads_back by (simp add: reads_back_def hint_codec_def)
  show "calm_audio calm_benv"
    using calm_genv_audio by (simp add: calm_audio_def calm_world_def calm_benv_def genv.defs)
qed (simp_all add: calm_statements_def calm_benv_def genv.defs calm_genv_def menv.defs calm_menv_def denv.defs calm_denv_def
    env.defs calm_env_def)

lemma calm_session: "fst (ks_Load calm_benv (ks busy_bootw)) = Inr fresh_bundle"
proof -
  have "time_of_text calm_benv ''Z'' = Some zero_time" "ks_fault calm_benv k = None" for k
    by (simp_all add: calm_benv_def genv.defs calm_genv_def menv.defs calm_menv_def denv.defs calm_denv_def env.defs calm_env_def)
  with calm_benv_facts(2) show ?thesis
    by (simp add: busy_bootw_def sample_bootw_def media.defs sample_media_def daemon.defs sample_daemon_def ks_Load_def
        fresh_item_def unmarshal_session_def bundle_of_json_def bundle_fields_def dec_defs zero_bundle_def fresh_bundle_def
        sample_bundle_def)
qed

lemma upsert_fresh:
  assumes calm: "calm_statements E" and empty: "jobs (db w) = []"
  shows "\<exists>j n v. upsertJobForWorkload E D wl lease w = (Some (j, n), v) \<and> tok v = tok w"
  using empty
  by (auto simp: upsertJobForWorkload_def on_db_eq GetByWorkloadID_ok [OF calm_statementsD [OF calm]] new_uuid_def
      CreateJob_def exec_stmt_ok [OF calm_statementsD [OF calm]] sql_defs Let_def)

lemma audio_run:
  "\<exists>S D v s r. boot calm_benv calm_host (default_flags calm_host) busy_bootw = (Running S 40000 D, v) \<and>
     (whole_step calm_benv D)\<^sup>*\<^sup>* (start_sched calm_benv v) s \<and>
     r \<in> set (jobs (db (sw s))) \<and> job_status r = StatusSucceeded"
proof -
  obtain S and D :: "bootw sched_deps" and v where run: "boot calm_benv calm_host (default_flags calm_host) busy_bootw
      = (Running S 40000 D, v)" using sample_reboot [of busy_bootw] by blast
  note up = boot_running [OF run] and E = calm_benv_facts
  have reg: "boot_registry calm_benv (Some (DepCloud D)) = Some (DepRegistry D)" using up by blast
  have found: "Lookup (DepRegistry D) ''video:extract-audio'' = Some (extract_executor calm_benv (Some (DepCloud D)))"
    using reg by (auto simp: boot_registry_def register_all_result NewRegistry_def Lookup_def boot_executors_def
        clip_executor_def extract_executor_def split: if_splits dest!: sym [of _ "DepRegistry D"])
  let ?ex = "extract_executor calm_benv (Some (DepCloud D)) :: bootw executor"
  have accepts: "ex_CanRun ?ex audio_workload" by (simp add: extract_executor_def audio_workload_def sample_workload_def)
  have type: "wl_Type audio_workload = ''video:extract-audio''" by (simp add: audio_workload_def)
  let ?s = "start_sched calm_benv v"
  obtain k where "ks_Load calm_benv (ks busy_bootw) = (Inr fresh_bundle, k)"
    using calm_session by (metis prod.collapse)
  then have on: "has_session (sw ?s)" using up by (auto simp: start_sched_def has_session_def)
  have new: "pool v = NewManager zero_limits" "\<not> paused_flag v" using up by blast+
  have free: "\<not> reserve_refused (pool (sw ?s)) no_probes" by (simp add: start_sched_def new)
  let ?w = "(sw ?s)\<lparr>pool := take_slot (pool (sw ?s)), probe_reads := Suc (probe_reads (sw ?s))\<rparr>"
  obtain w1 where claim: "Claim calm_benv (DepCloud D) ?w = (Inr audio_claim, w1)" and tok1: "tok w1 = tok ?w"
    using calm_claim [OF _ E(2), of ?w "DepCloud D"] E(1) on by (auto simp: calm_audio_def has_session_def)
  obtain x where tick: "sched_tick calm_benv D (sw ?s) = (Some x, w1)" and x: "fl_wl x = audio_workload" "fl_exec x = ?ex"
    using claimed_tick [OF E(3) free claim] found accepts type unfolding audio_claim_workload by auto
  let ?s1 = "?s\<lparr>sw := w1, flying := flying ?s @ started (Some x)\<rparr>"
  have one: "whole_step calm_benv D ?s ?s1" using tick new unfolding whole_step_def by (auto simp: start_sched_def)
  have "jobs (db busy_bootw) = []"
    by (simp add: busy_bootw_def sample_bootw_def media.defs sample_media_def daemon.defs sample_daemon_def empty_store_def)
  then have "jobs (db v) = []" using up RecoverOrphaned_empty by metis
  then have "jobs (db w1) = []" using sched_tick_db [OF tick] by (simp add: start_sched_def recoverPending_empty)
  from upsert_fresh [OF E(5) this] obtain j n w2 where
    j: "upsertJobForWorkload calm_benv D audio_workload (fl_lease x) w1 = (Some (j, n), w2)" and tok2: "tok w2 = tok w1" by blast
  have "has_session w2" using on tok1 tok2 by (simp add: has_session_def)
  from calm_audio_run [OF E(1) j this, of "DepCloud D"]
  have row: "has_row j StatusSucceeded (db (land calm_benv D x w1))" by (simp add: land_def x release_slot_def)
  let ?s2 = "?s1\<lparr>sw := land calm_benv D x w1, flying := []\<rparr>"
  have "landing calm_benv D ?s1 ?s2" unfolding landing_def by (intro exI [of _ 0]) (simp add: start_sched_def)
  then have "whole_step calm_benv D ?s1 ?s2" by (simp add: whole_step_def)
  with one have "(whole_step calm_benv D)\<^sup>*\<^sup>* ?s ?s2" by (meson converse_rtranclp_into_rtranclp r_into_rtranclp)
  moreover obtain r where "r \<in> set (jobs (db (sw ?s2)))" "job_status r = StatusSucceeded"
    using row by (auto simp: has_row_def)
  ultimately show ?thesis using run by blast
qed

section \<open>The property\<close>

text \<open>
  C1. A succeeded row is a delivered workload.  In every interleaving of the daemon's goroutines
  since its boot, with any faults of the database, the cloud, the disk and ffmpeg, and any requests
  to the control server: when a row is succeeded that was not before the boot, then the cloud has
  answered a claim, sent since the boot, with a workload of the row's identifier, and the outputs of
  exactly that workload, under that lease, are in the cloud.  For an audio workload that is the audio
  file; for a clip workload every clip its payload names, each uploaded and recorded by a run of the
  row under a grant of the same identifier since the boot, unless the saved state of the row named
  its index as done before the boot.
\<close>

theorem succeeded_rows_delivered:
  assumes boot: "boot E H F w = (Running S port D, v)" and wf: "store_wf (db w)" and codec: "hint_codec E"
    and run: "(crew_step E EI S D)\<^sup>*\<^sup>* (fresh_crew v) c"
    and row: "r \<in> set (jobs (db (cw c)))" "job_status r = StatusSucceeded"
    and new: "\<not> has_row (jid r) StatusSucceeded (db w)"
  shows "\<exists>wl lease. wl_ID wl = workload_id r \<and> granted E D (length (sent v)) wl lease (cw c) \<and>
    outputs_up E D (length (sent v)) (db w) (jid r) wl lease (cw c)"
proof -
  from crew_run_deliveries [OF run boot_life_ok [OF boot] wf codec] have ok: "life_ok E (db w) (S, D, c)"
    and del: "deliveries E D (length (sent v)) (db v) c" by blast+
  have wfc: "store_wf (db (cw c))" using ok wf by (simp add: life_ok_def safe_def)
  have "db v = snd (RecoverOrphaned E ReasonOrphanedAfterRestart (db w))" using boot_running [OF boot] by blast
  then have still: "still (db w) (db v)" using RecoverOrphaned_still by simp
  have "jid r \<notin> succeeded_ids (db w)" using new by (auto simp: succeeded_ids_def has_row_def)
  then have "jid r \<in> succeeded_ids (db (cw c)) - succeeded_ids (db v)"
    using row still_ids [OF still] by (auto simp: succeeded_ids_def)
  from deliveries_row [OF del this] obtain wl lease where grant: "granted E D (length (sent v)) wl lease (cw c)" and f: "row_for (jid r) (wl_ID wl) (db (cw c))"
    and up: "outputs_up E D (length (sent v)) (db v) (jid r) wl lease (cw c)" by blast
  have "row_for (jid r) (workload_id r) (db (cw c))" using row by (auto simp: row_for_def)
  from row_for_unique [OF wfc f this] outputs_up_tables [OF up still_saves [OF still]] grant show ?thesis by blast
qed

theorem succeeded_rows_delivered_witness:
  "\<exists>S D v c r wl lease. boot calm_benv calm_host (default_flags calm_host) busy_bootw = (Running S 40000 D, v) \<and>
     (crew_step calm_benv (calm_ienv (\<lambda>_. Reply 200 [] None) (\<lambda>_. None)) S D)\<^sup>*\<^sup>* (fresh_crew v) c \<and>
     r \<in> set (jobs (db (cw c))) \<and> granted calm_benv D (length (sent v)) wl lease (cw c) \<and>
     outputs_up calm_benv D (length (sent v)) empty_store (jid r) wl lease (cw c)"
proof -
  let ?EI = "calm_ienv (\<lambda>_. Reply 200 [] None) (\<lambda>_. None)"
  obtain S and D :: "bootw sched_deps" and v s r where
    b: "boot calm_benv calm_host (default_flags calm_host) busy_bootw = (Running S 40000 D, v)"
    and run: "(whole_step calm_benv D)\<^sup>*\<^sup>* (start_sched calm_benv v) s"
    and r: "r \<in> set (jobs (db (sw s)))" "job_status r = StatusSucceeded" using audio_run by blast
  obtain cs where c: "(crew_step calm_benv ?EI S D)\<^sup>*\<^sup>* (fresh_crew v) (crew_of s cs)" using whole_runs [OF run] by blast
  have empty: "db busy_bootw = empty_store"
    by (simp add: busy_bootw_def sample_bootw_def media.defs sample_media_def daemon.defs sample_daemon_def)
  have rc: "r \<in> set (jobs (db (cw (crew_of s cs))))" using r by (simp add: crew_of_def)
  have "store_wf (db busy_bootw)" "\<not> has_row (jid r) StatusSucceeded (db busy_bootw)"
    using store_wf_empty by (simp_all add: empty has_row_def empty_store_def)
  from succeeded_rows_delivered [OF b this(1) calm_benv_facts(4) c rc r(2) this(2)] b c rc show ?thesis
    unfolding empty by blast
qed

end
