(* ===== verification/Spec2Isabelle.thy ===== *)
theory Spec2Isabelle
  imports Logging LogOrder LogStream Delivery
begin

text \<open>
  Verification of \<open>engine-toold\<close>, the daemon that claims media workloads from a cloud, runs them
  with ffmpeg and uploads what they give.

  \<^bold>\<open>The program.\<close>  \<open>cmd/engine-toold/main.go\<close> resolves a data directory, opens a job database, fails
  the jobs that a killed daemon left running, loads the session from the keystore, registers
  two executors and starts the scheduler and a control server on the loopback interface.  The
  scheduler (\<open>internal/runtime/scheduler.go\<close>) polls: it reserves a slot, claims a workload with a
  lease, reconciles it with the job table, and runs it on an executor in a goroutine with a
  heartbeat beside it; the executor uploads outputs through its job handle; the scheduler reports
  the end to the cloud and to the table.  Requests carry a token that the token source
  (\<open>internal/auth/source.go\<close>) refreshes and rotates.  The control server (\<open>internal/ipc\<close>) lists and
  cancels jobs, pauses, pairs, unpairs and streams the log from a hub (\<open>internal/observability\<close>).

  \<^bold>\<open>How code is modelled.\<close>  A struct is a record, a tagged choice a datatype, a function with an
  \<open>error\<close> result a function into \<open>gerror + 'a\<close>, and a method that changes state returns the new
  state as well.  The state grows along the import order as record extensions: \<open>netw\<close> (requests
  sent, clock and uuid reads), \<open>authw\<close> (keystore, token source), \<open>daemon\<close> (job database, slot pool,
  flags, work directories, files), \<open>media\<close> (processes, downloads, uploads, progress), \<open>bootw\<close> (what a
  process start adds).  What the code calls and this repository does not contain is a field of an
  environment record of the same shape (\<open>env\<close>, \<open>denv\<close>, \<open>menv\<close>, \<open>genv\<close>, \<open>benv\<close>, \<open>ienv\<close>): the cloud is
  a function of the requests so far, every statement of the database, every step on the file
  system and every process may fail at any point of time, and ffmpeg may do anything to files.
  Nothing is assumed of these fields except where a property names it as a hypothesis.

  \<^bold>\<open>Theories.\<close>
  \<^item> Prelude, GoLib, GoText, GoPath: collections, lists, invariants of step relations; errors with
    wrapping, instants, durations, \<open>strings\<close>, \<open>path/filepath\<close>, \<open>strconv\<close>, bytes and hexadecimal text.
  \<^item> Store, Recovery: \<open>internal/jobqueue\<close> with its schema; the transaction of \<open>failActive\<close>; every
    sequence of store operations keeps the tables well-formed and the history append-only.
  \<^item> Resources: \<open>internal/runtime/resources\<close>; slots, gates, and callers that interleave.
  \<^item> LogHub, Logging: \<open>internal/observability\<close>; ring, subscriber channels, and the interleavings of
    publishers, subscribers and cancels as a step relation; the attributes a log line carries.
  \<^item> LogOrder: the order in which a subscriber sees the events when no publish overlaps another or a replay.
  \<^item> LogStream: the loop of \<open>handlers_logs.go\<close> over the hub, one handler per subscriber, and a parser
    of event streams, as the HTML standard has it, for its reader.
  \<^item> Net, Auth, Tokens: JSON decoding; \<open>internal/auth\<close>: keystore, pairing client, token source.
  \<^item> Cloud: \<open>internal/sync\<close>: every call of the cloud client, and the lease heartbeat as a step relation.
  \<^item> Registry, Scheduler, SchedTick, SchedRun: \<open>internal/runtime/registry\<close> and \<open>scheduler.go\<close>, with a
    tick of the scheduler and the run of a job as functions.
  \<^item> Media, Outputs: \<open>internal/runtime/jobhandle.go\<close>, \<open>internal/upload\<close>, files and processes.
  \<^item> Tools, ClipVideo, ClipProps, ClipResume: \<open>internal/tools\<close> and \<open>internal/executors/clipvideo\<close>.
  \<^item> NetGuard, ExtractAudio: \<open>internal/executors/extractaudio\<close> and its URL guard.
  \<^item> ExecContract, Daemon, Wired: the interface between scheduler and executors, its proof for both
    executors, and the scheduler with the executors that are really registered.
  \<^item> Ipc, IpcProps: \<open>internal/ipc\<close>.
  \<^item> Boot, BootProps: \<open>internal/storage/paths.go\<close>, \<open>internal/runtime/daemon.go\<close> and \<open>main.go\<close>.
  \<^item> Workers, Poller: the same code of \<open>scheduler.go\<close> one database statement, request or call at a time:
    \<open>advance\<close> for the goroutine of a job (\<open>upsertJobForWorkload\<close>, \<open>runOne\<close>), \<open>loop_step\<close> for that of \<open>Run\<close>.
  \<^item> Lifecycle, LifeProps: the whole daemon as the step relations \<open>crew_step\<close> (the loop, the jobs, their
    heartbeats, requests to the control server and signals, in any order) and \<open>life_step\<close> (also
    crashes, each followed by a boot); its invariant, its reports, the end of its jobs, and the
    scheduler in whole pieces as one of its schedules.
  \<^item> Reissue: the rows that the goroutines work on, and what a workload given out again does to them.
  \<^item> Statuses, Outcomes, Delivery: which operations of the store end a job well or save a state, and
    which goroutine calls them; what the cloud has granted (\<open>granted\<close>: the answers to the claims that
    were sent); what a succeeded row means in every run of the daemon.

  \<^bold>\<open>Interfaces.\<close>  The locales are \<open>step_invariant\<close> and \<open>step_monotone\<close> (Prelude; the runs of the store,
  of the pool, of the hub, of the heartbeat and of the whole daemon), \<open>session_store\<close> (what saving, loading and clearing a
  session promise; both keystore backends), \<open>slot_pool\<close> (reserve and release; the resource manager),
  \<open>newest_log\<close> (a bounded log that keeps the newest entries; the ring and the subscriber channel),
  \<open>dispatch_table\<close> (the registry) and \<open>executor_contract\<close> (an executor leaves the slots alone, keeps
  the tables well-formed, ends no job and sends no terminal report of its own; both executors), which
  \<open>growing_executor\<close> extends (the logs of requests and uploads only grow; both executors).

  \<^bold>\<open>What is shown.\<close>  From the job table to the cloud: in every interleaving of the daemon's goroutines
  a row that becomes succeeded has the outputs of its workload, as the cloud granted it, in the cloud,
  with the bytes and checksums that were recorded.  Of the daemon, in every interleaving of its
  goroutines and over crashes and restarts: the tables stay well-formed and lose nothing; no slot
  leaks and at most two are out; the cloud gets at most one terminal report per claim; jobs of
  different workloads work on different rows; and the jobs in flight end in at most 26 steps.  A daemon whose files, random source,
  database and listener work comes up, ready, whatever else is broken.  Of the tables: bulk
  failure is atomic, a cancel touches live jobs only, every sequence of operations keeps ids
  unique and history append-only.  Of identities: a token that is handed out is the one in the
  keystore, requests carry it and their idempotency key, pairing and unpairing say what happened,
  the control server does nothing without its token, and that token and the installation id
  outlive the process; the command line and the control server pair by the same exchange, and only
  the server looks for a session first.  Of the log: a subscriber sees the newest events in the order
  of the history as long as no publish overlaps another or a replay (else the order is lost); a
  reader of the stream gets the events its handler took from the hub, in order, none twice,
  whatever write fails.  Of the executors: what a resumed attempt skips was delivered, the first
  hop of a guarded download is public.  Where the code does not do what it means to,
  the theorem shows the run that goes wrong: a publisher can panic, an accepted cancel is
  overwritten, a job loses its files to an earlier run of the same workload, a redirect escapes the guard, an unpaired identity comes back, a revoked device
  keeps polling.

  \<^bold>\<open>The driver.\<close>  The schema declares \<open>lease_expires_at\<close> as text, and \<open>recovery_test.go\<close> says that the
  driver of this repository does not scan a populated one into \<open>sql.NullTime\<close>.  What a driver scans is
  a parameter (\<open>db_scan_time\<close>); that driver is \<open>lease_unscannable\<close>.  The properties of rows that are
  read back do not fix it: they say what happens when the row is \<open>readable\<close> (no lease expiry, or one
  that scans) and what when it is not.  With that driver a row with a lease is never readable:
  a workload given out again is surrendered with \<open>store_error\<close>, after a restart and while its job
  still runs, and an attempt reads nothing of what earlier ones saved.

  \<^bold>\<open>Bounds.\<close>  \<open>http_follow\<close> follows at most 10 redirects, as net/http does; the ring holds 256 events
  and a channel 64, as in the source; \<open>atoiOr\<close> and the pool counter are words of 64 and 32 bits, the
  slot bounds hold below \<open>2 ^ 31\<close>.  \<open>advances\<close> and \<open>loops\<close> take a number of steps: 12 take any job goroutine
  from its claim to its return, 7 a tick from its start to its end.  No definition runs out of
  fuel: each is total.

  \<^bold>\<open>Simplifications.\<close>  A handler of the control server, a call of the token source or of the cloud client,
  a database statement or transaction, and the call of an executor are one step each; what runs beside
  them is the step relation around them; an executor therefore does not interleave with the other
  goroutines, except in the properties whose executor is arbitrary and may do what they would.
  \<open>os.MkdirAll\<close> of a work directory and \<open>os.RemoveAll\<close> of its tree do all or nothing.  A \<open>COMMIT\<close> that
  fails has rolled the transaction back.  Which backend \<open>NewKeystore\<close> chose is part of the state that
  a boot starts from.  The percentages of the resource probes are exact rationals, never NaN.  The progress pump
  of a job is a function of the events it gets, not interleaved with the executor.  Paths are Unix
  paths; a request path has no percent escapes; a redirect of the mux keeps no query.  Error
  texts of net/http, os and the database driver are opaque.  A \<open>float64\<close> is an exact value
  that a parameter has rounded, or not finite, with a single zero; no fused operations.  The callback of a lost lease only logs,
  as in \<open>main\<close>.  A saved state that is valid JSON of another shape than any version writes decodes to
  nothing, where \<open>encoding/json\<close> may fill in a part.

  A crash leaves a database on which the operations in flight have been carried out up to any point;
  sockets, processes and goroutines of the dead process are gone.

  \<^bold>\<open>Not modelled.\<close>  The text of the log lines on standard output, the parsing of the command
  line (its result is a record), the graceful shutdown of the HTTP server, the Tauri application,
  scripts and workflows.  The data race on the
  cache of the tool manager is outside a model of sequential steps.
\<close>

end
